(* ===== verification/Prelude.thy ===== *)
theory Prelude
  imports
    Complex_Main
    "HOL-Library.Word"
    "HOL-Library.Char_ord"
    "HOL-Library.List_Lexorder"
    "HOL-Library.Option_ord"
    "HOL-Library.Product_Lexorder"
begin

text \<open>
  What the components share: the widths of Rust's machine integers, the operations of
  \<open>Vec\<close>, \<open>Option\<close> and \<open>str\<close> that the crate calls, and the general lemmas about them.
  Unsigned integers are words, so \<open>+=\<close> wraps as a release build of the crate does;
  signed 64-bit integers are \<^typ>\<open>int\<close> with the wrap-around written out by \<open>wrap_i64\<close>;
  \<open>usize\<close> indexes and lengths are \<^typ>\<open>nat\<close>.  A \<open>String\<close> is the list of its UTF-8
  bytes.  Instants (\<open>chrono::DateTime<Utc>\<close>) are nanoseconds since the epoch.
\<close>

named_theorems frame_simps "fields an operation leaves alone"
named_theorems store_defs "operations of the bounded stores"
named_theorems stage_defs "stages of the connector event handler"

type_synonym u8 = "8 word"
type_synonym u16 = "16 word"
type_synonym u32 = "32 word"
type_synonym u64 = "64 word"
type_synonym i32 = int
type_synonym i64 = int
type_synonym usize = nat
type_synonym date_time = int

section \<open>Integers\<close>

definition wrap_i64 :: "int \<Rightarrow> i64" where
  "wrap_i64 x = (x + 2 ^ 63) mod 2 ^ 64 - 2 ^ 63"

lemma wrap_i64_id: "- (2 ^ 63) \<le> x \<Longrightarrow> x < 2 ^ 63 \<Longrightarrow> wrap_i64 x = x"
  by (simp add: wrap_i64_def)

lemma wrap_i64_bounds: "- (2 ^ 63) \<le> wrap_i64 x \<and> wrap_i64 x < 2 ^ 63"
proof -
  have "0 \<le> (x + 2 ^ 63) mod 2 ^ 64" and "(x + 2 ^ 63) mod 2 ^ 64 < 2 ^ 64"
    by (rule pos_mod_sign, simp, rule pos_mod_bound, simp)
  then show ?thesis by (simp add: wrap_i64_def)
qed

section \<open>Vectors and options\<close>

definition vec_get :: "'a list \<Rightarrow> usize \<Rightarrow> 'a option" where
  "vec_get xs i = (if i < length xs then Some (xs ! i) else None)"

definition vec_slot :: "'a option list \<Rightarrow> usize \<Rightarrow> 'a option" where
  "vec_slot xs i = (case vec_get xs i of None \<Rightarrow> None | Some slot \<Rightarrow> slot)"

fun update_first :: "('a \<Rightarrow> bool) \<Rightarrow> ('a \<Rightarrow> 'a) \<Rightarrow> 'a list \<Rightarrow> 'a list" where
  "update_first P f [] = []"
| "update_first P f (x # xs) = (if P x then f x # xs else x # update_first P f xs)"

fun remove_first :: "('a \<Rightarrow> bool) \<Rightarrow> 'a list \<Rightarrow> 'a list" where
  "remove_first P [] = []"
| "remove_first P (x # xs) = (if P x then xs else x # remove_first P xs)"

text \<open>\<open>Iterator::max_by_key\<close> returns the last of several maxima.\<close>

fun max_by_key :: "('a \<Rightarrow> 'k::linorder) \<Rightarrow> 'a list \<Rightarrow> 'a option" where
  "max_by_key f [] = None"
| "max_by_key f (x # xs) =
     (case max_by_key f xs of None \<Rightarrow> Some x | Some y \<Rightarrow> if f y < f x then Some x else Some y)"

definition opt_or :: "'a option \<Rightarrow> 'a option \<Rightarrow> 'a option" where
  "opt_or a b = (case a of None \<Rightarrow> b | Some _ \<Rightarrow> a)"

definition opt_zip :: "'a option \<Rightarrow> 'b option \<Rightarrow> ('a \<times> 'b) option" where
  "opt_zip a b = (case (a, b) of (Some x, Some y) \<Rightarrow> Some (x, y) | _ \<Rightarrow> None)"

definition opt_filter :: "('a \<Rightarrow> bool) \<Rightarrow> 'a option \<Rightarrow> 'a option" where
  "opt_filter P a = (case a of None \<Rightarrow> None | Some x \<Rightarrow> if P x then a else None)"

definition is_none_or :: "'a option \<Rightarrow> ('a \<Rightarrow> bool) \<Rightarrow> bool" where
  "is_none_or a P = (case a of None \<Rightarrow> True | Some x \<Rightarrow> P x)"

definition is_some_and :: "'a option \<Rightarrow> ('a \<Rightarrow> bool) \<Rightarrow> bool" where
  "is_some_and a P = (case a of None \<Rightarrow> False | Some x \<Rightarrow> P x)"

definition unwrap_or :: "'a option \<Rightarrow> 'a \<Rightarrow> 'a" where
  "unwrap_or a d = (case a of None \<Rightarrow> d | Some x \<Rightarrow> x)"

lemma option_op_simps [simp]:
  "opt_or None b = b" "opt_or (Some x) b = Some x" "opt_or a None = a"
  "opt_zip None z = None" "opt_zip w None = None" "opt_zip (Some x) (Some y) = Some (x, y)"
  "opt_filter P None = None" "opt_filter P (Some x) = (if P x then Some x else None)"
  "is_none_or None P = True" "is_none_or (Some x) P = P x"
  "is_some_and None P = False" "is_some_and (Some x) P = P x"
  "unwrap_or None d = d" "unwrap_or (Some x) d = x"
  by (simp_all add: opt_or_def opt_zip_def opt_filter_def is_none_or_def is_some_and_def
      unwrap_or_def split: option.splits)

lemma vec_get_lt [simp]: "i < length xs \<Longrightarrow> vec_get xs i = Some (xs ! i)"
  by (simp add: vec_get_def)

lemma vec_get_ge [simp]: "\<not> i < length xs \<Longrightarrow> vec_get xs i = None"
  by (simp add: vec_get_def)

lemma vec_get_eq_None [simp]: "vec_get xs i = None \<longleftrightarrow> length xs \<le> i"
  by (auto simp: vec_get_def)

lemma vec_get_SomeD: "vec_get xs i = Some x \<Longrightarrow> i < length xs \<and> xs ! i = x"
  by (auto simp: vec_get_def split: if_splits)

lemma vec_slot_lt [simp]: "i < length xs \<Longrightarrow> vec_slot xs i = xs ! i"
  by (simp add: vec_slot_def)

lemma vec_slot_ge [simp]: "\<not> i < length xs \<Longrightarrow> vec_slot xs i = None"
  by (simp add: vec_slot_def)

lemma vec_slot_SomeD: "vec_slot xs i = Some x \<Longrightarrow> i < length xs \<and> xs ! i = Some x"
  by (cases "i < length xs") auto

lemma vec_slot_update:
  "vec_slot (xs[i := v]) j = (if i = j \<and> i < length xs then v else vec_slot xs j)"
  by (cases "j < length xs") auto

lemma max_by_key_None [simp]: "max_by_key f xs = None \<longleftrightarrow> xs = []"
  by (cases xs) (auto split: option.splits)

lemma max_by_key_Some:
  "max_by_key f xs = Some x \<Longrightarrow> x \<in> set xs \<and> (\<forall>y \<in> set xs. f y \<le> f x)"
  by (induction xs arbitrary: x) (auto split: option.splits if_splits dest: order.strict_trans1)

lemma length_update_first [simp]: "length (update_first P f xs) = length xs"
  by (induction xs) auto

lemma map_update_first:
  "(\<And>x. P x \<Longrightarrow> g (f x) = g x) \<Longrightarrow> map g (update_first P f xs) = map g xs"
  by (induction xs) auto

lemma update_first_id: "\<forall>x \<in> set xs. \<not> P x \<Longrightarrow> update_first P f xs = xs"
  by (induction xs) auto

lemma set_update_first: "set (update_first P f xs) \<subseteq> set xs \<union> f ` {x \<in> set xs. P x}"
  by (induction xs) auto

lemma length_remove_first:
  "length (remove_first P xs) = (if \<exists>x \<in> set xs. P x then length xs - 1 else length xs)"
  by (induction xs) (auto dest: length_pos_if_in_set)

lemma set_remove_first: "set (remove_first P xs) \<subseteq> set xs"
  by (induction xs) auto

lemma distinct_map_remove_first:
  "distinct (map f xs) \<Longrightarrow> distinct (map f (remove_first P xs))"
  by (induction xs) (use set_remove_first in fastforce)+

lemma distinct_map_filter_append:
  "distinct (map f xs) \<Longrightarrow> f x \<notin> f ` {y \<in> set xs. P y} \<Longrightarrow> distinct (map f (filter P xs @ [x]))"
  by (auto simp: distinct_map_filter)

lemma set_map_filter: "set (List.map_filter f xs) = {y. \<exists>x \<in> set xs. f x = Some y}"
  by (induction xs) (auto simp: map_filter_simps split: option.splits)

lemma map_filter_map: "map f (List.map_filter g xs) = List.map_filter (\<lambda>x. map_option f (g x)) xs"
  by (induction xs) (auto simp: map_filter_simps split: option.splits)

lemma length_filter_less_if:
  "x \<in> set xs \<Longrightarrow> \<not> P x \<Longrightarrow> length (filter P xs) < length xs"
  by (induction xs) (auto simp: less_Suc_eq_le)

section \<open>Strings\<close>

text \<open>
  \<open>str::split(',')\<close>: there is always at least one piece, so \<open>"".split(',')\<close> gives one
  empty piece.
\<close>

fun str_split :: "char \<Rightarrow> string \<Rightarrow> string list" where
  "str_split d [] = [[]]"
| "str_split d (c # cs) =
     (if c = d then [] # str_split d cs
      else (case str_split d cs of [] \<Rightarrow> [[c]] | w # ws \<Rightarrow> (c # w) # ws))"

text \<open>
  \<open>str::trim\<close> removes the code points with the Unicode property \<open>White_Space\<close>; here they
  are as UTF-8 byte sequences.
\<close>

definition utf8 :: "nat list \<Rightarrow> string" where
  "utf8 bs = map (\<lambda>b. char_of b) bs"

definition white_space :: "string list" where
  "white_space =
     map utf8 ([[9], [10], [11], [12], [13], [32], [194, 133], [194, 160], [225, 154, 128],
       [226, 128, 168], [226, 128, 169], [226, 128, 175], [226, 129, 159], [227, 128, 128]]
       @ map (\<lambda>b. [226, 128, b]) [128 ..< 139])"

fun strip_prefix :: "string \<Rightarrow> string \<Rightarrow> string option" where
  "strip_prefix [] s = Some s"
| "strip_prefix (p # ps) [] = None"
| "strip_prefix (p # ps) (c # cs) = (if p = c then strip_prefix ps cs else None)"

definition strip_one :: "string list \<Rightarrow> string \<Rightarrow> string option" where
  "strip_one ps s = (case List.find (\<lambda>p. p \<noteq> [] \<and> strip_prefix p s \<noteq> None) ps of
     None \<Rightarrow> None | Some p \<Rightarrow> strip_prefix p s)"

lemma strip_prefix_length: "strip_prefix p s = Some r \<Longrightarrow> length s = length p + length r"
  by (induction p s rule: strip_prefix.induct) (auto split: if_splits)

lemma strip_one_less: "strip_one ps s = Some r \<Longrightarrow> length r < length s"
  by (auto simp: strip_one_def find_Some_iff dest: strip_prefix_length split: option.splits)

function trim_start_with :: "string list \<Rightarrow> string \<Rightarrow> string" where
  "trim_start_with ps s =
     (case strip_one ps s of None \<Rightarrow> s | Some r \<Rightarrow> trim_start_with ps r)"
  by pat_completeness auto
termination
  by (relation "measure (\<lambda>(ps, s). length s)") (auto dest: strip_one_less)

declare trim_start_with.simps [simp del]

definition str_trim :: "string \<Rightarrow> string" where
  "str_trim s = rev (trim_start_with (map rev white_space) (rev (trim_start_with white_space s)))"

text \<open>Decimal digits, \<open>ToString\<close> of integers, and \<open>str::parse\<close> at a signed width.\<close>

definition digit_char :: "nat \<Rightarrow> char" where
  "digit_char n = char_of (48 + n)"

definition digit_value :: "char \<Rightarrow> nat option" where
  "digit_value c = (let v = of_char c :: nat in if 48 \<le> v \<and> v < 58 then Some (v - 48) else None)"

fun nat_to_string :: "nat \<Rightarrow> string" where
  "nat_to_string n =
     (if n < 10 then [digit_char n] else nat_to_string (n div 10) @ [digit_char (n mod 10)])"

declare nat_to_string.simps [simp del]

definition int_to_string :: "int \<Rightarrow> string" where
  "int_to_string n = (if n < 0 then ''-'' @ nat_to_string (nat (- n)) else nat_to_string (nat n))"

fun digits_value :: "nat \<Rightarrow> string \<Rightarrow> nat option" where
  "digits_value acc [] = Some acc"
| "digits_value acc (c # cs) =
     (case digit_value c of None \<Rightarrow> None | Some d \<Rightarrow> digits_value (10 * acc + d) cs)"

definition parse_digits :: "string \<Rightarrow> nat option" where
  "parse_digits s = (if s = [] then None else digits_value 0 s)"

definition parse_int :: "int \<Rightarrow> int \<Rightarrow> string \<Rightarrow> int option" where
  "parse_int lo hi s =
     opt_filter (\<lambda>n. lo \<le> n \<and> n \<le> hi)
       (case s of
          [] \<Rightarrow> None
        | c # cs \<Rightarrow>
            if c = CHR ''-'' then map_option (\<lambda>n. - int n) (parse_digits cs)
            else if c = CHR ''+'' then map_option int (parse_digits cs)
            else map_option int (parse_digits s))"

definition parse_i64 :: "string \<Rightarrow> i64 option" where
  "parse_i64 = parse_int (- (2 ^ 63)) (2 ^ 63 - 1)"

definition parse_i32 :: "string \<Rightarrow> i32 option" where
  "parse_i32 = parse_int (- (2 ^ 31)) (2 ^ 31 - 1)"

text \<open>Printing and parsing are inverse on natural numbers.\<close>

lemma digit_value_digit_char: "n < 10 \<Longrightarrow> digit_value (digit_char n) = Some n"
  by (simp add: digit_value_def digit_char_def Let_def)

lemma digits_value_append:
  "digits_value acc (xs @ ys) =
     (case digits_value acc xs of None \<Rightarrow> None | Some a \<Rightarrow> digits_value a ys)"
  by (induction acc xs rule: digits_value.induct) (auto split: option.splits)

lemma nat_to_string_nonempty [simp]: "nat_to_string n \<noteq> []"
  by (subst nat_to_string.simps) simp

lemma digits_value_nat_to_string: "digits_value 0 (nat_to_string n) = Some n"
proof (induction n rule: nat_to_string.induct)
  case (1 n)
  show ?case
  proof (cases "n < 10")
    case True
    then show ?thesis
      by (subst nat_to_string.simps) (simp add: digit_value_digit_char)
  next
    case False
    with 1 have "digits_value 0 (nat_to_string (n div 10)) = Some (n div 10)" by simp
    with False show ?thesis
      by (subst nat_to_string.simps) (simp add: digits_value_append digit_value_digit_char)
  qed
qed

lemma parse_digits_nat_to_string: "parse_digits (nat_to_string n) = Some n"
  by (simp add: parse_digits_def digits_value_nat_to_string)

lemma nat_to_string_inject [simp]: "nat_to_string m = nat_to_string n \<longleftrightarrow> m = n"
  by (metis digits_value_nat_to_string option.inject)

end
