(* ===== verification/Float64.thy ===== *)
theory Float64
  imports Prelude "HOL-Library.Log_Nat"
begin

text \<open>
  Rust's \<open>f64\<close> (IEEE 754 binary64) as the crate uses it: comparison, subtraction,
  \<open>abs\<close>, conversion from \<open>i64\<close> and \<open>str::parse\<close>.  A finite value is the rational it
  stands for (the two zeros compare equal and are one value here); every arithmetic result
  is rounded to nearest, ties to even, with gradual underflow and overflow to infinity.
  NaN is unordered and differs from itself, as \<open>PartialOrd\<close> and \<open>PartialEq\<close> have it.
\<close>

datatype f64 = NaN | PInf | NInf | Fin rat

section \<open>Rounding\<close>

definition pow2 :: "int \<Rightarrow> rat" where
  "pow2 e = (if 0 \<le> e then 2 ^ nat e else 1 / 2 ^ nat (- e))"

definition flog2 :: "rat \<Rightarrow> int" where
  "flog2 q = (let (a, b) = quotient_of q; k = bitlen a - bitlen b
              in if pow2 k \<le> q then k else k - 1)"

definition round_half_even :: "rat \<Rightarrow> int" where
  "round_half_even q =
     (let f = \<lfloor>q\<rfloor>; d = q - of_int f
      in if d < 1 / 2 then f else if 1 / 2 < d then f + 1 else if even f then f else f + 1)"

definition f64_round :: "rat \<Rightarrow> f64" where
  "f64_round q =
     (if q = 0 then Fin 0
      else let e = max (flog2 \<bar>q\<bar> - 52) (- 1074);
               r = of_int (round_half_even (q / pow2 e)) * pow2 e
           in if 2 ^ 1024 \<le> r then PInf else if r \<le> - (2 ^ 1024) then NInf else Fin r)"

definition f64_of_int :: "int \<Rightarrow> f64" where
  "f64_of_int n = f64_round (of_int n)"

section \<open>Comparison and arithmetic\<close>

fun f64_less :: "f64 \<Rightarrow> f64 \<Rightarrow> bool" where
  "f64_less NaN _ = False"
| "f64_less _ NaN = False"
| "f64_less PInf _ = False"
| "f64_less _ NInf = False"
| "f64_less NInf _ = True"
| "f64_less _ PInf = True"
| "f64_less (Fin a) (Fin b) = (a < b)"

definition f64_eq :: "f64 \<Rightarrow> f64 \<Rightarrow> bool" where
  "f64_eq a b = (a \<noteq> NaN \<and> a = b)"

definition f64_le :: "f64 \<Rightarrow> f64 \<Rightarrow> bool" where
  "f64_le a b = (f64_less a b \<or> f64_eq a b)"

fun f64_neg :: "f64 \<Rightarrow> f64" where
  "f64_neg NaN = NaN"
| "f64_neg PInf = NInf"
| "f64_neg NInf = PInf"
| "f64_neg (Fin a) = Fin (- a)"

fun f64_abs :: "f64 \<Rightarrow> f64" where
  "f64_abs NaN = NaN"
| "f64_abs PInf = PInf"
| "f64_abs NInf = PInf"
| "f64_abs (Fin a) = Fin \<bar>a\<bar>"

fun f64_add :: "f64 \<Rightarrow> f64 \<Rightarrow> f64" where
  "f64_add NaN _ = NaN"
| "f64_add _ NaN = NaN"
| "f64_add PInf NInf = NaN"
| "f64_add NInf PInf = NaN"
| "f64_add PInf _ = PInf"
| "f64_add _ PInf = PInf"
| "f64_add NInf _ = NInf"
| "f64_add _ NInf = NInf"
| "f64_add (Fin a) (Fin b) = f64_round (a + b)"

definition f64_sub :: "f64 \<Rightarrow> f64 \<Rightarrow> f64" where
  "f64_sub a b = f64_add a (f64_neg b)"

fun f64_mul :: "f64 \<Rightarrow> f64 \<Rightarrow> f64" where
  "f64_mul (Fin a) (Fin b) = f64_round (a * b)"
| "f64_mul a b =
     (if a = NaN \<or> b = NaN \<or> a = Fin 0 \<or> b = Fin 0 then NaN
      else if f64_less a (Fin 0) = f64_less b (Fin 0) then PInf else NInf)"

text \<open>Division by a finite non-zero constant, the only division the crate writes.\<close>

definition f64_div_const :: "f64 \<Rightarrow> rat \<Rightarrow> f64" where
  "f64_div_const a d =
     (case a of Fin x \<Rightarrow> f64_round (x / d)
      | PInf \<Rightarrow> if 0 < d then PInf else NInf
      | NInf \<Rightarrow> if 0 < d then NInf else PInf
      | NaN \<Rightarrow> NaN)"

text \<open>\<open>as i64\<close>: truncation towards zero, saturating at the bounds; NaN becomes zero.\<close>

definition rat_trunc :: "rat \<Rightarrow> int" where
  "rat_trunc q = (if 0 \<le> q then \<lfloor>q\<rfloor> else - \<lfloor>- q\<rfloor>)"

definition f64_to_i64 :: "f64 \<Rightarrow> int" where
  "f64_to_i64 a =
     (case a of NaN \<Rightarrow> 0
      | PInf \<Rightarrow> 2 ^ 63 - 1
      | NInf \<Rightarrow> - (2 ^ 63)
      | Fin x \<Rightarrow> max (- (2 ^ 63)) (min (2 ^ 63 - 1) (rat_trunc x)))"

text \<open>The order of \<open>f64\<close> is total on everything but NaN.\<close>

lemma f64_less_irrefl [simp]: "\<not> f64_less a a"
  by (cases a) auto

lemma f64_less_trans: "f64_less a b \<Longrightarrow> f64_less b c \<Longrightarrow> f64_less a c"
  by (cases a; cases b; cases c) auto

lemma f64_less_le: "f64_less a b \<Longrightarrow> f64_le a b"
  by (simp add: f64_le_def)

lemma f64_le_NaN [simp]: "\<not> f64_le NaN b" "\<not> f64_le a NaN"
  by (auto simp: f64_le_def f64_eq_def) (cases a, auto)

lemma f64_le_linear: "a \<noteq> NaN \<Longrightarrow> b \<noteq> NaN \<Longrightarrow> f64_le a b \<or> f64_less b a"
  by (cases a; cases b) (auto simp: f64_le_def f64_eq_def)

lemma f64_not_less: "a \<noteq> NaN \<Longrightarrow> b \<noteq> NaN \<Longrightarrow> \<not> f64_less a b \<longleftrightarrow> f64_le b a"
  by (cases a; cases b) (auto simp: f64_le_def f64_eq_def)

lemma f64_le_Fin [simp]: "f64_le (Fin a) (Fin b) \<longleftrightarrow> a \<le> b"
  by (auto simp: f64_le_def f64_eq_def)

lemma f64_le_trans: "f64_le a b \<Longrightarrow> f64_le b c \<Longrightarrow> f64_le a c"
  by (cases a; cases b; cases c) (auto simp: f64_le_def f64_eq_def)

section \<open>Parsing\<close>

text \<open>
  \<open>str::parse::<f64>\<close>: an optional sign, then \<open>inf\<close>, \<open>infinity\<close> or \<open>nan\<close> in any case, or
  digits with an optional fraction and an optional exponent; there is at least one digit
  before the exponent, and one in it.
\<close>

definition ascii_lower :: "char \<Rightarrow> char" where
  "ascii_lower c = (let v = of_char c :: nat in if 65 \<le> v \<and> v \<le> 90 then char_of (v + 32) else c)"

definition take_digits :: "string \<Rightarrow> string \<times> string" where
  "take_digits s = (takeWhile (\<lambda>c. digit_value c \<noteq> None) s, dropWhile (\<lambda>c. digit_value c \<noteq> None) s)"

definition parse_exponent :: "string \<Rightarrow> int option" where
  "parse_exponent s =
     (case s of
        [] \<Rightarrow> Some 0
      | c # cs \<Rightarrow>
          if ascii_lower c \<noteq> CHR ''e'' then None
          else (case cs of
             [] \<Rightarrow> None
           | d # ds \<Rightarrow>
               if d = CHR ''-'' then map_option (\<lambda>n. - int n) (parse_digits ds)
               else if d = CHR ''+'' then map_option int (parse_digits ds)
               else map_option int (parse_digits cs)))"

definition scale10 :: "nat \<Rightarrow> int \<Rightarrow> rat" where
  "scale10 m e = (if 0 \<le> e then of_nat m * 10 ^ nat e else of_nat m / 10 ^ nat (- e))"

definition parse_decimal :: "string \<Rightarrow> rat option" where
  "parse_decimal s =
     (let (ip, r1) = take_digits s;
          (fp, r2) = (case r1 of [] \<Rightarrow> ([], r1)
                      | c # cs \<Rightarrow> if c = CHR ''.'' then take_digits cs else ([], r1))
      in if ip = [] \<and> fp = [] then None
         else (case (digits_value 0 (ip @ fp), parse_exponent r2) of
            (Some m, Some e) \<Rightarrow> Some (scale10 m (e - int (length fp)))
          | _ \<Rightarrow> None))"

definition parse_unsigned_f64 :: "string \<Rightarrow> f64 option" where
  "parse_unsigned_f64 s =
     (let l = map ascii_lower s
      in if l = ''inf'' \<or> l = ''infinity'' then Some PInf
         else if l = ''nan'' then Some NaN
         else map_option f64_round (parse_decimal s))"

definition parse_f64 :: "string \<Rightarrow> f64 option" where
  "parse_f64 s =
     (case s of
        [] \<Rightarrow> None
      | c # cs \<Rightarrow>
          if c = CHR ''-'' then map_option f64_neg (parse_unsigned_f64 cs)
          else if c = CHR ''+'' then parse_unsigned_f64 cs
          else parse_unsigned_f64 s)"

section \<open>Small integers are exact\<close>

lemma round_half_even_of_int [simp]: "round_half_even (of_int n) = n"
  by (simp add: round_half_even_def)

lemma pow2_pos [simp]: "0 < pow2 e"
  by (simp add: pow2_def)

lemma pow2_neg_mult: "0 \<le> e \<Longrightarrow> pow2 (- e) = 1 / 2 ^ nat e"
  by (simp add: pow2_def)

end
