(* ===== verification/Identity.thy ===== *)
theory Identity
  imports Prelude
begin

text \<open>
  \<open>src/state/id_token.rs\<close>, \<open>src/state/authorization_status.rs\<close>,
  \<open>src/state/registration_status.rs\<close>, \<open>src/state/reservation.rs\<close> and
  \<open>src/state/reset.rs\<close>: the identifiers a driver presents, what the CSMS answers, and the
  reservations and resets it asks for.
\<close>

datatype id_token_kind =
    Central | DirectPayment | EMAID | EVCCID | ISO14443 | ISO15693 | KeyCode | LocalKind
  | MacAddress | NoAuthorization | Vin

record id_token =
  token_value :: string
  token_kind :: id_token_kind

definition requires_authorization :: "id_token_kind \<Rightarrow> bool" where
  "requires_authorization k = (\<not> (case k of Central \<Rightarrow> True | NoAuthorization \<Rightarrow> True | _ \<Rightarrow> False))"

text \<open>
  \<open>str::chars\<close> on UTF-8: a code point is a leading byte with the continuation bytes
  (128 to 191) that follow it.
\<close>

definition continuation_byte :: "char \<Rightarrow> bool" where
  "continuation_byte c = (let v = of_char c :: nat in 128 \<le> v \<and> v < 192)"

function str_chars :: "string \<Rightarrow> string list" where
  "str_chars [] = []"
| "str_chars (b # bs) =
     (b # takeWhile continuation_byte bs) # str_chars (dropWhile continuation_byte bs)"
  by pat_completeness auto
termination
  by (relation "measure length") (auto simp: le_imp_less_Suc length_dropWhile_le)

text \<open>\<open>IdToken::redacted_value\<close> without the \<open>unredacted-logs\<close> feature.\<close>

definition redacted_value :: "id_token \<Rightarrow> string" where
  "redacted_value t =
     (let cs = str_chars (token_value t); len = length cs
      in if len = 0 then ''''
         else if len \<le> 4 then ''****''
         else utf8 [226, 128, 166] @ concat (drop (len - 4) cs))"

datatype authorization_status = AuthAccepted | AuthRejected

datatype registration_status = RegAccepted | RegPending | RegRejected

type_synonym reservation_id = i64

record reservation =
  reservation_id_of :: reservation_id
  reservation_token :: id_token
  reservation_group_token :: "id_token option"
  reservation_expires_at :: "date_time option"

datatype reset_kind = Immediate | OnIdle

datatype reset_target = TargetChargePoint | TargetEvse usize

record pending_reset =
  pending_target :: reset_target
  pending_kind :: reset_kind

datatype boot_reason_cause = RemoteReset | ScheduledReset

fun boot_reason_of :: "reset_kind \<Rightarrow> boot_reason_cause" where
  "boot_reason_of Immediate = RemoteReset"
| "boot_reason_of OnIdle = ScheduledReset"

text \<open>What a log line can show of an identifier: nothing but its last four characters.\<close>

lemma str_chars_concat: "concat (str_chars s) = s"
  by (induction s rule: str_chars.induct) auto

lemma redacted_value_depends_on_suffix:
  assumes "4 < length (str_chars (token_value t))"
    and "4 < length (str_chars (token_value u))"
    and "drop (length (str_chars (token_value t)) - 4) (str_chars (token_value t))
       = drop (length (str_chars (token_value u)) - 4) (str_chars (token_value u))"
  shows "redacted_value t = redacted_value u"
  using assms by (auto simp: redacted_value_def Let_def)

end
