(* ===== verification/Store_Spec.thy ===== *)
theory Store_Spec
  imports Prelude
begin

text \<open>
  The contracts of the crate's bounded collections (\<open>src/state/limits.rs\<close>): every
  collection a CSMS or a hardware binding can grow has a maximum fixed at construction.
  The locale \<open>bounded_store\<close> is what a collection promises about its operations, and
  \<open>keyed_store\<close> adds the contract of those that hold at most one entry per key and refuse
  a new key when they are full.  Each store's theory interprets them on its own operations.
\<close>

locale bounded_store =
  fixes size_of :: "'s \<Rightarrow> nat"
    and cap_of :: "'s \<Rightarrow> nat"
    and invar :: "'s \<Rightarrow> bool"
    and op :: "'s \<Rightarrow> 's \<Rightarrow> bool"
  assumes op_cap: "op s s' \<Longrightarrow> cap_of s' = cap_of s"
    and op_invar: "op s s' \<Longrightarrow> invar s \<Longrightarrow> invar s'"
    and invar_bound: "invar s \<Longrightarrow> size_of s \<le> cap_of s"
begin

lemma ops_cap: "op\<^sup>*\<^sup>* s s' \<Longrightarrow> cap_of s' = cap_of s"
  by (induction rule: rtranclp_induct) (auto dest: op_cap)

lemma ops_invar: "op\<^sup>*\<^sup>* s s' \<Longrightarrow> invar s \<Longrightarrow> invar s'"
  by (induction rule: rtranclp_induct) (auto dest: op_invar)

lemma ops_bounded:
  assumes "op\<^sup>*\<^sup>* s s'" and "invar s"
  shows "size_of s' \<le> cap_of s"
  using invar_bound [OF ops_invar [OF assms]] ops_cap [OF assms(1)] by simp

end

locale keyed_store = bounded_store size_of cap_of invar op
  for size_of :: "'s \<Rightarrow> nat"
    and cap_of :: "'s \<Rightarrow> nat"
    and invar :: "'s \<Rightarrow> bool"
    and op :: "'s \<Rightarrow> 's \<Rightarrow> bool" +
  fixes key :: "'v \<Rightarrow> 'k"
    and get :: "'s \<Rightarrow> 'k \<Rightarrow> 'v option"
    and put :: "'v \<Rightarrow> 's \<Rightarrow> 's \<times> bool"
  assumes put_op: "op s (fst (put v s))"
    and put_accepts: "snd (put v s) \<longleftrightarrow> get s (key v) \<noteq> None \<or> size_of s < cap_of s"
    and put_refused: "\<not> snd (put v s) \<Longrightarrow> fst (put v s) = s"
    and get_put: "snd (put v s) \<Longrightarrow> get (fst (put v s)) k = (if k = key v then Some v else get s k)"
begin

lemma put_invar: "invar s \<Longrightarrow> invar (fst (put v s))"
  using op_invar put_op by blast

lemma put_known_accepted: "get s (key v) \<noteq> None \<Longrightarrow> snd (put v s)"
  by (simp add: put_accepts)

lemma refused_when_full:
  assumes "invar s" and "\<not> snd (put v s)"
  shows "size_of s = cap_of s" and "get s (key v) = None" and "fst (put v s) = s"
  using assms invar_bound [OF assms(1)] by (auto simp: put_accepts put_refused)

text \<open>The contract in one statement: a put either stores exactly its entry or, only when the
  store is full of other keys, changes nothing.\<close>

lemma put_contract:
  assumes "invar s"
  shows "if get s (key v) \<noteq> None \<or> size_of s < cap_of s
    then snd (put v s) \<and> get (fst (put v s)) = (get s)(key v \<mapsto> v)
    else \<not> snd (put v s) \<and> fst (put v s) = s \<and> size_of s = cap_of s"
proof (cases "snd (put v s)")
  case True
  then have "get (fst (put v s)) = (get s)(key v \<mapsto> v)"
    by (auto simp: get_put)
  with True put_accepts [of v s] show ?thesis by simp
next
  case False
  with refused_when_full [OF assms False] put_accepts [of v s] show ?thesis by simp
qed

end

locale removable_store = keyed_store size_of cap_of invar op key get put
  for size_of :: "'s \<Rightarrow> nat"
    and cap_of :: "'s \<Rightarrow> nat"
    and invar :: "'s \<Rightarrow> bool"
    and op :: "'s \<Rightarrow> 's \<Rightarrow> bool"
    and key :: "'v \<Rightarrow> 'k"
    and get :: "'s \<Rightarrow> 'k \<Rightarrow> 'v option"
    and put :: "'v \<Rightarrow> 's \<Rightarrow> 's \<times> bool" +
  fixes del :: "'k \<Rightarrow> 's \<Rightarrow> 's \<times> bool"
  assumes del_op: "op s (fst (del k s))"
    and get_del: "invar s \<Longrightarrow> get (fst (del k s)) j = (if j = k then None else get s j)"
    and del_reports: "snd (del k s) \<longleftrightarrow> get s k \<noteq> None"
begin

lemma del_invar: "invar s \<Longrightarrow> invar (fst (del k s))"
  using op_invar del_op by blast

text \<open>Storing an entry and removing its key again leaves every other key as it was.\<close>

lemma put_del_get:
  assumes "invar s" and "snd (put v s)"
  shows "get (fst (del (key v) (fst (put v s)))) = (get s)(key v := None)"
  by (auto simp: get_del get_put put_invar assms)

end

section \<open>Vectors of keyed entries\<close>

text \<open>
  The three shapes in which the crate keeps keyed entries in a \<open>Vec\<close>: replace in place or
  push (\<open>NetworkProfileStore::set\<close>, \<open>DisplayMessageStore::set\<close>, \<open>BatterySwapStore::insert\<close>),
  drop and push (\<open>PeriodicEventStreamStore::open\<close>, \<open>DERControlStore::install\<close>), and drop.
\<close>

lemma find_key_filter:
  "List.find (\<lambda>x. f x = j) (filter (\<lambda>x. f x \<noteq> k) xs)
   = (if j = k then None else List.find (\<lambda>x. f x = j) xs)"
  by (induction xs) auto

lemma find_push_new:
  "f v \<notin> f ` set xs \<Longrightarrow>
   List.find (\<lambda>x. f x = j) (xs @ [v]) = (if j = f v then Some v else List.find (\<lambda>x. f x = j) xs)"
  by (induction xs) auto

lemma find_drop_push:
  "List.find (\<lambda>x. f x = j) (filter (\<lambda>x. f x \<noteq> f v) xs @ [v])
   = (if j = f v then Some v else List.find (\<lambda>x. f x = j) xs)"
  by (induction xs) auto

lemma find_key_None_iff: "List.find (\<lambda>x. f x = k) xs = None \<longleftrightarrow> k \<notin> f ` set xs"
  by (auto simp: find_None_iff)

lemma find_key_SomeD: "List.find (\<lambda>x. f x = k) xs = Some v \<Longrightarrow> f v = k \<and> v \<in> set xs"
  by (auto simp: find_Some_iff)

lemma find_update_first:
  assumes "f v = k"
  shows "k \<in> f ` set xs \<Longrightarrow>
    List.find (\<lambda>x. f x = j) (update_first (\<lambda>x. f x = k) (\<lambda>_. v) xs)
    = (if j = k then Some v else List.find (\<lambda>x. f x = j) xs)"
  using assms by (induction xs) auto

lemma find_remove_first:
  "distinct (map f xs) \<Longrightarrow>
    List.find (\<lambda>x. f x = j) (remove_first (\<lambda>x. f x = k) xs)
    = (if j = k then None else List.find (\<lambda>x. f x = j) xs)"
  by (induction xs) (auto simp: find_key_None_iff)

lemma map_key_update_first:
  "f v = k \<Longrightarrow> map f (update_first (\<lambda>x. f x = k) (\<lambda>_. v) xs) = map f xs"
  by (rule map_update_first) simp

lemma drop_push_length:
  assumes "\<exists>x \<in> set xs. \<not> P x"
  shows "length (filter P xs @ [v]) \<le> length xs"
  using assms length_filter_less_if [of _ xs P] by (auto simp: Suc_le_eq)

lemma list_ex_key_iff: "list_ex (\<lambda>x. f x = k) xs \<longleftrightarrow> k \<in> f ` set xs"
  by (auto simp: list_ex_iff)

lemma filter_key_neq_iff:
  "length (filter (\<lambda>x. f x \<noteq> k) xs) \<noteq> length xs \<longleftrightarrow> k \<in> f ` set xs"
  by (induction xs) (auto simp: le_imp_less_Suc less_imp_neq)

lemma bool_length_filter_neq:
  "length (filter P xs) \<noteq> length xs \<longleftrightarrow> (\<exists>x \<in> set xs. \<not> P x)"
  by (metis filter_id_conv length_filter_less nless_le)

end
