(* ===== verification/Display_Messages.thy ===== *)
theory Display_Messages
  imports Store_Spec
begin

text \<open>
  \<open>src/state/display_message.rs\<close>: the messages the CSMS has asked to be shown to drivers.
\<close>

type_synonym transaction_id = u64
type_synonym display_message_id = i64

datatype message_priority = NormalCycle | InFront | AlwaysFront

definition message_priority_all :: "message_priority list" where
  "message_priority_all = [AlwaysFront, InFront, NormalCycle]"

fun message_priority_name :: "message_priority \<Rightarrow> string" where
  "message_priority_name NormalCycle = ''NormalCycle''"
| "message_priority_name InFront = ''InFront''"
| "message_priority_name AlwaysFront = ''AlwaysFront''"

datatype message_state = WhenCharging | WhenFaulted | WhenIdle | WhenUnavailable

definition message_state_all :: "message_state list" where
  "message_state_all = [WhenCharging, WhenFaulted, WhenIdle, WhenUnavailable]"

fun message_state_name :: "message_state \<Rightarrow> string" where
  "message_state_name WhenCharging = ''Charging''"
| "message_state_name WhenFaulted = ''Faulted''"
| "message_state_name WhenIdle = ''Idle''"
| "message_state_name WhenUnavailable = ''Unavailable''"

datatype message_format = Ascii | Html | Uri | Utf8 | QrCode

fun message_format_name :: "message_format \<Rightarrow> string" where
  "message_format_name Ascii = ''ASCII''"
| "message_format_name Html = ''HTML''"
| "message_format_name Uri = ''URI''"
| "message_format_name Utf8 = ''UTF8''"
| "message_format_name QrCode = ''QRCODE''"

record message_content =
  content :: string
  content_format :: message_format
  content_language :: "string option"

record displayed_message =
  message_id :: display_message_id
  message_priority_of :: message_priority
  message_state_of :: "message_state option"
  message_body :: message_content
  message_transaction_id :: "transaction_id option"

record display_message_store =
  messages :: "displayed_message list"
  max_messages :: usize

definition messages_with_max :: "usize \<Rightarrow> display_message_store" where
  "messages_with_max n = \<lparr>messages = [], max_messages = max n 1\<rparr>"

definition message_get :: "display_message_store \<Rightarrow> display_message_id \<Rightarrow> displayed_message option" where
  "message_get s i = List.find (\<lambda>m. message_id m = i) (messages s)"

definition message_set :: "displayed_message \<Rightarrow> display_message_store \<Rightarrow> display_message_store \<times> bool" where
  "message_set v s =
     (if message_get s (message_id v) \<noteq> None
      then (s\<lparr>messages := update_first (\<lambda>m. message_id m = message_id v) (\<lambda>_. v) (messages s)\<rparr>, True)
      else if max_messages s \<le> length (messages s) then (s, False)
      else (s\<lparr>messages := messages s @ [v]\<rparr>, True))"

definition message_clear :: "display_message_id \<Rightarrow> display_message_store \<Rightarrow> display_message_store \<times> bool" where
  "message_clear i s =
     (let kept = filter (\<lambda>m. message_id m \<noteq> i) (messages s)
      in (s\<lparr>messages := kept\<rparr>, length kept \<noteq> length (messages s)))"

definition message_clear_for_transaction ::
  "transaction_id \<Rightarrow> display_message_store \<Rightarrow> display_message_store \<times> usize" where
  "message_clear_for_transaction t s =
     (let kept = filter (\<lambda>m. message_transaction_id m \<noteq> Some t) (messages s)
      in (s\<lparr>messages := kept\<rparr>, length (messages s) - length kept))"

inductive message_op :: "display_message_store \<Rightarrow> display_message_store \<Rightarrow> bool" where
  set: "message_op s (fst (message_set v s))"
| clear: "message_op s (fst (message_clear i s))"
| clear_for_transaction: "message_op s (fst (message_clear_for_transaction t s))"

definition message_inv :: "display_message_store \<Rightarrow> bool" where
  "message_inv s = (length (messages s) \<le> max_messages s \<and> distinct (map message_id (messages s)))"

lemma message_inv_init [simp]: "message_inv (messages_with_max n)"
  by (simp add: message_inv_def messages_with_max_def)

interpretation display_messages: removable_store "\<lambda>s. length (messages s)" max_messages message_inv
    message_op message_id message_get message_set message_clear
proof
  show "max_messages s' = max_messages s" if "message_op s s'" for s s'
    using that
    by cases (auto simp: message_set_def message_clear_def message_clear_for_transaction_def Let_def)
  show "message_inv s'" if "message_op s s'" and "message_inv s" for s s'
    using that
    by cases (auto simp: message_inv_def message_set_def message_clear_def message_get_def
        message_clear_for_transaction_def Let_def map_key_update_first find_key_None_iff
        distinct_map_filter intro: order_trans [OF length_filter_le])
  show "length (messages s) \<le> max_messages s" if "message_inv s" for s
    using that by (simp add: message_inv_def)
  show "message_op s (fst (message_set v s))" for s v by (rule message_op.set)
  show "message_op s (fst (message_clear k s))" for s k by (rule message_op.clear)
  show "message_get (fst (message_set v s)) k = (if k = message_id v then Some v else message_get s k)"
    if "snd (message_set v s)" for s v k
    using that
    by (auto simp: message_set_def message_get_def find_update_first find_key_None_iff find_push_new
        split: if_splits)
qed (auto simp: message_set_def message_clear_def message_get_def Let_def find_key_filter
    find_key_None_iff filter_key_neq_iff)

end
