(* ===== verification/Transactions.thy ===== *)
theory Transactions
  imports Float64 Identity Display_Messages
begin

text \<open>
  \<open>src/state/transaction.rs\<close> and \<open>src/state/meter_sample.rs\<close>: a charging transaction, the
  ceilings placed on it, and the meter samples it carries.
\<close>

record meter_sample =
  energy_wh :: i64
  power_w :: "i64 option"
  current_ma :: "i64 option"
  voltage_v :: "i64 option"
  soc_percent :: "u8 option"

datatype transaction_charging_state =
  TxEvConnected | TxCharging | TxSuspendedEV | TxSuspendedEVSE | TxIdle

datatype transaction_limit_kind = CostLimit | EnergyLimit | SocLimit | TimeLimit

fun transaction_limit_kind_name :: "transaction_limit_kind \<Rightarrow> string" where
  "transaction_limit_kind_name CostLimit = ''cost''"
| "transaction_limit_kind_name EnergyLimit = ''energy''"
| "transaction_limit_kind_name SocLimit = ''soc''"
| "transaction_limit_kind_name TimeLimit = ''time''"

record transaction_limit =
  limit_max_cost :: "f64 option"
  limit_max_energy_wh :: "f64 option"
  limit_max_soc_percent :: "u8 option"
  limit_max_time_secs :: "i64 option"

definition limit_is_empty :: "transaction_limit \<Rightarrow> bool" where
  "limit_is_empty l =
     (limit_max_cost l = None \<and> limit_max_energy_wh l = None \<and> limit_max_soc_percent l = None \<and> limit_max_time_secs l = None)"

definition member_of_list :: "string \<Rightarrow> string \<Rightarrow> bool" where
  "member_of_list ms name = list_ex (\<lambda>m. str_trim m = name) (str_split (CHR '','') ms)"

definition limit_supported :: "string \<Rightarrow> transaction_limit \<Rightarrow> transaction_limit" where
  "limit_supported ms l =
     \<lparr>limit_max_cost = opt_filter (\<lambda>_. member_of_list ms ''maxCost'') (limit_max_cost l),
      limit_max_energy_wh = opt_filter (\<lambda>_. member_of_list ms ''maxEnergy'') (limit_max_energy_wh l),
      limit_max_soc_percent = opt_filter (\<lambda>_. member_of_list ms ''maxSoC'') (limit_max_soc_percent l),
      limit_max_time_secs = opt_filter (\<lambda>_. member_of_list ms ''maxTime'') (limit_max_time_secs l)\<rparr>"

text \<open>\<open>lower\<close> inside \<open>clamped_to\<close>, with the type's \<open>PartialOrd\<close> as \<open>lt\<close>: a value that does
  not compare (\<open>NaN\<close>) is kept.\<close>

fun lower_limit :: "('a \<Rightarrow> 'a \<Rightarrow> bool) \<Rightarrow> 'a option \<Rightarrow> 'a option \<Rightarrow> 'a option" where
  "lower_limit lt (Some v) (Some c) = (if lt c v then Some c else Some v)"
| "lower_limit lt (Some v) None = Some v"
| "lower_limit lt None c = c"

definition limit_clamped_to :: "transaction_limit \<Rightarrow> transaction_limit \<Rightarrow> transaction_limit" where
  "limit_clamped_to c l =
     \<lparr>limit_max_cost = lower_limit f64_less (limit_max_cost l) (limit_max_cost c),
      limit_max_energy_wh = lower_limit f64_less (limit_max_energy_wh l) (limit_max_energy_wh c),
      limit_max_soc_percent = lower_limit (<) (limit_max_soc_percent l) (limit_max_soc_percent c),
      limit_max_time_secs = lower_limit (<) (limit_max_time_secs l) (limit_max_time_secs c)\<rparr>"

datatype stop_reason =
  Local | Remote | EVDisconnected | EmergencyStop | ResetStop | PowerLoss | DeAuthorized

record transaction =
  tx_id :: transaction_id
  tx_id_token :: "id_token option"
  tx_charging_state :: transaction_charging_state
  tx_stop_reason :: "stop_reason option"
  tx_seq_no :: u32
  tx_last_meter_sample :: "meter_sample option"
  tx_priority_charging :: bool
  tx_remote_start_id :: "i64 option"
  tx_reservation_id :: "i64 option"
  tx_stop_at_energy_wh :: "i64 option"
  tx_limit :: "transaction_limit option"
  tx_csms_limit :: "transaction_limit option"
  tx_limit_reached :: "transaction_limit_kind option"
  tx_energy_start_wh :: "i64 option"
  tx_elapsed_secs :: "i64 option"

section \<open>Laws of the ceilings\<close>

text \<open>Whether a ceiling of \<open>l\<close> is at most the ceiling \<open>c\<close> places, where \<open>c\<close> places one.\<close>

definition within_ceiling :: "('a \<Rightarrow> 'a \<Rightarrow> bool) \<Rightarrow> 'a option \<Rightarrow> 'a option \<Rightarrow> bool" where
  "within_ceiling le a c = (case c of None \<Rightarrow> True | Some y \<Rightarrow> (case a of None \<Rightarrow> False | Some x \<Rightarrow> le x y))"

definition limit_within :: "transaction_limit \<Rightarrow> transaction_limit \<Rightarrow> bool" where
  "limit_within l c =
     (within_ceiling f64_le (limit_max_cost l) (limit_max_cost c)
      \<and> within_ceiling f64_le (limit_max_energy_wh l) (limit_max_energy_wh c)
      \<and> within_ceiling (\<le>) (limit_max_soc_percent l) (limit_max_soc_percent c)
      \<and> within_ceiling (\<le>) (limit_max_time_secs l) (limit_max_time_secs c))"

definition limit_is_number :: "transaction_limit \<Rightarrow> bool" where
  "limit_is_number l = (limit_max_cost l \<noteq> Some NaN \<and> limit_max_energy_wh l \<noteq> Some NaN)"

lemma lower_limit_within:
  assumes "\<And>x y. a = Some x \<Longrightarrow> c = Some y \<Longrightarrow> \<not> lt y x \<Longrightarrow> le x y"
    and "\<And>y. c = Some y \<Longrightarrow> le y y"
  shows "within_ceiling le (lower_limit lt a c) c"
  using assms by (cases a; cases c) (auto simp: within_ceiling_def)

lemma f64_le_refl: "a \<noteq> NaN \<Longrightarrow> f64_le a a"
  by (cases a) (auto simp: f64_le_def f64_eq_def)

lemma clamped_within:
  assumes "limit_is_number l" and "limit_is_number c"
  shows "limit_within (limit_clamped_to c l) c"
  using assms
  by (auto simp: limit_within_def limit_clamped_to_def limit_is_number_def f64_not_less f64_le_refl
      intro!: lower_limit_within)

lemma lower_limit_idem:
  "(\<And>x. \<not> lt x x) \<Longrightarrow> lower_limit lt (lower_limit lt a b) b = lower_limit lt a b"
  by (cases a; cases b) auto

lemma clamped_idem: "limit_clamped_to c (limit_clamped_to c l) = limit_clamped_to c l"
  by (simp add: limit_clamped_to_def lower_limit_idem)

end
