(* ===== verification/Authorization_Stores.thy ===== *)
theory Authorization_Stores
  imports Identity Store_Spec
begin

text \<open>
  \<open>src/state/local_authorization_list.rs\<close> and \<open>src/state/authorization_cache.rs\<close>: the two
  places a charge point answers an authorization from without asking the CSMS.
\<close>

section \<open>The local authorization list\<close>

record local_list_entry =
  entry_token :: id_token
  entry_status :: authorization_status

record local_authorization_list =
  list_version :: i64
  list_entries :: "local_list_entry list"
  list_max_entries :: usize

definition local_list_with_max :: "usize \<Rightarrow> local_authorization_list" where
  "local_list_with_max n = \<lparr>list_version = 0, list_entries = [], list_max_entries = max n 1\<rparr>"

text \<open>\<open>replace\<close> returns how many entries the maximum cut off.\<close>

definition local_list_replace ::
  "i64 \<Rightarrow> local_list_entry list \<Rightarrow> local_authorization_list \<Rightarrow> local_authorization_list \<times> usize" where
  "local_list_replace version entries l =
     (l\<lparr>list_version := version, list_entries := take (list_max_entries l) entries\<rparr>,
      length entries - list_max_entries l)"

definition local_list_forget ::
  "id_token \<Rightarrow> local_authorization_list \<Rightarrow> local_authorization_list \<times> bool" where
  "local_list_forget t l =
     (let kept = filter (\<lambda>e. token_value (entry_token e) \<noteq> token_value t) (list_entries l);
          changed = length kept \<noteq> length (list_entries l)
      in (if changed
          then l\<lparr>list_entries := kept, list_version := wrap_i64 (list_version l + 1)\<rparr>
          else l\<lparr>list_entries := kept\<rparr>, changed))"

inductive local_list_op :: "local_authorization_list \<Rightarrow> local_authorization_list \<Rightarrow> bool" where
  replace: "local_list_op l (fst (local_list_replace v es l))"
| forget: "local_list_op l (fst (local_list_forget t l))"

definition local_list_inv :: "local_authorization_list \<Rightarrow> bool" where
  "local_list_inv l = (length (list_entries l) \<le> list_max_entries l)"

interpretation local_list:
  bounded_store "\<lambda>l. length (list_entries l)" list_max_entries local_list_inv local_list_op
proof
  show "list_max_entries s' = list_max_entries s" if "local_list_op s s'" for s s'
    using that
    by cases (simp_all add: local_list_replace_def local_list_forget_def Let_def)
  show "local_list_inv s'" if "local_list_op s s'" and "local_list_inv s" for s s'
    using that
    by cases (auto simp: local_list_inv_def local_list_replace_def local_list_forget_def Let_def
        intro: order_trans [OF length_filter_le])
  show "length (list_entries s) \<le> list_max_entries s" if "local_list_inv s" for s
    using that by (simp add: local_list_inv_def)
qed

lemma local_list_inv_init [simp]: "local_list_inv (local_list_with_max n)"
  by (simp add: local_list_inv_def local_list_with_max_def)

section \<open>The authorization cache\<close>

record cache_entry =
  cached_token :: id_token
  cached_status :: authorization_status
  cached_at :: "date_time option"

record authorization_cache =
  cache_entries :: "cache_entry list"
  cache_max_entries :: usize

definition cache_with_max :: "usize \<Rightarrow> authorization_cache" where
  "cache_with_max n = \<lparr>cache_entries = [], cache_max_entries = max n 1\<rparr>"

definition same_token :: "id_token \<Rightarrow> id_token \<Rightarrow> bool" where
  "same_token a b = (token_value a = token_value b)"

text \<open>The loop of \<open>remember\<close> drops the oldest entry while the cache is at its maximum.\<close>

function evict_oldest :: "usize \<Rightarrow> cache_entry list \<Rightarrow> cache_entry list option" where
  "evict_oldest m es =
     (if m \<le> length es
      then (case es of [] \<Rightarrow> None | _ # rest \<Rightarrow> evict_oldest m rest)
      else Some es)"
  by pat_completeness auto
termination
  by (relation "measure (\<lambda>(m, es). length es)") auto

declare evict_oldest.simps [simp del]

text \<open>
  \<open>Vec::remove(0)\<close> panics on an empty vector; with a maximum of at least one, which
  \<open>with_max_entries\<close> ensures, the loop never reaches that.
\<close>

lemma evict_oldest_Some:
  "1 \<le> m \<Longrightarrow> evict_oldest m es = Some (drop (Suc (length es) - m) es)"
proof (induction m es rule: evict_oldest.induct)
  case (1 m es)
  show ?case
  proof (cases es)
    case Nil
    with 1 show ?thesis by (subst evict_oldest.simps) simp
  next
    case (Cons e rest)
    with 1 show ?thesis
      by (subst evict_oldest.simps) (auto simp: Suc_diff_le)
  qed
qed

definition cache_remember ::
  "id_token \<Rightarrow> authorization_status \<Rightarrow> date_time option \<Rightarrow> authorization_cache
   \<Rightarrow> authorization_cache option" where
  "cache_remember t st ts c =
     map_option
       (\<lambda>es. c\<lparr>cache_entries :=
          es @ [\<lparr>cached_token = t, cached_status = st, cached_at = ts\<rparr>]\<rparr>)
       (evict_oldest (cache_max_entries c)
          (filter (\<lambda>e. \<not> same_token (cached_token e) t) (cache_entries c)))"

text \<open>\<open>chrono::TimeDelta::num_seconds\<close>: whole seconds, truncated towards zero.\<close>

definition num_seconds :: "int \<Rightarrow> int" where
  "num_seconds ns = sgn ns * (\<bar>ns\<bar> div 1000000000)"

definition cache_entry_is_expired :: "date_time option \<Rightarrow> u32 option \<Rightarrow> cache_entry \<Rightarrow> bool" where
  "cache_entry_is_expired now life e =
     (case (cached_at e, now, life) of
        (Some ts, Some n, Some l) \<Rightarrow>
          if l = 0 then False else uint l \<le> num_seconds (n - ts)
      | _ \<Rightarrow> False)"

definition cache_lookup ::
  "authorization_cache \<Rightarrow> id_token \<Rightarrow> date_time option \<Rightarrow> u32 option \<Rightarrow> cache_entry option" where
  "cache_lookup c t now life =
     (case List.find (\<lambda>e. same_token (cached_token e) t) (cache_entries c) of
        None \<Rightarrow> None
      | Some e \<Rightarrow> if cache_entry_is_expired now life e then None else Some e)"

definition cache_clear :: "authorization_cache \<Rightarrow> authorization_cache \<times> usize" where
  "cache_clear c = (c\<lparr>cache_entries := []\<rparr>, length (cache_entries c))"

definition cache_forget :: "id_token \<Rightarrow> authorization_cache \<Rightarrow> authorization_cache \<times> bool" where
  "cache_forget t c =
     (let kept = filter (\<lambda>e. \<not> same_token (cached_token e) t) (cache_entries c)
      in (c\<lparr>cache_entries := kept\<rparr>, length kept \<noteq> length (cache_entries c)))"

definition cache_replace ::
  "cache_entry list \<Rightarrow> authorization_cache \<Rightarrow> authorization_cache \<times> usize" where
  "cache_replace es c =
     (let dropped = length es - cache_max_entries c
      in (c\<lparr>cache_entries := drop dropped es\<rparr>, dropped))"

inductive cache_op :: "authorization_cache \<Rightarrow> authorization_cache \<Rightarrow> bool" where
  remember: "cache_remember t st ts c = Some c' \<Longrightarrow> cache_op c c'"
| clear: "cache_op c (fst (cache_clear c))"
| forget: "cache_op c (fst (cache_forget t c))"
| replace: "cache_op c (fst (cache_replace es c))"

definition cache_inv :: "authorization_cache \<Rightarrow> bool" where
  "cache_inv c = (1 \<le> cache_max_entries c \<and> length (cache_entries c) \<le> cache_max_entries c)"

lemma cache_remember_eq:
  "1 \<le> cache_max_entries c \<Longrightarrow>
   cache_remember t st ts c =
     (let kept = filter (\<lambda>e. \<not> same_token (cached_token e) t) (cache_entries c)
      in Some (c\<lparr>cache_entries := drop (Suc (length kept) - cache_max_entries c) kept
           @ [\<lparr>cached_token = t, cached_status = st, cached_at = ts\<rparr>]\<rparr>))"
  by (simp add: cache_remember_def evict_oldest_Some Let_def)

interpretation auth_cache:
  bounded_store "\<lambda>c. length (cache_entries c)" cache_max_entries cache_inv cache_op
proof
  show "cache_max_entries s' = cache_max_entries s" if "cache_op s s'" for s s'
    using that
    by cases (auto simp: cache_remember_def cache_clear_def cache_forget_def cache_replace_def Let_def)
  show "cache_inv s'" if "cache_op s s'" and "cache_inv s" for s s'
    using that
    by cases (auto simp: cache_inv_def cache_remember_eq cache_clear_def cache_forget_def
        cache_replace_def Let_def intro: order_trans [OF length_filter_le])
  show "length (cache_entries s) \<le> cache_max_entries s" if "cache_inv s" for s
    using that by (simp add: cache_inv_def)
qed

lemma cache_inv_init [simp]: "cache_inv (cache_with_max n)"
  by (simp add: cache_inv_def cache_with_max_def)

text \<open>
  What \<open>lookup\<close> returns after \<open>remember\<close>: the remembered decision for that identifier, and
  for another identifier whatever it returned before, unless that entry was evicted.
\<close>

lemma find_append_None:
  "(\<And>x. x \<in> set xs \<Longrightarrow> \<not> P x) \<Longrightarrow> List.find P (xs @ [y]) = (if P y then Some y else None)"
  by (induction xs) auto

lemma cache_remember_find:
  assumes "cache_inv c" and "cache_remember t st ts c = Some c'"
  shows "List.find (\<lambda>e. same_token (cached_token e) t) (cache_entries c')
    = Some \<lparr>cached_token = t, cached_status = st, cached_at = ts\<rparr>"
  using assms
  by (auto simp: cache_inv_def cache_remember_eq Let_def same_token_def dest!: in_set_dropD
      intro!: trans [OF find_append_None])

lemma cache_forget_find:
  "List.find (\<lambda>e. same_token (cached_token e) t) (cache_entries (fst (cache_forget t c))) = None"
  by (auto simp: cache_forget_def Let_def find_None_iff)

end
