(* ===== verification/Network_Profiles.thy ===== *)
theory Network_Profiles
  imports Store_Spec
begin

text \<open>
  \<open>src/state/network_profile.rs\<close>: the connection profiles a CSMS writes into numbered
  configuration slots, kept in slot order.
\<close>

datatype network_interface = Wired u8 | Wireless u8 | AnyInterface

datatype network_transport = TransportJson | TransportSoap

record network_connection_profile =
  csms_url :: string
  profile_interface :: network_interface
  profile_transport :: network_transport
  security_profile :: u8
  message_timeout_secs :: i64
  profile_identity :: "string option"

record network_profile_slot =
  slot_number :: i32
  slot_profile :: network_connection_profile

record network_profile_store =
  profile_slots :: "network_profile_slot list"
  max_slots :: usize

definition network_with_max_slots :: "usize \<Rightarrow> network_profile_store" where
  "network_with_max_slots n = \<lparr>profile_slots = [], max_slots = max n 1\<rparr>"

definition network_find :: "network_profile_store \<Rightarrow> i32 \<Rightarrow> network_profile_slot option" where
  "network_find s n = List.find (\<lambda>o'. slot_number o' = n) (profile_slots s)"

definition network_get :: "network_profile_store \<Rightarrow> i32 \<Rightarrow> network_connection_profile option" where
  "network_get s n = map_option slot_profile (network_find s n)"

definition network_set ::
  "i32 \<Rightarrow> network_connection_profile \<Rightarrow> network_profile_store \<Rightarrow> network_profile_store \<times> bool" where
  "network_set n p s =
     (if network_find s n \<noteq> None
      then (s\<lparr>profile_slots :=
              update_first (\<lambda>o'. slot_number o' = n) (\<lambda>o'. o'\<lparr>slot_profile := p\<rparr>) (profile_slots s)\<rparr>, True)
      else if max_slots s \<le> length (profile_slots s) then (s, False)
      else (s\<lparr>profile_slots :=
              sort_key slot_number (profile_slots s @ [\<lparr>slot_number = n, slot_profile = p\<rparr>])\<rparr>, True))"

definition network_replace ::
  "network_profile_slot list \<Rightarrow> network_profile_store \<Rightarrow> network_profile_store \<times> usize" where
  "network_replace slots s =
     (s\<lparr>profile_slots := take (max_slots s) (sort_key slot_number slots)\<rparr>,
      length slots - max_slots s)"

inductive network_op :: "network_profile_store \<Rightarrow> network_profile_store \<Rightarrow> bool" where
  set: "network_op s (fst (network_set n p s))"
| replace: "network_op s (fst (network_replace slots s))"

text \<open>Slots stay in ascending order, so that reports and the default priority list are.\<close>

definition network_inv :: "network_profile_store \<Rightarrow> bool" where
  "network_inv s =
     (length (profile_slots s) \<le> max_slots s \<and> sorted (map slot_number (profile_slots s)))"

lemma network_inv_init [simp]: "network_inv (network_with_max_slots n)"
  by (simp add: network_inv_def network_with_max_slots_def)

lemma slot_update_first:
  "map slot_number (update_first P (\<lambda>o'. o'\<lparr>slot_profile := p\<rparr>) xs) = map slot_number xs"
  by (rule map_update_first) simp

lemma find_sort_key_append:
  assumes "List.find (\<lambda>x. f x = f v) xs = None"
  shows "List.find (\<lambda>x. f x = k) (sort_key f (xs @ [v]))
    = (if k = f v then Some v else List.find (\<lambda>x. f x = k) xs)"
proof -
  have key: "List.find (\<lambda>x. f x = k) zs = (case filter (\<lambda>x. f x = k) zs of [] \<Rightarrow> None | z # _ \<Rightarrow> Some z)"
    for zs by (induction zs) auto
  have "filter (\<lambda>x. f x = k) (sort_key f (xs @ [v])) = filter (\<lambda>x. f x = k) (xs @ [v])"
    by (rule sort_key_stable)
  moreover have "filter (\<lambda>x. f x = f v) xs = []"
    using assms by (auto simp: find_None_iff filter_empty_conv)
  ultimately show ?thesis by (auto simp: key)
qed

lemma update_first_profile:
  "update_first (\<lambda>o'. slot_number o' = n) (\<lambda>o'. o'\<lparr>slot_profile := p\<rparr>) xs
   = update_first (\<lambda>o'. slot_number o' = n) (\<lambda>_. \<lparr>slot_number = n, slot_profile = p\<rparr>) xs"
  by (induction xs) auto

interpretation network: keyed_store "\<lambda>s. length (profile_slots s)" max_slots network_inv network_op
    slot_number network_find "\<lambda>v. network_set (slot_number v) (slot_profile v)"
proof
  show "max_slots s' = max_slots s" if "network_op s s'" for s s'
    using that by cases (auto simp: network_set_def network_replace_def)
  show "network_inv s'" if "network_op s s'" and "network_inv s" for s s'
    using that
    by cases (auto simp: network_inv_def network_set_def network_replace_def slot_update_first
        take_map [symmetric] sorted_wrt_take)
  show "length (profile_slots s) \<le> max_slots s" if "network_inv s" for s
    using that by (simp add: network_inv_def)
  show "network_op s (fst (network_set (slot_number v) (slot_profile v) s))" for s v
    by (rule network_op.set)
  show "network_find (fst (network_set (slot_number v) (slot_profile v) s)) k
      = (if k = slot_number v then Some v else network_find s k)"
    if "snd (network_set (slot_number v) (slot_profile v) s)" for s v k
    using that
    by (auto simp: network_set_def network_find_def update_first_profile find_update_first
        find_key_None_iff find_sort_key_append split: if_splits)
qed (auto simp: network_set_def)

end
