(* ===== verification/Event_Streams.thy ===== *)
theory Event_Streams
  imports Store_Spec
begin

text \<open>
  \<open>src/state/periodic_event_stream.rs\<close>: the periodic event streams the CSMS has open.
\<close>

type_synonym event_stream_id = i64
type_synonym variable_monitor_id = i64

record event_stream_params =
  interval_secs :: "i64 option"
  stream_values :: "i64 option"

record open_event_stream =
  stream_id :: event_stream_id
  stream_monitoring_id :: variable_monitor_id
  stream_params :: event_stream_params

datatype stream_open_rejection = TooManyStreams

record event_stream_store =
  streams :: "open_event_stream list"
  max_streams :: usize

definition streams_with_limit :: "usize \<Rightarrow> event_stream_store" where
  "streams_with_limit n = \<lparr>streams = [], max_streams = max n 1\<rparr>"

definition stream_get :: "event_stream_store \<Rightarrow> event_stream_id \<Rightarrow> open_event_stream option" where
  "stream_get s i = List.find (\<lambda>x. stream_id x = i) (streams s)"

definition stream_open ::
  "open_event_stream \<Rightarrow> event_stream_store \<Rightarrow> stream_open_rejection + event_stream_store" where
  "stream_open v s =
     (let replacing = list_ex (\<lambda>x. stream_id x = stream_id v) (streams s)
      in if \<not> replacing \<and> max_streams s \<le> length (streams s) then Inl TooManyStreams
         else Inr (s\<lparr>streams := filter (\<lambda>x. stream_id x \<noteq> stream_id v) (streams s) @ [v]\<rparr>))"

definition stream_close :: "event_stream_id \<Rightarrow> event_stream_store \<Rightarrow> event_stream_store \<times> bool" where
  "stream_close i s =
     (let kept = filter (\<lambda>x. stream_id x \<noteq> i) (streams s)
      in (s\<lparr>streams := kept\<rparr>, length kept \<noteq> length (streams s)))"

definition stream_adjust ::
  "event_stream_id \<Rightarrow> event_stream_params \<Rightarrow> event_stream_store \<Rightarrow> event_stream_store \<times> bool" where
  "stream_adjust i p s =
     (if stream_get s i \<noteq> None
      then (s\<lparr>streams :=
              update_first (\<lambda>x. stream_id x = i) (\<lambda>x. x\<lparr>stream_params := p\<rparr>) (streams s)\<rparr>, True)
      else (s, False))"

text \<open>An open as the event handler sees it: the store afterwards, and whether it took it.\<close>

definition stream_put :: "open_event_stream \<Rightarrow> event_stream_store \<Rightarrow> event_stream_store \<times> bool" where
  "stream_put v s = (case stream_open v s of Inl _ \<Rightarrow> (s, False) | Inr s' \<Rightarrow> (s', True))"

inductive stream_op :: "event_stream_store \<Rightarrow> event_stream_store \<Rightarrow> bool" where
  put: "stream_op s (fst (stream_put v s))"
| close: "stream_op s (fst (stream_close i s))"
| adjust: "stream_op s (fst (stream_adjust i p s))"

definition stream_inv :: "event_stream_store \<Rightarrow> bool" where
  "stream_inv s = (length (streams s) \<le> max_streams s \<and> distinct (map stream_id (streams s)))"

lemma stream_inv_init [simp]: "stream_inv (streams_with_limit n)"
  by (simp add: stream_inv_def streams_with_limit_def)

lemma stream_put_inv: "stream_inv s \<Longrightarrow> stream_inv (fst (stream_put v s))"
proof (cases "\<exists>x \<in> set (streams s). stream_id x = stream_id v")
  case True
  assume "stream_inv s"
  moreover have "length (filter (\<lambda>x. stream_id x \<noteq> stream_id v) (streams s) @ [v]) \<le> length (streams s)"
    by (rule drop_push_length) (use True in auto)
  ultimately show ?thesis
    by (auto simp: stream_inv_def stream_put_def stream_open_def Let_def list_ex_iff distinct_map_filter)
next
  case False
  assume "stream_inv s"
  with False show ?thesis
    by (auto simp: stream_inv_def stream_put_def stream_open_def Let_def list_ex_iff
        distinct_map_filter not_le Suc_le_eq intro: le_less_trans [OF length_filter_le])
qed

interpretation event_streams: removable_store "\<lambda>s. length (streams s)" max_streams stream_inv
    stream_op stream_id stream_get stream_put stream_close
proof
  show "max_streams s' = max_streams s" if "stream_op s s'" for s s'
    using that
    by cases (auto simp: stream_put_def stream_open_def stream_close_def stream_adjust_def Let_def)
  show "stream_inv s'" if "stream_op s s'" and "stream_inv s" for s s'
    using that
  proof cases
    case (put v)
    with that show ?thesis by (simp add: stream_put_inv)
  next
    case (close i)
    with that show ?thesis
      by (auto simp: stream_inv_def stream_close_def Let_def distinct_map_filter
          intro: order_trans [OF length_filter_le])
  next
    case (adjust i p)
    with that show ?thesis
      by (auto simp: stream_inv_def stream_adjust_def map_update_first)
  qed
  show "length (streams s) \<le> max_streams s" if "stream_inv s" for s
    using that by (simp add: stream_inv_def)
  show "stream_op s (fst (stream_put v s))" for s v by (rule stream_op.put)
  show "stream_op s (fst (stream_close k s))" for s k by (rule stream_op.close)
qed (auto simp: stream_put_def stream_open_def stream_close_def stream_get_def Let_def
    list_ex_key_iff find_key_None_iff find_drop_push find_key_filter filter_key_neq_iff
    split: if_splits)

end
