(* ===== verification/Battery_Swaps.thy ===== *)
theory Battery_Swaps
  imports Store_Spec Identity
begin

text \<open>
  \<open>src/state/battery_swap.rs\<close>: the battery swaps the CSMS has requested and the station has
  not reported yet.
\<close>

type_synonym battery_swap_request_id = i64

datatype battery_swap_event_kind = BatteryIn | BatteryOut | BatteryOutTimeout

record battery_data =
  battery_evse_id :: usize
  serial_number :: string
  state_of_charge :: string
  state_of_health :: string
  production_date :: "date_time option"
  vendor_info :: "string option"

record battery_swap_event =
  swap_request_id :: battery_swap_request_id
  swap_event_type :: battery_swap_event_kind
  swap_id_token :: id_token
  battery_data_of :: "battery_data list"

record pending_battery_swap =
  pending_request_id :: battery_swap_request_id
  pending_swap_token :: id_token

record battery_swap_store =
  pending_swaps :: "pending_battery_swap list"
  max_pending :: usize

definition swaps_with_max_pending :: "usize \<Rightarrow> battery_swap_store" where
  "swaps_with_max_pending n = \<lparr>pending_swaps = [], max_pending = max n 1\<rparr>"

definition swap_get :: "battery_swap_store \<Rightarrow> battery_swap_request_id \<Rightarrow> pending_battery_swap option" where
  "swap_get s i = List.find (\<lambda>p. pending_request_id p = i) (pending_swaps s)"

definition swap_insert :: "pending_battery_swap \<Rightarrow> battery_swap_store \<Rightarrow> battery_swap_store \<times> bool" where
  "swap_insert v s =
     (if swap_get s (pending_request_id v) \<noteq> None
      then (s\<lparr>pending_swaps :=
              update_first (\<lambda>p. pending_request_id p = pending_request_id v) (\<lambda>_. v) (pending_swaps s)\<rparr>, True)
      else if max_pending s \<le> length (pending_swaps s) then (s, False)
      else (s\<lparr>pending_swaps := pending_swaps s @ [v]\<rparr>, True))"

definition swap_remove ::
  "battery_swap_request_id \<Rightarrow> battery_swap_store \<Rightarrow> battery_swap_store \<times> pending_battery_swap option" where
  "swap_remove i s =
     (case swap_get s i of
        None \<Rightarrow> (s, None)
      | Some v \<Rightarrow>
          (s\<lparr>pending_swaps := remove_first (\<lambda>p. pending_request_id p = i) (pending_swaps s)\<rparr>, Some v))"

inductive swap_op :: "battery_swap_store \<Rightarrow> battery_swap_store \<Rightarrow> bool" where
  insert: "swap_op s (fst (swap_insert v s))"
| remove: "swap_op s (fst (swap_remove i s))"

definition swap_inv :: "battery_swap_store \<Rightarrow> bool" where
  "swap_inv s =
     (length (pending_swaps s) \<le> max_pending s
      \<and> distinct (map pending_request_id (pending_swaps s)))"

lemma swap_inv_init [simp]: "swap_inv (swaps_with_max_pending n)"
  by (simp add: swap_inv_def swaps_with_max_pending_def)

interpretation battery_swaps: removable_store "\<lambda>s. length (pending_swaps s)" max_pending swap_inv
    swap_op pending_request_id swap_get swap_insert
    "\<lambda>i s. (fst (swap_remove i s), snd (swap_remove i s) \<noteq> None)"
proof
  show "max_pending s' = max_pending s" if "swap_op s s'" for s s'
    using that by cases (auto simp: swap_insert_def swap_remove_def split: option.splits)
  show "swap_inv s'" if "swap_op s s'" and "swap_inv s" for s s'
    using that
    by cases (auto simp: swap_inv_def swap_insert_def swap_remove_def swap_get_def
        map_key_update_first find_key_None_iff length_remove_first distinct_map_remove_first
        split: option.splits)
  show "length (pending_swaps s) \<le> max_pending s" if "swap_inv s" for s
    using that by (simp add: swap_inv_def)
  show "swap_op s (fst (swap_insert v s))" for s v by (rule swap_op.insert)
  show "swap_op s (fst (fst (swap_remove k s), snd (swap_remove k s) \<noteq> None))" for s k
    by (simp add: swap_op.remove)
  show "swap_get (fst (swap_insert v s)) k = (if k = pending_request_id v then Some v else swap_get s k)"
    if "snd (swap_insert v s)" for s v k
    using that
    by (auto simp: swap_insert_def swap_get_def find_update_first find_key_None_iff find_push_new
        split: if_splits)
  show "swap_get (fst (fst (swap_remove k s), snd (swap_remove k s) \<noteq> None)) j
      = (if j = k then None else swap_get s j)" if "swap_inv s" for s k j
    using that
    by (auto simp: swap_inv_def swap_remove_def swap_get_def find_remove_first split: option.splits)
qed (auto simp: swap_insert_def swap_remove_def split: option.splits)

end
