(* ===== verification/Der_Controls.thy ===== *)
theory Der_Controls
  imports Store_Spec Float64
begin

text \<open>
  \<open>src/state/der_control.rs\<close>: the distributed-energy-resource controls the CSMS has
  installed, stored and reported but not actuated, and the last aFRR signal.
\<close>

type_synonym der_control_id = string

datatype der_control_kind =
    EnterServiceKind | FreqDroopKind | FreqWatt | FixedPFAbsorb | FixedPFInject | FixedVarKind
  | Gradients | HFMustTrip | HFMayTrip | HVMustTrip | HVMomCess | HVMayTrip
  | LimitMaxDischargeKind | LFMustTrip | LVMustTrip | LVMomCess | LVMayTrip
  | PowerMonitoringMustTrip | VoltVar | VoltWatt | WattPF | WattVar

record der_curve_point =
  curve_x :: f64
  curve_y :: f64

datatype der_unit = NotApplicable | PctMaxW | PctMaxVar | PctWAvail | PctVarAvail | PctEffectiveV

record der_curve_settings =
  curve_data :: "der_curve_point list"
  curve_priority :: i64
  curve_duration_secs :: "f64 option"
  curve_response_time_secs :: "f64 option"
  curve_start_time :: "date_time option"
  curve_y_unit :: der_unit

record enter_service_settings =
  enter_priority :: i64
  enter_high_voltage :: f64
  enter_low_voltage :: f64
  enter_high_freq :: f64
  enter_low_freq :: f64
  enter_delay_secs :: "f64 option"
  enter_ramp_rate_secs :: "f64 option"
  enter_random_delay_secs :: "f64 option"

record fixed_pf_settings =
  pf_priority :: i64
  pf_displacement :: f64
  pf_excitation :: bool
  pf_duration_secs :: "f64 option"
  pf_start_time :: "date_time option"

record fixed_var_settings =
  var_priority :: i64
  var_setpoint :: f64
  var_unit :: der_unit
  var_duration_secs :: "f64 option"
  var_start_time :: "date_time option"

record freq_droop_settings =
  droop_priority :: i64
  over_freq :: f64
  over_droop :: f64
  under_freq :: f64
  under_droop :: f64
  droop_response_time_secs :: f64
  droop_duration_secs :: "f64 option"
  droop_start_time :: "date_time option"

record gradient_settings =
  gradient_priority :: i64
  gradient_value :: f64
  soft_gradient :: f64

record limit_max_discharge_settings =
  discharge_priority :: i64
  pct_max_discharge_power :: "f64 option"
  power_monitoring_must_trip :: "der_curve_settings option"
  discharge_duration_secs :: "f64 option"
  discharge_start_time :: "date_time option"

datatype der_control_settings =
    Curve der_curve_settings
  | EnterService enter_service_settings
  | FixedPf fixed_pf_settings
  | FixedVar fixed_var_settings
  | FreqDroop freq_droop_settings
  | Gradient gradient_settings
  | LimitMaxDischarge limit_max_discharge_settings

record installed_der_control =
  der_id :: der_control_id
  der_kind :: der_control_kind
  der_is_default :: bool
  der_settings :: der_control_settings

datatype der_control_rejection = TooManyControls

record der_control_query =
  query_id :: "der_control_id option"
  query_kind :: "der_control_kind option"
  query_is_default :: "bool option"

definition der_query_matches :: "der_control_query \<Rightarrow> installed_der_control \<Rightarrow> bool" where
  "der_query_matches q c =
     (is_none_or (query_id q) (\<lambda>i. i = der_id c)
      \<and> is_none_or (query_kind q) (\<lambda>k. k = der_kind c)
      \<and> is_none_or (query_is_default q) (\<lambda>d. d = der_is_default c))"

record der_control_store =
  controls :: "installed_der_control list"
  max_controls :: usize

definition der_with_limit :: "usize \<Rightarrow> der_control_store" where
  "der_with_limit n = \<lparr>controls = [], max_controls = max n 1\<rparr>"

definition der_install ::
  "installed_der_control \<Rightarrow> der_control_store \<Rightarrow> der_control_rejection + der_control_store" where
  "der_install v s =
     (let replaced = list_ex (\<lambda>c. der_id c = der_id v) (controls s)
      in if \<not> replaced \<and> max_controls s \<le> length (controls s) then Inl TooManyControls
         else Inr (s\<lparr>controls := filter (\<lambda>c. der_id c \<noteq> der_id v) (controls s) @ [v]\<rparr>))"

definition der_matching :: "der_control_query \<Rightarrow> der_control_store \<Rightarrow> installed_der_control list" where
  "der_matching q s = filter (der_query_matches q) (controls s)"

definition der_clear :: "der_control_query \<Rightarrow> der_control_store \<Rightarrow> der_control_store \<times> der_control_id list" where
  "der_clear q s =
     (s\<lparr>controls := filter (\<lambda>c. \<not> der_query_matches q c) (controls s)\<rparr>,
      map der_id (filter (der_query_matches q) (controls s)))"

record afrr_signal =
  afrr_value :: i64
  afrr_timestamp :: date_time

definition der_put :: "installed_der_control \<Rightarrow> der_control_store \<Rightarrow> der_control_store \<times> bool" where
  "der_put v s = (case der_install v s of Inl _ \<Rightarrow> (s, False) | Inr s' \<Rightarrow> (s', True))"

text \<open>The entry and the removal of one control, by its id.\<close>

definition der_find :: "der_control_store \<Rightarrow> der_control_id \<Rightarrow> installed_der_control option" where
  "der_find s i = List.find (\<lambda>c. der_id c = i) (controls s)"

definition der_query_by_id :: "der_control_id \<Rightarrow> der_control_query" where
  "der_query_by_id i = \<lparr>query_id = Some i, query_kind = None, query_is_default = None\<rparr>"

definition der_clear_id :: "der_control_id \<Rightarrow> der_control_store \<Rightarrow> der_control_store \<times> bool" where
  "der_clear_id i s = (fst (der_clear (der_query_by_id i) s), snd (der_clear (der_query_by_id i) s) \<noteq> [])"

inductive der_op :: "der_control_store \<Rightarrow> der_control_store \<Rightarrow> bool" where
  install: "der_op s (fst (der_put v s))"
| clear: "der_op s (fst (der_clear q s))"

definition der_inv :: "der_control_store \<Rightarrow> bool" where
  "der_inv s = (length (controls s) \<le> max_controls s \<and> distinct (map der_id (controls s)))"

lemma der_inv_init [simp]: "der_inv (der_with_limit n)"
  by (simp add: der_inv_def der_with_limit_def)

lemma der_put_inv: "der_inv s \<Longrightarrow> der_inv (fst (der_put v s))"
proof (cases "\<exists>c \<in> set (controls s). der_id c = der_id v")
  case True
  assume "der_inv s"
  moreover have "length (filter (\<lambda>c. der_id c \<noteq> der_id v) (controls s) @ [v]) \<le> length (controls s)"
    by (rule drop_push_length) (use True in auto)
  ultimately show ?thesis
    by (auto simp: der_inv_def der_put_def der_install_def Let_def list_ex_iff distinct_map_filter)
next
  case False
  assume "der_inv s"
  with False show ?thesis
    by (auto simp: der_inv_def der_put_def der_install_def Let_def list_ex_iff
        distinct_map_filter not_le Suc_le_eq intro: le_less_trans [OF length_filter_le])
qed

lemma der_query_by_id_matches [simp]: "der_query_matches (der_query_by_id i) c \<longleftrightarrow> der_id c = i"
  by (auto simp: der_query_matches_def der_query_by_id_def)

interpretation der_controls: removable_store "\<lambda>s. length (controls s)" max_controls der_inv
    der_op der_id der_find der_put der_clear_id
proof
  show "max_controls s' = max_controls s" if "der_op s s'" for s s'
    using that by cases (auto simp: der_put_def der_install_def der_clear_def Let_def)
  show "der_inv s'" if "der_op s s'" and "der_inv s" for s s'
    using that
  proof cases
    case (install v)
    with that show ?thesis by (simp add: der_put_inv)
  next
    case (clear q)
    with that show ?thesis
      by (auto simp: der_inv_def der_clear_def distinct_map_filter
          intro: order_trans [OF length_filter_le])
  qed
  show "length (controls s) \<le> max_controls s" if "der_inv s" for s
    using that by (simp add: der_inv_def)
  show "der_op s (fst (der_put v s))" for s v by (rule der_op.install)
  show "der_op s (fst (der_clear_id k s))" for s k
    by (simp add: der_clear_id_def der_op.clear)
qed (auto simp: der_put_def der_install_def der_clear_id_def der_clear_def der_find_def Let_def
    list_ex_key_iff find_key_None_iff find_drop_push find_key_filter filter_empty_conv
    split: if_splits)

end
