(* ===== verification/Charging_Profiles.thy ===== *)
theory Charging_Profiles
  imports Store_Spec Float64 Display_Messages
begin

text \<open>
  \<open>src/state/charging_profile.rs\<close>: charging schedules and profiles, what makes a profile
  acceptable, and the store of the profiles the CSMS has installed.
\<close>

type_synonym charging_profile_id = i32

datatype charging_profile_purpose =
  ChargePointMax | TxDefault | TxPurpose | ExternalConstraints | LocalGeneration | PriorityCharging

definition caps_the_result :: "charging_profile_purpose \<Rightarrow> bool" where
  "caps_the_result p = (p = ChargePointMax \<or> p = ExternalConstraints)"

definition adds_to_the_result :: "charging_profile_purpose \<Rightarrow> bool" where
  "adds_to_the_result p = (p = LocalGeneration)"

datatype charging_profile_kind = AbsoluteKind | RecurringKind | RelativeKind | DynamicKind

datatype recurrency_kind = Daily | Weekly

fun period_secs :: "recurrency_kind \<Rightarrow> i64" where
  "period_secs Daily = 24 * 60 * 60"
| "period_secs Weekly = 7 * 24 * 60 * 60"

datatype charging_rate_unit = Amps | Watts

section \<open>Schedules\<close>

record charging_schedule_period =
  start_period_secs :: u32
  period_limit :: f64
  number_phases :: "u8 option"

record charging_schedule =
  schedule_id :: i32
  start_schedule :: "date_time option"
  duration_secs :: "u32 option"
  rate_unit :: charging_rate_unit
  min_charging_rate :: "f64 option"
  periods :: "charging_schedule_period list"

abbreviation period_start :: "charging_schedule_period \<Rightarrow> i64" where
  "period_start p \<equiv> uint (start_period_secs p)"

definition limit_at :: "charging_schedule \<Rightarrow> i64 \<Rightarrow> charging_schedule_period option" where
  "limit_at s elapsed =
     (if elapsed < 0 then None
      else if is_some_and (duration_secs s) (\<lambda>d. uint d \<le> elapsed) then None
      else List.find (\<lambda>p. period_start p \<le> elapsed) (rev (periods s)))"

definition next_change_after :: "charging_schedule \<Rightarrow> i64 \<Rightarrow> i64 option" where
  "next_change_after s elapsed =
     (let next_period = List.find (\<lambda>t. elapsed < t) (map period_start (periods s));
          ending = map_option uint (duration_secs s)
      in case (next_period, ending) of
           (Some next, Some e) \<Rightarrow> Some (min next e)
         | (Some next, None) \<Rightarrow> Some next
         | (None, Some e) \<Rightarrow> if elapsed < e then Some e else None
         | (None, None) \<Rightarrow> None)"

text \<open>
  Between an instant inside the schedule and its next change, the limit in force is the
  same; this is what lets the projection sleep until a period boundary.
\<close>

lemma find_Some_le_sorted:
  assumes "sorted xs" and "List.find (\<lambda>t. e < t) xs = Some n" and "x \<in> set xs" and "e < x"
  shows "n \<le> (x::int)"
  using assms by (induction xs) (auto split: if_splits)

lemma find_cong_set: "(\<And>x. x \<in> set xs \<Longrightarrow> P x = Q x) \<Longrightarrow> List.find P xs = List.find Q xs"
  by (induction xs) auto

lemma limit_at_constant:
  assumes sorted: "sorted (map period_start (periods s))"
    and inside: "0 \<le> e" "is_none_or (duration_secs s) (\<lambda>d. e < uint d)"
    and t: "e \<le> t" "is_none_or (next_change_after s e) (\<lambda>n. t < n)"
  shows "limit_at s t = limit_at s e"
proof -
  have below: "(period_start p \<le> t) = (period_start p \<le> e)" if p: "p \<in> set (periods s)" for p
  proof (rule ccontr)
    assume "\<not> ?thesis"
    with t(1) have later: "e < period_start p" and "period_start p \<le> t" by auto
    then have "List.find (\<lambda>t. e < t) (map period_start (periods s)) \<noteq> None"
      using p by (auto simp: find_None_iff)
    then obtain n where n: "List.find (\<lambda>t. e < t) (map period_start (periods s)) = Some n"
      by blast
    with p later have "n \<le> period_start p"
      by (intro find_Some_le_sorted [OF sorted n]) auto
    moreover from t(2) n have "t < n"
      by (auto simp: next_change_after_def split: option.splits)
    ultimately show False using \<open>period_start p \<le> t\<close> by simp
  qed
  have "is_some_and (duration_secs s) (\<lambda>d. uint d \<le> t) = is_some_and (duration_secs s) (\<lambda>d. uint d \<le> e)"
  proof (cases "duration_secs s")
    case (Some d)
    with inside t show ?thesis
      by (auto simp: next_change_after_def Let_def split: option.splits)
  qed simp
  moreover have "List.find (\<lambda>p. period_start p \<le> t) (rev (periods s))
      = List.find (\<lambda>p. period_start p \<le> e) (rev (periods s))"
    by (rule find_cong_set) (use below in auto)
  ultimately show ?thesis using inside t(1) by (simp add: limit_at_def)
qed

section \<open>Profiles\<close>

record charging_profile =
  profile_id :: charging_profile_id
  stack_level :: u32
  profile_purpose :: charging_profile_purpose
  profile_kind :: charging_profile_kind
  recurrency :: "recurrency_kind option"
  valid_from :: "date_time option"
  valid_to :: "date_time option"
  profile_transaction_id :: "transaction_id option"
  schedules :: "charging_schedule list"
  dyn_update_interval_secs :: "u32 option"
  dyn_update_time :: "date_time option"

text \<open>\<open>chrono::Duration::seconds\<close>, in nanoseconds.\<close>

definition duration_seconds :: "int \<Rightarrow> int" where
  "duration_seconds n = n * 1000000000"

definition schedule_in :: "charging_profile \<Rightarrow> charging_rate_unit \<Rightarrow> charging_schedule option" where
  "schedule_in p u = List.find (\<lambda>s. rate_unit s = u) (schedules p)"

definition dynamic_updates_are_stale :: "charging_profile \<Rightarrow> date_time \<Rightarrow> bool" where
  "dynamic_updates_are_stale p now =
     (if profile_kind p \<noteq> DynamicKind then False
      else case (case schedules p of [] \<Rightarrow> None | s # _ \<Rightarrow> duration_secs s) of
             None \<Rightarrow> False
           | Some d \<Rightarrow>
               is_some_and (dyn_update_time p) (\<lambda>u. u + duration_seconds (uint d) < now))"

definition profile_is_valid_at :: "charging_profile \<Rightarrow> date_time \<Rightarrow> bool" where
  "profile_is_valid_at p now =
     (is_none_or (valid_from p) (\<lambda>f. f \<le> now) \<and> is_none_or (valid_to p) (\<lambda>t. now < t)
      \<and> \<not> dynamic_updates_are_stale p now)"

datatype charging_profile_scope = ScopeChargePoint | ScopeEvse usize

datatype charging_limit_source = Ems | Cso | So | OtherSource

fun limit_source_name :: "charging_limit_source \<Rightarrow> string" where
  "limit_source_name Ems = ''EMS''"
| "limit_source_name Cso = ''CSO''"
| "limit_source_name So = ''SO''"
| "limit_source_name OtherSource = ''Other''"

record installed_profile =
  installed_scope :: charging_profile_scope
  installed_of :: charging_profile
  installed_source :: charging_limit_source

record profile_criteria =
  criteria_id :: "charging_profile_id option"
  criteria_scope :: "charging_profile_scope option"
  criteria_purpose :: "charging_profile_purpose option"
  criteria_stack_level :: "u32 option"

definition criteria_matches :: "profile_criteria \<Rightarrow> installed_profile \<Rightarrow> bool" where
  "criteria_matches c i =
     (\<not> (profile_purpose (installed_of i) = ExternalConstraints
         \<or> profile_purpose (installed_of i) = LocalGeneration)
      \<and> is_none_or (criteria_id c) (\<lambda>x. profile_id (installed_of i) = x)
      \<and> is_none_or (criteria_scope c) (\<lambda>x. installed_scope i = x)
      \<and> is_none_or (criteria_purpose c) (\<lambda>x. profile_purpose (installed_of i) = x)
      \<and> is_none_or (criteria_stack_level c) (\<lambda>x. stack_level (installed_of i) = x))"

record profile_query =
  pq_ids :: "charging_profile_id list"
  pq_scope :: "charging_profile_scope option"
  pq_purpose :: "charging_profile_purpose option"
  pq_stack_level :: "u32 option"
  pq_sources :: "charging_limit_source list"

definition profile_query_matches :: "profile_query \<Rightarrow> installed_profile \<Rightarrow> bool" where
  "profile_query_matches q i =
     ((pq_ids q = [] \<or> profile_id (installed_of i) \<in> set (pq_ids q))
      \<and> is_none_or (pq_scope q) (\<lambda>x. installed_scope i = x)
      \<and> is_none_or (pq_purpose q) (\<lambda>x. profile_purpose (installed_of i) = x)
      \<and> is_none_or (pq_stack_level q) (\<lambda>x. stack_level (installed_of i) = x)
      \<and> (pq_sources q = [] \<or> installed_source i \<in> set (pq_sources q)))"

datatype profile_rejection =
    TooManyProfiles
  | NoSchedule
  | ScopeNotAllowedForPurpose string
  | InvalidDynamicSchedule string
  | DynUpdateIntervalOnNonDynamicProfile

section \<open>The store\<close>

record charging_profile_store =
  profiles :: "installed_profile list"
  max_profiles :: usize

definition profiles_with_limit :: "usize \<Rightarrow> charging_profile_store" where
  "profiles_with_limit n = \<lparr>profiles = [], max_profiles = max n 1\<rparr>"

definition check_dynamic_shape :: "charging_profile \<Rightarrow> profile_rejection option" where
  "check_dynamic_shape p =
     (if profile_kind p \<noteq> DynamicKind
      then (case dyn_update_interval_secs p of
              Some _ \<Rightarrow> Some DynUpdateIntervalOnNonDynamicProfile
            | None \<Rightarrow> None)
      else case schedules p of
        [s] \<Rightarrow>
          (case periods s of
             [q] \<Rightarrow>
               if start_period_secs q \<noteq> 0
               then Some (InvalidDynamicSchedule
                 ''a Dynamic profile's period starts at 0 - it takes effect on receipt'')
               else None
           | _ \<Rightarrow> Some (InvalidDynamicSchedule
                 ''a Dynamic profile's schedule carries exactly one period''))
      | _ \<Rightarrow> Some (InvalidDynamicSchedule
                 ''a Dynamic profile carries exactly one charging schedule''))"

definition superseded :: "charging_profile_scope \<Rightarrow> charging_profile \<Rightarrow> installed_profile \<Rightarrow> bool" where
  "superseded scope p i =
     (profile_id (installed_of i) = profile_id p
      \<or> (installed_scope i = scope \<and> profile_purpose (installed_of i) = profile_purpose p
         \<and> stack_level (installed_of i) = stack_level p))"

definition profile_install ::
  "charging_profile_scope \<Rightarrow> charging_profile \<Rightarrow> charging_profile_store
   \<Rightarrow> profile_rejection + charging_profile_store" where
  "profile_install scope p s =
     (if schedules p = [] then Inl NoSchedule
      else case check_dynamic_shape p of
        Some r \<Rightarrow> Inl r
      | None \<Rightarrow>
          if scope = ScopeChargePoint \<and> profile_purpose p = TxPurpose
          then Inl (ScopeNotAllowedForPurpose
            ''a TxProfile must be installed against an EVSE, not charge-point-wide'')
          else if \<not> list_ex (superseded scope p) (profiles s)
                  \<and> max_profiles s \<le> length (profiles s)
          then Inl TooManyProfiles
          else Inr (s\<lparr>profiles := filter (\<lambda>i. \<not> superseded scope p i) (profiles s)
                 @ [\<lparr>installed_scope = scope, installed_of = p, installed_source = Cso\<rparr>]\<rparr>))"

definition set_first_period_limit :: "f64 \<Rightarrow> charging_profile \<Rightarrow> charging_profile" where
  "set_first_period_limit l p =
     (case schedules p of
        [] \<Rightarrow> p
      | s # ss \<Rightarrow>
          (case periods s of
             [] \<Rightarrow> p
           | q # qs \<Rightarrow> p\<lparr>schedules := s\<lparr>periods := q\<lparr>period_limit := l\<rparr> # qs\<rparr> # ss\<rparr>))"

definition touch_dynamic :: "f64 option \<Rightarrow> date_time \<Rightarrow> installed_profile \<Rightarrow> installed_profile" where
  "touch_dynamic limit updated_at x =
     x\<lparr>installed_of :=
        (case limit of None \<Rightarrow> installed_of x
         | Some l \<Rightarrow> set_first_period_limit l (installed_of x))
        \<lparr>dyn_update_time := Some updated_at\<rparr>\<rparr>"

definition apply_dynamic_update ::
  "charging_profile_id \<Rightarrow> f64 option \<Rightarrow> date_time \<Rightarrow> charging_profile_store
   \<Rightarrow> charging_profile_store \<times> bool" where
  "apply_dynamic_update i limit updated_at s =
     (case List.find (\<lambda>x. profile_id (installed_of x) = i) (profiles s) of
        None \<Rightarrow> (s, False)
      | Some found \<Rightarrow>
          if profile_kind (installed_of found) \<noteq> DynamicKind then (s, False)
          else (s\<lparr>profiles :=
                 update_first (\<lambda>x. profile_id (installed_of x) = i)
                   (touch_dynamic limit updated_at) (profiles s)\<rparr>, True))"

definition dynamic_pulls_due :: "charging_profile_store \<Rightarrow> date_time \<Rightarrow> charging_profile_id list" where
  "dynamic_pulls_due s now =
     map (\<lambda>i. profile_id (installed_of i))
       (filter (\<lambda>i. case opt_filter (\<lambda>n. 0 < n) (dyn_update_interval_secs (installed_of i)) of
            None \<Rightarrow> False
          | Some n \<Rightarrow> is_none_or (dyn_update_time (installed_of i))
                         (\<lambda>u. u + duration_seconds (uint n) \<le> now))
         (filter (\<lambda>i. profile_kind (installed_of i) = DynamicKind) (profiles s)))"

definition profile_clear :: "profile_criteria \<Rightarrow> charging_profile_store \<Rightarrow> charging_profile_store \<times> usize" where
  "profile_clear c s =
     (let kept = filter (\<lambda>i. \<not> criteria_matches c i) (profiles s)
      in (s\<lparr>profiles := kept\<rparr>, length (profiles s) - length kept))"

definition profiles_matching :: "profile_criteria \<Rightarrow> charging_profile_store \<Rightarrow> installed_profile list" where
  "profiles_matching c s = filter (criteria_matches c) (profiles s)"

definition profiles_selected_by :: "profile_query \<Rightarrow> charging_profile_store \<Rightarrow> installed_profile list" where
  "profiles_selected_by q s = filter (profile_query_matches q) (profiles s)"

definition profiles_applying_to :: "usize \<Rightarrow> charging_profile_store \<Rightarrow> installed_profile list" where
  "profiles_applying_to evse s =
     filter (\<lambda>i. case installed_scope i of ScopeChargePoint \<Rightarrow> True | ScopeEvse e \<Rightarrow> e = evse)
       (profiles s)"

inductive profile_op :: "charging_profile_store \<Rightarrow> charging_profile_store \<Rightarrow> bool" where
  install: "profile_install scope p s = Inr s' \<Longrightarrow> profile_op s s'"
| dynamic_update: "profile_op s (fst (apply_dynamic_update i l u s))"
| clear: "profile_op s (fst (profile_clear c s))"

text \<open>
  What the store keeps: the maximum, one profile per id, one per scope, purpose and stack
  level, and only profiles the acceptance rules let in.
\<close>

definition acceptable :: "installed_profile \<Rightarrow> bool" where
  "acceptable i =
     (schedules (installed_of i) \<noteq> [] \<and> check_dynamic_shape (installed_of i) = None
      \<and> \<not> (installed_scope i = ScopeChargePoint \<and> profile_purpose (installed_of i) = TxPurpose))"

definition profile_slot :: "installed_profile \<Rightarrow> charging_profile_scope \<times> charging_profile_purpose \<times> u32" where
  "profile_slot i =
     (installed_scope i, profile_purpose (installed_of i), stack_level (installed_of i))"

definition profiles_inv :: "charging_profile_store \<Rightarrow> bool" where
  "profiles_inv s =
     (length (profiles s) \<le> max_profiles s
      \<and> distinct (map (\<lambda>i. profile_id (installed_of i)) (profiles s))
      \<and> distinct (map profile_slot (profiles s))
      \<and> list_all acceptable (profiles s))"

lemma profiles_inv_init [simp]: "profiles_inv (profiles_with_limit n)"
  by (simp add: profiles_inv_def profiles_with_limit_def)

lemma profile_install_InrD:
  assumes "profile_install scope p s = Inr s'"
  shows "s' = s\<lparr>profiles := filter (\<lambda>i. \<not> superseded scope p i) (profiles s)
      @ [\<lparr>installed_scope = scope, installed_of = p, installed_source = Cso\<rparr>]\<rparr>"
    and "acceptable \<lparr>installed_scope = scope, installed_of = p, installed_source = Cso\<rparr>"
    and "list_ex (superseded scope p) (profiles s) \<or> length (profiles s) < max_profiles s"
  using assms
  by (auto simp: profile_install_def acceptable_def split: if_splits option.splits)

lemma profile_install_inv:
  assumes "profiles_inv s" and ins: "profile_install scope p s = Inr s'"
  shows "profiles_inv s'"
proof -
  let ?new = "\<lparr>installed_scope = scope, installed_of = p, installed_source = Cso\<rparr>"
  have "length (filter (\<lambda>i. \<not> superseded scope p i) (profiles s) @ [?new]) \<le> max_profiles s"
  proof (cases "list_ex (superseded scope p) (profiles s)")
    case True
    then have "length (filter (\<lambda>i. \<not> superseded scope p i) (profiles s) @ [?new]) \<le> length (profiles s)"
      by (intro drop_push_length) (auto simp: list_ex_iff)
    with assms(1) show ?thesis by (simp add: profiles_inv_def)
  next
    case False
    with profile_install_InrD(3) [OF ins] show ?thesis
      by (auto simp: Suc_le_eq intro: le_less_trans [OF length_filter_le])
  qed
  moreover have "distinct (map (\<lambda>i. profile_id (installed_of i))
      (filter (\<lambda>i. \<not> superseded scope p i) (profiles s) @ [?new]))"
    by (rule distinct_map_filter_append)
      (use assms(1) in \<open>auto simp: profiles_inv_def superseded_def\<close>)
  moreover have "distinct (map profile_slot
      (filter (\<lambda>i. \<not> superseded scope p i) (profiles s) @ [?new]))"
    by (rule distinct_map_filter_append)
      (use assms(1) in \<open>auto simp: profiles_inv_def superseded_def profile_slot_def\<close>)
  ultimately show ?thesis
    using assms(1) profile_install_InrD(1,2) [OF ins]
    by (auto simp: profiles_inv_def list_all_iff)
qed

lemma set_first_period_limit_frame [simp]:
  "profile_id (set_first_period_limit l p) = profile_id p"
  "profile_purpose (set_first_period_limit l p) = profile_purpose p"
  "profile_kind (set_first_period_limit l p) = profile_kind p"
  "stack_level (set_first_period_limit l p) = stack_level p"
  "dyn_update_interval_secs (set_first_period_limit l p) = dyn_update_interval_secs p"
  "schedules (set_first_period_limit l p) = [] \<longleftrightarrow> schedules p = []"
  by (auto simp: set_first_period_limit_def split: list.splits)

lemma check_dynamic_shape_set_limit [simp]:
  "check_dynamic_shape (set_first_period_limit l p) = check_dynamic_shape p"
  by (auto simp: check_dynamic_shape_def set_first_period_limit_def split: list.splits)

lemma check_dynamic_shape_touch [simp]:
  "check_dynamic_shape (p\<lparr>dyn_update_time := u\<rparr>) = check_dynamic_shape p"
  by (simp add: check_dynamic_shape_def)

lemma touch_dynamic_frame [simp]:
  "profile_id (installed_of (touch_dynamic l u x)) = profile_id (installed_of x)"
  "profile_slot (touch_dynamic l u x) = profile_slot x"
  "acceptable (touch_dynamic l u x) = acceptable x"
  by (simp_all add: touch_dynamic_def profile_slot_def acceptable_def split: option.split)

lemma list_all_update_first:
  "(\<And>x. Q (f x) = Q x) \<Longrightarrow> list_all Q (update_first P f xs) = list_all Q xs"
  by (induction xs) auto

lemma apply_dynamic_update_inv:
  "profiles_inv s \<Longrightarrow> profiles_inv (fst (apply_dynamic_update i l u s))"
  by (auto simp: profiles_inv_def apply_dynamic_update_def map_update_first list_all_update_first
      split: option.splits)

interpretation charging_profiles: bounded_store "\<lambda>s. length (profiles s)" max_profiles
    profiles_inv profile_op
proof
  show "max_profiles s' = max_profiles s" if "profile_op s s'" for s s'
    using that
    by cases (auto simp: apply_dynamic_update_def profile_clear_def Let_def
        dest: profile_install_InrD(1) split: option.splits)
  show "profiles_inv s'" if "profile_op s s'" and "profiles_inv s" for s s'
    using that
  proof cases
    case (clear c)
    with that show ?thesis
      by (auto simp: profiles_inv_def profile_clear_def Let_def distinct_map_filter list_all_iff
          intro: order_trans [OF length_filter_le])
  qed (auto intro: profile_install_inv apply_dynamic_update_inv)
  show "length (profiles s) \<le> max_profiles s" if "profiles_inv s" for s
    using that by (simp add: profiles_inv_def)
qed

end
