(* ===== verification/Tariffs.thy ===== *)
theory Tariffs
  imports Store_Spec Float64
begin

text \<open>
  \<open>src/state/tariff.rs\<close>: money in fixed point, the shape of an OCPP 2.1 tariff, and the
  store of default tariffs; and the cost record of \<open>src/pricing.rs\<close> that a connector's state
  carries.
\<close>

section \<open>Fixed-point money\<close>

type_synonym money = i64

definition i64_min :: int where
  "i64_min = - (2 ^ 63)"

definition i64_max :: int where
  "i64_max = 2 ^ 63 - 1"

definition saturate_i64 :: "int \<Rightarrow> i64" where
  "saturate_i64 x = max i64_min (min i64_max x)"

definition money_scale :: i64 where
  "money_scale = 1000000"

text \<open>
  The range check of \<open>fixed_from_decimal\<close> compares with the literal
  \<open>9.223_372_036_854_775e18\<close>.
\<close>

definition fixed_bound :: f64 where
  "fixed_bound = f64_round 9223372036854775000"

definition fixed_from_decimal :: "f64 \<Rightarrow> i64 \<Rightarrow> i64 option" where
  "fixed_from_decimal value scale =
     (case value of
        Fin _ \<Rightarrow>
          (let scaled = f64_mul value (f64_of_int scale)
           in if \<not> (f64_le (f64_neg fixed_bound) scaled \<and> f64_le scaled fixed_bound) then None
              else let truncated = f64_to_i64 scaled;
                       fraction = f64_sub scaled (f64_of_int truncated)
                   in Some (if f64_le (Fin (1 / 2)) fraction then saturate_i64 (truncated + 1)
                            else if f64_le fraction (Fin (- (1 / 2))) then saturate_i64 (truncated - 1)
                            else truncated))
      | _ \<Rightarrow> None)"

definition money_from_decimal :: "f64 \<Rightarrow> money option" where
  "money_from_decimal v = fixed_from_decimal v money_scale"

definition money_to_decimal :: "money \<Rightarrow> f64" where
  "money_to_decimal m = f64_div_const (f64_of_int m) (of_int money_scale)"

definition money_saturating_add :: "money \<Rightarrow> money \<Rightarrow> money" where
  "money_saturating_add a b = saturate_i64 (a + b)"

definition milli_from_decimal :: "f64 \<Rightarrow> i64 option" where
  "milli_from_decimal v = fixed_from_decimal v 1000"

definition milli_to_decimal :: "i64 \<Rightarrow> f64" where
  "milli_to_decimal v = f64_div_const (f64_of_int v) 1000"

lemma saturate_i64_bounds: "i64_min \<le> saturate_i64 x \<and> saturate_i64 x \<le> i64_max"
  by (auto simp: saturate_i64_def i64_min_def i64_max_def)

lemma saturate_i64_id: "i64_min \<le> x \<Longrightarrow> x \<le> i64_max \<Longrightarrow> saturate_i64 x = x"
  by (simp add: saturate_i64_def)

section \<open>The shape of a tariff\<close>

type_synonym tariff_id = string
type_synonym tax_percent = i64
type_synonym naive_date = int

datatype weekday = Mon | Tue | Wed | Thu | Fri | Sat | Sun

record tax_rate =
  tax_kind :: string
  tax_rate_percent :: tax_percent
  tax_stack :: u8

record time_of_day =
  tod_hour :: u8
  tod_minute :: u8

definition time_of_day_new :: "u8 \<Rightarrow> u8 \<Rightarrow> time_of_day option" where
  "time_of_day_new h m = (if h \<le> 23 \<and> m \<le> 59 then Some \<lparr>tod_hour = h, tod_minute = m\<rparr> else None)"

definition minutes_since_midnight :: "time_of_day \<Rightarrow> u16" where
  "minutes_since_midnight t = ucast (tod_hour t) * 60 + ucast (tod_minute t)"

datatype evse_kind = AcKind | DcKind

record tariff_conditions =
  start_time_of_day :: "time_of_day option"
  end_time_of_day :: "time_of_day option"
  day_of_week :: "weekday list"
  valid_from_date :: "naive_date option"
  valid_to_date :: "naive_date option"
  condition_evse_kind :: "evse_kind option"
  min_energy_mwh :: "i64 option"
  max_energy_mwh :: "i64 option"
  min_current_ma :: "i64 option"
  max_current_ma :: "i64 option"
  min_power_mw :: "i64 option"
  max_power_mw :: "i64 option"
  min_time_secs :: "i64 option"
  max_time_secs :: "i64 option"
  min_charging_time_secs :: "i64 option"
  max_charging_time_secs :: "i64 option"
  min_idle_time_secs :: "i64 option"
  max_idle_time_secs :: "i64 option"

definition no_tariff_conditions :: tariff_conditions where
  "no_tariff_conditions =
     \<lparr>start_time_of_day = None, end_time_of_day = None, day_of_week = [], valid_from_date = None,
      valid_to_date = None, condition_evse_kind = None, min_energy_mwh = None, max_energy_mwh = None,
      min_current_ma = None, max_current_ma = None, min_power_mw = None, max_power_mw = None,
      min_time_secs = None, max_time_secs = None, min_charging_time_secs = None,
      max_charging_time_secs = None, min_idle_time_secs = None, max_idle_time_secs = None\<rparr>"

definition conditions_is_empty :: "tariff_conditions \<Rightarrow> bool" where
  "conditions_is_empty c = (c = no_tariff_conditions)"

record tariff_conditions_fixed =
  fixed_start_time_of_day :: "time_of_day option"
  fixed_end_time_of_day :: "time_of_day option"
  fixed_day_of_week :: "weekday list"
  fixed_valid_from_date :: "naive_date option"
  fixed_valid_to_date :: "naive_date option"
  fixed_evse_kind :: "evse_kind option"
  payment_brand :: "string option"
  payment_recognition :: "string option"

definition no_fixed_conditions :: tariff_conditions_fixed where
  "no_fixed_conditions =
     \<lparr>fixed_start_time_of_day = None, fixed_end_time_of_day = None, fixed_day_of_week = [],
      fixed_valid_from_date = None, fixed_valid_to_date = None, fixed_evse_kind = None,
      payment_brand = None, payment_recognition = None\<rparr>"

definition fixed_conditions_is_empty :: "tariff_conditions_fixed \<Rightarrow> bool" where
  "fixed_conditions_is_empty c = (c = no_fixed_conditions)"

record energy_price =
  price_per_kwh :: money
  energy_conditions :: "tariff_conditions option"

record time_price =
  price_per_minute :: money
  time_conditions :: "tariff_conditions option"

record fixed_price =
  fixed_price_of :: money
  fixed_conditions :: "tariff_conditions_fixed option"

record energy_component =
  energy_prices :: "energy_price list"
  energy_tax_rates :: "tax_rate list"

record time_component =
  time_prices :: "time_price list"
  time_tax_rates :: "tax_rate list"

record fixed_component =
  fixed_prices :: "fixed_price list"
  fixed_tax_rates :: "tax_rate list"

record price =
  price_excl_tax :: "money option"
  price_incl_tax :: "money option"

record tariff =
  tariff_id_of :: tariff_id
  tariff_currency :: string
  tariff_valid_from :: "date_time option"
  tariff_energy :: "energy_component option"
  tariff_charging_time :: "time_component option"
  tariff_idle_time :: "time_component option"
  tariff_fixed_fee :: "fixed_component option"
  tariff_reservation_time :: "time_component option"
  tariff_reservation_fixed :: "fixed_component option"
  tariff_min_cost :: "price option"
  tariff_max_cost :: "price option"

definition tariff_new :: "tariff_id \<Rightarrow> string \<Rightarrow> tariff" where
  "tariff_new i c =
     \<lparr>tariff_id_of = i, tariff_currency = c, tariff_valid_from = None, tariff_energy = None,
      tariff_charging_time = None, tariff_idle_time = None, tariff_fixed_fee = None,
      tariff_reservation_time = None, tariff_reservation_fixed = None, tariff_min_cost = None,
      tariff_max_cost = None\<rparr>"

definition flatten_options :: "'a option list \<Rightarrow> 'a list" where
  "flatten_options xs = concat (map (\<lambda>x. case x of None \<Rightarrow> [] | Some y \<Rightarrow> [y]) xs)"

definition max_prices_per_dimension :: "tariff \<Rightarrow> usize" where
  "max_prices_per_dimension t =
     (let energy = (case tariff_energy t of None \<Rightarrow> 0 | Some c \<Rightarrow> length (energy_prices c));
          times = foldr max (map (\<lambda>c. length (time_prices c))
            (flatten_options [tariff_charging_time t, tariff_idle_time t, tariff_reservation_time t])) 0;
          fixed = foldr max (map (\<lambda>c. length (fixed_prices c))
            (flatten_options [tariff_fixed_fee t, tariff_reservation_fixed t])) 0
      in max (max energy times) fixed)"

definition has_conditions :: "tariff \<Rightarrow> bool" where
  "has_conditions t =
     (is_some_and (tariff_energy t) (\<lambda>c. list_ex (\<lambda>p.
          is_some_and (energy_conditions p) (\<lambda>x. \<not> conditions_is_empty x)) (energy_prices c))
      \<or> list_ex (\<lambda>c. list_ex (\<lambda>p.
          is_some_and (time_conditions p) (\<lambda>x. \<not> conditions_is_empty x)) (time_prices c))
          (flatten_options [tariff_charging_time t, tariff_idle_time t, tariff_reservation_time t])
      \<or> list_ex (\<lambda>c. list_ex (\<lambda>p.
          is_some_and (fixed_conditions p) (\<lambda>x. \<not> fixed_conditions_is_empty x)) (fixed_prices c))
          (flatten_options [tariff_fixed_fee t, tariff_reservation_fixed t]))"

definition tariff_is_valid_at :: "tariff \<Rightarrow> date_time \<Rightarrow> bool" where
  "tariff_is_valid_at t now = is_none_or (tariff_valid_from t) (\<lambda>f. f \<le> now)"

section \<open>The store of default tariffs\<close>

datatype tariff_scope = TariffChargePoint | TariffEvse usize

record installed_tariff =
  tariff_scope_of :: tariff_scope
  tariff_of :: tariff

datatype tariff_set_rejection = TooManyTariffs | DuplicateTariffId

record tariff_clear_criteria =
  clear_scope :: "tariff_scope option"
  clear_id :: "tariff_id option"

definition tariff_criteria_matches :: "tariff_clear_criteria \<Rightarrow> installed_tariff \<Rightarrow> bool" where
  "tariff_criteria_matches c i =
     (is_none_or (clear_scope c) (\<lambda>x. tariff_scope_of i = x)
      \<and> is_none_or (clear_id c) (\<lambda>x. tariff_id_of (tariff_of i) = x))"

record tariff_store =
  tariffs :: "installed_tariff list"
  max_tariffs :: usize

definition tariffs_with_limit :: "usize \<Rightarrow> tariff_store" where
  "tariffs_with_limit n = \<lparr>tariffs = [], max_tariffs = max n 1\<rparr>"

definition tariff_superseded :: "tariff_scope \<Rightarrow> tariff \<Rightarrow> installed_tariff \<Rightarrow> bool" where
  "tariff_superseded scope t i =
     (tariff_scope_of i = scope
      \<and> (tariff_id_of (tariff_of i) = tariff_id_of t
         \<or> tariff_valid_from (tariff_of i) = tariff_valid_from t))"

definition tariff_set_default ::
  "tariff_scope \<Rightarrow> tariff \<Rightarrow> tariff_store \<Rightarrow> tariff_set_rejection + tariff_store" where
  "tariff_set_default scope t s =
     (if list_ex (\<lambda>i. tariff_scope_of i \<noteq> scope \<and> tariff_id_of (tariff_of i) = tariff_id_of t) (tariffs s)
      then Inl DuplicateTariffId
      else if \<not> list_ex (tariff_superseded scope t) (tariffs s) \<and> max_tariffs s \<le> length (tariffs s)
      then Inl TooManyTariffs
      else Inr (s\<lparr>tariffs := filter (\<lambda>i. \<not> tariff_superseded scope t i) (tariffs s)
              @ [\<lparr>tariff_scope_of = scope, tariff_of = t\<rparr>]\<rparr>))"

definition tariff_clear :: "tariff_clear_criteria \<Rightarrow> tariff_store \<Rightarrow> tariff_store \<times> usize" where
  "tariff_clear c s =
     (let kept = filter (\<lambda>i. \<not> tariff_criteria_matches c i) (tariffs s)
      in (s\<lparr>tariffs := kept\<rparr>, length (tariffs s) - length kept))"

definition tariff_matching :: "tariff_clear_criteria \<Rightarrow> tariff_store \<Rightarrow> installed_tariff list" where
  "tariff_matching c s = filter (tariff_criteria_matches c) (tariffs s)"

definition tariff_selected_by_evse :: "usize option \<Rightarrow> tariff_store \<Rightarrow> installed_tariff list" where
  "tariff_selected_by_evse e s =
     (case e of
        None \<Rightarrow> tariffs s
      | Some evse \<Rightarrow>
          filter (\<lambda>i. case tariff_scope_of i of TariffChargePoint \<Rightarrow> True | TariffEvse x \<Rightarrow> x = evse)
            (tariffs s))"

definition tariff_effective_for_scope :: "tariff_scope \<Rightarrow> date_time \<Rightarrow> tariff_store \<Rightarrow> tariff option" where
  "tariff_effective_for_scope scope now s =
     map_option tariff_of
       (max_by_key (\<lambda>i. tariff_valid_from (tariff_of i))
         (filter (\<lambda>i. tariff_scope_of i = scope \<and> tariff_is_valid_at (tariff_of i) now) (tariffs s)))"

definition tariff_effective_at :: "usize \<Rightarrow> date_time \<Rightarrow> tariff_store \<Rightarrow> tariff option" where
  "tariff_effective_at evse now s =
     opt_or (tariff_effective_for_scope (TariffEvse evse) now s)
       (tariff_effective_for_scope TariffChargePoint now s)"

inductive tariff_op :: "tariff_store \<Rightarrow> tariff_store \<Rightarrow> bool" where
  set_default: "tariff_set_default scope t s = Inr s' \<Longrightarrow> tariff_op s s'"
| clear: "tariff_op s (fst (tariff_clear c s))"

text \<open>
  Tariff ids are unique over the whole store, and within a scope the instants at which
  tariffs take effect are, so that at any time at most one tariff per scope is the latest.
\<close>

definition tariff_key :: "installed_tariff \<Rightarrow> tariff_scope \<times> date_time option" where
  "tariff_key i = (tariff_scope_of i, tariff_valid_from (tariff_of i))"

definition tariffs_inv :: "tariff_store \<Rightarrow> bool" where
  "tariffs_inv s =
     (length (tariffs s) \<le> max_tariffs s
      \<and> distinct (map (\<lambda>i. tariff_id_of (tariff_of i)) (tariffs s))
      \<and> distinct (map tariff_key (tariffs s)))"

lemma tariffs_inv_init [simp]: "tariffs_inv (tariffs_with_limit n)"
  by (simp add: tariffs_inv_def tariffs_with_limit_def)

lemma tariff_set_default_inv:
  assumes "tariffs_inv s" and ins: "tariff_set_default scope t s = Inr s'"
  shows "tariffs_inv s'"
proof -
  let ?new = "\<lparr>tariff_scope_of = scope, tariff_of = t\<rparr>"
  let ?ts = "filter (\<lambda>i. \<not> tariff_superseded scope t i) (tariffs s) @ [?new]"
  from ins have s': "s' = s\<lparr>tariffs := ?ts\<rparr>"
    and other: "\<forall>i \<in> set (tariffs s). tariff_id_of (tariff_of i) = tariff_id_of t \<longrightarrow> tariff_scope_of i = scope"
    and room: "list_ex (tariff_superseded scope t) (tariffs s) \<or> length (tariffs s) < max_tariffs s"
    by (auto simp: tariff_set_default_def list_ex_iff split: if_splits)
  have "length ?ts \<le> max_tariffs s"
  proof (cases "list_ex (tariff_superseded scope t) (tariffs s)")
    case True
    then have "length ?ts \<le> length (tariffs s)"
      by (intro drop_push_length) (auto simp: list_ex_iff)
    with assms(1) show ?thesis by (simp add: tariffs_inv_def)
  next
    case False
    with room show ?thesis by (auto simp: Suc_le_eq intro: le_less_trans [OF length_filter_le])
  qed
  moreover have "distinct (map (\<lambda>i. tariff_id_of (tariff_of i)) ?ts)"
    by (rule distinct_map_filter_append)
      (use assms(1) other in \<open>auto simp: tariffs_inv_def tariff_superseded_def\<close>)
  moreover have "distinct (map tariff_key ?ts)"
    by (rule distinct_map_filter_append)
      (use assms(1) in \<open>auto simp: tariffs_inv_def tariff_superseded_def tariff_key_def\<close>)
  ultimately show ?thesis using s' by (simp add: tariffs_inv_def)
qed

interpretation tariffs: bounded_store "\<lambda>s. length (tariffs s)" max_tariffs tariffs_inv tariff_op
proof
  show "max_tariffs s' = max_tariffs s" if "tariff_op s s'" for s s'
    using that by cases (auto simp: tariff_set_default_def tariff_clear_def Let_def split: if_splits)
  show "tariffs_inv s'" if "tariff_op s s'" and "tariffs_inv s" for s s'
    using that
  proof cases
    case (clear c)
    with that show ?thesis
      by (auto simp: tariffs_inv_def tariff_clear_def Let_def distinct_map_filter
          intro: order_trans [OF length_filter_le])
  qed (auto intro: tariff_set_default_inv)
  show "length (tariffs s) \<le> max_tariffs s" if "tariffs_inv s" for s
    using that by (simp add: tariffs_inv_def)
qed

section \<open>The cost of a running transaction\<close>

text \<open>The data of \<open>src/pricing.rs\<close> that \<open>EvseState::running_cost\<close> holds.\<close>

record dimension_cost =
  cost_excl_tax :: money
  cost_incl_tax :: money

record usage =
  usage_energy_mwh :: i64
  usage_charging_secs :: i64
  usage_idle_secs :: i64
  usage_reservation_secs :: "i64 option"

record cost_period =
  cp_tariff_id :: tariff_id
  cp_start :: date_time
  cp_energy_mwh :: i64
  cp_charging_secs :: i64
  cp_idle_secs :: i64
  cp_min_power_mw :: "i64 option"
  cp_max_power_mw :: "i64 option"
  cp_min_current_ma :: "i64 option"
  cp_max_current_ma :: "i64 option"

record accumulator =
  acc_sealed :: dimension_cost
  acc_live_excl_tax :: money
  acc_rates :: "tax_rate list"

record used_elements =
  used_energy :: "usize option"
  used_charging_time :: "usize option"
  used_idle_time :: "usize option"

record transaction_cost =
  tc_tariff_id :: tariff_id
  tc_currency :: string
  tc_fixed :: accumulator
  tc_energy :: accumulator
  tc_charging_time :: accumulator
  tc_idle_time :: accumulator
  tc_reservation_time :: accumulator
  tc_reservation_fixed :: accumulator
  tc_usage :: usage
  tc_periods :: "cost_period list"
  tc_last_at :: date_time
  tc_last_energy_mwh :: i64
  tc_used_elements :: used_elements
  tc_capped :: bool

end
