(* ===== verification/Ordered_Map.thy ===== *)
theory Ordered_Map
  imports Prelude
begin

text \<open>
  \<open>alloc::collections::BTreeMap\<close>: an association list with strictly ascending keys, so
  that iteration visits the keys in order.  The locale \<open>ordered_map\<close> states the contract
  the device model and the monitor store rely on; the interpretation \<open>bt\<close> discharges it.
\<close>

type_synonym ('k, 'v) btree = "('k \<times> 'v) list"

definition bt_get :: "('k, 'v) btree \<Rightarrow> 'k \<Rightarrow> 'v option" where
  "bt_get m k = map_of m k"

fun bt_insert :: "'k::linorder \<Rightarrow> 'v \<Rightarrow> ('k, 'v) btree \<Rightarrow> ('k, 'v) btree" where
  "bt_insert k v [] = [(k, v)]"
| "bt_insert k v (p # m) =
     (if fst p < k then p # bt_insert k v m
      else if fst p = k then (k, v) # m
      else (k, v) # p # m)"

definition bt_remove :: "'k \<Rightarrow> ('k, 'v) btree \<Rightarrow> ('k, 'v) btree" where
  "bt_remove k m = filter (\<lambda>p. fst p \<noteq> k) m"

definition bt_keys :: "('k, 'v) btree \<Rightarrow> 'k list" where
  "bt_keys m = map fst m"

definition bt_values :: "('k, 'v) btree \<Rightarrow> 'v list" where
  "bt_values m = map snd m"

definition bt_inv :: "('k::linorder, 'v) btree \<Rightarrow> bool" where
  "bt_inv m = sorted_wrt (<) (map fst m)"

locale ordered_map =
  fixes empty :: "'m"
    and get :: "'m \<Rightarrow> 'k::linorder \<Rightarrow> 'v option"
    and insert :: "'k \<Rightarrow> 'v \<Rightarrow> 'm \<Rightarrow> 'm"
    and remove :: "'k \<Rightarrow> 'm \<Rightarrow> 'm"
    and keys :: "'m \<Rightarrow> 'k list"
    and invar :: "'m \<Rightarrow> bool"
  assumes invar_empty: "invar empty"
    and invar_insert: "invar m \<Longrightarrow> invar (insert k v m)"
    and invar_remove: "invar m \<Longrightarrow> invar (remove k m)"
    and keys_sorted: "invar m \<Longrightarrow> sorted_wrt (<) (keys m)"
    and keys_dom: "set (keys m) = dom (get m)"
    and get_empty: "get empty k = None"
    and get_insert: "get (insert k v m) j = (if j = k then Some v else get m j)"
    and get_remove: "get (remove k m) j = (if j = k then None else get m j)"
begin

lemma keys_distinct: "invar m \<Longrightarrow> distinct (keys m)"
  by (drule keys_sorted) (simp add: strict_sorted_iff)

lemma card_dom: "invar m \<Longrightarrow> card (dom (get m)) = length (keys m)"
  by (metis distinct_card keys_distinct keys_dom)

lemma finite_dom: "finite (dom (get m))"
  by (metis finite_set keys_dom)

lemma length_insert:
  assumes "invar m"
  shows "length (keys (insert k v m)) =
    (if get m k = None then Suc (length (keys m)) else length (keys m))"
proof -
  have "dom (get (insert k v m)) = Set.insert k (dom (get m))"
    by (auto simp: get_insert split: if_splits)
  then have "length (keys (insert k v m)) = card (Set.insert k (dom (get m)))"
    by (metis assms card_dom invar_insert)
  with assms show ?thesis
    by (auto simp: card_dom card_insert_if finite_dom domIff insert_absorb)
qed

lemma length_remove_le:
  assumes "invar m"
  shows "length (keys (remove k m)) \<le> length (keys m)"
proof -
  have "dom (get (remove k m)) \<subseteq> dom (get m)"
    by (auto simp: get_remove split: if_splits)
  with assms show ?thesis
    by (metis card_dom card_mono finite_dom invar_remove)
qed

lemma get_None_iff: "get m k = None \<longleftrightarrow> k \<notin> set (keys m)"
  by (auto simp: keys_dom)

end

lemma bt_inv_Cons: "bt_inv (p # m) \<longleftrightarrow> bt_inv m \<and> (\<forall>q \<in> set m. fst p < fst q)"
  by (auto simp: bt_inv_def)

lemma fst_set_bt_insert: "fst ` set (bt_insert k v m) = insert k (fst ` set m)"
  by (induction m) auto

lemma bt_inv_insert: "bt_inv m \<Longrightarrow> bt_inv (bt_insert k v m)"
proof (induction m)
  case Nil
  then show ?case by (simp add: bt_inv_def)
next
  case (Cons p m)
  have "fst p < k \<Longrightarrow> \<forall>q \<in> set (bt_insert k v m). fst p < fst q"
    using Cons.prems fst_set_bt_insert [of k v m]
    by (auto simp: bt_inv_Cons) (metis image_iff insertE fst_conv)
  moreover have "\<not> fst p < k \<Longrightarrow> fst p \<noteq> k \<Longrightarrow> k < fst p" by simp
  ultimately show ?case
    using Cons by (auto simp: bt_inv_Cons intro: less_trans)
qed

lemma bt_get_insert: "bt_get (bt_insert k v m) j = (if j = k then Some v else bt_get m j)"
  by (induction m) (auto simp: bt_get_def)

lemma bt_get_remove: "bt_get (bt_remove k m) j = (if j = k then None else bt_get m j)"
  by (induction m) (auto simp: bt_get_def bt_remove_def)

lemma bt_inv_remove: "bt_inv m \<Longrightarrow> bt_inv (bt_remove k m)"
  by (simp add: bt_inv_def bt_remove_def sorted_wrt_filter sorted_wrt_map)

interpretation bt: ordered_map "[]" bt_get bt_insert bt_remove bt_keys bt_inv
proof
  show "bt_inv []" by (simp add: bt_inv_def)
  show "sorted_wrt (<) (bt_keys m)" if "bt_inv m" for m :: "('a, 'b) btree"
    using that by (simp add: bt_inv_def bt_keys_def)
  show "set (bt_keys m) = dom (bt_get m)" for m :: "('a, 'b) btree"
    by (simp add: bt_keys_def bt_get_def [abs_def] dom_map_of_conv_image_fst)
qed (auto simp: bt_inv_insert bt_inv_remove bt_get_insert bt_get_remove, simp add: bt_get_def)

lemma length_bt_keys [simp]: "length (bt_keys m) = length m"
  by (simp add: bt_keys_def)

text \<open>Replacing the value of a key that is present keeps the keys.\<close>

lemma bt_insert_keys:
  "bt_inv m \<Longrightarrow> bt_get m k \<noteq> None \<Longrightarrow> bt_keys (bt_insert k v m) = bt_keys m"
proof (induction m)
  case Nil
  then show ?case by (simp add: bt_get_def)
next
  case (Cons p m)
  have "k = fst p \<or> k \<in> fst ` set m"
    using Cons.prems(2) by (auto simp: bt_get_def dest: map_of_SomeD split: if_splits)
      (metis fst_conv image_eqI map_of_SomeD)
  then have "\<not> fst p < k \<Longrightarrow> fst p = k"
    using Cons.prems(1) by (auto simp: bt_inv_Cons)
  with Cons show ?case
    by (auto simp: bt_keys_def bt_inv_Cons bt_get_def split: if_splits)
qed

end
