(* ===== verification/Device_Model.thy ===== *)
theory Device_Model
  imports Ordered_Map Store_Spec Float64
begin

text \<open>
  \<open>src/state/device_model.rs\<close>: OCPP's component/variable device model, two nested ordered
  maps under one maximum on the number of variables.
\<close>

datatype component =
  Component (comp_name: string) (comp_instance: "string option")
    (comp_evse: "(usize \<times> usize option) option")

datatype "variable" = Variable (var_name: string) (var_instance: "string option")

text \<open>The derived \<open>Ord\<close> is lexicographic in the order of the fields.\<close>

definition component_key :: "component \<Rightarrow> string \<times> string option \<times> (usize \<times> usize option) option" where
  "component_key c = (comp_name c, comp_instance c, comp_evse c)"

definition variable_key :: "variable \<Rightarrow> string \<times> string option" where
  "variable_key v = (var_name v, var_instance v)"

lemma component_key_inject [simp]: "component_key c = component_key d \<longleftrightarrow> c = d"
  by (auto simp: component_key_def component.expand)

lemma variable_key_inject [simp]: "variable_key c = variable_key d \<longleftrightarrow> c = d"
  by (auto simp: variable_key_def variable.expand)

instantiation component :: linorder
begin

definition less_eq_component :: "component \<Rightarrow> component \<Rightarrow> bool" where
  "less_eq_component c d = (component_key c \<le> component_key d)"

definition less_component :: "component \<Rightarrow> component \<Rightarrow> bool" where
  "less_component c d = (component_key c < component_key d)"

instance
  by standard (auto simp: less_eq_component_def less_component_def order_less_le)

end

instantiation "variable" :: linorder
begin

definition less_eq_variable :: "variable \<Rightarrow> variable \<Rightarrow> bool" where
  "less_eq_variable c d = (variable_key c \<le> variable_key d)"

definition less_variable :: "variable \<Rightarrow> variable \<Rightarrow> bool" where
  "less_variable c d = (variable_key c < variable_key d)"

instance
  by standard (auto simp: less_eq_variable_def less_variable_def order_less_le)

end

datatype attribute_type = Actual | Target | MinSet | MaxSet

datatype variable_mutability = ReadOnly | WriteOnly | ReadWrite

record variable_attribute =
  attribute_type_of :: attribute_type
  attribute_value :: string
  mutability :: variable_mutability
  persistent :: bool
  constant_attribute :: bool
  requires_reboot :: bool

datatype variable_data_type =
    StringType | DecimalType | IntegerType | DateTimeType | BooleanType
  | OptionListType | SequenceListType | MemberListType

record variable_characteristics =
  data_type :: variable_data_type
  var_unit_of :: "string option"
  min_limit :: "f64 option"
  max_limit :: "f64 option"
  values_list :: "string list option"
  supports_monitoring :: bool

record variable_definition =
  characteristics :: variable_characteristics
  attributes :: "variable_attribute list"

definition attribute_of :: "variable_definition \<Rightarrow> attribute_type \<Rightarrow> variable_attribute option" where
  "attribute_of d t = List.find (\<lambda>a. attribute_type_of a = t) (attributes d)"

record device_model =
  dm_components :: "(component, (variable, variable_definition) btree) btree"
  dm_max_variables :: usize

definition dm_len :: "device_model \<Rightarrow> usize" where
  "dm_len m = sum_list (map length (bt_values (dm_components m)))"

definition dm_get :: "device_model \<Rightarrow> component \<Rightarrow> variable \<Rightarrow> variable_definition option" where
  "dm_get m c v =
     (case bt_get (dm_components m) c of None \<Rightarrow> None | Some vars \<Rightarrow> bt_get vars v)"

definition dm_has_component :: "device_model \<Rightarrow> component \<Rightarrow> bool" where
  "dm_has_component m c = (bt_get (dm_components m) c \<noteq> None)"

definition dm_register ::
  "component \<Rightarrow> variable \<Rightarrow> variable_characteristics \<Rightarrow> variable_attribute list \<Rightarrow> device_model
   \<Rightarrow> device_model \<times> bool" where
  "dm_register c v ch attrs m =
     (let known = is_some_and (bt_get (dm_components m) c) (\<lambda>vars. bt_get vars v \<noteq> None)
      in if \<not> known \<and> dm_max_variables m \<le> dm_len m then (m, False)
         else (m\<lparr>dm_components :=
                 bt_insert c
                   (bt_insert v \<lparr>characteristics = ch, attributes = attrs\<rparr>
                     (unwrap_or (bt_get (dm_components m) c) []))
                   (dm_components m)\<rparr>, True))"

definition dm_set_attribute_value ::
  "component \<Rightarrow> variable \<Rightarrow> attribute_type \<Rightarrow> string \<Rightarrow> device_model \<Rightarrow> device_model \<times> bool" where
  "dm_set_attribute_value c v t x m =
     (case bt_get (dm_components m) c of
        None \<Rightarrow> (m, False)
      | Some vars \<Rightarrow>
          (case bt_get vars v of
             None \<Rightarrow> (m, False)
           | Some d \<Rightarrow>
               if attribute_of d t = None then (m, False)
               else (m\<lparr>dm_components :=
                      bt_insert c
                        (bt_insert v
                          (d\<lparr>attributes :=
                             update_first (\<lambda>a. attribute_type_of a = t)
                               (\<lambda>a. a\<lparr>attribute_value := x\<rparr>) (attributes d)\<rparr>) vars)
                        (dm_components m)\<rparr>, True)))"

definition dm_remove_component :: "component \<Rightarrow> device_model \<Rightarrow> device_model \<times> bool" where
  "dm_remove_component c m =
     (m\<lparr>dm_components := bt_remove c (dm_components m)\<rparr>, bt_get (dm_components m) c \<noteq> None)"

definition dm_component_names :: "device_model \<Rightarrow> component list" where
  "dm_component_names m = bt_keys (dm_components m)"

definition dm_iter :: "device_model \<Rightarrow> (component \<times> variable \<times> variable_definition) list" where
  "dm_iter m = concat (map (\<lambda>(c, vars). map (\<lambda>(v, d). (c, v, d)) vars) (dm_components m))"

text \<open>The value of the \<open>Actual\<close> attribute, the one reading of a variable the state machine uses.\<close>

definition dm_actual :: "device_model \<Rightarrow> component \<Rightarrow> variable \<Rightarrow> string option" where
  "dm_actual m c v =
     (case dm_get m c v of
        None \<Rightarrow> None
      | Some d \<Rightarrow> map_option attribute_value (attribute_of d Actual))"

section \<open>Well-formedness and the laws of the operations\<close>

definition dm_inv :: "device_model \<Rightarrow> bool" where
  "dm_inv m =
     (bt_inv (dm_components m) \<and> list_all bt_inv (bt_values (dm_components m))
      \<and> dm_len m \<le> dm_max_variables m)"

inductive dm_op :: "device_model \<Rightarrow> device_model \<Rightarrow> bool" where
  register: "dm_op m (fst (dm_register c v ch attrs m))"
| set_attribute_value: "dm_op m (fst (dm_set_attribute_value c v t x m))"
| remove_component: "dm_op m (fst (dm_remove_component c m))"

lemma bt_insert_total_length:
  "bt_inv m \<Longrightarrow>
   sum_list (map length (bt_values (bt_insert k v m)))
     + (case bt_get m k of None \<Rightarrow> 0 | Some w \<Rightarrow> length w)
   = sum_list (map length (bt_values m)) + length v"
proof (induction m)
  case Nil
  then show ?case by (simp add: bt_values_def bt_get_def)
next
  case (Cons p m)
  have "\<not> fst p < k \<Longrightarrow> fst p \<noteq> k \<Longrightarrow> bt_get m k = None"
    using Cons.prems by (auto simp: bt_inv_Cons bt_get_def map_of_eq_None_iff)
  with Cons show ?case
    by (cases p) (auto simp: bt_inv_Cons bt_values_def bt_get_def split: option.splits)
qed

lemma bt_remove_total_length:
  "sum_list (map length (bt_values (bt_remove k m))) \<le> sum_list (map length (bt_values m))"
  by (induction m) (auto simp: bt_values_def bt_remove_def)

lemma set_bt_insert: "set (bt_insert k v m) \<subseteq> insert (k, v) (set m)"
  by (induction m) auto

lemma list_all_bt_insert:
  assumes "P v" and "list_all P (bt_values m)"
  shows "list_all P (bt_values (bt_insert k v m))"
proof -
  have "P (snd p)" if "p \<in> set (bt_insert k v m)" for p
    using that set_bt_insert [of k v m] assms by (force simp: bt_values_def list_all_iff)
  then show ?thesis by (simp add: bt_values_def list_all_iff)
qed

lemma list_all_bt_remove: "list_all P (bt_values m) \<Longrightarrow> list_all P (bt_values (bt_remove k m))"
  by (auto simp: bt_values_def bt_remove_def list_all_iff)

lemma list_all_bt_get: "list_all P (bt_values m) \<Longrightarrow> bt_get m k = Some v \<Longrightarrow> P v"
  by (fastforce simp: bt_values_def bt_get_def list_all_iff dest: map_of_SomeD)

lemma inner_inv:
  "dm_inv m \<Longrightarrow> bt_inv (unwrap_or (bt_get (dm_components m) c) [])"
  by (cases "bt_get (dm_components m) c") (auto simp: dm_inv_def bt_inv_def [of "[]"] dest: list_all_bt_get)

lemma dm_register_known:
  "is_some_and (bt_get (dm_components m) c) (\<lambda>vars. \<exists>d. bt_get vars v = Some d)
   \<longleftrightarrow> (\<exists>d. dm_get m c v = Some d)"
  by (auto simp: dm_get_def split: option.splits)

lemma dm_len_register:
  assumes "dm_inv m" and "snd (dm_register c v ch attrs m)"
  shows "dm_len (fst (dm_register c v ch attrs m))
    = (if dm_get m c v = None then Suc (dm_len m) else dm_len m)"
proof -
  let ?old = "unwrap_or (bt_get (dm_components m) c) []"
  let ?new = "bt_insert v \<lparr>characteristics = ch, attributes = attrs\<rparr> ?old"
  have len: "length ?new = (if bt_get ?old v = None then Suc (length ?old) else length ?old)"
    using bt.length_insert [OF inner_inv [OF assms(1)], of v] by simp
  have "sum_list (map length (bt_values (bt_insert c ?new (dm_components m)))) + length ?old
      = dm_len m + length ?new"
    using bt_insert_total_length [of "dm_components m" c ?new] assms(1)
    by (auto simp: dm_inv_def dm_len_def split: option.splits)
  moreover have "bt_get ?old v = dm_get m c v"
    by (auto simp: dm_get_def bt.get_empty split: option.splits)
  ultimately show ?thesis
    using assms(2) len by (auto simp: dm_register_def dm_register_known Let_def dm_len_def split: if_splits)
qed

lemma dm_register_inv:
  assumes "dm_inv m"
  shows "dm_inv (fst (dm_register c v ch attrs m))"
proof (cases "snd (dm_register c v ch attrs m)")
  case True
  have "bt_inv (bt_insert v d (unwrap_or (bt_get (dm_components m) c) []))" for d :: variable_definition
    by (rule bt_inv_insert, rule inner_inv [OF assms])
  moreover have "dm_len (fst (dm_register c v ch attrs m)) \<le> dm_max_variables m"
    using assms True dm_len_register [OF assms True]
    by (auto simp: dm_inv_def dm_register_def dm_register_known Let_def split: if_splits)
  ultimately show ?thesis
    using assms True
    by (auto simp: dm_inv_def dm_register_def Let_def bt_inv_insert list_all_bt_insert split: if_splits)
next
  case False
  with assms show ?thesis by (auto simp: dm_register_def Let_def split: if_splits)
qed

lemma dm_set_attribute_value_inv:
  assumes "dm_inv m"
  shows "dm_inv (fst (dm_set_attribute_value c v t x m))
    \<and> dm_len (fst (dm_set_attribute_value c v t x m)) = dm_len m"
proof (cases "bt_get (dm_components m) c")
  case None
  with assms show ?thesis by (simp add: dm_set_attribute_value_def)
next
  case vars: (Some vars)
  show ?thesis
  proof (cases "bt_get vars v")
    case None
    with vars assms show ?thesis by (simp add: dm_set_attribute_value_def)
  next
    case (Some d)
    let ?d = "d\<lparr>attributes := update_first (\<lambda>a. attribute_type_of a = t)
        (\<lambda>a. a\<lparr>attribute_value := x\<rparr>) (attributes d)\<rparr>"
    have inv: "bt_inv vars" using inner_inv [OF assms, of c] vars by simp
    with Some have "length (bt_insert v ?d vars) = length vars"
      using bt.length_insert [OF inv, of v ?d] by simp
    then have "sum_list (map length (bt_values (bt_insert c (bt_insert v ?d vars) (dm_components m))))
        = dm_len m"
      using bt_insert_total_length [of "dm_components m" c "bt_insert v ?d vars"] vars assms
      by (auto simp: dm_inv_def dm_len_def)
    moreover have "list_all bt_inv (bt_values (bt_insert c (bt_insert v ?d vars) (dm_components m)))"
      using assms inv by (intro list_all_bt_insert bt_inv_insert) (auto simp: dm_inv_def)
    ultimately show ?thesis
      using assms vars Some
      by (auto simp: dm_inv_def dm_set_attribute_value_def dm_len_def bt_inv_insert)
  qed
qed

lemma dm_remove_component_inv: "dm_inv m \<Longrightarrow> dm_inv (fst (dm_remove_component c m))"
  using bt_remove_total_length [of c "dm_components m"]
  by (auto simp: dm_inv_def dm_remove_component_def dm_len_def bt_inv_remove list_all_bt_remove)

interpretation dm_store: bounded_store dm_len dm_max_variables dm_inv dm_op
proof
  show "dm_max_variables s' = dm_max_variables s" if "dm_op s s'" for s s'
    using that
    by cases (auto simp: dm_register_def dm_set_attribute_value_def dm_remove_component_def Let_def
        split: option.splits)
  show "dm_inv s'" if "dm_op s s'" and "dm_inv s" for s s'
    using that
    by cases (auto simp: dm_register_inv dm_set_attribute_value_inv dm_remove_component_inv)
  show "dm_len s \<le> dm_max_variables s" if "dm_inv s" for s
    using that by (simp add: dm_inv_def)
qed

text \<open>What \<open>get\<close> returns after each operation.\<close>

lemma dm_get_register:
  assumes "snd (dm_register c v ch attrs m)"
  shows "dm_get (fst (dm_register c v ch attrs m)) c' v' =
    (if c' = c \<and> v' = v then Some \<lparr>characteristics = ch, attributes = attrs\<rparr> else dm_get m c' v')"
  using assms
  by (auto simp: dm_register_def dm_get_def Let_def bt_get_insert bt.get_empty
      split: if_splits option.splits)

lemma dm_register_accepts:
  "snd (dm_register c v ch attrs m) \<longleftrightarrow> dm_get m c v \<noteq> None \<or> dm_len m < dm_max_variables m"
  by (auto simp: dm_register_def dm_register_known Let_def)

lemma dm_register_refused: "\<not> snd (dm_register c v ch attrs m) \<Longrightarrow> fst (dm_register c v ch attrs m) = m"
  by (auto simp: dm_register_def Let_def split: if_splits)

lemma dm_get_set_attribute_value:
  "dm_get (fst (dm_set_attribute_value c v t x m)) c' v' =
    (if c' = c \<and> v' = v
     then map_option (\<lambda>d. d\<lparr>attributes := update_first (\<lambda>a. attribute_type_of a = t)
            (\<lambda>a. a\<lparr>attribute_value := x\<rparr>) (attributes d)\<rparr>) (dm_get m c v)
     else dm_get m c' v')"
proof -
  have "update_first (\<lambda>a. attribute_type_of a = t) f as = as"
    if "List.find (\<lambda>a. attribute_type_of a = t) as = None" for f and as :: "variable_attribute list"
    using that by (intro update_first_id) (auto simp: find_None_iff)
  then show ?thesis
    by (auto simp: dm_set_attribute_value_def dm_get_def bt_get_insert attribute_of_def
        split: if_splits option.splits)
qed

lemma dm_get_remove_component:
  "dm_get (fst (dm_remove_component c m)) c' v' = (if c' = c then None else dm_get m c' v')"
  by (auto simp: dm_remove_component_def dm_get_def bt_get_remove)

lemma find_update_attribute:
  "List.find (\<lambda>a. attribute_type_of a = u)
     (update_first (\<lambda>a. attribute_type_of a = t) (\<lambda>a. a\<lparr>attribute_value := x\<rparr>) as)
   = (if u = t then map_option (\<lambda>a. a\<lparr>attribute_value := x\<rparr>) (List.find (\<lambda>a. attribute_type_of a = t) as)
      else List.find (\<lambda>a. attribute_type_of a = u) as)"
  by (induction as) auto

lemma dm_actual_set_attribute_value:
  "dm_actual (fst (dm_set_attribute_value c v t x m)) c' v' =
    (if c' = c \<and> v' = v \<and> t = Actual then map_option (\<lambda>_. x) (dm_actual m c v) else dm_actual m c' v')"
  by (auto simp: dm_actual_def dm_get_set_attribute_value attribute_of_def find_update_attribute
      option.map_comp comp_def split: option.splits)

lemma dm_actual_register:
  "dm_actual (fst (dm_register c v ch attrs m)) c' v' =
    (if c' = c \<and> v' = v \<and> snd (dm_register c v ch attrs m)
     then map_option attribute_value (List.find (\<lambda>a. attribute_type_of a = Actual) attrs)
     else dm_actual m c' v')"
  by (cases "snd (dm_register c v ch attrs m)")
    (auto simp: dm_actual_def dm_get_register dm_register_refused attribute_of_def)

lemma dm_actual_remove_component:
  "dm_actual (fst (dm_remove_component c m)) c' v' = (if c' = c then None else dm_actual m c' v')"
  by (auto simp: dm_actual_def dm_get_remove_component)

end
