(* ===== verification/Variable_Monitors.thy ===== *)
theory Variable_Monitors
  imports Device_Model Event_Streams
begin

text \<open>
  \<open>src/state/variable_monitoring.rs\<close>: threshold, delta and periodic monitors on device-model
  variables, the base and severity level that govern them, and their evaluation against a
  change of a variable's value.
\<close>

datatype monitor_type = UpperThreshold | LowerThreshold | DeltaMonitor | PeriodicMonitor

record variable_monitor =
  monitor_id :: variable_monitor_id
  monitor_component :: component
  monitor_variable :: "variable"
  monitor_type_of :: monitor_type
  monitor_value :: f64
  monitor_severity :: u8
  delta_baseline :: "f64 option"

datatype monitoring_base = BaseAll | FactoryDefault | HardWiredOnly

datatype set_monitor_rejection = TooManyMonitors | DuplicateMonitor

record variable_monitor_store =
  monitors :: "(variable_monitor_id, variable_monitor) btree"
  next_monitor_id :: i64
  max_monitors :: usize
  monitor_base :: monitoring_base
  monitor_level :: u8

definition monitors_with_limit :: "usize \<Rightarrow> variable_monitor_store" where
  "monitors_with_limit n =
     \<lparr>monitors = [], next_monitor_id = 1, max_monitors = max n 1, monitor_base = BaseAll,
      monitor_level = 9\<rparr>"

definition monitor_set_base :: "monitoring_base \<Rightarrow> variable_monitor_store \<Rightarrow> variable_monitor_store \<times> bool" where
  "monitor_set_base b s =
     (let base_changed = monitor_base s \<noteq> b;
          s1 = s\<lparr>monitor_base := b\<rparr>
      in case b of
           BaseAll \<Rightarrow> (s1, base_changed)
         | _ \<Rightarrow> (s1\<lparr>monitors := []\<rparr>, base_changed \<or> monitors s \<noteq> []))"

definition monitor_set_level :: "u8 \<Rightarrow> variable_monitor_store \<Rightarrow> variable_monitor_store \<times> bool" where
  "monitor_set_level severity s = (s\<lparr>monitor_level := severity\<rparr>, monitor_level s \<noteq> severity)"

definition is_reportable :: "variable_monitor_store \<Rightarrow> u8 \<Rightarrow> bool" where
  "is_reportable s severity = (severity \<le> monitor_level s)"

definition monitor_get :: "variable_monitor_store \<Rightarrow> variable_monitor_id \<Rightarrow> variable_monitor option" where
  "monitor_get s i = bt_get (monitors s) i"

definition monitor_precheck ::
  "variable_monitor_id \<Rightarrow> component \<Rightarrow> variable \<Rightarrow> monitor_type \<Rightarrow> variable_monitor_store
   \<Rightarrow> set_monitor_rejection + unit" where
  "monitor_precheck i c v t s =
     (if bt_get (monitors s) i \<noteq> None then Inr ()
      else if list_ex (\<lambda>m. monitor_component m = c \<and> monitor_variable m = v \<and> monitor_type_of m = t)
             (bt_values (monitors s))
      then Inl DuplicateMonitor
      else if max_monitors s \<le> length (monitors s) then Inl TooManyMonitors
      else Inr ())"

definition monitor_set ::
  "variable_monitor_id \<Rightarrow> component \<Rightarrow> variable \<Rightarrow> monitor_type \<Rightarrow> f64 \<Rightarrow> u8 \<Rightarrow> variable_monitor_store
   \<Rightarrow> variable_monitor_store \<times> bool" where
  "monitor_set i c v t x severity s =
     (let is_new = (bt_get (monitors s) i = None)
      in if is_new \<and> max_monitors s \<le> length (monitors s) then (s, False)
         else (s\<lparr>monitors := bt_insert i
                   \<lparr>monitor_id = i, monitor_component = c, monitor_variable = v, monitor_type_of = t,
                    monitor_value = x, monitor_severity = severity, delta_baseline = None\<rparr>
                   (monitors s),
                 next_monitor_id :=
                   (if next_monitor_id s \<le> i then wrap_i64 (i + 1) else next_monitor_id s)\<rparr>, True))"

definition monitor_clear :: "variable_monitor_id \<Rightarrow> variable_monitor_store \<Rightarrow> variable_monitor_store \<times> bool" where
  "monitor_clear i s = (s\<lparr>monitors := bt_remove i (monitors s)\<rparr>, bt_get (monitors s) i \<noteq> None)"

definition monitors_periodic :: "variable_monitor_store \<Rightarrow> variable_monitor list" where
  "monitors_periodic s = filter (\<lambda>m. monitor_type_of m = PeriodicMonitor) (bt_values (monitors s))"

text \<open>One monitor of the evaluation loop: its updated baseline and whether it fires.\<close>

definition monitor_fires :: "f64 option \<Rightarrow> f64 \<Rightarrow> variable_monitor \<Rightarrow> variable_monitor \<times> bool" where
  "monitor_fires old new m =
     (case monitor_type_of m of
        UpperThreshold \<Rightarrow>
          (m, f64_le (monitor_value m) new \<and> is_none_or old (\<lambda>o'. f64_less o' (monitor_value m)))
      | LowerThreshold \<Rightarrow>
          (m, f64_le new (monitor_value m) \<and> is_none_or old (\<lambda>o'. f64_less (monitor_value m) o'))
      | DeltaMonitor \<Rightarrow>
          (let baseline = unwrap_or (delta_baseline m) (unwrap_or old new);
               crossed = f64_le (f64_abs (monitor_value m)) (f64_abs (f64_sub new baseline))
           in (m\<lparr>delta_baseline := Some (if crossed then new else baseline)\<rparr>, crossed))
      | PeriodicMonitor \<Rightarrow> (m, False))"

fun evaluate_monitors ::
  "component \<Rightarrow> variable \<Rightarrow> f64 option \<Rightarrow> f64 \<Rightarrow> (variable_monitor_id, variable_monitor) btree
   \<Rightarrow> (variable_monitor_id, variable_monitor) btree \<times> variable_monitor_id list" where
  "evaluate_monitors c v old new [] = ([], [])"
| "evaluate_monitors c v old new ((k, m) # ms) =
     (let (rest, ids) = evaluate_monitors c v old new ms
      in if monitor_component m = c \<and> monitor_variable m = v
         then (let (m', fires) = monitor_fires old new m
               in ((k, m') # rest, if fires then monitor_id m # ids else ids))
         else ((k, m) # rest, ids))"

definition monitor_evaluate ::
  "component \<Rightarrow> variable \<Rightarrow> f64 option \<Rightarrow> f64 \<Rightarrow> variable_monitor_store
   \<Rightarrow> variable_monitor_store \<times> variable_monitor_id list" where
  "monitor_evaluate c v old new s =
     (let (ms, ids) = evaluate_monitors c v old new (monitors s) in (s\<lparr>monitors := ms\<rparr>, ids))"

datatype variable_monitoring_event =
    MonitorSet variable_monitor_id component "variable" monitor_type f64 u8
  | MonitorCleared variable_monitor_id
  | BaseSet monitoring_base
  | LevelSet u8

datatype event_trigger = Alerting | DeltaTrigger | PeriodicTrigger

record triggered_monitor =
  triggered_monitor_id :: "variable_monitor_id option"
  triggered_component :: component
  triggered_variable :: "variable"
  triggered_value :: string
  triggered_severity :: u8
  triggered_by :: event_trigger

section \<open>Well-formedness and contracts\<close>

definition monitors_inv :: "variable_monitor_store \<Rightarrow> bool" where
  "monitors_inv s =
     (bt_inv (monitors s) \<and> length (monitors s) \<le> max_monitors s \<and> 0 < max_monitors s
      \<and> list_all (\<lambda>(k, m). monitor_id m = k) (monitors s))"

inductive monitor_op :: "variable_monitor_store \<Rightarrow> variable_monitor_store \<Rightarrow> bool" where
  set: "monitor_op s (fst (monitor_set i c v t x severity s))"
| clear: "monitor_op s (fst (monitor_clear i s))"
| set_base: "monitor_op s (fst (monitor_set_base b s))"
| set_level: "monitor_op s (fst (monitor_set_level l s))"
| evaluate: "monitor_op s (fst (monitor_evaluate c v old new s))"

lemma monitors_inv_init [simp]: "monitors_inv (monitors_with_limit n)"
  by (simp add: monitors_inv_def monitors_with_limit_def bt_inv_def)

lemma list_all_insert_key:
  "list_all (\<lambda>(k, m). f m = k) ms \<Longrightarrow> f x = k \<Longrightarrow> list_all (\<lambda>(k, m). f m = k) (bt_insert k x ms)"
  by (induction ms) auto

lemma monitor_fires_id: "monitor_fires old new m = (m', b) \<Longrightarrow> monitor_id m' = monitor_id m"
  by (auto simp: monitor_fires_def Let_def split: monitor_type.splits)

lemma evaluate_monitors_keys: "map fst (fst (evaluate_monitors c v old new ms)) = map fst ms"
  by (induction ms) (auto simp: Let_def split: prod.splits)

lemma evaluate_monitors_ids:
  "list_all (\<lambda>(k, m). monitor_id m = k) ms \<Longrightarrow>
   list_all (\<lambda>(k, m). monitor_id m = k) (fst (evaluate_monitors c v old new ms))"
  by (induction ms) (auto simp: Let_def dest: monitor_fires_id split: prod.splits)

lemma length_evaluate_monitors [simp]: "length (fst (evaluate_monitors c v old new ms)) = length ms"
  by (metis evaluate_monitors_keys length_map)

interpretation monitor_store: bounded_store "\<lambda>s. length (monitors s)" max_monitors monitors_inv monitor_op
proof
  show "max_monitors s' = max_monitors s" if "monitor_op s s'" for s s'
    using that
    by cases (auto simp: monitor_set_def monitor_clear_def monitor_set_base_def monitor_set_level_def
        monitor_evaluate_def Let_def split: monitoring_base.splits prod.splits)
  show "length (monitors s) \<le> max_monitors s" if "monitors_inv s" for s
    using that by (simp add: monitors_inv_def)
  show "monitors_inv s'" if "monitor_op s s'" and inv: "monitors_inv s" for s s'
    using that(1)
  proof cases
    case (set i c v t x severity)
    with inv show ?thesis
      using bt.length_insert [of "monitors s" i]
      by (auto simp: monitor_set_def monitors_inv_def Let_def bt_inv_insert list_all_insert_key)
  next
    case (clear i)
    with inv show ?thesis
      using bt_inv_remove [of "monitors s" i]
      by (auto simp: monitor_clear_def monitors_inv_def bt_remove_def list_all_iff
          intro: order_trans [OF length_filter_le])
  next
    case (evaluate c v old new)
    with inv show ?thesis
      using evaluate_monitors_keys [of c v old new "monitors s"]
        evaluate_monitors_ids [of "monitors s" c v old new]
      by (auto simp: monitor_evaluate_def monitors_inv_def bt_inv_def dest: map_eq_imp_length_eq
          split: prod.splits)
  qed (use inv in \<open>auto simp: monitor_set_base_def monitor_set_level_def monitors_inv_def bt_inv_def
      Let_def split: monitoring_base.splits\<close>)
qed

text \<open>The ids an evaluation reports are those of the monitors of that variable that fire, in
  ascending order.\<close>

lemma evaluate_monitors_eq:
  "snd (evaluate_monitors c v old new ms) =
   map (\<lambda>p. monitor_id (snd p))
     (filter (\<lambda>p. monitor_component (snd p) = c \<and> monitor_variable (snd p) = v
        \<and> snd (monitor_fires old new (snd p))) ms)"
  by (induction ms) (auto simp: Let_def split: prod.splits)

lemma monitor_get_set:
  "snd (monitor_set i c v t x severity s) \<Longrightarrow>
   monitor_get (fst (monitor_set i c v t x severity s)) j =
     (if j = i then Some \<lparr>monitor_id = i, monitor_component = c, monitor_variable = v,
        monitor_type_of = t, monitor_value = x, monitor_severity = severity, delta_baseline = None\<rparr>
      else monitor_get s j)"
  by (auto simp: monitor_set_def monitor_get_def Let_def bt_get_insert split: if_splits)

end
