(* ===== verification/Device_Model_Defaults.thy ===== *)
theory Device_Model_Defaults
  imports Device_Model
begin

text \<open>
  The tables of \<open>src/state/device_model.rs\<close> and the registrations every fresh device model
  makes: \<open>DEFAULT_VARIABLES\<close> with its \<open>VARIABLE_BOUNDS\<close>, and the availability and
  plug-lock variables of each EVSE and connector of the charge point's topology.
\<close>

section \<open>Names\<close>

definition availability_component_charge_point :: string where
  "availability_component_charge_point = ''ChargingStation''"

definition availability_component_evse :: string where
  "availability_component_evse = ''EVSE''"

definition availability_component_connector :: string where
  "availability_component_connector = ''Connector''"

definition plug_retention_lock_component :: string where
  "plug_retention_lock_component = ''ConnectorPlugRetentionLock''"

definition problem_variable :: string where
  "problem_variable = ''Problem''"

definition availability_state_variable :: string where
  "availability_state_variable = ''AvailabilityState''"

definition availability_exists_variable :: string where
  "availability_exists_variable = ''Available''"

definition availability_state_available :: string where
  "availability_state_available = ''Available''"

definition availability_state_unavailable :: string where
  "availability_state_unavailable = ''Unavailable''"

definition network_configuration_component :: string where
  "network_configuration_component = ''NetworkConfiguration''"

definition clock_component :: string where
  "clock_component = ''ClockCtrlr''"

definition clock_date_time_variable :: string where
  "clock_date_time_variable = ''DateTime''"

definition availability_state_values :: "string list" where
  "availability_state_values = [''Available'', ''Occupied'', ''Reserved'', ''Unavailable'', ''Faulted'']"

lemmas device_model_names =
  availability_component_charge_point_def availability_component_evse_def
  availability_component_connector_def plug_retention_lock_component_def problem_variable_def
  availability_state_variable_def availability_exists_variable_def
  availability_state_available_def availability_state_unavailable_def
  network_configuration_component_def clock_component_def clock_date_time_variable_def

definition supported_measurands :: "string list" where
  "supported_measurands =
     [''Energy.Active.Import.Register'', ''Power.Active.Import'', ''Current.Import'', ''Voltage'', ''SoC'']"

definition tx_start_stop_points :: "string list" where
  "tx_start_stop_points = [''EVConnected'', ''Authorized'', ''PowerPathClosed'']"

definition supported_transaction_limits_value :: string where
  "supported_transaction_limits_value = ''maxCost,maxEnergy,maxSoC''"

section \<open>The tables\<close>

datatype variable_bounds_row =
  VariableBounds (bounds_component: string) (bounds_variable: string)
    (bounds_instance: "string option") (bounds_min: "f64 option") (bounds_max: "f64 option")
    (bounds_values: "string list option")

datatype default_variable =
  DefaultVariable (default_component: string) (default_variable_name: string)
    (default_instance: "string option") (default_data_type: variable_data_type)
    (default_unit: "string option") (default_value: string)
    (default_mutability: variable_mutability) (default_honoured: bool) (default_persistent: bool)

definition variable_bounds :: "variable_bounds_row list" where
  "variable_bounds =
    [
     VariableBounds ''OCPPCommCtrlr'' ''HeartbeatInterval'' None (Some (Fin 0)) None None,
     VariableBounds ''OCPPCommCtrlr'' ''OfflineThreshold'' None (Some (Fin 0)) None None,
     VariableBounds ''OCPPCommCtrlr'' ''MessageTimeout'' (Some ''Default'') (Some (Fin 0)) None None,
     VariableBounds ''OCPPCommCtrlr'' ''MessageAttemptInterval'' (Some ''TransactionEvent'') (Some (Fin 0)) None None,
     VariableBounds ''OCPPCommCtrlr'' ''MessageAttempts'' (Some ''TransactionEvent'') (Some (Fin 0)) None None,
     VariableBounds ''AlignedDataCtrlr'' ''Interval'' None (Some (Fin 0)) None None,
     VariableBounds ''AuthCacheCtrlr'' ''LifeTime'' None (Some (Fin 0)) None None,
     VariableBounds ''SecurityCtrlr'' ''CertSigningWaitMinimum'' None (Some (Fin 0)) None None,
     VariableBounds ''SecurityCtrlr'' ''CertSigningRepeatTimes'' None (Some (Fin 0)) None None,
     VariableBounds ''SecurityCtrlr'' ''MaxCertificateChainSize'' None (Some (Fin 0)) (Some (Fin 10000)) None,
     VariableBounds ''ChargingStation'' ''MinimumStatusDuration'' None (Some (Fin 0)) None None,
     VariableBounds ''TxCtrlr'' ''EVConnectionTimeOut'' None (Some (Fin 0)) None None,
     VariableBounds ''SampledDataCtrlr'' ''TxStartedMeasurands'' None None None (Some supported_measurands),
     VariableBounds ''SampledDataCtrlr'' ''TxUpdatedMeasurands'' None None None (Some supported_measurands),
     VariableBounds ''SampledDataCtrlr'' ''TxEndedMeasurands'' None None None (Some supported_measurands),
     VariableBounds ''AlignedDataCtrlr'' ''Measurands'' None None None (Some supported_measurands),
     VariableBounds ''AlignedDataCtrlr'' ''TxEndedMeasurands'' None None None (Some supported_measurands),
     VariableBounds ''TxCtrlr'' ''TxStartPoint'' None None None (Some tx_start_stop_points),
     VariableBounds ''TxCtrlr'' ''TxStopPoint'' None None None (Some tx_start_stop_points)]"

definition default_variables_1 :: "default_variable list" where
  "default_variables_1 =
    [
     DefaultVariable ''OCPPCommCtrlr'' ''HeartbeatInterval'' None IntegerType (Some ''s'') ''60''
       ReadWrite True True,
     DefaultVariable ''AlignedDataCtrlr'' ''Interval'' None IntegerType (Some ''s'') ''0''
       ReadWrite True False,
     DefaultVariable ''AuthCacheCtrlr'' ''Enabled'' None BooleanType None ''true''
       ReadWrite True False,
     DefaultVariable ''AuthCacheCtrlr'' ''LifeTime'' None IntegerType (Some ''s'') ''0''
       ReadWrite True False,
     DefaultVariable ''AuthCtrlr'' ''LocalAuthorizeOffline'' None BooleanType None ''true''
       ReadWrite True False,
     DefaultVariable ''AuthCtrlr'' ''AuthorizeRemoteStart'' None BooleanType None ''false''
       ReadWrite True True,
     DefaultVariable ''AuthCtrlr'' ''DisableRemoteAuthorization'' None BooleanType None ''false''
       ReadWrite True True,
     DefaultVariable ''AuthCtrlr'' ''LocalPreAuthorize'' None BooleanType None ''false''
       ReadWrite False False,
     DefaultVariable ''AuthCtrlr'' ''OfflineTxForUnknownIdEnabled'' None BooleanType None ''false''
       ReadWrite True False,
     DefaultVariable ''TxCtrlr'' ''EVConnectionTimeOut'' None IntegerType (Some ''s'') ''120''
       ReadWrite True False]"

definition default_variables_2 :: "default_variable list" where
  "default_variables_2 =
    [
     DefaultVariable ''TxCtrlr'' ''StopTxOnEVSideDisconnect'' None BooleanType None ''true''
       ReadWrite True False,
     DefaultVariable ''TxCtrlr'' ''StopTxOnInvalidId'' None BooleanType None ''true''
       ReadWrite True False,
     DefaultVariable ''TxCtrlr'' ''MaxEnergyOnInvalidId'' None IntegerType (Some ''Wh'') ''0''
       ReadWrite True False,
     DefaultVariable ''TxCtrlr'' ''SupportedLimits'' None MemberListType None supported_transaction_limits_value
       ReadOnly True False,
     DefaultVariable ''SampledDataCtrlr'' ''TxUpdatedInterval'' None IntegerType (Some ''s'') ''0''
       ReadWrite False False,
     DefaultVariable ''SampledDataCtrlr'' ''TxUpdatedMeasurands'' None MemberListType None ''Energy.Active.Import.Register,Power.Active.Import''
       ReadWrite True False,
     DefaultVariable ''SampledDataCtrlr'' ''TxEndedMeasurands'' None MemberListType None ''Energy.Active.Import.Register''
       ReadWrite True False,
     DefaultVariable ''SampledDataCtrlr'' ''TxEndedInterval'' None IntegerType (Some ''s'') ''0''
       ReadWrite False False,
     DefaultVariable ''AlignedDataCtrlr'' ''Measurands'' None MemberListType None ''Energy.Active.Import.Register''
       ReadWrite True False,
     DefaultVariable ''AlignedDataCtrlr'' ''TxEndedMeasurands'' None MemberListType None ''Energy.Active.Import.Register''
       ReadWrite False False]"

definition default_variables_3 :: "default_variable list" where
  "default_variables_3 =
    [
     DefaultVariable ''AlignedDataCtrlr'' ''TxEndedInterval'' None IntegerType (Some ''s'') ''0''
       ReadWrite False False,
     DefaultVariable ''OCPPCommCtrlr'' ''MessageAttempts'' (Some ''TransactionEvent'') IntegerType None ''3''
       ReadWrite True False,
     DefaultVariable ''OCPPCommCtrlr'' ''MessageAttemptInterval'' (Some ''TransactionEvent'') IntegerType (Some ''s'') ''60''
       ReadWrite True False,
     DefaultVariable ''OCPPCommCtrlr'' ''RetryBackOffWaitMinimum'' None IntegerType (Some ''s'') ''1''
       ReadWrite True False,
     DefaultVariable ''OCPPCommCtrlr'' ''RetryBackOffRepeatTimes'' None IntegerType None ''5''
       ReadWrite True False,
     DefaultVariable ''OCPPCommCtrlr'' ''RetryBackOffRandomRange'' None IntegerType (Some ''s'') ''0''
       ReadWrite True False,
     DefaultVariable ''OCPPCommCtrlr'' ''WebSocketPingInterval'' None IntegerType (Some ''s'') ''0''
       ReadWrite True False,
     DefaultVariable ''OCPPCommCtrlr'' ''ResetRetries'' None IntegerType None ''1''
       ReadWrite False False,
     DefaultVariable ''ChargingStation'' ''MinimumStatusDuration'' None IntegerType (Some ''s'') ''0''
       ReadWrite True False,
     DefaultVariable ''OCPPCommCtrlr'' ''UnlockOnEVSideDisconnect'' None BooleanType None ''true''
       ReadWrite True False]"

definition default_variables_4 :: "default_variable list" where
  "default_variables_4 =
    [
     DefaultVariable ''LocalAuthListCtrlr'' ''Enabled'' None BooleanType None ''true''
       ReadWrite False False,
     DefaultVariable ''OCPPCommCtrlr'' ''FileTransferProtocols'' None MemberListType None ''''
       ReadOnly False False,
     DefaultVariable ''OCPPCommCtrlr'' ''MessageTimeout'' (Some ''Default'') IntegerType (Some ''s'') ''30''
       ReadWrite True False,
     DefaultVariable ''OCPPCommCtrlr'' ''NetworkConfigurationPriority'' None StringType None ''0''
       ReadWrite True False,
     DefaultVariable ''OCPPCommCtrlr'' ''NetworkProfileConnectionAttempts'' None IntegerType None ''3''
       ReadWrite True False,
     DefaultVariable ''OCPPCommCtrlr'' ''OfflineThreshold'' None IntegerType (Some ''s'') ''60''
       ReadWrite True False,
     DefaultVariable ''SampledDataCtrlr'' ''TxStartedMeasurands'' None MemberListType None ''Energy.Active.Import.Register''
       ReadWrite True False,
     DefaultVariable ''TxCtrlr'' ''TxStartPoint'' None MemberListType None ''Authorized''
       ReadWrite True False,
     DefaultVariable ''TxCtrlr'' ''TxStopPoint'' None MemberListType None ''PowerPathClosed''
       ReadWrite True False,
     DefaultVariable ''ClockCtrlr'' ''TimeSource'' None SequenceListType None ''Heartbeat''
       ReadOnly False False]"

definition default_variables_5 :: "default_variable list" where
  "default_variables_5 =
    [
     DefaultVariable ''ClockCtrlr'' ''DateTime'' None DateTimeType None ''''
       ReadOnly True False,
     DefaultVariable ''SecurityCtrlr'' ''SecurityProfile'' None IntegerType None ''1''
       ReadOnly True False,
     DefaultVariable ''SecurityCtrlr'' ''AllowSecurityProfileDowngrade'' None BooleanType None ''false''
       ReadWrite True True,
     DefaultVariable ''SecurityCtrlr'' ''OrganizationName'' None StringType None ''''
       ReadWrite True True,
     DefaultVariable ''SecurityCtrlr'' ''CertificateEntries'' None IntegerType None ''0''
       ReadOnly False False,
     DefaultVariable ''SecurityCtrlr'' ''CertSigningWaitMinimum'' None IntegerType (Some ''s'') ''30''
       ReadWrite True True,
     DefaultVariable ''SecurityCtrlr'' ''CertSigningRepeatTimes'' None IntegerType None ''3''
       ReadWrite True True,
     DefaultVariable ''SecurityCtrlr'' ''MaxCertificateChainSize'' None IntegerType None ''10000''
       ReadWrite True True,
     DefaultVariable ''DeviceDataCtrlr'' ''ItemsPerMessage'' (Some ''GetVariables'') IntegerType None ''50''
       ReadOnly True False,
     DefaultVariable ''DeviceDataCtrlr'' ''ItemsPerMessage'' (Some ''SetVariables'') IntegerType None ''50''
       ReadOnly True False]"

definition default_variables_6 :: "default_variable list" where
  "default_variables_6 =
    [
     DefaultVariable ''DeviceDataCtrlr'' ''ItemsPerMessage'' (Some ''GetReport'') IntegerType None ''16''
       ReadOnly True False,
     DefaultVariable ''DeviceDataCtrlr'' ''BytesPerMessage'' (Some ''GetVariables'') IntegerType None ''8192''
       ReadOnly True False,
     DefaultVariable ''DeviceDataCtrlr'' ''BytesPerMessage'' (Some ''SetVariables'') IntegerType None ''8192''
       ReadOnly True False,
     DefaultVariable ''DeviceDataCtrlr'' ''BytesPerMessage'' (Some ''GetReport'') IntegerType None ''8192''
       ReadOnly True False]"

definition default_variables :: "default_variable list" where
  "default_variables =
     default_variables_1 @ default_variables_2 @ default_variables_3
     @ default_variables_4 @ default_variables_5 @ default_variables_6"

section \<open>Registration\<close>

definition default_characteristics :: "default_variable \<Rightarrow> variable_characteristics" where
  "default_characteristics d =
     (let bounds = List.find (\<lambda>b. bounds_component b = default_component d
            \<and> bounds_variable b = default_variable_name d
            \<and> bounds_instance b = default_instance d) variable_bounds
      in \<lparr>data_type = default_data_type d, var_unit_of = default_unit d,
          min_limit = Option.bind bounds bounds_min, max_limit = Option.bind bounds bounds_max,
          values_list = Option.bind bounds bounds_values, supports_monitoring = False\<rparr>)"

definition register_default :: "default_variable \<Rightarrow> device_model \<Rightarrow> device_model" where
  "register_default d m =
     fst (dm_register
       (Component (default_component d) None None)
       (Variable (default_variable_name d) (default_instance d))
       (default_characteristics d)
       [\<lparr>attribute_type_of = Actual, attribute_value = default_value d,
         mutability = (if default_honoured d then default_mutability d else ReadOnly),
         persistent = default_persistent d, constant_attribute = False, requires_reboot = False\<rparr>]
       m)"

definition register_defaults :: "device_model \<Rightarrow> device_model" where
  "register_defaults m = fold register_default default_variables m"

definition register_plug_retention_lock :: "usize \<Rightarrow> usize \<Rightarrow> device_model \<Rightarrow> device_model" where
  "register_plug_retention_lock evse_id connector_id m =
     fst (dm_register
       (Component plug_retention_lock_component None (Some (evse_id, Some connector_id)))
       (Variable problem_variable None)
       \<lparr>data_type = BooleanType, var_unit_of = None, min_limit = None, max_limit = None,
        values_list = None, supports_monitoring = True\<rparr>
       [\<lparr>attribute_type_of = Actual, attribute_value = ''false'', mutability = ReadOnly,
         persistent = False, constant_attribute = False, requires_reboot = False\<rparr>]
       m)"

definition register_availability_pair ::
  "string \<Rightarrow> (usize \<times> usize option) option \<Rightarrow> string \<Rightarrow> device_model \<Rightarrow> device_model" where
  "register_availability_pair name evse initial_state m =
     (let c = Component name None evse;
          m1 = fst (dm_register c (Variable availability_state_variable None)
            \<lparr>data_type = OptionListType, var_unit_of = None, min_limit = None, max_limit = None,
             values_list = Some availability_state_values, supports_monitoring = True\<rparr>
            [\<lparr>attribute_type_of = Actual, attribute_value = initial_state, mutability = ReadOnly,
              persistent = False, constant_attribute = False, requires_reboot = False\<rparr>]
            m)
      in fst (dm_register c (Variable availability_exists_variable None)
            \<lparr>data_type = BooleanType, var_unit_of = None, min_limit = None, max_limit = None,
             values_list = None, supports_monitoring = False\<rparr>
            [\<lparr>attribute_type_of = Actual, attribute_value = ''true'', mutability = ReadOnly,
              persistent = False, constant_attribute = True, requires_reboot = False\<rparr>]
            m1))"

definition register_connector_defaults :: "usize \<Rightarrow> usize \<Rightarrow> device_model \<Rightarrow> device_model" where
  "register_connector_defaults evse_id connector_id m =
     register_plug_retention_lock evse_id connector_id
       (register_availability_pair availability_component_connector
         (Some (evse_id, Some connector_id)) availability_state_available m)"

definition register_evse_defaults :: "usize \<times> usize \<Rightarrow> device_model \<Rightarrow> device_model" where
  "register_evse_defaults = (\<lambda>(evse_id, connector_count) m.
     fold (register_connector_defaults evse_id) [0 ..< connector_count]
       (register_availability_pair availability_component_evse (Some (evse_id, None))
         availability_state_available m))"

definition register_topology_defaults :: "usize list \<Rightarrow> device_model \<Rightarrow> device_model" where
  "register_topology_defaults connector_counts m =
     fold register_evse_defaults (enumerate 0 connector_counts)
       (register_availability_pair availability_component_charge_point None
         availability_state_unavailable m)"

definition usize_max :: usize where
  "usize_max = 2 ^ 64 - 1"

definition dm_with_topology :: "usize \<Rightarrow> usize list \<Rightarrow> device_model" where
  "dm_with_topology max_variables connector_counts =
     (let m = register_topology_defaults connector_counts
            (register_defaults \<lparr>dm_components = [], dm_max_variables = usize_max\<rparr>)
      in m\<lparr>dm_max_variables := max (max max_variables (dm_len m)) 1\<rparr>)"

datatype device_model_event =
    VariableRegistered component "variable" variable_characteristics "variable_attribute list"
  | AttributeValueSet component "variable" attribute_type string

section \<open>What a fresh device model holds\<close>

text \<open>The registrations of \<open>with_topology\<close> as one sequence.\<close>

type_synonym registration =
  "component \<times> variable \<times> variable_characteristics \<times> variable_attribute list"

definition register_one :: "registration \<Rightarrow> device_model \<Rightarrow> device_model" where
  "register_one = (\<lambda>(c, v, ch, attrs) m. fst (dm_register c v ch attrs m))"

definition registrations :: "registration list \<Rightarrow> device_model \<Rightarrow> device_model" where
  "registrations rs m = fold register_one rs m"

lemma registrations_ops: "dm_op\<^sup>*\<^sup>* m (registrations rs m)"
proof (induction rs arbitrary: m)
  case (Cons r rs)
  have "dm_op m (register_one r m)"
    by (cases r) (auto simp: register_one_def intro: dm_op.register)
  with Cons [of "register_one r m"] show ?case
    by (simp add: registrations_def)
qed (simp add: registrations_def)

lemma registrations_append: "registrations (rs @ qs) m = registrations qs (registrations rs m)"
  by (simp add: registrations_def)

lemma dm_len_register_one:
  assumes "dm_inv m"
  shows "dm_len (register_one r m) \<le> Suc (dm_len m)"
proof -
  obtain c v ch attrs where r: "r = (c, v, ch, attrs)" by (cases r)
  show ?thesis
    using dm_len_register [OF assms, of c v ch attrs] dm_register_refused [of c v ch attrs m]
    by (cases "snd (dm_register c v ch attrs m)") (auto simp: register_one_def r)
qed

text \<open>With room for all of them, every registration of a sequence that nothing later
  redefines is what the model holds afterwards.\<close>

lemma registrations_get:
  assumes "dm_inv m" and "dm_len m + length rs \<le> dm_max_variables m"
    and "(c, v, ch, attrs) \<in> set rs"
    and "\<forall>q \<in> set rs. fst q = c \<and> fst (snd q) = v \<longrightarrow> snd (snd q) = (ch, attrs)"
  shows "dm_get (registrations rs m) c v = Some \<lparr>characteristics = ch, attributes = attrs\<rparr>"
  using assms
proof (induction rs rule: rev_induct)
  case (snoc r rs)
  obtain c' v' ch' attrs' where r: "r = (c', v', ch', attrs')" by (cases r)
  let ?m = "registrations rs m"
  have inv: "dm_inv ?m" and cap: "dm_max_variables ?m = dm_max_variables m"
    using dm_store.ops_invar dm_store.ops_cap registrations_ops snoc.prems(1) by blast+
  have "dm_len (registrations qs m) \<le> dm_len m + length qs" for qs
  proof (induction qs rule: rev_induct)
    case (snoc q qs)
    have "dm_inv (registrations qs m)"
      using dm_store.ops_invar registrations_ops assms(1) by blast
    from dm_len_register_one [OF this, of q] snoc show ?case
      by (simp add: registrations_append registrations_def)
  qed (simp add: registrations_def)
  from this [of rs] have "dm_len ?m < dm_max_variables ?m"
    using snoc.prems(2) cap by simp
  then have accepted: "snd (dm_register c' v' ch' attrs' ?m)"
    by (simp add: dm_register_accepts)
  have step: "registrations (rs @ [r]) m = fst (dm_register c' v' ch' attrs' ?m)"
    by (simp add: registrations_def r register_one_def)
  note get = dm_get_register [OF accepted, of c v]
  show ?case
  proof (cases "c' = c \<and> v' = v")
    case True
    with snoc.prems(4) r have "ch' = ch \<and> attrs' = attrs" by simp
    with True get step show ?thesis by simp
  next
    case False
    have "(c, v, ch, attrs) \<in> set rs"
      using snoc.prems(3) False r by auto
    moreover have "\<forall>q \<in> set rs. fst q = c \<and> fst (snd q) = v \<longrightarrow> snd (snd q) = (ch, attrs)"
      using snoc.prems(4) by simp
    ultimately have "dm_get ?m c v = Some \<lparr>characteristics = ch, attributes = attrs\<rparr>"
      using snoc.IH [OF snoc.prems(1)] snoc.prems(2) by simp
    moreover have "\<not> (c = c' \<and> v = v')" using False by blast
    ultimately show ?thesis unfolding step get by (simp only: if_False)
  qed
qed simp

definition attr_row :: "string \<Rightarrow> bool \<Rightarrow> variable_attribute list" where
  "attr_row value_string is_constant =
     [\<lparr>attribute_type_of = Actual, attribute_value = value_string, mutability = ReadOnly,
       persistent = False, constant_attribute = is_constant, requires_reboot = False\<rparr>]"

definition availability_rows :: "string \<Rightarrow> (usize \<times> usize option) option \<Rightarrow> string \<Rightarrow> registration list" where
  "availability_rows name evse initial_state =
     [(Component name None evse, Variable availability_state_variable None,
       \<lparr>data_type = OptionListType, var_unit_of = None, min_limit = None, max_limit = None,
        values_list = Some availability_state_values, supports_monitoring = True\<rparr>,
       attr_row initial_state False),
      (Component name None evse, Variable availability_exists_variable None,
       \<lparr>data_type = BooleanType, var_unit_of = None, min_limit = None, max_limit = None,
        values_list = None, supports_monitoring = False\<rparr>,
       attr_row ''true'' True)]"

definition connector_rows :: "usize \<Rightarrow> usize \<Rightarrow> registration list" where
  "connector_rows e c =
     availability_rows availability_component_connector (Some (e, Some c)) availability_state_available
     @ [(Component plug_retention_lock_component None (Some (e, Some c)), Variable problem_variable None,
         \<lparr>data_type = BooleanType, var_unit_of = None, min_limit = None, max_limit = None,
          values_list = None, supports_monitoring = True\<rparr>, attr_row ''false'' False)]"

definition evse_rows :: "usize \<times> usize \<Rightarrow> registration list" where
  "evse_rows = (\<lambda>(e, n). availability_rows availability_component_evse (Some (e, None))
      availability_state_available @ concat (map (connector_rows e) [0 ..< n]))"

definition default_row :: "default_variable \<Rightarrow> registration" where
  "default_row d =
     (Component (default_component d) None None, Variable (default_variable_name d) (default_instance d),
      default_characteristics d,
      [\<lparr>attribute_type_of = Actual, attribute_value = default_value d,
        mutability = (if default_honoured d then default_mutability d else ReadOnly),
        persistent = default_persistent d, constant_attribute = False, requires_reboot = False\<rparr>])"

definition topology_rows :: "usize list \<Rightarrow> registration list" where
  "topology_rows counts =
     map default_row default_variables
     @ availability_rows availability_component_charge_point None availability_state_unavailable
     @ concat (map evse_rows (enumerate 0 counts))"

lemma fold_registrations:
  assumes "\<And>x m. f x m = registrations (g x) m"
  shows "fold f xs m = registrations (concat (map g xs)) m"
  by (induction xs arbitrary: m) (auto simp: assms registrations_append, simp add: registrations_def)

lemma register_default_rows: "register_default d m = registrations [default_row d] m"
  by (simp add: registrations_def register_default_def register_one_def default_row_def)

lemma register_availability_pair_rows:
  "register_availability_pair n e i m = registrations (availability_rows n e i) m"
  by (simp add: registrations_def register_availability_pair_def register_one_def availability_rows_def
      Let_def attr_row_def)

lemma register_connector_defaults_rows:
  "register_connector_defaults e c m = registrations (connector_rows e c) m"
  by (simp add: register_connector_defaults_def connector_rows_def registrations_append
      register_availability_pair_rows register_plug_retention_lock_def)
    (simp add: registrations_def register_one_def attr_row_def)

lemma register_evse_defaults_rows: "register_evse_defaults p m = registrations (evse_rows p) m"
  by (cases p) (simp add: register_evse_defaults_def evse_rows_def registrations_append
      register_availability_pair_rows fold_registrations [OF register_connector_defaults_rows])

lemma with_topology_rows:
  "register_topology_defaults counts (register_defaults m) = registrations (topology_rows counts) m"
proof -
  have "concat (map (\<lambda>d. [default_row d]) ds) = map default_row ds" for ds
    by (induction ds) auto
  then show ?thesis
    by (simp add: register_topology_defaults_def register_defaults_def topology_rows_def
        registrations_append register_availability_pair_rows
        fold_registrations [OF register_default_rows] fold_registrations [OF register_evse_defaults_rows])
qed

lemma dm_inv_empty [simp]: "dm_inv \<lparr>dm_components = [], dm_max_variables = n\<rparr>"
  by (simp add: dm_inv_def bt_inv_def dm_len_def bt_values_def)

lemma dm_with_topology_inv [simp]: "dm_inv (dm_with_topology n counts)"
proof -
  let ?m = "registrations (topology_rows counts) \<lparr>dm_components = [], dm_max_variables = usize_max\<rparr>"
  have "dm_inv ?m"
    by (rule dm_store.ops_invar [OF registrations_ops]) simp
  then show ?thesis
    by (simp add: dm_with_topology_def Let_def with_topology_rows dm_inv_def dm_len_def le_max_iff_disj)
qed

lemma length_default_variables: "length default_variables = 54"
  by (simp add: default_variables_def default_variables_1_def default_variables_2_def
      default_variables_3_def default_variables_4_def default_variables_5_def default_variables_6_def)

lemma length_evse_rows: "length (evse_rows (e, n)) = 2 + 3 * n"
  by (simp add: evse_rows_def availability_rows_def connector_rows_def length_concat comp_def sum_list_triv)

lemma length_topology_rows: "length (topology_rows counts) = 56 + 2 * length counts + 3 * sum_list counts"
proof -
  have "length (concat (map evse_rows (enumerate k ns))) = 2 * length ns + 3 * sum_list ns" for k ns
    by (induction ns arbitrary: k) (auto simp: length_evse_rows)
  then show ?thesis
    by (simp add: topology_rows_def length_default_variables availability_rows_def)
qed

text \<open>No built-in variable of the station is called \<open>AvailabilityState\<close>, so the topology's
  rows are the only ones that define it.\<close>

lemma default_rows_not_availability:
  "\<forall>d \<in> set default_variables. default_variable_name d \<noteq> availability_state_variable"
  by (simp add: default_variables_def default_variables_1_def default_variables_2_def
      default_variables_3_def default_variables_4_def default_variables_5_def default_variables_6_def
      availability_state_variable_def)

fun initial_availability :: "(usize \<times> usize option) option \<Rightarrow> string" where
  "initial_availability None = availability_state_unavailable"
| "initial_availability (Some _) = availability_state_available"

fun availability_component :: "(usize \<times> usize option) option \<Rightarrow> component" where
  "availability_component None = Component availability_component_charge_point None None"
| "availability_component (Some (e, None)) = Component availability_component_evse None (Some (e, None))"
| "availability_component (Some (e, Some c)) =
     Component availability_component_connector None (Some (e, Some c))"

fun in_topology :: "usize list \<Rightarrow> (usize \<times> usize option) option \<Rightarrow> bool" where
  "in_topology counts None = True"
| "in_topology counts (Some (e, None)) = (e < length counts)"
| "in_topology counts (Some (e, Some c)) = (e < length counts \<and> c < counts ! e)"

abbreviation availability_variable :: "variable" where
  "availability_variable \<equiv> Variable availability_state_variable None"

definition availability_characteristics :: variable_characteristics where
  "availability_characteristics =
     \<lparr>data_type = OptionListType, var_unit_of = None, min_limit = None, max_limit = None,
      values_list = Some availability_state_values, supports_monitoring = True\<rparr>"

definition availability_state_row :: "(usize \<times> usize option) option \<Rightarrow> registration" where
  "availability_state_row a =
     (availability_component a, availability_variable, availability_characteristics,
      attr_row (initial_availability a) False)"

lemma availability_state_row_simps:
  "availability_state_row a \<in> set (availability_rows n e i) \<longleftrightarrow>
     availability_component a = Component n None e \<and> initial_availability a = i"
  by (auto simp: availability_state_row_def availability_rows_def availability_characteristics_def
      attr_row_def device_model_names)

lemma availability_row_in:
  assumes "in_topology counts a"
  shows "availability_state_row a \<in> set (topology_rows counts)"
proof (cases a rule: availability_component.cases)
  case 1
  then show ?thesis
    by (simp add: topology_rows_def availability_state_row_simps)
next
  case (2 e)
  then have "availability_state_row a \<in> set (evse_rows (e, counts ! e))"
    by (simp add: evse_rows_def availability_state_row_simps)
  moreover have "(e, counts ! e) \<in> set (enumerate 0 counts)"
    using 2 assms by (simp add: in_set_enumerate_eq)
  ultimately show ?thesis by (auto simp: topology_rows_def)
next
  case (3 e c)
  then have "availability_state_row a \<in> set (connector_rows e c)"
    by (simp add: connector_rows_def availability_state_row_simps)
  then have "availability_state_row a \<in> set (evse_rows (e, counts ! e))"
    using 3 assms by (auto simp: evse_rows_def)
  moreover have "(e, counts ! e) \<in> set (enumerate 0 counts)"
    using 3 assms by (simp add: in_set_enumerate_eq)
  ultimately show ?thesis by (auto simp: topology_rows_def)
qed

lemma availability_row_unique:
  assumes "q \<in> set (topology_rows counts)" and "fst (snd q) = availability_variable"
    and "fst q = availability_component a"
  shows "snd (snd q) = (availability_characteristics, attr_row (initial_availability a) False)"
  using assms default_rows_not_availability
  by (cases a rule: availability_component.cases)
    (auto simp: topology_rows_def default_row_def evse_rows_def connector_rows_def availability_rows_def
      availability_characteristics_def device_model_names)

lemma dm_with_topology_availability:
  assumes "in_topology counts a"
    and "56 + 2 * length counts + 3 * sum_list counts \<le> usize_max"
  shows "dm_actual (dm_with_topology n counts) (availability_component a) availability_variable
    = Some (initial_availability a)"
proof -
  let ?m = "\<lparr>dm_components = [], dm_max_variables = usize_max\<rparr>"
  note row = availability_row_in [OF assms(1), unfolded availability_state_row_def]
  have "dm_get (registrations (topology_rows counts) ?m) (availability_component a) availability_variable
    = Some \<lparr>characteristics = availability_characteristics,
            attributes = attr_row (initial_availability a) False\<rparr>"
  proof (rule registrations_get [OF dm_inv_empty _ row])
    show "dm_len ?m + length (topology_rows counts) \<le> dm_max_variables ?m"
      using assms(2) by (simp add: length_topology_rows dm_len_def bt_values_def)
    show "\<forall>q \<in> set (topology_rows counts). fst q = availability_component a
        \<and> fst (snd q) = availability_variable
        \<longrightarrow> snd (snd q) = (availability_characteristics, attr_row (initial_availability a) False)"
      using availability_row_unique by blast
  qed
  then show ?thesis
    by (simp add: dm_with_topology_def Let_def with_topology_rows dm_actual_def dm_get_def
        attribute_of_def attr_row_def split: option.splits)
qed

end
