(* ===== verification/Events.thy ===== *)
theory Events
  imports
    Transactions Authorization_Stores Network_Profiles Event_Streams Battery_Swaps Display_Messages
    Der_Controls Charging_Profiles Tariffs Variable_Monitors Device_Model_Defaults
begin

text \<open>
  The vocabulary of the state machine: \<open>src/state/event.rs\<close> (events and effects) and the
  data they carry, from \<open>contract_certificate.rs\<close>, \<open>security_event.rs\<close>,
  \<open>smart_charging_notification.rs\<close>, \<open>connector_state.rs\<close>, \<open>connector_status.rs\<close>,
  \<open>hardware/electrical.rs\<close>, \<open>hardware/capabilities.rs\<close>, \<open>hardware/certificate.rs\<close>
  and \<open>hardware/ocsp.rs\<close>.
\<close>

section \<open>Data carried by events\<close>

datatype hash_algorithm = Sha256 | Sha384 | Sha512

record certificate_hash_data =
  hash_algorithm_of :: hash_algorithm
  issuer_name_hash :: string
  issuer_key_hash :: string
  certificate_serial :: string

record ocsp_certificate_id =
  hash_data :: certificate_hash_data
  responder_url :: string

record contract_certificate =
  chain_pem :: "string option"
  ocsp_data :: "ocsp_certificate_id list"

datatype (plugins only: code size) security_event_type =
    FirmwareUpdated | FailedToAuthenticateAtCsms | CsmsFailedToAuthenticate | SettingSystemTime
  | StartupOfTheDevice | ResetOrReboot | SecurityLogWasCleared | ReconfigurationOfSecurityParameters
  | MemoryExhaustion | InvalidMessages | AttemptedReplayAttacks | TamperDetectionActivated
  | InvalidFirmwareSignature | InvalidFirmwareSigningCertificate | InvalidCsmsCertificate
  | InvalidChargingStationCertificate | DiscardedRenewedClientCertificate | InvalidTlsVersion
  | InvalidTlsCipherSuite | MaintenanceLoginAccepted | MaintenanceLoginFailed
  | OtherSecurityEvent string

definition is_critical :: "security_event_type \<Rightarrow> bool" where
  "is_critical t =
     (case t of
        FailedToAuthenticateAtCsms \<Rightarrow> False
      | CsmsFailedToAuthenticate \<Rightarrow> False
      | ReconfigurationOfSecurityParameters \<Rightarrow> False
      | InvalidMessages \<Rightarrow> False
      | AttemptedReplayAttacks \<Rightarrow> False
      | _ \<Rightarrow> True)"

record security_event =
  security_event_kind :: security_event_type
  tech_info :: "string option"

record external_charging_limit =
  external_source :: charging_limit_source
  is_grid_critical :: "bool option"
  external_schedule :: "charging_schedule option"
  is_local_generation :: bool

datatype energy_transfer_mode = DcTransfer | AcSinglePhase | AcTwoPhase | AcThreePhase

record ac_charging_needs =
  ac_energy_amount_wh :: i64
  ac_ev_max_current_a :: i64
  ac_ev_max_voltage_v :: i64
  ac_ev_min_current_a :: i64

record dc_charging_needs =
  dc_ev_max_current_a :: i64
  dc_ev_max_voltage_v :: i64
  dc_energy_amount_wh :: "i64 option"
  dc_ev_max_power_w :: "i64 option"
  dc_ev_energy_capacity_wh :: "i64 option"
  dc_bulk_soc_percent :: "i64 option"
  dc_full_soc_percent :: "i64 option"
  dc_state_of_charge_percent :: "i64 option"

record ev_charging_needs =
  requested_energy_transfer :: energy_transfer_mode
  departure_time :: "date_time option"
  ac_needs :: "ac_charging_needs option"
  dc_needs :: "dc_charging_needs option"
  max_schedule_tuples :: "u32 option"

record ev_charging_schedule_report =
  report_schedule :: charging_schedule
  report_time_base :: date_time
  power_tolerance_accepted :: "bool option"
  selected_charging_schedule_id :: "i32 option"

datatype smart_charging_notification =
    NotifyExternalChargingLimitSet "usize option" external_charging_limit
  | NotifyExternalChargingLimitCleared "usize option" charging_limit_source
  | NotifyEVChargingNeeds usize ev_charging_needs
  | NotifyEVChargingSchedule usize ev_charging_schedule_report

datatype supply_phases = SinglePhaseAc | ThreePhaseAc | DcSupply | UnknownSupply

fun as_wire_value :: "supply_phases \<Rightarrow> string option" where
  "as_wire_value SinglePhaseAc = Some ''1''"
| "as_wire_value ThreePhaseAc = Some ''3''"
| "as_wire_value DcSupply = Some ''0''"
| "as_wire_value UnknownSupply = None"

record connector_electrical =
  connector_type :: string
  connector_supply_phases :: supply_phases

record evse_electrical =
  evse_supply_phases :: supply_phases
  max_power_w :: "f64 option"
  max_discharge_power_w :: "f64 option"
  electrical_connectors :: "connector_electrical list"

record electrical_characteristics =
  station_supply_phases :: supply_phases
  electrical_evses :: "evse_electrical list"

definition electrical_evse :: "electrical_characteristics \<Rightarrow> usize \<Rightarrow> evse_electrical option" where
  "electrical_evse c e = vec_get (electrical_evses c) e"

definition electrical_connector ::
  "electrical_characteristics \<Rightarrow> usize \<Rightarrow> usize \<Rightarrow> connector_electrical option" where
  "electrical_connector c e n =
     (case electrical_evse c e of None \<Rightarrow> None | Some x \<Rightarrow> vec_get (electrical_connectors x) n)"

datatype iso15118_support_level = NoIso15118 | Iso15118_2 | Iso15118_20

record capabilities =
  has_display :: bool
  supports_bidirectional_power :: bool
  can_unlock_under_load :: bool
  has_rtc :: bool
  has_persistent_storage :: bool
  iso15118_support :: iso15118_support_level
  max_current_per_connector_amps :: "u16 option"
  cap_reservation :: bool
  cap_local_auth_list :: bool
  cap_smart_charging :: bool
  cap_firmware_management :: bool
  cap_firmware_publishing :: bool
  cap_diagnostics :: bool
  cap_certificate_management :: bool
  cap_variable_monitoring :: bool
  cap_tariff_and_cost :: bool
  cap_payment :: bool
  cap_der_control :: bool
  cap_battery_swap :: bool
  cap_periodic_event_stream :: bool
  cap_certificates :: bool
  cap_key_storage :: bool
  cap_ocsp_checking :: bool

definition default_capabilities :: capabilities where
  "default_capabilities =
     \<lparr>has_display = False, supports_bidirectional_power = False, can_unlock_under_load = False,
      has_rtc = False, has_persistent_storage = False, iso15118_support = NoIso15118,
      max_current_per_connector_amps = None, cap_reservation = False, cap_local_auth_list = False,
      cap_smart_charging = False, cap_firmware_management = False, cap_firmware_publishing = False,
      cap_diagnostics = False, cap_certificate_management = False, cap_variable_monitoring = False,
      cap_tariff_and_cost = False, cap_payment = False, cap_der_control = False,
      cap_battery_swap = False, cap_periodic_event_stream = False, cap_certificates = False,
      cap_key_storage = False, cap_ocsp_checking = False\<rparr>"

record pending_remote_start =
  pending_id_token :: id_token
  pending_remote_start_id :: "i64 option"

type_synonym monotonic_instant = u64

section \<open>Connector states\<close>

datatype (plugins only: code size) connector_state =
    Available | Connected | Locked | Authorizing | Starting | Charging | SuspendedEv | SuspendedEvse
  | Stopping | StoppingLocked | Finishing | Unavailable | Faulted | FaultedSafe | Unlocking | Reserved

datatype connector_status =
  StatusAvailable | StatusOccupied | StatusReserved | StatusUnavailable | StatusFaulted

section \<open>Events\<close>

datatype (plugins only: code size) connector_event =
    CableConnected
  | CableDisconnected
  | LockConfirmed
  | UnlockConfirmed
  | ConnectorLockFailed
  | IdTokenPresented id_token
  | ContractCertificatePresented id_token contract_certificate
  | ChargingAuthorized id_token
  | AuthorizationDenied
  | ContactorClosed
  | ContactorOpened
  | RemoteUnlockRequested
  | RemoteStartRequested id_token "i64 option"
  | RemoteStartPending pending_remote_start
  | AuthorizationRevoked
  | TransactionLimitSet transaction_limit bool
  | TransactionElapsed i64
  | RemoteStartPendingCleared
  | ChargingStopped stop_reason
  | ChargingSuspendedByEv
  | ChargingSuspendedByEvse
  | ChargingResumed
  | MeterValueSampled meter_sample
  | ReservedFor reservation
  | ReservationCancelled
  | ReservationExpired
  | CostUpdated f64
  | TariffAssigned tariff
  | RunningCostAdvanced transaction_cost f64
  | ConnectorResetRequested
  | ConnectorSetAvailable
  | ConnectorSetUnavailable
  | ConnectorFaultDetected
  | ConnectorFaultCleared
  | CurrentLimitConfirmed "u32 option"
  | CurrentLimitComputed "u32 option" bool

datatype evse_event =
    EvseSetAvailable
  | EvseSetUnavailable
  | EvseFaultDetected
  | EvseFaultCleared
  | OnConnector usize connector_event
  | EVChargingNeedsReported ev_charging_needs
  | EVChargingScheduleReported ev_charging_schedule_report

record recovered_transaction =
  recovered_tx_evse :: usize
  recovered_tx_connector :: usize
  recovered_tx :: transaction

record recovered_reservation =
  recovered_res_evse :: usize
  recovered_res_connector :: usize
  recovered_res :: reservation

record recovered_attribute =
  recovered_component :: component
  recovered_variable :: "variable"
  recovered_attribute_type :: attribute_type
  recovered_value :: string

datatype (plugins only: code size) charge_point_event =
    BootCompleted
  | SetAvailable
  | SetUnavailable
  | HardwareFault
  | FaultCleared
  | RegistrationStatusReceived registration_status
  | LocalListUpdated i64 "local_list_entry list"
  | SecurityEventOccurred security_event
  | ResetRequested reset_target reset_kind
  | NetworkProfileSet i32 network_connection_profile
  | PersistedNetworkProfilesRestored "network_profile_slot list"
  | AuthorizationCached id_token authorization_status "date_time option"
  | AuthorizationCacheCleared
  | PersistedAuthorizationCacheRestored "cache_entry list"
  | ChargingProfileSet charging_profile_scope charging_profile
  | ChargingProfilesCleared profile_criteria
  | DefaultTariffSet tariff_scope tariff
  | TariffsCleared tariff_clear_criteria
  | PeriodicEventStreamOpened event_stream_id variable_monitor_id event_stream_params
  | PeriodicEventStreamClosed event_stream_id
  | PeriodicEventStreamAdjusted event_stream_id event_stream_params
  | DynamicScheduleUpdated charging_profile_id "f64 option" date_time
  | PriorityChargingSet transaction_id bool bool
  | DeviceModelChanged device_model_event
  | DERControlSet installed_der_control
  | DERControlsCleared der_control_query
  | AfrrSignalReceived i64 date_time
  | CapabilitiesDeclared capabilities
  | ElectricalCharacteristicsDeclared electrical_characteristics
  | PersistedTransactionsRestored u64 "recovered_transaction list"
  | TimeSynced date_time monotonic_instant
  | PersistedLocalAuthorizationListRestored i64 "local_list_entry list"
  | PersistedReservationsRestored "recovered_reservation list"
  | PersistedDeviceModelAttributesRestored "recovered_attribute list"
  | PersistedChargingProfilesRestored "installed_profile list"
  | CustomerInformationErased id_token
  | DisplayMessageSet displayed_message
  | DisplayMessageCleared display_message_id
  | ExternalChargingLimitSet "usize option" external_charging_limit
  | ExternalChargingLimitCleared "usize option" charging_limit_source bool
  | OnEvse usize evse_event
  | VariableMonitoring variable_monitoring_event
  | BatterySwapRequested pending_battery_swap
  | BatterySwapCancelled battery_swap_request_id
  | BatterySwapReported battery_swap_event

section \<open>Effects\<close>

record priority_charging_change =
  priority_transaction_id :: transaction_id
  priority_activated :: bool

datatype reservation_end_reason = Expired | Removed

record reservation_update =
  ended_reservation :: reservation_id
  end_reason :: reservation_end_reason

record authorization_requested =
  auth_evse :: usize
  auth_connector :: usize
  auth_token :: id_token
  auth_contract :: "contract_certificate option"

record connector_status_changed =
  status_evse :: usize
  status_connector :: usize
  status_of :: connector_status
  status_connector_state :: connector_state

datatype transaction_update_reason =
  ChargingStateChanged | MeterValuePeriodic | ChargingRateChanged | LimitSet
  | LimitReached transaction_limit_kind

datatype transaction_event_kind = Started | Updated transaction_update_reason | Ended

record transaction_event =
  tev_evse :: usize
  tev_connector :: usize
  tev_kind :: transaction_event_kind
  tev_transaction :: transaction
  tev_offline :: bool

datatype hardware_command =
    LockConnector usize usize
  | UnlockConnector usize usize
  | CloseContactor usize usize
  | OpenContactor usize usize
  | Reboot usize
  | SetCurrentLimit usize usize "u32 option"

datatype charge_point_effect =
    StateChanged
  | Command hardware_command
  | StatusNotification connector_status_changed
  | TransactionEvent transaction_event
  | AuthorizationRequested authorization_requested
  | SecurityEventEffect security_event
  | ReservationEnded reservation_update
  | PriorityChargingChanged priority_charging_change
  | VariableMonitorTriggered triggered_monitor
  | BatterySwapEventOccurred battery_swap_event
  | SmartChargingNotification smart_charging_notification

end
