(* ===== verification/Connector_Machine.thy ===== *)
theory Connector_Machine
  imports Events
begin

text \<open>
  \<open>src/state/connector_state.rs\<close>: the state machine of one connector.  \<open>connector_apply\<close>
  is \<open>ConnectorState::apply\<close>, arm by arm in the order of its \<open>match\<close>; the guarded arms are
  conditionals whose last branch is the arm the \<open>match\<close> would fall through to.
\<close>

datatype connector_command = CmdLock | CmdUnlock | CmdCloseContactor | CmdOpenContactor

record connector_transition =
  transition_changed :: bool
  transition_command :: "connector_command option"

datatype tx_start_point = StartEVConnected | StartAuthorized | StartPowerPathClosed

datatype tx_stop_point = StopAuthorized | StopPowerPathClosed | StopEVConnected

text \<open>The derived \<open>Ord\<close> is the order of declaration.\<close>

fun start_rank :: "tx_start_point \<Rightarrow> nat" where
  "start_rank StartEVConnected = 0"
| "start_rank StartAuthorized = 1"
| "start_rank StartPowerPathClosed = 2"

fun stop_rank :: "tx_stop_point \<Rightarrow> nat" where
  "stop_rank StopAuthorized = 0"
| "stop_rank StopPowerPathClosed = 1"
| "stop_rank StopEVConnected = 2"

lemma start_rank_inject [simp]: "start_rank a = start_rank b \<longleftrightarrow> a = b"
  by (cases a; cases b) auto

lemma stop_rank_inject [simp]: "stop_rank a = stop_rank b \<longleftrightarrow> a = b"
  by (cases a; cases b) auto

instantiation tx_start_point :: linorder
begin

definition less_eq_tx_start_point :: "tx_start_point \<Rightarrow> tx_start_point \<Rightarrow> bool" where
  "less_eq_tx_start_point a b = (start_rank a \<le> start_rank b)"

definition less_tx_start_point :: "tx_start_point \<Rightarrow> tx_start_point \<Rightarrow> bool" where
  "less_tx_start_point a b = (start_rank a < start_rank b)"

instance
  by standard (auto simp: less_eq_tx_start_point_def less_tx_start_point_def order_less_le)

end

instantiation tx_stop_point :: linorder
begin

definition less_eq_tx_stop_point :: "tx_stop_point \<Rightarrow> tx_stop_point \<Rightarrow> bool" where
  "less_eq_tx_stop_point a b = (stop_rank a \<le> stop_rank b)"

definition less_tx_stop_point :: "tx_stop_point \<Rightarrow> tx_stop_point \<Rightarrow> bool" where
  "less_tx_stop_point a b = (stop_rank a < stop_rank b)"

instance
  by standard (auto simp: less_eq_tx_stop_point_def less_tx_stop_point_def order_less_le)

end

definition start_member :: "string \<Rightarrow> tx_start_point option" where
  "start_member m =
     (if m = ''EVConnected'' then Some StartEVConnected
      else if m = ''Authorized'' then Some StartAuthorized
      else if m = ''PowerPathClosed'' then Some StartPowerPathClosed
      else None)"

definition stop_member :: "string \<Rightarrow> tx_stop_point option" where
  "stop_member m =
     (if m = ''Authorized'' then Some StopAuthorized
      else if m = ''PowerPathClosed'' then Some StopPowerPathClosed
      else if m = ''EVConnected'' then Some StopEVConnected
      else None)"

definition start_from_member_list :: "string \<Rightarrow> tx_start_point" where
  "start_from_member_list s =
     unwrap_or (max_by_key id
         (List.map_filter (\<lambda>m. start_member (str_trim m)) (str_split (CHR '','') s)))
       StartAuthorized"

text \<open>\<open>Iterator::min\<close> is the head of the sorted list of the members.\<close>

definition stop_from_member_list :: "string \<Rightarrow> tx_stop_point" where
  "stop_from_member_list s =
     (case sort (List.map_filter (\<lambda>m. stop_member (str_trim m)) (str_split (CHR '','') s)) of
        [] \<Rightarrow> StopPowerPathClosed
      | p # _ \<Rightarrow> p)"

record connector_policy =
  stop_tx_on_ev_side_disconnect :: bool
  tx_start_point_of :: tx_start_point
  tx_stop_point_of :: tx_stop_point
  unlock_on_ev_side_disconnect :: bool
  stop_tx_on_invalid_id :: bool
  max_energy_on_invalid_id_wh :: "i64 option"
  authorize_remote_start :: bool

definition default_connector_policy :: connector_policy where
  "default_connector_policy =
     \<lparr>stop_tx_on_ev_side_disconnect = True, tx_start_point_of = StartAuthorized,
      tx_stop_point_of = StopPowerPathClosed, unlock_on_ev_side_disconnect = True,
      stop_tx_on_invalid_id = True, max_energy_on_invalid_id_wh = None,
      authorize_remote_start = False\<rparr>"

definition availability_status :: "connector_state \<Rightarrow> connector_status" where
  "availability_status s =
     (case s of
        Available \<Rightarrow> StatusAvailable
      | Unavailable \<Rightarrow> StatusUnavailable
      | Faulted \<Rightarrow> StatusFaulted
      | FaultedSafe \<Rightarrow> StatusFaulted
      | Reserved \<Rightarrow> StatusReserved
      | _ \<Rightarrow> StatusOccupied)"

text \<open>\<open>Charging | SuspendedEv | SuspendedEvse\<close>, the states in which energy may flow, and the
  states a reset interrupts.\<close>

definition energy_states :: "connector_state list" where
  "energy_states = [Charging, SuspendedEv, SuspendedEvse]"

definition reset_states :: "connector_state list" where
  "reset_states = [Connected, Locked, Authorizing, Starting, Charging, SuspendedEv, SuspendedEvse]"

fun connector_next ::
  "connector_state \<Rightarrow> connector_event \<Rightarrow> connector_policy \<Rightarrow> connector_state \<times> connector_command option" where
  "connector_next s CableConnected policy =
     (if s \<in> {Available, Reserved} then (Connected, Some CmdLock) else (s, None))"
| "connector_next s CableDisconnected policy =
     (if s \<in> set energy_states \<and> stop_tx_on_ev_side_disconnect policy
      \<and> \<not> unlock_on_ev_side_disconnect policy
      then (StoppingLocked, Some CmdOpenContactor)
      else if s \<in> set energy_states \<and> stop_tx_on_ev_side_disconnect policy
      then (Stopping, Some CmdOpenContactor)
      else if s \<in> {Charging, SuspendedEvse} then (SuspendedEv, None)
      else if s = Connected then (Available, None) else (s, None))"
| "connector_next s LockConfirmed policy = (if s = Connected then (Locked, None) else (s, None))"
| "connector_next s UnlockConfirmed policy =
     (if s = Finishing then (Connected, None)
      else if s = Unlocking then (Available, None) else (s, None))"
| "connector_next s ConnectorLockFailed policy = (Faulted, Some CmdOpenContactor)"
| "connector_next s (IdTokenPresented _) policy =
     (if s = Locked then (Authorizing, None) else (s, None))"
| "connector_next s (ContractCertificatePresented _ _) policy =
     (if s = Locked then (Authorizing, None) else (s, None))"
| "connector_next s (ChargingAuthorized _) policy =
     (if s = Authorizing then (Starting, Some CmdCloseContactor) else (s, None))"
| "connector_next s AuthorizationDenied policy =
     (if s = Authorizing then (Locked, None) else (s, None))"
| "connector_next s ContactorClosed policy =
     (if s = Starting then (Charging, None) else (s, None))"
| "connector_next s ContactorOpened policy =
     (if s = Stopping then (Finishing, Some CmdUnlock)
      else if s = StoppingLocked then (Locked, None)
      else if s = Faulted then (FaultedSafe, None) else (s, None))"
| "connector_next s RemoteUnlockRequested policy =
     (if s = Locked then (Unlocking, Some CmdUnlock) else (s, None))"
| "connector_next s (RemoteStartRequested tok _) policy =
     (if s = Locked \<and> authorize_remote_start policy \<and> requires_authorization (token_kind tok)
      then (Authorizing, None)
      else if s = Locked then (Starting, Some CmdCloseContactor) else (s, None))"
| "connector_next s (RemoteStartPending _) policy = (s, None)"
| "connector_next s AuthorizationRevoked policy =
     (if s \<in> set energy_states
      \<and> (stop_tx_on_invalid_id policy \<or> unwrap_or (max_energy_on_invalid_id_wh policy) 0 \<le> 0)
      then (Stopping, Some CmdOpenContactor) else (s, None))"
| "connector_next s (TransactionLimitSet _ _) policy = (s, None)"
| "connector_next s (TransactionElapsed _) policy = (s, None)"
| "connector_next s RemoteStartPendingCleared policy = (s, None)"
| "connector_next s (ChargingStopped _) policy =
     (if s \<in> set energy_states then (Stopping, Some CmdOpenContactor) else (s, None))"
| "connector_next s ChargingSuspendedByEv policy =
     (if s \<in> {Charging, SuspendedEvse} then (SuspendedEv, None) else (s, None))"
| "connector_next s ChargingSuspendedByEvse policy =
     (if s \<in> {Charging, SuspendedEv} then (SuspendedEvse, None) else (s, None))"
| "connector_next s ChargingResumed policy =
     (if s \<in> {SuspendedEv, SuspendedEvse} then (Charging, None) else (s, None))"
| "connector_next s (MeterValueSampled _) policy = (s, None)"
| "connector_next s (ReservedFor _) policy =
     (if s = Available then (Reserved, None) else (s, None))"
| "connector_next s ReservationCancelled policy =
     (if s = Reserved then (Available, None) else (s, None))"
| "connector_next s ReservationExpired policy =
     (if s = Reserved then (Available, None) else (s, None))"
| "connector_next s (CostUpdated _) policy = (s, None)"
| "connector_next s (TariffAssigned _) policy = (s, None)"
| "connector_next s (RunningCostAdvanced _ _) policy = (s, None)"
| "connector_next s ConnectorResetRequested policy =
     (if s \<in> set reset_states then (Stopping, Some CmdOpenContactor) else (s, None))"
| "connector_next s ConnectorSetAvailable policy =
     (if s \<in> {Faulted, FaultedSafe} then (s, None) else (Available, None))"
| "connector_next s ConnectorSetUnavailable policy = (Unavailable, None)"
| "connector_next s ConnectorFaultDetected policy = (Faulted, Some CmdOpenContactor)"
| "connector_next s ConnectorFaultCleared policy =
     (if s = FaultedSafe then (Unlocking, Some CmdUnlock) else (s, None))"
| "connector_next s (CurrentLimitConfirmed _) policy = (s, None)"
| "connector_next s (CurrentLimitComputed _ _) policy = (s, None)"

definition connector_apply ::
  "connector_event \<Rightarrow> connector_policy \<Rightarrow> connector_state \<Rightarrow> connector_state \<times> connector_transition" where
  "connector_apply ev policy s =
     (let (next_state, command) = connector_next s ev policy
      in (next_state, \<lparr>transition_changed = (s \<noteq> next_state), transition_command = command\<rparr>))"

section \<open>Safety of the transitions\<close>

lemma connector_apply_simps [simp]:
  "fst (connector_apply ev p s) = fst (connector_next s ev p)"
  "transition_changed (snd (connector_apply ev p s)) \<longleftrightarrow> s \<noteq> fst (connector_next s ev p)"
  "transition_command (snd (connector_apply ev p s)) = snd (connector_next s ev p)"
  by (auto simp: connector_apply_def Let_def split: prod.splits)

text \<open>The states in which the contactor has been asked to close and not yet to open again.\<close>

definition energised :: "connector_state \<Rightarrow> bool" where
  "energised s = (s \<in> {Starting, Charging, SuspendedEv, SuspendedEvse})"

lemma energised_simps [simp]:
  "energised Starting" "energised Charging" "energised SuspendedEv" "energised SuspendedEvse"
  "\<not> energised Available" "\<not> energised Connected" "\<not> energised Locked" "\<not> energised Authorizing"
  "\<not> energised Stopping" "\<not> energised StoppingLocked" "\<not> energised Finishing"
  "\<not> energised Unavailable" "\<not> energised Faulted" "\<not> energised FaultedSafe"
  "\<not> energised Unlocking" "\<not> energised Reserved"
  by (simp_all add: energised_def)

lemma connector_next_fault:
  "ev \<in> {ConnectorFaultDetected, ConnectorLockFailed} \<Longrightarrow>
   connector_next s ev p = (Faulted, Some CmdOpenContactor)"
  by auto

lemma connector_next_closes:
  "snd (connector_next s ev p) = Some CmdCloseContactor \<longleftrightarrow>
    (s = Authorizing \<and> (\<exists>tok. ev = ChargingAuthorized tok))
    \<or> (s = Locked \<and> (\<exists>tok i. ev = RemoteStartRequested tok i
          \<and> \<not> (authorize_remote_start p \<and> requires_authorization (token_kind tok))))"
  by (cases ev) auto

lemma connector_next_enters_energised:
  "\<not> energised s \<Longrightarrow> energised (fst (connector_next s ev p)) \<longleftrightarrow>
   snd (connector_next s ev p) = Some CmdCloseContactor"
  by (cases ev; cases s) (simp_all add: energy_states_def reset_states_def)

lemma connector_next_leaves_energised:
  "energised s \<Longrightarrow> \<not> energised (fst (connector_next s ev p)) \<Longrightarrow>
   snd (connector_next s ev p) = Some CmdOpenContactor
   \<or> ev \<in> {ConnectorSetAvailable, ConnectorSetUnavailable}"
  by (cases ev; cases s)
    (simp_all add: energy_states_def reset_states_def split: if_splits)

lemma connector_next_unlocks:
  "snd (connector_next s ev p) = Some CmdUnlock \<Longrightarrow>
   \<not> energised s \<and> (s, fst (connector_next s ev p)) \<in>
     {(Stopping, Finishing), (Locked, Unlocking), (FaultedSafe, Unlocking)}"
  by (cases ev; cases s)
    (simp_all add: energy_states_def reset_states_def split: if_splits)

end
