(* ===== verification/Charge_Point_State.thy ===== *)
theory Charge_Point_State
  imports Connector_Machine
begin

text \<open>
  \<open>src/state/evse_state.rs\<close>, \<open>src/state/limits.rs\<close> and the data of
  \<open>src/state/charge_point_state.rs\<close>: the state of an EVSE, with one slot per connector in each
  of its parallel vectors, and the state of the charge point, which owns every store.
\<close>

section \<open>EVSEs\<close>

datatype evse_status = EvseAvailable | EvseUnavailable | EvseFaulted

record evse_state =
  evse_status_of :: evse_status
  evse_external_limit :: "external_charging_limit option"
  evse_local_generation_limit :: "external_charging_limit option"
  connectors :: "connector_state list"
  transactions :: "transaction option list"
  reservations :: "reservation option list"
  running_costs :: "f64 option list"
  transaction_tariffs :: "tariff option list"
  running_cost :: "transaction_cost option list"
  running_cost_totals :: "f64 option list"
  latest_meter_samples :: "meter_sample option list"
  charging_limits :: "u32 option list"
  pending_remote_starts :: "pending_remote_start option list"
  honoured_reservations :: "i64 option list"
  applied_charging_limits :: "u32 option list"

definition evse_new :: "usize \<Rightarrow> evse_state" where
  "evse_new n =
     \<lparr>evse_status_of = EvseAvailable, evse_external_limit = None, evse_local_generation_limit = None,
      connectors = replicate n Available, transactions = replicate n None,
      reservations = replicate n None, running_costs = replicate n None,
      transaction_tariffs = replicate n None, running_cost = replicate n None,
      running_cost_totals = replicate n None, latest_meter_samples = replicate n None,
      charging_limits = replicate n None, pending_remote_starts = replicate n None,
      honoured_reservations = replicate n None, applied_charging_limits = replicate n None\<rparr>"

definition evse_set_status :: "evse_status \<Rightarrow> evse_state \<Rightarrow> evse_state \<times> bool" where
  "evse_set_status st e = (e\<lparr>evse_status_of := st\<rparr>, evse_status_of e \<noteq> st)"

definition evse_apply :: "evse_event \<Rightarrow> evse_state \<Rightarrow> evse_state \<times> bool" where
  "evse_apply ev e =
     (case ev of
        EvseSetAvailable \<Rightarrow> evse_set_status EvseAvailable e
      | EvseSetUnavailable \<Rightarrow> evse_set_status EvseUnavailable e
      | EvseFaultDetected \<Rightarrow> evse_set_status EvseFaulted e
      | EvseFaultCleared \<Rightarrow> evse_set_status EvseUnavailable e
      | _ \<Rightarrow> (e, False))"

text \<open>The parallel vectors of an EVSE all have one slot per connector.\<close>

definition evse_wf :: "evse_state \<Rightarrow> bool" where
  "evse_wf e =
     (let n = length (connectors e)
      in length (transactions e) = n \<and> length (reservations e) = n \<and> length (running_costs e) = n
         \<and> length (transaction_tariffs e) = n \<and> length (running_cost e) = n
         \<and> length (running_cost_totals e) = n \<and> length (latest_meter_samples e) = n
         \<and> length (charging_limits e) = n \<and> length (pending_remote_starts e) = n
         \<and> length (honoured_reservations e) = n \<and> length (applied_charging_limits e) = n)"

lemma evse_wf_new [simp]: "evse_wf (evse_new n)"
  by (simp add: evse_wf_def evse_new_def)

lemma evse_wf_apply [simp]: "evse_wf (fst (evse_apply ev e)) = evse_wf e"
  by (simp add: evse_apply_def evse_set_status_def evse_wf_def Let_def split: evse_event.splits)

section \<open>Limits\<close>

record state_limits =
  max_local_authorization_list_entries :: usize
  max_device_model_variables :: usize
  max_charging_profiles :: usize
  limit_max_tariffs :: usize
  max_authorization_cache_entries :: usize
  max_network_profile_slots :: usize
  max_variable_monitors :: usize
  max_display_messages :: usize
  max_periodic_event_streams :: usize
  max_pending_battery_swaps :: usize
  max_der_controls :: usize

definition default_state_limits :: state_limits where
  "default_state_limits =
     \<lparr>max_local_authorization_list_entries = 100, max_device_model_variables = 256,
      max_charging_profiles = 16, limit_max_tariffs = 8, max_authorization_cache_entries = 50,
      max_network_profile_slots = 4, max_variable_monitors = 32, max_display_messages = 50,
      max_periodic_event_streams = 4, max_pending_battery_swaps = 8, max_der_controls = 16\<rparr>"

section \<open>The charge point\<close>

record time_sync_anchor =
  anchor_csms_time :: date_time
  anchor_recorded_at :: monotonic_instant

datatype lifecycle_state = LifeBooting | LifeAvailable | LifeUnavailable | LifeFaulted

record charge_point_state =
  lifecycle :: lifecycle_state
  registration :: "registration_status option"
  evses :: "evse_state list"
  next_transaction_id :: u64
  local_authorization_list_of :: local_authorization_list
  pending_reset_of :: "pending_reset option"
  device_model_of :: device_model
  capabilities_of :: capabilities
  network_profiles :: network_profile_store
  authorization_cache_of :: authorization_cache
  charging_profiles_of :: charging_profile_store
  tariffs_of :: tariff_store
  time_sync :: "time_sync_anchor option"
  variable_monitors :: variable_monitor_store
  display_messages_of :: display_message_store
  periodic_event_streams :: event_stream_store
  battery_swaps_of :: battery_swap_store
  der_controls_of :: der_control_store
  afrr_signal_of :: "afrr_signal option"
  station_external_limit :: "external_charging_limit option"
  station_local_generation_limit :: "external_charging_limit option"

definition cp_with_limits :: "usize list \<Rightarrow> state_limits \<Rightarrow> charge_point_state" where
  "cp_with_limits counts l =
     \<lparr>lifecycle = LifeBooting, registration = None, evses = map evse_new counts,
      next_transaction_id = 0,
      local_authorization_list_of = local_list_with_max (max_local_authorization_list_entries l),
      pending_reset_of = None,
      device_model_of = dm_with_topology (max_device_model_variables l) counts,
      capabilities_of = default_capabilities,
      network_profiles = network_with_max_slots (max_network_profile_slots l),
      authorization_cache_of = cache_with_max (max_authorization_cache_entries l),
      charging_profiles_of = profiles_with_limit (max_charging_profiles l),
      tariffs_of = tariffs_with_limit (limit_max_tariffs l),
      time_sync = None,
      variable_monitors = monitors_with_limit (max_variable_monitors l),
      display_messages_of = messages_with_max (max_display_messages l),
      periodic_event_streams = streams_with_limit (max_periodic_event_streams l),
      battery_swaps_of = swaps_with_max_pending (max_pending_battery_swaps l),
      der_controls_of = der_with_limit (max_der_controls l),
      afrr_signal_of = None, station_external_limit = None, station_local_generation_limit = None\<rparr>"

definition cp_new :: "usize list \<Rightarrow> charge_point_state" where
  "cp_new counts = cp_with_limits counts default_state_limits"

definition may_send_requests :: "charge_point_state \<Rightarrow> bool" where
  "may_send_requests s = (registration s = Some RegAccepted)"

text \<open>\<open>self.evses.get_mut(evse_id)\<close>: an update of one EVSE, nothing when it does not exist.\<close>

definition update_evse :: "usize \<Rightarrow> (evse_state \<Rightarrow> evse_state) \<Rightarrow> charge_point_state \<Rightarrow> charge_point_state" where
  "update_evse e f s =
     (if e < length (evses s) then s\<lparr>evses := (evses s)[e := f (evses s ! e)]\<rparr> else s)"

definition connector_counts :: "charge_point_state \<Rightarrow> usize list" where
  "connector_counts s = map (\<lambda>e. length (connectors e)) (evses s)"

text \<open>The connector at an address, if there is one.\<close>

definition connector_at :: "charge_point_state \<Rightarrow> usize \<Rightarrow> usize \<Rightarrow> connector_state option" where
  "connector_at s e c =
     (case vec_get (evses s) e of None \<Rightarrow> None | Some x \<Rightarrow> vec_get (connectors x) c)"

definition transaction_at :: "charge_point_state \<Rightarrow> usize \<Rightarrow> usize \<Rightarrow> transaction option" where
  "transaction_at s e c =
     (case vec_get (evses s) e of None \<Rightarrow> None | Some x \<Rightarrow> vec_slot (transactions x) c)"

section \<open>Device-model variables the state machine reads\<close>

definition string_variable :: "string \<Rightarrow> string \<Rightarrow> charge_point_state \<Rightarrow> string" where
  "string_variable c v s =
     unwrap_or (dm_actual (device_model_of s) (Component c None None) (Variable v None)) []"

definition boolean_variable :: "string \<Rightarrow> string \<Rightarrow> bool \<Rightarrow> charge_point_state \<Rightarrow> bool" where
  "boolean_variable c v d s =
     (case dm_actual (device_model_of s) (Component c None None) (Variable v None) of
        None \<Rightarrow> d
      | Some x \<Rightarrow> if x = ''true'' then True else if x = ''false'' then False else d)"

definition connector_policy_of :: "charge_point_state \<Rightarrow> connector_policy" where
  "connector_policy_of s =
     \<lparr>stop_tx_on_ev_side_disconnect = boolean_variable ''TxCtrlr'' ''StopTxOnEVSideDisconnect'' True s,
      tx_start_point_of = start_from_member_list (string_variable ''TxCtrlr'' ''TxStartPoint'' s),
      tx_stop_point_of = stop_from_member_list (string_variable ''TxCtrlr'' ''TxStopPoint'' s),
      unlock_on_ev_side_disconnect =
        boolean_variable ''OCPPCommCtrlr'' ''UnlockOnEVSideDisconnect'' True s,
      stop_tx_on_invalid_id = boolean_variable ''TxCtrlr'' ''StopTxOnInvalidId'' True s,
      max_energy_on_invalid_id_wh = parse_i64 (string_variable ''TxCtrlr'' ''MaxEnergyOnInvalidId'' s),
      authorize_remote_start = boolean_variable ''AuthCtrlr'' ''AuthorizeRemoteStart'' False s\<rparr>"

end
