(* ===== verification/Transaction_Machine.thy ===== *)
theory Transaction_Machine
  imports Charge_Point_State
begin

text \<open>
  The transaction life cycle of \<open>src/state/charge_point_state.rs\<close>: \<open>starts_transaction\<close>,
  \<open>ends_transaction\<close>, \<open>advance_transaction\<close> and \<open>apply_meter_sample\<close>.
\<close>

record transaction_points =
  points_start :: tx_start_point
  points_stop :: tx_stop_point

record transaction_origin =
  origin_id_token :: "id_token option"
  origin_remote_start_id :: "i64 option"
  origin_reservation_id :: "i64 option"

fun starts_transaction :: "connector_state \<Rightarrow> connector_state \<Rightarrow> tx_start_point \<Rightarrow> bool" where
  "starts_transaction prev new StartEVConnected = (prev = Connected \<and> new = Locked)"
| "starts_transaction prev new StartAuthorized = (prev \<in> {Authorizing, Locked} \<and> new = Starting)"
| "starts_transaction prev new StartPowerPathClosed = (prev = Starting \<and> new = Charging)"

fun ends_transaction :: "connector_state \<Rightarrow> connector_state \<Rightarrow> tx_stop_point \<Rightarrow> bool" where
  "ends_transaction prev new StopAuthorized =
     (prev \<in> {Starting, Charging, SuspendedEv, SuspendedEvse} \<and> new \<in> {Stopping, StoppingLocked})"
| "ends_transaction prev new StopPowerPathClosed =
     ((prev = Stopping \<and> new = Finishing) \<or> (prev = StoppingLocked \<and> new = Locked))"
| "ends_transaction prev new StopEVConnected = (prev = Connected \<and> new = Available)"

definition charging_state_for :: "connector_state \<Rightarrow> transaction_charging_state" where
  "charging_state_for s =
     (case s of
        Charging \<Rightarrow> TxCharging
      | SuspendedEv \<Rightarrow> TxSuspendedEV
      | SuspendedEvse \<Rightarrow> TxSuspendedEVSE
      | _ \<Rightarrow> TxEvConnected)"

definition new_transaction :: "u64 \<Rightarrow> connector_state \<Rightarrow> transaction_origin \<Rightarrow> transaction" where
  "new_transaction i new origin =
     \<lparr>tx_id = i, tx_id_token = origin_id_token origin, tx_charging_state = charging_state_for new,
      tx_stop_reason = None, tx_seq_no = 0, tx_last_meter_sample = None, tx_priority_charging = False,
      tx_remote_start_id = origin_remote_start_id origin,
      tx_reservation_id = origin_reservation_id origin, tx_stop_at_energy_wh = None, tx_limit = None,
      tx_csms_limit = None, tx_limit_reached = None, tx_energy_start_wh = None,
      tx_elapsed_secs = None\<rparr>"

type_synonym slot_update =
  "transaction option \<times> u64 \<times> (transaction_event_kind \<times> transaction) option"

definition record_stop_reason ::
  "connector_state \<Rightarrow> connector_state \<Rightarrow> stop_reason option \<Rightarrow> transaction option \<Rightarrow> transaction option" where
  "record_stop_reason prev new reason slot =
     (if prev \<in> {Starting, Charging, SuspendedEv, SuspendedEvse} \<and> new \<in> {Stopping, StoppingLocked}
      then map_option (\<lambda>t. t\<lparr>tx_stop_reason := reason\<rparr>) slot
      else slot)"

definition end_of_transaction :: "connector_state \<Rightarrow> transaction \<Rightarrow> transaction" where
  "end_of_transaction new t =
     t\<lparr>tx_charging_state := (if new = Available then TxIdle else TxEvConnected),
       tx_seq_no := tx_seq_no t + 1\<rparr>"

text \<open>The final \<open>match\<close> of \<open>advance_transaction\<close>.\<close>

definition update_transaction ::
  "connector_state \<Rightarrow> connector_state \<Rightarrow> u64 \<Rightarrow> transaction option \<Rightarrow> slot_update" where
  "update_transaction prev new i slot =
     (if prev \<in> {Starting, Charging, SuspendedEv, SuspendedEvse}
         \<and> new \<in> {Charging, SuspendedEv, SuspendedEvse} \<and> prev \<noteq> new
      then (case slot of
              None \<Rightarrow> (None, i, None)
            | Some t \<Rightarrow>
                (let t' = t\<lparr>tx_charging_state :=
                       (case new of SuspendedEv \<Rightarrow> TxSuspendedEV | SuspendedEvse \<Rightarrow> TxSuspendedEVSE
                          | _ \<Rightarrow> TxCharging),
                     tx_seq_no := tx_seq_no t + 1\<rparr>
                 in (Some t', i, Some (Updated ChargingStateChanged, t'))))
      else if new = Faulted
      then (case slot of
              None \<Rightarrow> (None, i, None)
            | Some t \<Rightarrow>
                (None, i, Some (Ended, t\<lparr>tx_stop_reason := Some EmergencyStop, tx_seq_no := tx_seq_no t + 1\<rparr>)))
      else (slot, i, None))"

definition advance_transaction ::
  "transaction option \<Rightarrow> u64 \<Rightarrow> connector_state \<Rightarrow> connector_state \<Rightarrow> stop_reason option
   \<Rightarrow> transaction_origin \<Rightarrow> transaction_points \<Rightarrow> slot_update" where
  "advance_transaction slot i prev new reason origin points =
     (if slot = None \<and> starts_transaction prev new (points_start points)
      then (let t = new_transaction i new origin in (Some t, i + 1, Some (Started, t)))
      else (let slot1 = record_stop_reason prev new reason slot
            in if ends_transaction prev new (points_stop points)
               then (case slot1 of
                       None \<Rightarrow> (None, i, None)
                     | Some t \<Rightarrow> (None, i, Some (Ended, end_of_transaction new t)))
               else update_transaction prev new i slot1))"

definition apply_meter_sample ::
  "transaction option \<Rightarrow> meter_sample \<Rightarrow> transaction option \<times> (transaction_event_kind \<times> transaction) option" where
  "apply_meter_sample slot sample =
     (case slot of
        None \<Rightarrow> (None, None)
      | Some t \<Rightarrow>
          if tx_charging_state t \<noteq> TxCharging then (Some t, None)
          else (let t' = t\<lparr>tx_energy_start_wh :=
                        (case tx_energy_start_wh t of None \<Rightarrow> Some (energy_wh sample) | Some w \<Rightarrow> Some w),
                      tx_last_meter_sample := Some sample,
                      tx_seq_no := tx_seq_no t + 1\<rparr>
                in (Some t', Some (Updated MeterValuePeriodic, t'))))"

section \<open>The session a CSMS observes\<close>

text \<open>
  The abstract specification: a connector either has no session or a session with an id, the
  sequence number of its last event and the last meter reading.  \<open>session_step\<close> is the protocol
  a CSMS and the persistence of transactions rely on: the first event of a session is \<open>Started\<close>
  with sequence number 0 and no reading, every later one carries the same id and the next number
  (modulo \<open>2 ^ 32\<close>), a \<open>MeterValuePeriodic\<close> one and no other brings a new reading, and nothing follows
  \<open>Ended\<close>.
\<close>

type_synonym session = "(transaction_id \<times> u32 \<times> meter_sample option) option"

definition session_of :: "transaction option \<Rightarrow> session" where
  "session_of slot = map_option (\<lambda>t. (tx_id t, tx_seq_no t, tx_last_meter_sample t)) slot"

fun session_step :: "session \<Rightarrow> transaction_event_kind \<times> transaction \<Rightarrow> session option" where
  "session_step None (Started, t) =
     (if tx_seq_no t = 0 \<and> tx_last_meter_sample t = None then Some (Some (tx_id t, 0, None)) else None)"
| "session_step (Some (i, n, m)) (Updated r, t) =
     (if tx_id t = i \<and> tx_seq_no t = n + 1
         \<and> (if r = MeterValuePeriodic then tx_last_meter_sample t \<noteq> None else tx_last_meter_sample t = m)
      then Some (Some (i, n + 1, tx_last_meter_sample t)) else None)"
| "session_step (Some (i, n, m)) (Ended, t) =
     (if tx_id t = i \<and> tx_seq_no t = n + 1 \<and> tx_last_meter_sample t = m then Some None else None)"
| "session_step _ _ = None"

fun session_run :: "session \<Rightarrow> (transaction_event_kind \<times> transaction) list \<Rightarrow> session option" where
  "session_run a [] = Some a"
| "session_run a (e # es) = (case session_step a e of None \<Rightarrow> None | Some b \<Rightarrow> session_run b es)"

lemma session_run_append:
  "session_run a (xs @ ys) = (case session_run a xs of None \<Rightarrow> None | Some b \<Rightarrow> session_run b ys)"
  by (induction a xs rule: session_run.induct) (auto split: option.splits)

definition option_list :: "'a option \<Rightarrow> 'a list" where
  "option_list a = (case a of None \<Rightarrow> [] | Some x \<Rightarrow> [x])"

lemma option_list_simps [simp]: "option_list None = []" "option_list (Some x) = [x]"
  by (simp_all add: option_list_def)

lemma session_of_simps [simp]:
  "session_of None = None" "session_of (Some t) = Some (tx_id t, tx_seq_no t, tx_last_meter_sample t)"
  by (simp_all add: session_of_def)

lemma session_of_record_stop_reason [simp]:
  "session_of (record_stop_reason prev new reason slot) = session_of slot"
  by (cases slot) (auto simp: record_stop_reason_def)

text \<open>Both operations on a transaction slot refine the protocol.\<close>

lemma update_transaction_session:
  "update_transaction prev new i slot = (slot', j, ev) \<Longrightarrow>
   session_run (session_of slot) (option_list ev) = Some (session_of slot') \<and> j = i"
  by (cases slot)
    (auto simp: update_transaction_def Let_def split: if_splits connector_state.splits)

lemma advance_transaction_session:
  assumes "advance_transaction slot i prev new reason origin points = (slot', j, ev)"
  shows "session_run (session_of slot) (option_list ev) = Some (session_of slot')"
proof (cases "slot = None \<and> starts_transaction prev new (points_start points)")
  case True
  with assms show ?thesis
    by (auto simp: advance_transaction_def Let_def new_transaction_def)
next
  case False
  let ?slot = "record_stop_reason prev new reason slot"
  show ?thesis
  proof (cases "ends_transaction prev new (points_stop points)")
    case True
    with False assms have "session_run (session_of ?slot) (option_list ev) = Some (session_of slot')"
      by (cases ?slot) (auto simp: advance_transaction_def Let_def end_of_transaction_def
          simp del: session_of_record_stop_reason)
    then show ?thesis by simp
  next
    case not_end: False
    with False assms have "update_transaction prev new i ?slot = (slot', j, ev)"
      by (auto simp: advance_transaction_def Let_def)
    from update_transaction_session [OF this] show ?thesis by simp
  qed
qed

lemma advance_transaction_counter:
  assumes "advance_transaction slot i prev new reason origin points = (slot', j, ev)"
  shows "(\<exists>t. ev = Some (Started, t) \<and> tx_id t = i \<and> j = i + 1) \<or> (j = i \<and> (\<forall>t. ev \<noteq> Some (Started, t)))"
  using assms
  by (auto simp: advance_transaction_def update_transaction_def Let_def new_transaction_def
      split: if_splits option.splits connector_state.splits)

lemma apply_meter_sample_session:
  "apply_meter_sample slot sample = (slot', ev) \<Longrightarrow>
   session_run (session_of slot) (option_list ev) = Some (session_of slot')
   \<and> (\<forall>t. ev \<noteq> Some (Started, t))"
  by (auto simp: apply_meter_sample_def Let_def split: option.splits if_splits)

lemma advance_transaction_faulted:
  "advance_transaction slot i prev Faulted reason origin points = (slot', j, ev) \<Longrightarrow> slot' = None"
  by (cases "points_start points"; cases "points_stop points"; cases slot)
    (auto simp: advance_transaction_def update_transaction_def record_stop_reason_def Let_def
      split: if_splits)

end
