(* ===== verification/Device_Sync.thy ===== *)
theory Device_Sync
  imports Charge_Point_State
begin

text \<open>
  The parts of \<open>src/state/charge_point_state.rs\<close> that keep the device model in step with the
  rest of the state: availability variables, network configuration components, inventory
  counters, electrical characteristics, the plug-lock problem variable and the network
  configuration priority.
\<close>

fun availability_state_value :: "connector_status \<Rightarrow> string" where
  "availability_state_value StatusAvailable = ''Available''"
| "availability_state_value StatusOccupied = ''Occupied''"
| "availability_state_value StatusReserved = ''Reserved''"
| "availability_state_value StatusUnavailable = ''Unavailable''"
| "availability_state_value StatusFaulted = ''Faulted''"

fun availability_precedence :: "connector_status \<Rightarrow> nat" where
  "availability_precedence StatusAvailable = 0"
| "availability_precedence StatusReserved = 1"
| "availability_precedence StatusOccupied = 2"
| "availability_precedence StatusUnavailable = 3"
| "availability_precedence StatusFaulted = 4"

text \<open>\<open>set_attribute_value\<close> on the \<open>Actual\<close> attribute, skipped when the value is already there.\<close>

definition dm_write_actual :: "component \<Rightarrow> variable \<Rightarrow> string \<Rightarrow> device_model \<Rightarrow> device_model" where
  "dm_write_actual c v x m =
     (if dm_actual m c v = Some x then m else fst (dm_set_attribute_value c v Actual x m))"

definition set_availability_state ::
  "string \<Rightarrow> (usize \<times> usize option) option \<Rightarrow> connector_status \<Rightarrow> device_model \<Rightarrow> device_model" where
  "set_availability_state name evse status m =
     dm_write_actual (Component name None evse) (Variable availability_state_variable None)
       (availability_state_value status) m"

section \<open>Availability\<close>

fun station_status :: "lifecycle_state \<Rightarrow> connector_status" where
  "station_status LifeBooting = StatusUnavailable"
| "station_status LifeUnavailable = StatusUnavailable"
| "station_status LifeAvailable = StatusAvailable"
| "station_status LifeFaulted = StatusFaulted"

definition evse_rolled_up_status :: "evse_state \<Rightarrow> connector_status" where
  "evse_rolled_up_status e =
     (case evse_status_of e of
        EvseFaulted \<Rightarrow> StatusFaulted
      | EvseUnavailable \<Rightarrow> StatusUnavailable
      | EvseAvailable \<Rightarrow>
          unwrap_or (max_by_key availability_precedence (map availability_status (connectors e)))
            StatusAvailable)"

definition sync_connector_availability :: "usize \<Rightarrow> usize \<times> connector_state \<Rightarrow> device_model \<Rightarrow> device_model" where
  "sync_connector_availability e = (\<lambda>(c, st).
     set_availability_state availability_component_connector (Some (e, Some c)) (availability_status st))"

definition sync_evse_availability :: "usize \<times> evse_state \<Rightarrow> device_model \<Rightarrow> device_model" where
  "sync_evse_availability = (\<lambda>(i, e) m.
     set_availability_state availability_component_evse (Some (i, None)) (evse_rolled_up_status e)
       (fold (sync_connector_availability i) (enumerate 0 (connectors e)) m))"

definition sync_availability_variables :: "charge_point_state \<Rightarrow> charge_point_state" where
  "sync_availability_variables s =
     s\<lparr>device_model_of :=
        fold sync_evse_availability (enumerate 0 (evses s))
          (set_availability_state availability_component_charge_point None
            (station_status (lifecycle s)) (device_model_of s))\<rparr>"

section \<open>Network configuration components\<close>

record network_profile_snapshot =
  snap_csms_url :: string
  snap_interface :: string
  snap_transport :: string
  snap_message_timeout_secs :: i64
  snap_security_profile :: u8

fun interface_name :: "network_interface \<Rightarrow> string" where
  "interface_name (Wired n) =
     (if n = 0 then ''Wired0'' else if n = 1 then ''Wired1'' else if n = 2 then ''Wired2'' else ''Wired3'')"
| "interface_name (Wireless n) =
     (if n = 0 then ''Wireless0'' else if n = 1 then ''Wireless1'' else if n = 2 then ''Wireless2''
      else ''Wireless3'')"
| "interface_name AnyInterface = ''Any''"

fun transport_name :: "network_transport \<Rightarrow> string" where
  "transport_name TransportJson = ''JSON''"
| "transport_name TransportSoap = ''SOAP''"

definition snapshot_of :: "network_connection_profile \<Rightarrow> network_profile_snapshot" where
  "snapshot_of p =
     \<lparr>snap_csms_url = csms_url p, snap_interface = interface_name (profile_interface p),
      snap_transport = transport_name (profile_transport p),
      snap_message_timeout_secs = message_timeout_secs p,
      snap_security_profile = security_profile p\<rparr>"

definition register_network_variable ::
  "string \<Rightarrow> string \<times> variable_data_type \<times> string \<times> variable_mutability \<Rightarrow> device_model \<Rightarrow> device_model" where
  "register_network_variable instance_name = (\<lambda>(name, ty, x, mut) m.
     fst (dm_register (Component network_configuration_component (Some instance_name) None)
       (Variable name None)
       \<lparr>data_type = ty, var_unit_of = None, min_limit = None, max_limit = None, values_list = None,
        supports_monitoring = False\<rparr>
       [\<lparr>attribute_type_of = Actual, attribute_value = x, mutability = mut, persistent = False,
         constant_attribute = False, requires_reboot = False\<rparr>] m))"

definition register_into :: "string \<Rightarrow> network_profile_snapshot \<Rightarrow> device_model \<Rightarrow> device_model" where
  "register_into instance_name p m =
     fold (register_network_variable instance_name)
       [(''OcppCsmsUrl'', StringType, snap_csms_url p, ReadOnly),
        (''OcppInterface'', OptionListType, snap_interface p, ReadOnly),
        (''OcppTransport'', OptionListType, snap_transport p, ReadOnly),
        (''OcppVersion'', OptionListType, [], ReadOnly),
        (''MessageTimeout'', IntegerType, int_to_string (snap_message_timeout_secs p), ReadOnly),
        (''SecurityProfile'', IntegerType, nat_to_string (unat (snap_security_profile p)), ReadOnly),
        (''BasicAuthPassword'', StringType, [], WriteOnly),
        (''VpnEnabled'', BooleanType, ''false'', ReadOnly),
        (''ApnEnabled'', BooleanType, ''false'', ReadOnly)] m"

definition wanted_network_components :: "network_profile_store \<Rightarrow> (string \<times> network_profile_snapshot) list" where
  "wanted_network_components ps =
     map (\<lambda>sl. (int_to_string (slot_number sl), snapshot_of (slot_profile sl))) (profile_slots ps)"

definition stale_network_components ::
  "(string \<times> network_profile_snapshot) list \<Rightarrow> device_model \<Rightarrow> component list" where
  "stale_network_components wanted m =
     filter (\<lambda>c. comp_name c = network_configuration_component
         \<and> \<not> list_ex (\<lambda>w. comp_instance c = Some (fst w)) wanted)
       (dm_component_names m)"

definition sync_network_configuration_variables :: "charge_point_state \<Rightarrow> charge_point_state" where
  "sync_network_configuration_variables s =
     (let wanted = wanted_network_components (network_profiles s);
          m1 = fold (\<lambda>c m. fst (dm_remove_component c m))
                 (stale_network_components wanted (device_model_of s)) (device_model_of s)
      in s\<lparr>device_model_of := fold (\<lambda>(i, p). register_into i p) wanted m1\<rparr>)"

section \<open>Inventory counters\<close>

definition set_counter_variable ::
  "string \<Rightarrow> string \<Rightarrow> string option \<Rightarrow> usize \<Rightarrow> device_model \<Rightarrow> device_model" where
  "set_counter_variable c v inst n m =
     dm_write_actual (Component c None None) (Variable v inst) (nat_to_string n) m"

definition sync_inventory_counters :: "charge_point_state \<Rightarrow> charge_point_state" where
  "sync_inventory_counters s =
     s\<lparr>device_model_of :=
        set_counter_variable ''DisplayMessageCtrlr'' ''DisplayMessages'' None
          (length (messages (display_messages_of s)))
          (set_counter_variable ''SmartChargingCtrlr'' ''Entries'' (Some ''ChargingProfiles'')
            (length (profiles (charging_profiles_of s)))
            (set_counter_variable ''LocalAuthListCtrlr'' ''Entries'' None
              (length (list_entries (local_authorization_list_of s))) (device_model_of s)))\<rparr>"

section \<open>Electrical characteristics\<close>

definition register_readonly ::
  "string \<Rightarrow> (usize \<times> usize option) option \<Rightarrow> string \<Rightarrow> variable_data_type \<Rightarrow> string \<Rightarrow> f64 option
   \<Rightarrow> device_model \<Rightarrow> device_model" where
  "register_readonly name evse v ty x limit m =
     fst (dm_register (Component name None evse) (Variable v None)
       \<lparr>data_type = ty, var_unit_of = None, min_limit = None, max_limit = limit, values_list = None,
        supports_monitoring = False\<rparr>
       [\<lparr>attribute_type_of = Actual, attribute_value = x, mutability = ReadOnly, persistent = False,
         constant_attribute = True, requires_reboot = False\<rparr>] m)"

definition phases_string :: "supply_phases \<Rightarrow> string" where
  "phases_string p = unwrap_or (as_wire_value p) []"

definition register_discharge_power ::
  "bool \<Rightarrow> usize \<Rightarrow> evse_electrical option \<Rightarrow> device_model \<Rightarrow> device_model" where
  "register_discharge_power bidirectional i x m =
     (if bidirectional
      then register_readonly availability_component_evse (Some (i, None)) ''DischargePower'' DecimalType []
             (Option.bind x max_discharge_power_w) m
      else m)"

definition register_connector_electrical ::
  "electrical_characteristics \<Rightarrow> usize \<Rightarrow> usize \<Rightarrow> device_model \<Rightarrow> device_model" where
  "register_connector_electrical el i c m =
     (let x = electrical_connector el i c
      in register_readonly availability_component_connector (Some (i, Some c)) ''ConnectorType'' StringType
           (unwrap_or (map_option connector_type x) []) None
           (register_readonly availability_component_connector (Some (i, Some c)) ''SupplyPhases'' IntegerType
             (unwrap_or (map_option (\<lambda>y. phases_string (connector_supply_phases y)) x) []) None m))"

definition register_evse_electrical ::
  "bool \<Rightarrow> electrical_characteristics \<Rightarrow> usize \<times> evse_state \<Rightarrow> device_model \<Rightarrow> device_model" where
  "register_evse_electrical bidirectional el = (\<lambda>(i, e) m.
     (let x = electrical_evse el i;
          m1 = register_readonly availability_component_evse (Some (i, None)) ''SupplyPhases'' IntegerType
                 (unwrap_or (map_option (\<lambda>y. phases_string (evse_supply_phases y)) x) []) None m;
          m2 = register_readonly availability_component_evse (Some (i, None)) ''Power'' DecimalType []
                 (Option.bind x max_power_w) m1;
          m3 = register_discharge_power bidirectional i x (register_discharge_power bidirectional i x m2)
      in fold (register_connector_electrical el i) [0 ..< length (connectors e)] m3))"

definition register_electrical_variables ::
  "electrical_characteristics \<Rightarrow> charge_point_state \<Rightarrow> charge_point_state" where
  "register_electrical_variables el s =
     s\<lparr>device_model_of :=
        fold (register_evse_electrical (supports_bidirectional_power (capabilities_of s)) el)
          (enumerate 0 (evses s))
          (register_readonly availability_component_charge_point None ''SupplyPhases'' IntegerType
            (phases_string (station_supply_phases el)) None (device_model_of s))\<rparr>"

section \<open>The plug retention lock and the network priority\<close>

definition plug_lock_component :: "usize \<Rightarrow> usize \<Rightarrow> component" where
  "plug_lock_component e c = Component plug_retention_lock_component None (Some (e, Some c))"

definition set_plug_retention_lock_problem ::
  "usize \<Rightarrow> usize \<Rightarrow> bool \<Rightarrow> charge_point_state \<Rightarrow> charge_point_state \<times> bool" where
  "set_plug_retention_lock_problem e c problem s =
     (let comp = plug_lock_component e c;
          var = Variable problem_variable None;
          x = (if problem then ''true'' else ''false'');
          current = dm_actual (device_model_of s) comp var
      in if current = None \<or> current = Some x then (s, False)
         else (s\<lparr>device_model_of :=
                 fst (dm_set_attribute_value comp var Actual x (device_model_of s))\<rparr>, True))"

fun join_commas :: "string list \<Rightarrow> string" where
  "join_commas [] = []"
| "join_commas [w] = w"
| "join_commas (w # ws) = w @ '','' @ join_commas ws"

definition push_missing :: "i32 list \<Rightarrow> i32 list \<Rightarrow> i32 list" where
  "push_missing slots order = fold (\<lambda>n os. if n \<in> set os then os else os @ [n]) slots order"

definition refresh_network_configuration_priority :: "charge_point_state \<Rightarrow> charge_point_state" where
  "refresh_network_configuration_priority s =
     (let comp = Component ''OCPPCommCtrlr'' None None;
          var = Variable ''NetworkConfigurationPriority'' None;
          current = unwrap_or (dm_actual (device_model_of s) comp var) [];
          order = List.map_filter (\<lambda>w. parse_i32 (str_trim w)) (str_split (CHR '','') current);
          kept = filter (\<lambda>n. network_get (network_profiles s) n \<noteq> None) order;
          all_slots = push_missing (map slot_number (profile_slots (network_profiles s))) kept
      in s\<lparr>device_model_of :=
            fst (dm_set_attribute_value comp var Actual (join_commas (map int_to_string all_slots))
              (device_model_of s))\<rparr>)"

end
