(* ===== verification/Connector_Handler.thy ===== *)
theory Connector_Handler
  imports Transaction_Machine Device_Sync
begin

text \<open>
  \<open>ChargePointState::apply_connector_event\<close> and what it calls.  The handler is one long
  function; here it is a sequence of stages in the source's order, each a function of the EVSE
  (or of the whole state) that returns the effects it pushes.  \<open>connector_step\<close> composes them
  up to the point where the handler calls itself, and \<open>apply_connector_event\<close> and
  \<open>enforce_transaction_limit\<close> are the mutual recursion.
\<close>

section \<open>Stages\<close>

text \<open>What the handler takes out of the event before the state machine consumes it.\<close>

definition event_stop_reason :: "connector_event \<Rightarrow> stop_reason option" where
  "event_stop_reason ev =
     (case ev of ChargingStopped r \<Rightarrow> Some r | ConnectorResetRequested \<Rightarrow> Some ResetStop | _ \<Rightarrow> None)"

definition presented_id_token :: "connector_event \<Rightarrow> (id_token \<times> contract_certificate option) option" where
  "presented_id_token ev =
     (case ev of
        IdTokenPresented t \<Rightarrow> Some (t, None)
      | ContractCertificatePresented t cert \<Rightarrow> Some (t, Some cert)
      | _ \<Rightarrow> None)"

definition authorized_id_token :: "connector_event \<Rightarrow> id_token option" where
  "authorized_id_token ev =
     (case ev of ChargingAuthorized t \<Rightarrow> Some t | RemoteStartRequested t _ \<Rightarrow> Some t | _ \<Rightarrow> None)"

definition event_authorized_id_token :: "connector_event \<Rightarrow> id_token option" where
  "event_authorized_id_token ev = (case ev of ChargingAuthorized t \<Rightarrow> Some t | _ \<Rightarrow> None)"

definition event_remote_start_id :: "connector_event \<Rightarrow> i64 option" where
  "event_remote_start_id ev = (case ev of RemoteStartRequested _ i \<Rightarrow> i | _ \<Rightarrow> None)"

definition remote_start_request :: "connector_event \<Rightarrow> pending_remote_start option" where
  "remote_start_request ev =
     (case ev of
        RemoteStartRequested t i \<Rightarrow> Some \<lparr>pending_id_token = t, pending_remote_start_id = i\<rparr>
      | _ \<Rightarrow> None)"

text \<open>Lines 1669--1722: the reservation a transition creates, ends or honours.\<close>

definition reservation_end ::
  "connector_event \<Rightarrow> connector_state \<Rightarrow> reservation option \<Rightarrow> reservation_update option \<times> i64 option" where
  "reservation_end ev new slot =
     (case slot of
        None \<Rightarrow> (None, None)
      | Some r \<Rightarrow>
          if ev = ReservationCancelled then (None, None)
          else if ev = ReservationExpired
          then (Some \<lparr>ended_reservation = reservation_id_of r, end_reason = Expired\<rparr>, None)
          else if new = Connected then (None, Some (reservation_id_of r))
          else (Some \<lparr>ended_reservation = reservation_id_of r, end_reason = Removed\<rparr>, None))"

definition reservation_stage ::
  "usize \<Rightarrow> connector_event \<Rightarrow> connector_state \<Rightarrow> connector_state \<Rightarrow> evse_state
   \<Rightarrow> evse_state \<times> charge_point_effect list" where
  "reservation_stage c ev prev new e =
     (let (e1, ended, honoured) =
            (if length (reservations e) \<le> c then (e, None, None)
             else if new = Reserved
             then ((case ev of ReservedFor r \<Rightarrow> e\<lparr>reservations := (reservations e)[c := Some r]\<rparr> | _ \<Rightarrow> e),
                   None, None)
             else if prev = Reserved
             then (e\<lparr>reservations := (reservations e)[c := None]\<rparr>,
                   reservation_end ev new (reservations e ! c))
             else (e, None, None));
          e2 = (if honoured \<noteq> None
                then e1\<lparr>honoured_reservations := (honoured_reservations e1)[c := honoured]\<rparr>
                else if new = Available
                then e1\<lparr>honoured_reservations := (honoured_reservations e1)[c := None]\<rparr>
                else e1)
      in (e2, map ReservationEnded (option_list ended)))"

text \<open>An update of the transaction in a connector's slot, if there is one.\<close>

definition update_slot :: "usize \<Rightarrow> (transaction \<Rightarrow> transaction) \<Rightarrow> evse_state \<Rightarrow> evse_state" where
  "update_slot c f e =
     (case vec_slot (transactions e) c of
        None \<Rightarrow> e
      | Some t \<Rightarrow> e\<lparr>transactions := (transactions e)[c := Some (f t)]\<rparr>)"

text \<open>Lines 1726--1743: the last allowance after a revoked identifier.\<close>

definition grant_allowance :: "i64 \<Rightarrow> transaction \<Rightarrow> transaction" where
  "grant_allowance wh t =
     (if tx_stop_at_energy_wh t = None
      then t\<lparr>tx_stop_at_energy_wh :=
             Some (wrap_i64 (unwrap_or (map_option energy_wh (tx_last_meter_sample t)) 0 + wh))\<rparr>
      else t)"

definition allowance_stage :: "connector_policy \<Rightarrow> usize \<Rightarrow> connector_event \<Rightarrow> evse_state \<Rightarrow> evse_state" where
  "allowance_stage policy c ev e =
     (if ev = AuthorizationRevoked \<and> \<not> stop_tx_on_invalid_id policy
      then (case opt_filter (\<lambda>wh. 0 < wh) (max_energy_on_invalid_id_wh policy) of
              None \<Rightarrow> e
            | Some wh \<Rightarrow> update_slot c (grant_allowance wh) e)
      else e)"

text \<open>Lines 1748--1783: a transaction limit from the driver or the CSMS.\<close>

definition set_transaction_limit :: "transaction_limit \<Rightarrow> bool \<Rightarrow> transaction \<Rightarrow> transaction" where
  "set_transaction_limit supported from_csms t =
     (let t1 = (if from_csms then t\<lparr>tx_csms_limit := Some supported\<rparr> else t)
      in t1\<lparr>tx_limit :=
              Some (case (from_csms, tx_csms_limit t1) of
                      (False, Some c) \<Rightarrow> limit_clamped_to c supported
                    | _ \<Rightarrow> supported),
            tx_seq_no := tx_seq_no t1 + 1\<rparr>)"

definition limit_set_stage :: "string \<Rightarrow> usize \<Rightarrow> connector_event \<Rightarrow> evse_state \<Rightarrow> evse_state \<times> bool" where
  "limit_set_stage supported_limits c ev e =
     (case ev of
        TransactionLimitSet limit from_csms \<Rightarrow>
          (let supported = limit_supported supported_limits limit
           in if vec_slot (transactions e) c = None \<or> limit_is_empty supported then (e, False)
              else (update_slot c (set_transaction_limit supported from_csms) e, True))
      | _ \<Rightarrow> (e, False))"

text \<open>Lines 1787--1793.\<close>

definition elapsed_stage :: "usize \<Rightarrow> connector_event \<Rightarrow> evse_state \<Rightarrow> evse_state \<times> bool" where
  "elapsed_stage c ev e =
     (case ev of
        TransactionElapsed secs \<Rightarrow>
          (update_slot c (\<lambda>t. t\<lparr>tx_elapsed_secs := Some secs\<rparr>) e, vec_slot (transactions e) c \<noteq> None)
      | _ \<Rightarrow> (e, False))"

text \<open>Lines 1797--1899: the start held for a cable that has not arrived.  The result is the
  EVSE, whether the slot changed, and the start to dispatch now.\<close>

definition pending_hold ::
  "connector_event \<Rightarrow> connector_state \<Rightarrow> connector_state \<Rightarrow> pending_remote_start option" where
  "pending_hold ev prev new =
     opt_or
       (if prev = Available
        then map_option (\<lambda>t. \<lparr>pending_id_token = t, pending_remote_start_id = None\<rparr>)
               (event_authorized_id_token ev)
        else None)
       (if new = Authorizing then remote_start_request ev else None)"

definition set_pending :: "usize \<Rightarrow> pending_remote_start option \<Rightarrow> evse_state \<Rightarrow> evse_state" where
  "set_pending c p e = e\<lparr>pending_remote_starts := (pending_remote_starts e)[c := p]\<rparr>"

definition pending_remote_start_change :: "connector_event \<Rightarrow> pending_remote_start option option" where
  "pending_remote_start_change ev =
     (case ev of
        RemoteStartPending p \<Rightarrow> Some (Some p)
      | RemoteStartPendingCleared \<Rightarrow> Some None
      | _ \<Rightarrow> None)"

definition pending_stage ::
  "usize \<Rightarrow> connector_event \<Rightarrow> connector_state \<Rightarrow> connector_state \<Rightarrow> evse_state
   \<Rightarrow> evse_state \<times> bool \<times> pending_remote_start option" where
  "pending_stage c ev prev new e =
     (case vec_get (pending_remote_starts e) c of
        None \<Rightarrow> (e, False, None)
      | Some slot \<Rightarrow>
          (case pending_remote_start_change ev of
             Some (Some p) \<Rightarrow> (set_pending c (Some p) e, slot \<noteq> Some p, None)
           | Some None \<Rightarrow> (set_pending c None e, slot \<noteq> None, None)
           | None \<Rightarrow>
               (case pending_hold ev prev new of
                  Some hold \<Rightarrow> (set_pending c (Some hold) e, slot \<noteq> Some hold, None)
                | None \<Rightarrow>
                    if new = Locked \<and> prev = Connected then (set_pending c None e, False, slot)
                    else if new = Locked \<and> prev \<noteq> Locked then (set_pending c None e, slot \<noteq> None, None)
                    else if new = Starting \<and> prev = Authorizing then (set_pending c None e, slot \<noteq> None, None)
                    else if new = Available \<and> prev \<noteq> Available then (set_pending c None e, slot \<noteq> None, None)
                    else (e, False, None))))"

text \<open>Lines 1901--1976: the command, the status and the authorization the transition asks for.\<close>

fun hardware_command_for :: "usize \<Rightarrow> usize \<Rightarrow> connector_command \<Rightarrow> hardware_command" where
  "hardware_command_for e c CmdLock = LockConnector e c"
| "hardware_command_for e c CmdUnlock = UnlockConnector e c"
| "hardware_command_for e c CmdCloseContactor = CloseContactor e c"
| "hardware_command_for e c CmdOpenContactor = OpenContactor e c"

definition transition_effects ::
  "usize \<Rightarrow> usize \<Rightarrow> connector_event \<Rightarrow> connector_transition \<Rightarrow> connector_state
   \<Rightarrow> pending_remote_start option \<Rightarrow> charge_point_effect list" where
  "transition_effects e c ev tr new held =
     map (\<lambda>cmd. Command (hardware_command_for e c cmd)) (option_list (transition_command tr))
     @ (if transition_changed tr
        then [StatusNotification \<lparr>status_evse = e, status_connector = c,
                status_of = availability_status new, status_connector_state = new\<rparr>]
        else [])
     @ (if new \<in> {Authorizing, Available}
        then map (\<lambda>(t, cert). AuthorizationRequested
                    \<lparr>auth_evse = e, auth_connector = c, auth_token = t, auth_contract = cert\<rparr>)
               (option_list (presented_id_token ev))
        else [])
     @ (if new = Authorizing
        then map (\<lambda>p. AuthorizationRequested
                    \<lparr>auth_evse = e, auth_connector = c, auth_token = pending_id_token p,
                     auth_contract = None\<rparr>)
               (option_list held)
        else [])"

definition transaction_effect :: "usize \<Rightarrow> usize \<Rightarrow> transaction_event_kind \<times> transaction \<Rightarrow> charge_point_effect" where
  "transaction_effect e c = (\<lambda>(k, t).
     TransactionEvent \<lparr>tev_evse = e, tev_connector = c, tev_kind = k, tev_transaction = t, tev_offline = False\<rparr>)"

text \<open>Lines 1977--2036: the transaction and the meter sample.\<close>

definition clear_costs :: "usize \<Rightarrow> evse_state \<Rightarrow> evse_state" where
  "clear_costs c e =
     e\<lparr>running_costs := (running_costs e)[c := None],
       transaction_tariffs := (transaction_tariffs e)[c := None],
       running_cost := (running_cost e)[c := None]\<rparr>"

definition event_sample :: "connector_event \<Rightarrow> meter_sample option" where
  "event_sample ev = (case ev of MeterValueSampled sample \<Rightarrow> Some sample | _ \<Rightarrow> None)"

definition transaction_stage ::
  "usize \<Rightarrow> usize \<Rightarrow> connector_event \<Rightarrow> connector_state \<Rightarrow> connector_state \<Rightarrow> transaction_origin
   \<Rightarrow> transaction_points \<Rightarrow> u64 \<Rightarrow> evse_state \<Rightarrow> evse_state \<times> u64 \<times> charge_point_effect list" where
  "transaction_stage i c ev prev new origin points next e =
     (case vec_get (transactions e) c of
        None \<Rightarrow> (e, next, [])
      | Some slot \<Rightarrow>
          (let (slot1, next1, happened) =
                 advance_transaction slot next prev new (event_stop_reason ev) origin points;
               e1 = e\<lparr>transactions := (transactions e)[c := slot1]\<rparr>;
               e2 = (case happened of
                       Some (Started, _) \<Rightarrow> clear_costs c e1
                     | Some (Ended, _) \<Rightarrow> clear_costs c e1
                     | _ \<Rightarrow> e1);
               (slot2, sampled) =
                 (case event_sample ev of
                    None \<Rightarrow> (slot1, None)
                  | Some sample \<Rightarrow> apply_meter_sample slot1 sample)
           in (e2\<lparr>transactions := (transactions e2)[c := slot2]\<rparr>, next1,
               map (transaction_effect i c) (option_list happened @ option_list sampled))))"

text \<open>Lines 2046--2154: what the event records on the connector.\<close>

definition sample_stage :: "usize \<Rightarrow> connector_event \<Rightarrow> evse_state \<Rightarrow> evse_state \<times> bool" where
  "sample_stage c ev e =
     (case event_sample ev of
        None \<Rightarrow> (e, False)
      | Some sample \<Rightarrow>
          if length (latest_meter_samples e) \<le> c then (e, False)
          else (e\<lparr>latest_meter_samples := (latest_meter_samples e)[c := Some sample]\<rparr>,
                latest_meter_samples e ! c \<noteq> Some sample))"

definition current_limit_stage ::
  "usize \<Rightarrow> usize \<Rightarrow> connector_event \<Rightarrow> evse_state \<Rightarrow> evse_state \<times> bool \<times> charge_point_effect list" where
  "current_limit_stage i c ev e =
     (case ev of
        CurrentLimitComputed limit externally_caused \<Rightarrow>
          (case vec_get (charging_limits e) c of
             None \<Rightarrow> (e, False, [])
           | Some slot \<Rightarrow>
               if slot = limit then (e, False, [])
               else (let e1 = e\<lparr>charging_limits := (charging_limits e)[c := limit]\<rparr>;
                         cmd = Command (SetCurrentLimit i c limit)
                     in if externally_caused \<and> vec_slot (transactions e1) c \<noteq> None
                        then (let e2 = update_slot c (\<lambda>t. t\<lparr>tx_seq_no := tx_seq_no t + 1\<rparr>) e1
                              in (e2, True, cmd # map (\<lambda>t. transaction_effect i c (Updated ChargingRateChanged, t))
                                    (option_list (vec_slot (transactions e2) c))))
                        else (e1, True, [cmd])))
      | _ \<Rightarrow> (e, False, []))"

definition limit_set_effects :: "usize \<Rightarrow> usize \<Rightarrow> bool \<Rightarrow> evse_state \<Rightarrow> charge_point_effect list" where
  "limit_set_effects i c limit_set e =
     (if limit_set
      then map (\<lambda>t. transaction_effect i c (Updated LimitSet, t)) (option_list (vec_slot (transactions e) c))
      else [])"

definition confirmed_limit_stage :: "usize \<Rightarrow> connector_event \<Rightarrow> evse_state \<Rightarrow> evse_state \<times> bool" where
  "confirmed_limit_stage c ev e =
     (case ev of
        CurrentLimitConfirmed limit \<Rightarrow>
          if length (applied_charging_limits e) \<le> c then (e, False)
          else (e\<lparr>applied_charging_limits := (applied_charging_limits e)[c := limit]\<rparr>,
                applied_charging_limits e ! c \<noteq> limit)
      | _ \<Rightarrow> (e, False))"

definition cost_stage :: "usize \<Rightarrow> connector_event \<Rightarrow> evse_state \<Rightarrow> evse_state \<times> bool" where
  "cost_stage c ev e =
     (case ev of
        CostUpdated amount \<Rightarrow>
          if vec_slot (transactions e) c \<noteq> None \<and> c < length (running_costs e)
          then (e\<lparr>running_costs := (running_costs e)[c := Some amount]\<rparr>, True) else (e, False)
      | _ \<Rightarrow> (e, False))"

definition tariff_stage :: "usize \<Rightarrow> connector_event \<Rightarrow> evse_state \<Rightarrow> evse_state \<times> bool" where
  "tariff_stage c ev e =
     (case ev of
        TariffAssigned tf \<Rightarrow>
          if vec_slot (transactions e) c \<noteq> None \<and> c < length (transaction_tariffs e)
          then (e\<lparr>transaction_tariffs := (transaction_tariffs e)[c := Some tf]\<rparr>, True) else (e, False)
      | _ \<Rightarrow> (e, False))"

definition running_cost_stage :: "usize \<Rightarrow> connector_event \<Rightarrow> evse_state \<Rightarrow> evse_state \<times> bool" where
  "running_cost_stage c ev e =
     (case ev of
        RunningCostAdvanced cost amount \<Rightarrow>
          if vec_slot (transactions e) c \<noteq> None \<and> c < length (running_cost e)
          then (e\<lparr>running_cost := (running_cost e)[c := Some cost],
                  running_cost_totals := (running_cost_totals e)[c := Some amount]\<rparr>, True)
          else (e, False)
      | _ \<Rightarrow> (e, False))"

text \<open>Lines 2165--2203: the plug retention lock's problem variable.\<close>

definition lock_problem_stage ::
  "usize \<Rightarrow> usize \<Rightarrow> connector_event \<Rightarrow> connector_state \<Rightarrow> charge_point_state
   \<Rightarrow> charge_point_state \<times> bool \<times> charge_point_effect list" where
  "lock_problem_stage e c ev new s =
     (if ev = ConnectorLockFailed
      then (let (s1, changed) = set_plug_retention_lock_problem e c True s
            in (s1, changed,
                if changed
                then [VariableMonitorTriggered
                        \<lparr>triggered_monitor_id = None, triggered_component = plug_lock_component e c,
                         triggered_variable = Variable problem_variable None,
                         triggered_value = ''true'', triggered_severity = 1, triggered_by = Alerting\<rparr>]
                else []))
      else if new = Available
      then (let (s1, changed) = set_plug_retention_lock_problem e c False s in (s1, changed, []))
      else (s, False, []))"

section \<open>The handler up to its recursive calls\<close>

record step_outcome =
  out_changed :: bool
  out_cost_recorded :: bool
  out_dispatch :: "pending_remote_start option"

text \<open>The stages on the EVSE that owns the connector.\<close>

definition evse_step ::
  "connector_policy \<Rightarrow> string \<Rightarrow> usize \<Rightarrow> usize \<Rightarrow> connector_event \<Rightarrow> u64 \<Rightarrow> evse_state
   \<Rightarrow> evse_state \<times> u64 \<times> charge_point_effect list \<times> step_outcome" where
  "evse_step policy supported_limits i c ev next e =
     (let prev = connectors e ! c;
          (new, tr) = connector_apply ev policy prev;
          active_reservation = vec_slot (honoured_reservations e) c;
          e0 = e\<lparr>connectors := (connectors e)[c := new]\<rparr>;
          (e1, reservation_effects) = reservation_stage c ev prev new e0;
          e2 = allowance_stage policy c ev e1;
          (e3, limit_set) = limit_set_stage supported_limits c ev e2;
          (e4, elapsed_reported) = elapsed_stage c ev e3;
          held_id = Option.bind (vec_slot (pending_remote_starts e4) c) pending_remote_start_id;
          (e5, pending_changed, dispatch) = pending_stage c ev prev new e4;
          effects5 = transition_effects i c ev tr new (vec_slot (pending_remote_starts e5) c);
          (e6, next6, effects6) =
            transaction_stage i c ev prev new
              \<lparr>origin_id_token = authorized_id_token ev,
               origin_remote_start_id = opt_or (event_remote_start_id ev) held_id,
               origin_reservation_id = active_reservation\<rparr>
              \<lparr>points_start = tx_start_point_of policy, points_stop = tx_stop_point_of policy\<rparr> next e5;
          (e7, sample_recorded) = sample_stage c ev e6;
          (e8, limit_changed, effects8) = current_limit_stage i c ev e7;
          effects9 = limit_set_effects i c limit_set e8;
          (e10, limit_confirmed) = confirmed_limit_stage c ev e8;
          (e11, cost_recorded) = cost_stage c ev e10;
          (e12, tariff_recorded) = tariff_stage c ev e11;
          (e13, running_cost_recorded) = running_cost_stage c ev e12
      in (e13, next6, reservation_effects @ effects5 @ effects6 @ effects8 @ effects9,
          \<lparr>out_changed = (transition_changed tr \<or> cost_recorded \<or> tariff_recorded
             \<or> running_cost_recorded \<or> limit_changed \<or> limit_confirmed \<or> sample_recorded
             \<or> pending_changed \<or> limit_set \<or> elapsed_reported),
           out_cost_recorded = (running_cost_recorded \<or> cost_recorded),
           out_dispatch = dispatch\<rparr>))"

definition connector_step ::
  "usize \<Rightarrow> usize \<Rightarrow> connector_event \<Rightarrow> charge_point_state
   \<Rightarrow> (charge_point_state \<times> charge_point_effect list \<times> step_outcome) option" where
  "connector_step i c ev s =
     (case vec_get (evses s) i of
        None \<Rightarrow> None
      | Some e \<Rightarrow>
          if length (connectors e) \<le> c then None
          else
            (let (e1, next1, effects1, out) =
                   evse_step (connector_policy_of s) (string_variable ''TxCtrlr'' ''SupportedLimits'' s)
                     i c ev (next_transaction_id s) e;
                 s1 = s\<lparr>evses := (evses s)[i := e1], next_transaction_id := next1\<rparr>;
                 (s2, lock_changed, lock_effects) =
                   lock_problem_stage i c ev (connectors e1 ! c) s1
             in Some (s2, effects1 @ lock_effects,
                      out\<lparr>out_changed := out_changed out \<or> lock_changed\<rparr>)))"

section \<open>Transaction limits\<close>

definition request_current_limit ::
  "usize \<Rightarrow> usize \<Rightarrow> u32 option \<Rightarrow> charge_point_state \<Rightarrow> charge_point_state \<times> charge_point_effect list" where
  "request_current_limit i c limit s =
     (case vec_get (evses s) i of
        None \<Rightarrow> (s, [])
      | Some e \<Rightarrow>
          (case vec_get (charging_limits e) c of
             None \<Rightarrow> (s, [])
           | Some slot \<Rightarrow>
               if slot = limit then (s, [])
               else (update_evse i (\<lambda>e. e\<lparr>charging_limits := (charging_limits e)[c := limit]\<rparr>) s,
                     [Command (SetCurrentLimit i c limit)])))"

definition limit_hit :: "('a \<Rightarrow> 'a \<Rightarrow> bool) \<Rightarrow> transaction_limit_kind \<Rightarrow> 'a option \<Rightarrow> 'a option
   \<Rightarrow> transaction_limit_kind option" where
  "limit_hit le kind limit current =
     (case opt_zip limit current of
        None \<Rightarrow> None
      | Some (l, x) \<Rightarrow> if le l x then Some kind else None)"

definition delivered_wh :: "transaction \<Rightarrow> f64 option" where
  "delivered_wh t =
     map_option (\<lambda>(start, sample). f64_of_int (wrap_i64 (energy_wh sample - start)))
       (opt_zip (tx_energy_start_wh t) (tx_last_meter_sample t))"

definition limit_reached_now :: "transaction_limit \<Rightarrow> f64 option \<Rightarrow> transaction \<Rightarrow> transaction_limit_kind option" where
  "limit_reached_now l cost t =
     opt_or (limit_hit f64_le CostLimit (limit_max_cost l) cost)
       (opt_or (limit_hit f64_le EnergyLimit (limit_max_energy_wh l) (delivered_wh t))
         (opt_or (limit_hit (\<le>) SocLimit (limit_max_soc_percent l)
              (Option.bind (tx_last_meter_sample t) soc_percent))
           (limit_hit (\<le>) TimeLimit (limit_max_time_secs l) (tx_elapsed_secs t))))"

text \<open>The decision of \<open>enforce_transaction_limit\<close>: suspend, resume, or nothing.\<close>

datatype limit_decision = NoLimitChange | LimitNowReached transaction_limit_kind | LimitNoLongerReached

definition limit_decision_of :: "usize \<Rightarrow> usize \<Rightarrow> charge_point_state \<Rightarrow> limit_decision" where
  "limit_decision_of i c s =
     (case vec_get (evses s) i of
        None \<Rightarrow> NoLimitChange
      | Some e \<Rightarrow>
          (case vec_slot (transactions e) c of
             None \<Rightarrow> NoLimitChange
           | Some t \<Rightarrow>
               (case tx_limit t of
                  None \<Rightarrow> NoLimitChange
                | Some l \<Rightarrow>
                    (let cost = opt_or (vec_slot (running_cost_totals e) c) (vec_slot (running_costs e) c)
                     in case (limit_reached_now l cost t, tx_limit_reached t) of
                          (Some kind, None) \<Rightarrow> LimitNowReached kind
                        | (None, Some _) \<Rightarrow> LimitNoLongerReached
                        | _ \<Rightarrow> NoLimitChange))))"

definition mark_limit_reached ::
  "usize \<Rightarrow> usize \<Rightarrow> transaction_limit_kind \<Rightarrow> charge_point_state \<Rightarrow> charge_point_state \<times> charge_point_effect list" where
  "mark_limit_reached i c kind s =
     (let s1 = update_evse i (update_slot c
            (\<lambda>t. t\<lparr>tx_limit_reached := Some kind, tx_seq_no := tx_seq_no t + 1\<rparr>)) s
      in (s1, map (\<lambda>t. transaction_effect i c (Updated (LimitReached kind), t))
                (option_list (transaction_at s1 i c))))"

definition clear_limit_reached :: "usize \<Rightarrow> usize \<Rightarrow> charge_point_state \<Rightarrow> charge_point_state" where
  "clear_limit_reached i c s = update_evse i (update_slot c (\<lambda>t. t\<lparr>tx_limit_reached := None\<rparr>)) s"

definition allowance_spent :: "usize \<Rightarrow> usize \<Rightarrow> connector_event \<Rightarrow> charge_point_state \<Rightarrow> bool" where
  "allowance_spent i c ev s =
     (event_sample ev \<noteq> None
      \<and> is_some_and (transaction_at s i c) (\<lambda>t.
          is_some_and (tx_stop_at_energy_wh t) (\<lambda>limit.
            is_some_and (tx_last_meter_sample t) (\<lambda>sample. limit \<le> energy_wh sample))))"

definition limit_relevant :: "connector_event \<Rightarrow> bool" where
  "limit_relevant ev =
     (case ev of
        MeterValueSampled _ \<Rightarrow> True
      | TransactionLimitSet _ _ \<Rightarrow> True
      | TransactionElapsed _ \<Rightarrow> True
      | _ \<Rightarrow> False)"

section \<open>Eliminating the composition\<close>

lemma evse_stepE:
  assumes "evse_step policy sl i c ev next e = (e', next', effects, out)"
  obtains new tr e1 re e3 limit_set e4 elapsed e5 pc dispatch e6 eff6 e7 sr e8 lc eff8 e10 con e11 cr
    e12 tar rcr
  where "connector_apply ev policy (connectors e ! c) = (new, tr)"
    and "reservation_stage c ev (connectors e ! c) new (e\<lparr>connectors := (connectors e)[c := new]\<rparr>) = (e1, re)"
    and "limit_set_stage sl c ev (allowance_stage policy c ev e1) = (e3, limit_set)"
    and "elapsed_stage c ev e3 = (e4, elapsed)"
    and "pending_stage c ev (connectors e ! c) new e4 = (e5, pc, dispatch)"
    and "transaction_stage i c ev (connectors e ! c) new
          \<lparr>origin_id_token = authorized_id_token ev,
           origin_remote_start_id = opt_or (event_remote_start_id ev)
             (Option.bind (vec_slot (pending_remote_starts e4) c) pending_remote_start_id),
           origin_reservation_id = vec_slot (honoured_reservations e) c\<rparr>
          \<lparr>points_start = tx_start_point_of policy, points_stop = tx_stop_point_of policy\<rparr> next e5
        = (e6, next', eff6)"
    and "sample_stage c ev e6 = (e7, sr)"
    and "current_limit_stage i c ev e7 = (e8, lc, eff8)"
    and "confirmed_limit_stage c ev e8 = (e10, con)"
    and "cost_stage c ev e10 = (e11, cr)"
    and "tariff_stage c ev e11 = (e12, tar)"
    and "running_cost_stage c ev e12 = (e', rcr)"
    and "effects = re @ transition_effects i c ev tr new (vec_slot (pending_remote_starts e5) c)
          @ eff6 @ eff8 @ limit_set_effects i c limit_set e8"
    and "out = \<lparr>out_changed = (transition_changed tr \<or> cr \<or> tar \<or> rcr \<or> lc \<or> con \<or> sr \<or> pc
           \<or> limit_set \<or> elapsed), out_cost_recorded = (rcr \<or> cr), out_dispatch = dispatch\<rparr>"
  using assms by (auto simp: evse_step_def Let_def split: prod.splits)

lemma connector_stepE:
  assumes "connector_step i c ev s = Some (s', effects, out)"
  obtains e e1 next1 effects1 out1 s2 lock_changed lock_effects
  where "i < length (evses s)" and "e = evses s ! i" and "c < length (connectors e)"
    and "evse_step (connector_policy_of s) (string_variable ''TxCtrlr'' ''SupportedLimits'' s)
          i c ev (next_transaction_id s) e = (e1, next1, effects1, out1)"
    and "lock_problem_stage i c ev (connectors e1 ! c)
          (s\<lparr>evses := (evses s)[i := e1], next_transaction_id := next1\<rparr>) = (s', lock_changed, lock_effects)"
    and "effects = effects1 @ lock_effects"
    and "out = out1\<lparr>out_changed := out_changed out1 \<or> lock_changed\<rparr>"
  using assms
  by (auto simp: connector_step_def Let_def not_le dest!: vec_get_SomeD
      split: prod.splits option.splits if_splits)

lemma pending_stage_dispatch:
  "pending_stage c ev prev new e = (e', pc, Some p) \<Longrightarrow> prev = Connected \<and> new = Locked"
  by (auto simp: pending_stage_def split: option.splits if_splits)

lemma connector_next_locks: "connector_next Connected ev p = (Locked, x) \<Longrightarrow> ev = LockConfirmed"
  by (cases ev) (auto simp: energy_states_def reset_states_def split: if_splits)

lemma evse_step_dispatch:
  assumes "evse_step policy sl i c ev next e = (e', next', effects, out)" and "out_dispatch out = Some p"
  shows "ev = LockConfirmed"
proof -
  from assms(1) obtain new tr e4 e5 pc dispatch where
    app: "connector_apply ev policy (connectors e ! c) = (new, tr)" and
    pending: "pending_stage c ev (connectors e ! c) new e4 = (e5, pc, dispatch)" and
    out: "out_dispatch out = dispatch"
    by (elim evse_stepE) (rule that, assumption, assumption, simp)
  from pending out assms(2) have "connectors e ! c = Connected" and "new = Locked"
    by (auto dest: pending_stage_dispatch)
  with app show ?thesis
    by (auto simp: connector_apply_def Let_def split: prod.splits intro: connector_next_locks)
qed

lemma evse_step_cost_recorded:
  assumes "evse_step policy sl i c ev next e = (e', next', effects, out)" and "out_cost_recorded out"
  shows "(\<exists>x. ev = CostUpdated x) \<or> (\<exists>x y. ev = RunningCostAdvanced x y)"
proof -
  from assms(1) obtain e10 e11 cr e12 rcr where
    "cost_stage c ev e10 = (e11, cr)" and "running_cost_stage c ev e12 = (e', rcr)" and
    "out_cost_recorded out = (rcr \<or> cr)"
    by (elim evse_stepE) (rule that, assumption, assumption, simp)
  with assms(2) show ?thesis
    by (auto simp: cost_stage_def running_cost_stage_def split: connector_event.splits)
qed

lemma connector_step_dispatch:
  "connector_step i c ev s = Some (s', effects, out) \<Longrightarrow> out_dispatch out = Some p \<Longrightarrow> ev = LockConfirmed"
  by (elim connector_stepE) (auto dest: evse_step_dispatch)

lemma connector_step_cost_recorded:
  "connector_step i c ev s = Some (s', effects, out) \<Longrightarrow> out_cost_recorded out \<Longrightarrow>
   (\<exists>x. ev = CostUpdated x) \<or> (\<exists>x y. ev = RunningCostAdvanced x y)"
  by (elim connector_stepE) (auto dest: evse_step_cost_recorded)

section \<open>The recursion\<close>

text \<open>
  The handler calls itself only with events that call nothing further: a meter sample or a limit
  ends in a stop, a suspension or a resumption, and a confirmed lock in a remote start.
\<close>

fun event_rank :: "connector_event \<Rightarrow> nat" where
  "event_rank LockConfirmed = 2"
| "event_rank (MeterValueSampled _) = 2"
| "event_rank (TransactionLimitSet _ _) = 2"
| "event_rank (TransactionElapsed _) = 2"
| "event_rank (CostUpdated _) = 2"
| "event_rank (RunningCostAdvanced _ _) = 2"
| "event_rank _ = 0"

lemma allowance_spent_rank: "allowance_spent i c ev s \<Longrightarrow> event_rank ev = 2"
  by (auto simp: allowance_spent_def event_sample_def split: connector_event.splits)

lemma limit_relevant_rank: "limit_relevant ev \<Longrightarrow> event_rank ev = 2"
  by (auto simp: limit_relevant_def split: connector_event.splits)

function apply_connector_event ::
    "usize \<Rightarrow> usize \<Rightarrow> connector_event \<Rightarrow> charge_point_state
     \<Rightarrow> charge_point_state \<times> charge_point_effect list \<times> bool"
  and enforce_transaction_limit ::
    "usize \<Rightarrow> usize \<Rightarrow> charge_point_state \<Rightarrow> charge_point_state \<times> charge_point_effect list" where
  "apply_connector_event i c ev s =
     (case connector_step i c ev s of
        None \<Rightarrow> (s, [], False)
      | Some (s1, effects1, out) \<Rightarrow>
          if allowance_spent i c ev s1
          then (case apply_connector_event i c (ChargingStopped DeAuthorized) s1 of
                  (s2, effects2, _) \<Rightarrow> (s2, effects1 @ effects2, True))
          else
            (case (if limit_relevant ev \<or> out_cost_recorded out
                   then enforce_transaction_limit i c s1 else (s1, [])) of
               (s2, effects2) \<Rightarrow>
                 (case out_dispatch out of
                    None \<Rightarrow> (s2, effects1 @ effects2, out_changed out)
                  | Some p \<Rightarrow>
                      (case apply_connector_event i c
                          (RemoteStartRequested (pending_id_token p) (pending_remote_start_id p)) s2 of
                         (s3, effects3, _) \<Rightarrow> (s3, effects1 @ effects2 @ effects3, True)))))"
| "enforce_transaction_limit i c s =
     (case limit_decision_of i c s of
        NoLimitChange \<Rightarrow> (s, [])
      | LimitNowReached kind \<Rightarrow>
          (case request_current_limit i c (Some 0) s of
             (s1, effects1) \<Rightarrow>
               (case apply_connector_event i c ChargingSuspendedByEvse s1 of
                  (s2, effects2, _) \<Rightarrow>
                    (case mark_limit_reached i c kind s2 of
                       (s3, effects3) \<Rightarrow> (s3, effects1 @ effects2 @ effects3))))
      | LimitNoLongerReached \<Rightarrow>
          (case request_current_limit i c None s of
             (s1, effects1) \<Rightarrow>
               (case apply_connector_event i c ChargingResumed s1 of
                  (s2, effects2, _) \<Rightarrow> (clear_limit_reached i c s2, effects1 @ effects2))))"
  by pat_completeness auto

termination
proof (relation "measure (\<lambda>x. case x of Inl (i, c, ev, s) \<Rightarrow> event_rank ev | Inr _ \<Rightarrow> 1)", goal_cases)
  case 1
  then show ?case by simp
next
  case (2 i c ev s)
  then show ?case by (simp add: allowance_spent_rank)
next
  case (3 i c ev s)
  then show ?case
    by (auto simp: limit_relevant_rank dest!: connector_step_cost_recorded)
next
  case (4 i c ev s)
  then show ?case by (auto dest!: connector_step_dispatch)
qed simp_all

declare apply_connector_event.simps [simp del] enforce_transaction_limit.simps [simp del]

end
