(* ===== verification/Connector_Steps.thy ===== *)
theory Connector_Steps
  imports Connector_Handler
begin

text \<open>
  What one step of the connector handler changes: the shape of the EVSE and the other
  connectors stay, the connector follows its state machine, the commands it issues are those of
  the transition, and the transaction events follow the session protocol.
\<close>

section \<open>What an observer sees of the effects\<close>

fun tx_event_at :: "usize \<Rightarrow> usize \<Rightarrow> charge_point_effect \<Rightarrow> (transaction_event_kind \<times> transaction) list" where
  "tx_event_at i c (TransactionEvent t) =
     (if tev_evse t = i \<and> tev_connector t = c then [(tev_kind t, tev_transaction t)] else [])"
| "tx_event_at i c _ = []"

definition tx_events :: "usize \<Rightarrow> usize \<Rightarrow> charge_point_effect list \<Rightarrow> (transaction_event_kind \<times> transaction) list" where
  "tx_events i c effects = concat (map (tx_event_at i c) effects)"

text \<open>The contactor commands to one connector, \<open>True\<close> for closing.\<close>

fun contactor_command_at :: "usize \<Rightarrow> usize \<Rightarrow> charge_point_effect \<Rightarrow> bool list" where
  "contactor_command_at i c (Command (CloseContactor a b)) = (if a = i \<and> b = c then [True] else [])"
| "contactor_command_at i c (Command (OpenContactor a b)) = (if a = i \<and> b = c then [False] else [])"
| "contactor_command_at i c _ = []"

definition contactor_commands :: "usize \<Rightarrow> usize \<Rightarrow> charge_point_effect list \<Rightarrow> bool list" where
  "contactor_commands i c effects = concat (map (contactor_command_at i c) effects)"

fun started_at :: "charge_point_effect \<Rightarrow> transaction_id list" where
  "started_at (TransactionEvent t) = (if tev_kind t = Started then [tx_id (tev_transaction t)] else [])"
| "started_at _ = []"

definition started_ids :: "charge_point_effect list \<Rightarrow> transaction_id list" where
  "started_ids effects = concat (map started_at effects)"

lemma observer_simps [simp]:
  "tx_events i c [] = []" "tx_events i c (x # xs) = tx_event_at i c x @ tx_events i c xs"
  "tx_events i c (xs @ ys) = tx_events i c xs @ tx_events i c ys"
  "contactor_commands i c [] = []"
  "contactor_commands i c (x # xs) = contactor_command_at i c x @ contactor_commands i c xs"
  "contactor_commands i c (xs @ ys) = contactor_commands i c xs @ contactor_commands i c ys"
  "started_ids [] = []" "started_ids (x # xs) = started_at x @ started_ids xs"
  "started_ids (xs @ ys) = started_ids xs @ started_ids ys"
  by (simp_all add: tx_events_def contactor_commands_def started_ids_def)

lemma transaction_effect_at [simp]:
  "tx_event_at i c (transaction_effect i' c' p) = (if i' = i \<and> c' = c then [p] else [])"
  "contactor_command_at i c (transaction_effect i' c' p) = []"
  "started_at (transaction_effect i' c' p) = (if fst p = Started then [tx_id (snd p)] else [])"
  by (cases p; simp add: transaction_effect_def)+

lemma map_transaction_effect_at [simp]:
  "tx_events i c (map (transaction_effect i' c') ps) = (if i' = i \<and> c' = c then ps else [])"
  "contactor_commands i c (map (transaction_effect i' c') ps) = []"
  by (induction ps) auto

section \<open>The shape of an EVSE\<close>

definition same_shape :: "evse_state \<Rightarrow> evse_state \<Rightarrow> bool" where
  "same_shape e e' =
     (connectors e' = connectors e \<and> evse_status_of e' = evse_status_of e
      \<and> length (transactions e') = length (transactions e)
      \<and> length (reservations e') = length (reservations e)
      \<and> length (running_costs e') = length (running_costs e)
      \<and> length (transaction_tariffs e') = length (transaction_tariffs e)
      \<and> length (running_cost e') = length (running_cost e)
      \<and> length (running_cost_totals e') = length (running_cost_totals e)
      \<and> length (latest_meter_samples e') = length (latest_meter_samples e)
      \<and> length (charging_limits e') = length (charging_limits e)
      \<and> length (pending_remote_starts e') = length (pending_remote_starts e)
      \<and> length (honoured_reservations e') = length (honoured_reservations e)
      \<and> length (applied_charging_limits e') = length (applied_charging_limits e))"

lemma same_shape_refl [simp]: "same_shape e e"
  by (simp add: same_shape_def)

lemma same_shape_trans: "same_shape a b \<Longrightarrow> same_shape b c \<Longrightarrow> same_shape a c"
  by (simp add: same_shape_def)

lemma same_shape_wf: "same_shape e e' \<Longrightarrow> evse_wf e' = evse_wf e"
  by (simp add: same_shape_def evse_wf_def Let_def)

lemma update_slot_shape [simp]: "same_shape e (update_slot c f e)"
  by (simp add: update_slot_def same_shape_def split: option.splits)

lemma vec_slot_update_slot:
  "vec_slot (transactions (update_slot c f e)) j =
     (if j = c then map_option f (vec_slot (transactions e) c) else vec_slot (transactions e) j)"
  by (auto simp: update_slot_def vec_slot_update dest: vec_slot_SomeD split: option.splits)

text \<open>Each stage keeps the shape; all but three leave the transactions alone.\<close>

definition frame :: "evse_state \<Rightarrow> evse_state \<Rightarrow> bool" where
  "frame e e' = (same_shape e e' \<and> transactions e' = transactions e)"

lemma reservation_stage_frame:
  "reservation_stage c ev prev new e = (e', effs) \<Longrightarrow>
   frame e e' \<and> tx_events i j effs = [] \<and> contactor_commands i j effs = [] \<and> started_ids effs = []"
  by (cases "snd (reservation_end ev new (reservations e ! c))"; cases "fst (reservation_end ev new (reservations e ! c))")
    (auto simp: reservation_stage_def Let_def frame_def same_shape_def
      split: if_splits prod.splits connector_event.splits)

lemma allowance_stage_shape: "same_shape e (allowance_stage policy c ev e)"
  by (simp add: allowance_stage_def split: option.splits)

lemma allowance_stage_session:
  "session_of (vec_slot (transactions (allowance_stage policy c ev e)) j) = session_of (vec_slot (transactions e) j)"
  by (cases "vec_slot (transactions e) c")
    (auto simp: allowance_stage_def vec_slot_update_slot grant_allowance_def split: option.splits)

lemma limit_set_stage_shape: "limit_set_stage sl c ev e = (e', b) \<Longrightarrow> same_shape e e'"
  by (auto simp: limit_set_stage_def Let_def split: connector_event.splits if_splits)

lemma elapsed_stage_shape: "elapsed_stage c ev e = (e', b) \<Longrightarrow> same_shape e e'"
  by (auto simp: elapsed_stage_def split: connector_event.splits)

lemma elapsed_stage_session:
  "elapsed_stage c ev e = (e', b) \<Longrightarrow>
   session_of (vec_slot (transactions e') j) = session_of (vec_slot (transactions e) j)"
  by (cases "vec_slot (transactions e) c")
    (auto simp: elapsed_stage_def vec_slot_update_slot split: connector_event.splits)

lemma pending_stage_frame: "pending_stage c ev prev new e = (e', pc, d) \<Longrightarrow> frame e e'"
  by (auto simp: pending_stage_def frame_def same_shape_def set_pending_def
      split: option.splits if_splits)

lemma transaction_stage_shape: "transaction_stage i c ev prev new origin points next e = (e', n, effs) \<Longrightarrow> same_shape e e'"
  by (auto simp: transaction_stage_def Let_def same_shape_def clear_costs_def
      split: option.splits prod.splits transaction_event_kind.splits)

lemma sample_stage_frame: "sample_stage c ev e = (e', b) \<Longrightarrow> frame e e'"
  by (auto simp: sample_stage_def frame_def same_shape_def split: option.splits if_splits)

lemma current_limit_stage_shape: "current_limit_stage i c ev e = (e', b, effs) \<Longrightarrow> same_shape e e'"
  by (auto simp: current_limit_stage_def Let_def same_shape_def update_slot_def
      split: connector_event.splits option.splits if_splits)

lemma confirmed_limit_stage_frame: "confirmed_limit_stage c ev e = (e', b) \<Longrightarrow> frame e e'"
  by (auto simp: confirmed_limit_stage_def frame_def same_shape_def split: connector_event.splits if_splits)

lemma cost_stage_frame: "cost_stage c ev e = (e', b) \<Longrightarrow> frame e e'"
  by (auto simp: cost_stage_def frame_def same_shape_def split: connector_event.splits if_splits)

lemma tariff_stage_frame: "tariff_stage c ev e = (e', b) \<Longrightarrow> frame e e'"
  by (auto simp: tariff_stage_def frame_def same_shape_def split: connector_event.splits if_splits)

lemma running_cost_stage_frame: "running_cost_stage c ev e = (e', b) \<Longrightarrow> frame e e'"
  by (auto simp: running_cost_stage_def frame_def same_shape_def split: connector_event.splits if_splits)

lemmas recording_frames =
  confirmed_limit_stage_frame cost_stage_frame tariff_stage_frame running_cost_stage_frame

section \<open>One step on the EVSE\<close>

lemma frameD: "frame e e' \<Longrightarrow> same_shape e e'" "frame e e' \<Longrightarrow> transactions e' = transactions e"
  by (simp_all add: frame_def)

lemma evse_step_shape:
  assumes "evse_step policy sl i c ev next e = (e', next', effects, out)"
  shows "same_shape (e\<lparr>connectors := (connectors e)[c := fst (connector_next (connectors e ! c) ev policy)]\<rparr>) e'"
  using assms
proof (rule evse_stepE)
  fix new tr e1 re e3 limit_set e4 elapsed e5 pc dispatch e6 eff6 e7 sr e8 lc eff8 e10 con e11 cr e12 tar rcr
    origin
  assume ap: "connector_apply ev policy (connectors e ! c) = (new, tr)"
    and st: "reservation_stage c ev (connectors e ! c) new (e\<lparr>connectors := (connectors e)[c := new]\<rparr>) = (e1, re)"
      "limit_set_stage sl c ev (allowance_stage policy c ev e1) = (e3, limit_set)"
      "elapsed_stage c ev e3 = (e4, elapsed)"
      "pending_stage c ev (connectors e ! c) new e4 = (e5, pc, dispatch)"
      "transaction_stage i c ev (connectors e ! c) new
          \<lparr>origin_id_token = authorized_id_token ev,
           origin_remote_start_id = opt_or (event_remote_start_id ev)
             (Option.bind (vec_slot (pending_remote_starts e4) c) pending_remote_start_id),
           origin_reservation_id = vec_slot (honoured_reservations e) c\<rparr>
          \<lparr>points_start = tx_start_point_of policy, points_stop = tx_stop_point_of policy\<rparr> next e5
        = (e6, next', eff6)"
      "sample_stage c ev e6 = (e7, sr)" "current_limit_stage i c ev e7 = (e8, lc, eff8)"
      "confirmed_limit_stage c ev e8 = (e10, con)" "cost_stage c ev e10 = (e11, cr)"
      "tariff_stage c ev e11 = (e12, tar)" "running_cost_stage c ev e12 = (e', rcr)"
  have new: "new = fst (connector_next (connectors e ! c) ev policy)"
    using connector_apply_simps(1) [of ev policy "connectors e ! c"] ap by simp
  note shapes = frameD(1) [OF conjunct1 [OF reservation_stage_frame [OF st(1)]]]
    allowance_stage_shape [of e1 policy c ev] limit_set_stage_shape [OF st(2)] elapsed_stage_shape [OF st(3)]
    frameD(1) [OF pending_stage_frame [OF st(4)]] transaction_stage_shape [OF st(5)]
    frameD(1) [OF sample_stage_frame [OF st(6)]] current_limit_stage_shape [OF st(7)]
    frameD(1) [OF confirmed_limit_stage_frame [OF st(8)]] frameD(1) [OF cost_stage_frame [OF st(9)]]
    frameD(1) [OF tariff_stage_frame [OF st(10)]] frameD(1) [OF running_cost_stage_frame [OF st(11)]]
  show ?thesis
    unfolding new [symmetric] by (rule same_shape_trans, rule shapes)+ simp
qed

section \<open>Sessions\<close>

abbreviation slot_session :: "evse_state \<Rightarrow> usize \<Rightarrow> session" where
  "slot_session e j \<equiv> session_of (vec_slot (transactions e) j)"

lemma session_of_None [simp]: "session_of slot = None \<longleftrightarrow> slot = None"
  by (simp add: session_of_def)

lemma limit_set_stage_cases:
  assumes "limit_set_stage sl c ev e = (e', b)"
  shows "(\<not> b \<and> e' = e) \<or>
    (b \<and> (\<exists>l f. ev = TransactionLimitSet l f) \<and> (\<forall>j. j \<noteq> c \<longrightarrow> slot_session e' j = slot_session e j)
     \<and> (\<exists>t t'. vec_slot (transactions e) c = Some t \<and> vec_slot (transactions e') c = Some t'
          \<and> tx_id t' = tx_id t \<and> tx_seq_no t' = tx_seq_no t + 1 \<and> tx_last_meter_sample t' = tx_last_meter_sample t))"
  using assms
  by (auto simp: limit_set_stage_def Let_def vec_slot_update_slot set_transaction_limit_def
      split: connector_event.splits if_splits)

lemma transaction_stage_session:
  assumes "transaction_stage i c ev prev new origin points next e = (e', n, effs)"
  shows "\<exists>ps. effs = map (transaction_effect i c) ps
    \<and> session_run (slot_session e c) ps = Some (slot_session e' c)
    \<and> (\<forall>j. j \<noteq> c \<longrightarrow> vec_slot (transactions e') j = vec_slot (transactions e) j)
    \<and> ((started_ids effs = [] \<and> n = next) \<or> (started_ids effs = [next] \<and> n = next + 1))"
proof (cases "c < length (transactions e)")
  case False
  with assms show ?thesis by (auto simp: transaction_stage_def)
next
  case True
  obtain slot1 next1 happened where
    adv: "advance_transaction (transactions e ! c) next prev new (event_stop_reason ev) origin points
      = (slot1, next1, happened)" by (metis prod_cases3)
  define sampled where "sampled = (case event_sample ev of None \<Rightarrow> (slot1, None)
      | Some sample \<Rightarrow> apply_meter_sample slot1 sample)"
  have run1: "session_run (session_of (transactions e ! c)) (option_list happened) = Some (session_of slot1)"
    by (rule advance_transaction_session [OF adv])
  have run2: "session_run (session_of slot1) (option_list (snd sampled)) = Some (session_of (fst sampled))"
    and none2: "started_ids (map (transaction_effect i c) (option_list (snd sampled))) = []"
    using apply_meter_sample_session [of slot1 _ "fst sampled" "snd sampled"]
    by (cases "event_sample ev"; cases "snd sampled"; force simp: sampled_def)+
  have eff: "effs = map (transaction_effect i c) (option_list happened @ option_list (snd sampled))"
    and tx: "transactions e' = (transactions e)[c := fst sampled]" and n: "n = next1"
    using assms True adv
    by (auto simp: transaction_stage_def Let_def sampled_def clear_costs_def
        split: prod.splits option.splits transaction_event_kind.splits)
  have "session_run (slot_session e c) (option_list happened @ option_list (snd sampled)) = Some (slot_session e' c)"
    using run1 run2 True by (simp add: session_run_append tx)
  moreover have "(started_ids (map (transaction_effect i c) (option_list happened)) = [] \<and> next1 = next)
      \<or> (started_ids (map (transaction_effect i c) (option_list happened)) = [next] \<and> next1 = next + 1)"
    using advance_transaction_counter [OF adv] by (cases happened) auto
  ultimately show ?thesis
    using none2
    by (intro exI [of _ "option_list happened @ option_list (snd sampled)"])
      (auto simp: eff n tx vec_slot_update)
qed

lemma transaction_stage_same:
  assumes "transaction_stage i c ev st st origin points next e = (e', n, effs)"
    and "event_sample ev = None" and "st = Faulted \<Longrightarrow> vec_slot (transactions e) c = None"
  shows "transactions e' = transactions e \<and> n = next \<and> effs = []"
proof (cases "c < length (transactions e)")
  case True
  have "\<not> starts_transaction st st p" for p by (cases p) auto
  moreover have "\<not> ends_transaction st st p" for p by (cases p) auto
  ultimately have "advance_transaction (transactions e ! c) next st st r origin points
      = (transactions e ! c, next, None)" for r
    using assms(3) True
    by (auto simp: advance_transaction_def update_transaction_def record_stop_reason_def Let_def
        split: option.splits)
  with assms(1,2) True show ?thesis by (auto simp: transaction_stage_def Let_def)
qed (use assms(1) in \<open>auto simp: transaction_stage_def\<close>)

lemma current_limit_stage_session:
  assumes "current_limit_stage i c ev e = (e', b, effs)"
  shows "session_run (slot_session e c) (tx_events i c effs) = Some (slot_session e' c)
    \<and> (\<forall>j. j \<noteq> c \<longrightarrow> vec_slot (transactions e') j = vec_slot (transactions e) j)
    \<and> started_ids effs = [] \<and> contactor_commands i' c' effs = []
    \<and> (\<forall>a j. (a, j) \<noteq> (i, c) \<longrightarrow> tx_events a j effs = [])
    \<and> ((\<nexists>l x. ev = CurrentLimitComputed l x) \<longrightarrow> e' = e \<and> effs = [])"
  using assms
  by (cases "vec_slot (transactions e) c")
    (auto simp: current_limit_stage_def Let_def vec_slot_update_slot
      split: connector_event.splits option.splits if_splits)

text \<open>The commands of a transition, and nothing else, reach the contactor.\<close>

fun contactor_of :: "connector_command option \<Rightarrow> bool list" where
  "contactor_of (Some CmdCloseContactor) = [True]"
| "contactor_of (Some CmdOpenContactor) = [False]"
| "contactor_of _ = []"

lemma contactor_command_at_hardware [simp]:
  "contactor_command_at i' c' (Command (hardware_command_for i c cmd)) =
     (if i' = i \<and> c' = c then contactor_of (Some cmd) else [])"
  by (cases cmd) auto

lemma transition_effects_observed:
  "tx_events i' c' (transition_effects i c ev tr new held) = []"
  "started_ids (transition_effects i c ev tr new held) = []"
  "contactor_commands i' c' (transition_effects i c ev tr new held) =
     (if i' = i \<and> c' = c then contactor_of (transition_command tr) else [])"
  by (auto simp: transition_effects_def option_list_def split: option.splits)

lemma limit_set_effects_observed:
  "contactor_commands i' c' (limit_set_effects i c b e) = []"
  "started_ids (limit_set_effects i c b e) = []"
  "tx_events i' c' (limit_set_effects i c b e) =
     (if b \<and> i' = i \<and> c' = c
      then map (\<lambda>t. (Updated LimitSet, t)) (option_list (vec_slot (transactions e) c)) else [])"
  by (auto simp: limit_set_effects_def option_list_def split: option.splits)

text \<open>The stages around the transaction, condensed to what the session and the commands need.\<close>

lemma evse_step_condensed:
  assumes "evse_step policy sl i c ev next e = (e', next', effects, out)"
  obtains e2 e3 limit_set e5 e6 eff6 e7 e8 lc eff8 origin points
  where "\<forall>j. slot_session e2 j = slot_session e j"
    and "limit_set_stage sl c ev e2 = (e3, limit_set)"
    and "\<forall>j. slot_session e5 j = slot_session e3 j"
    and "transaction_stage i c ev (connectors e ! c) (fst (connector_next (connectors e ! c) ev policy))
           origin points next e5 = (e6, next', eff6)"
    and "transactions e7 = transactions e6"
    and "current_limit_stage i c ev e7 = (e8, lc, eff8)"
    and "transactions e' = transactions e8"
    and "\<forall>i' c'. tx_events i' c' effects
           = tx_events i' c' eff6 @ tx_events i' c' eff8 @ tx_events i' c' (limit_set_effects i c limit_set e8)"
    and "started_ids effects = started_ids eff6 @ started_ids eff8"
    and "\<forall>i' c'. contactor_commands i' c' effects
           = (if i' = i \<and> c' = c then contactor_of (snd (connector_next (connectors e ! c) ev policy)) else [])
             @ contactor_commands i' c' eff6 @ contactor_commands i' c' eff8"
  using assms
proof (rule evse_stepE)
  fix new tr e1 re e3 limit_set e4 elapsed e5 pc dispatch e6 eff6 e7 sr e8 lc eff8 e10 con e11 cr e12 tar rcr
  assume ap: "connector_apply ev policy (connectors e ! c) = (new, tr)"
    and st: "reservation_stage c ev (connectors e ! c) new (e\<lparr>connectors := (connectors e)[c := new]\<rparr>) = (e1, re)"
      "limit_set_stage sl c ev (allowance_stage policy c ev e1) = (e3, limit_set)"
      "elapsed_stage c ev e3 = (e4, elapsed)"
      "pending_stage c ev (connectors e ! c) new e4 = (e5, pc, dispatch)"
      "transaction_stage i c ev (connectors e ! c) new
          \<lparr>origin_id_token = authorized_id_token ev,
           origin_remote_start_id = opt_or (event_remote_start_id ev)
             (Option.bind (vec_slot (pending_remote_starts e4) c) pending_remote_start_id),
           origin_reservation_id = vec_slot (honoured_reservations e) c\<rparr>
          \<lparr>points_start = tx_start_point_of policy, points_stop = tx_stop_point_of policy\<rparr> next e5
        = (e6, next', eff6)"
      "sample_stage c ev e6 = (e7, sr)" "current_limit_stage i c ev e7 = (e8, lc, eff8)"
      "confirmed_limit_stage c ev e8 = (e10, con)" "cost_stage c ev e10 = (e11, cr)"
      "tariff_stage c ev e11 = (e12, tar)" "running_cost_stage c ev e12 = (e', rcr)"
    and eff: "effects = re @ transition_effects i c ev tr new (vec_slot (pending_remote_starts e5) c)
          @ eff6 @ eff8 @ limit_set_effects i c limit_set e8"
  have new: "new = fst (connector_next (connectors e ! c) ev policy)"
    and cmd: "transition_command tr = snd (connector_next (connectors e ! c) ev policy)"
    using connector_apply_simps [of ev policy "connectors e ! c"] ap by simp_all
  note re = reservation_stage_frame [OF st(1)]
  have before: "\<forall>j. slot_session (allowance_stage policy c ev e1) j = slot_session e j"
    using re by (simp add: allowance_stage_session frame_def)
  have between: "\<forall>j. slot_session e5 j = slot_session e3 j"
    using elapsed_stage_session [OF st(3)] frameD(2) [OF pending_stage_frame [OF st(4)]] by simp
  have sampled: "transactions e7 = transactions e6"
    by (rule frameD(2) [OF sample_stage_frame [OF st(6)]])
  have recorded: "transactions e' = transactions e8"
    using frameD(2) [OF confirmed_limit_stage_frame [OF st(8)]] frameD(2) [OF cost_stage_frame [OF st(9)]]
      frameD(2) [OF tariff_stage_frame [OF st(10)]] frameD(2) [OF running_cost_stage_frame [OF st(11)]]
    by simp
  show ?thesis
    by (rule that [OF before st(2) between st(5) [unfolded new] sampled st(7) recorded])
      (use re in \<open>simp_all add: eff cmd transition_effects_observed limit_set_effects_observed\<close>)
qed

text \<open>The whole step refines the session protocol, and issues ids in order.\<close>

lemma connector_next_passive:
  "(\<exists>l f. ev = TransactionLimitSet l f) \<or> (\<exists>l x. ev = CurrentLimitComputed l x) \<Longrightarrow>
   connector_next st ev p = (st, None)"
  by auto

lemma transaction_stage_only:
  assumes "transaction_stage i c ev prev new origin points next e = (e', n, effs)"
  shows "\<forall>i' c'. (i', c') \<noteq> (i, c) \<longrightarrow> tx_events i' c' effs = []"
    and "\<forall>i' c'. contactor_commands i' c' effs = []"
  using transaction_stage_session [OF assms] by auto

lemma evse_step_session:
  assumes step: "evse_step policy sl i c ev next e = (e', next', effects, out)"
    and faulted: "connectors e ! c = Faulted \<Longrightarrow> vec_slot (transactions e) c = None"
  shows "session_run (slot_session e c) (tx_events i c effects) = Some (slot_session e' c)"
    and "\<forall>j. j \<noteq> c \<longrightarrow> slot_session e' j = slot_session e j"
    and "\<forall>i' c'. (i', c') \<noteq> (i, c) \<longrightarrow> tx_events i' c' effects = []"
    and "(started_ids effects = [] \<and> next' = next) \<or> (started_ids effects = [next] \<and> next' = next + 1)"
    and "\<forall>i' c'. contactor_commands i' c' effects
      = (if i' = i \<and> c' = c then contactor_of (snd (connector_next (connectors e ! c) ev policy)) else [])"
proof -
  let ?prev = "connectors e ! c" and ?new = "fst (connector_next (connectors e ! c) ev policy)"
  from step obtain e2 e3 limit_set e5 e6 eff6 e7 e8 lc eff8 origin points where
    s2: "\<forall>j. slot_session e2 j = slot_session e j" and
    limit: "limit_set_stage sl c ev e2 = (e3, limit_set)" and
    s5: "\<forall>j. slot_session e5 j = slot_session e3 j" and
    stage: "transaction_stage i c ev ?prev ?new origin points next e5 = (e6, next', eff6)" and
    s7: "transactions e7 = transactions e6" and
    current: "current_limit_stage i c ev e7 = (e8, lc, eff8)" and
    s': "transactions e' = transactions e8" and
    evs: "\<forall>i' c'. tx_events i' c' effects
      = tx_events i' c' eff6 @ tx_events i' c' eff8 @ tx_events i' c' (limit_set_effects i c limit_set e8)" and
    ids: "started_ids effects = started_ids eff6 @ started_ids eff8" and
    cmds: "\<forall>i' c'. contactor_commands i' c' effects
      = (if i' = i \<and> c' = c then contactor_of (snd (connector_next ?prev ev policy)) else [])
        @ contactor_commands i' c' eff6 @ contactor_commands i' c' eff8"
    by (rule evse_step_condensed)
  note ts = transaction_stage_session [OF stage] and cl = current_limit_stage_session [OF current]
  note lim = limit_set_stage_cases [OF limit]
  show "\<forall>j. j \<noteq> c \<longrightarrow> slot_session e' j = slot_session e j"
    using lim ts cl s' s7 s5 s2 by (metis (full_types))
  show "\<forall>i' c'. (i', c') \<noteq> (i, c) \<longrightarrow> tx_events i' c' effects = []"
    using transaction_stage_only(1) [OF stage] cl by (auto simp: evs limit_set_effects_observed)
  show "(started_ids effects = [] \<and> next' = next) \<or> (started_ids effects = [next] \<and> next' = next + 1)"
    using ts cl by (auto simp: ids)
  show "\<forall>i' c'. contactor_commands i' c' effects
      = (if i' = i \<and> c' = c then contactor_of (snd (connector_next ?prev ev policy)) else [])"
    using transaction_stage_only(2) [OF stage] cl by (auto simp: cmds)
  show "session_run (slot_session e c) (tx_events i c effects) = Some (slot_session e' c)"
  proof (cases limit_set)
    case False
    with lim have "e3 = e2" by auto
    then have "session_run (slot_session e c) (tx_events i c eff6) = Some (slot_session e6 c)"
      using ts s5 s2 by auto
    with cl False show ?thesis
      by (simp add: evs limit_set_effects_observed session_run_append s7 s')
  next
    case True
    with lim obtain l f t t' where ev: "ev = TransactionLimitSet l f"
      and t: "vec_slot (transactions e2) c = Some t" and t': "vec_slot (transactions e3) c = Some t'"
      and bump: "tx_id t' = tx_id t" "tx_seq_no t' = tx_seq_no t + 1"
        "tx_last_meter_sample t' = tx_last_meter_sample t" by auto
    from t s2 have open_tx: "slot_session e c = Some (tx_id t, tx_seq_no t, tx_last_meter_sample t)" by (metis session_of_simps(2))
    then have "?prev \<noteq> Faulted" using faulted by auto
    moreover have "?new = ?prev" by (simp add: ev)
    ultimately have same: "transactions e6 = transactions e5" "eff6 = []"
      using transaction_stage_same [of i c ev ?prev] stage by (auto simp: ev event_sample_def)
    have "eff8 = []" and "transactions e8 = transactions e7" using cl ev by auto
    moreover have "slot_session e5 c = Some (tx_id t, tx_seq_no t + 1, tx_last_meter_sample t)"
      using s5 t' bump by simp
    ultimately show ?thesis
      using True open_tx same s7
      by (cases "vec_slot (transactions e8) c") (auto simp: evs limit_set_effects_observed s')
  qed
qed

text \<open>A step into \<open>Faulted\<close> leaves no transaction behind.\<close>

lemma transaction_stage_faulted:
  assumes "transaction_stage i c ev prev Faulted origin points next e = (e', n, effs)"
  shows "vec_slot (transactions e') c = None"
proof (cases "c < length (transactions e)")
  case True
  obtain slot1 next1 happened where
    adv: "advance_transaction (transactions e ! c) next prev Faulted (event_stop_reason ev) origin points
      = (slot1, next1, happened)" by (metis prod_cases3)
  with advance_transaction_faulted [OF adv] assms True show ?thesis
    by (auto simp: transaction_stage_def Let_def apply_meter_sample_def clear_costs_def
        split: prod.splits option.splits transaction_event_kind.splits)
qed (use assms in \<open>auto simp: transaction_stage_def\<close>)

lemma current_limit_stage_None:
  "current_limit_stage i c ev e = (e', b, effs) \<Longrightarrow> vec_slot (transactions e) c = None \<Longrightarrow>
   vec_slot (transactions e') c = None"
  by (auto simp: current_limit_stage_def Let_def vec_slot_update_slot
      split: connector_event.splits option.splits if_splits)

lemma evse_step_faulted:
  assumes "evse_step policy sl i c ev next e = (e', next', effects, out)"
    and "fst (connector_next (connectors e ! c) ev policy) = Faulted"
  shows "vec_slot (transactions e') c = None"
proof -
  from assms(1) obtain e5 e6 eff6 e7 e8 lc eff8 origin points where
    stage: "transaction_stage i c ev (connectors e ! c) (fst (connector_next (connectors e ! c) ev policy))
      origin points next e5 = (e6, next', eff6)" and
    rest: "transactions e7 = transactions e6" "current_limit_stage i c ev e7 = (e8, lc, eff8)"
      "transactions e' = transactions e8"
    by (rule evse_step_condensed)
  with transaction_stage_faulted [of i c ev "connectors e ! c"] assms(2)
  have "vec_slot (transactions e7) c = None" by simp
  with current_limit_stage_None [OF rest(2)] rest(3) show ?thesis by simp
qed

end
