(* ===== verification/Charge_Point.thy ===== *)
theory Charge_Point
  imports Connector_Handler
begin

text \<open>
  \<open>ChargePointState::apply\<close>: one event in, the new state and the effects out.  A panic of the
  source (an index out of range, \<open>Vec::remove(0)\<close> on an empty vector) is \<open>None\<close>.
  \<open>chrono\<close>'s \<open>to_rfc3339\<close> is the parameter \<open>rfc3339\<close>.
\<close>

type_synonym applied = "charge_point_state \<times> charge_point_effect list \<times> bool"

section \<open>Loops over connectors\<close>

fun apply_each :: "(usize \<times> usize \<times> connector_event) list \<Rightarrow> charge_point_state \<Rightarrow> applied" where
  "apply_each [] s = (s, [], False)"
| "apply_each ((i, c, ev) # rest) s =
     (case apply_connector_event i c ev s of
        (s1, effects1, changed1) \<Rightarrow>
          (case apply_each rest s1 of
             (s2, effects2, changed2) \<Rightarrow> (s2, effects1 @ effects2, changed1 \<or> changed2)))"

definition apply_to_evse :: "usize \<Rightarrow> evse_event \<Rightarrow> charge_point_state \<Rightarrow> charge_point_state \<times> bool" where
  "apply_to_evse i ev s =
     (case vec_get (evses s) i of
        None \<Rightarrow> (s, False)
      | Some e \<Rightarrow> (s\<lparr>evses := (evses s)[i := fst (evse_apply ev e)]\<rparr>, snd (evse_apply ev e)))"

definition cascade_evse_fault :: "usize \<Rightarrow> bool \<Rightarrow> charge_point_state \<Rightarrow> applied" where
  "cascade_evse_fault i detected s =
     (let (s1, status_changed) =
            apply_to_evse i (if detected then EvseFaultDetected else EvseFaultCleared) s;
          connector_count = (case vec_get (evses s1) i of None \<Rightarrow> 0 | Some e \<Rightarrow> length (connectors e));
          ev = (if detected then ConnectorFaultDetected else ConnectorFaultCleared);
          (s2, effects, connectors_changed) = apply_each (map (\<lambda>c. (i, c, ev)) [0 ..< connector_count]) s1
      in (s2, effects, status_changed \<or> connectors_changed))"

fun cascade_evses :: "usize list \<Rightarrow> bool \<Rightarrow> charge_point_state \<Rightarrow> applied" where
  "cascade_evses [] detected s = (s, [], False)"
| "cascade_evses (i # is) detected s =
     (case cascade_evse_fault i detected s of
        (s1, effects1, changed1) \<Rightarrow>
          (case cascade_evses is detected s1 of
             (s2, effects2, changed2) \<Rightarrow> (s2, effects1 @ effects2, changed1 \<or> changed2)))"

definition cascade_charge_point_fault :: "bool \<Rightarrow> charge_point_state \<Rightarrow> applied" where
  "cascade_charge_point_fault detected s = cascade_evses [0 ..< length (evses s)] detected s"

section \<open>Lifecycle, lists and resets\<close>

definition set_lifecycle :: "lifecycle_state \<Rightarrow> charge_point_state \<Rightarrow> charge_point_state \<times> bool" where
  "set_lifecycle l s = (s\<lparr>lifecycle := l\<rparr>, lifecycle s \<noteq> l)"

definition station_fault :: "bool \<Rightarrow> charge_point_state \<Rightarrow> applied" where
  "station_fault detected s =
     (let (s1, lifecycle_changed) = set_lifecycle (if detected then LifeFaulted else LifeUnavailable) s;
          (s2, effects, cascade_changed) = cascade_charge_point_fault detected s1
      in (s2, effects, lifecycle_changed \<or> cascade_changed))"

definition registration_received :: "registration_status \<Rightarrow> charge_point_state \<Rightarrow> applied" where
  "registration_received st s =
     (let s1 = s\<lparr>registration := Some st\<rparr>;
          registration_changed = (registration s \<noteq> Some st)
      in if st = RegAccepted
         then (fst (set_lifecycle LifeAvailable s1), [],
               registration_changed \<or> snd (set_lifecycle LifeAvailable s1))
         else (s1, [], registration_changed))"

definition memory_exhaustion :: "string \<Rightarrow> charge_point_effect" where
  "memory_exhaustion info =
     SecurityEventEffect \<lparr>security_event_kind = MemoryExhaustion, tech_info = Some info\<rparr>"

definition replace_local_authorization_list ::
  "i64 \<Rightarrow> local_list_entry list \<Rightarrow> charge_point_state \<Rightarrow> charge_point_state \<times> charge_point_effect list" where
  "replace_local_authorization_list version entries s =
     (let (l, dropped) = local_list_replace version entries (local_authorization_list_of s)
      in (s\<lparr>local_authorization_list_of := l\<rparr>,
          if 0 < dropped
          then [memory_exhaustion (''dropped '' @ nat_to_string dropped
                  @ '' local authorization list entries beyond the configured maximum of ''
                  @ nat_to_string (list_max_entries l))]
          else []))"

definition target_evse_ids :: "reset_target \<Rightarrow> charge_point_state \<Rightarrow> usize list" where
  "target_evse_ids target s =
     (case target of
        TargetChargePoint \<Rightarrow> [0 ..< length (evses s)]
      | TargetEvse i \<Rightarrow> if i < length (evses s) then [i] else [])"

definition target_connector_addresses :: "reset_target \<Rightarrow> charge_point_state \<Rightarrow> (usize \<times> usize) list" where
  "target_connector_addresses target s =
     concat (map (\<lambda>i. map (\<lambda>c. (i, c)) [0 ..< length (connectors (evses s ! i))]) (target_evse_ids target s))"

definition reset_requested :: "reset_target \<Rightarrow> reset_kind \<Rightarrow> charge_point_state \<Rightarrow> applied" where
  "reset_requested target kind s =
     (let s1 = s\<lparr>pending_reset_of := Some \<lparr>pending_target = target, pending_kind = kind\<rparr>\<rparr>
      in if kind = Immediate
         then (case apply_each (map (\<lambda>(i, c). (i, c, ConnectorResetRequested))
                      (target_connector_addresses target s1)) s1 of
                 (s2, effects, _) \<Rightarrow> (s2, effects, True))
         else (s1, [], True))"

section \<open>Stores\<close>

definition network_profile_set :: "i32 \<Rightarrow> network_connection_profile \<Rightarrow> charge_point_state \<Rightarrow> applied" where
  "network_profile_set n p s =
     (let (ps, stored) = network_set n p (network_profiles s);
          s1 = s\<lparr>network_profiles := ps\<rparr>
      in (if stored then refresh_network_configuration_priority s1 else s1, [], stored))"

definition network_profiles_restored :: "network_profile_slot list \<Rightarrow> charge_point_state \<Rightarrow> applied" where
  "network_profiles_restored slots s =
     (let s1 = refresh_network_configuration_priority
            (s\<lparr>network_profiles := fst (network_replace slots (network_profiles s))\<rparr>)
      in (s1, [], profile_slots (network_profiles s1) \<noteq> []))"

definition customer_information_erased :: "id_token \<Rightarrow> charge_point_state \<Rightarrow> applied" where
  "customer_information_erased t s =
     (let (cache, cache_changed) = cache_forget t (authorization_cache_of s);
          (l, list_changed) = local_list_forget t (local_authorization_list_of s)
      in (s\<lparr>authorization_cache_of := cache, local_authorization_list_of := l\<rparr>, [],
          cache_changed \<or> list_changed))"

definition charging_profile_set :: "charging_profile_scope \<Rightarrow> charging_profile \<Rightarrow> charge_point_state \<Rightarrow> applied" where
  "charging_profile_set scope p s =
     (case profile_install scope p (charging_profiles_of s) of
        Inl _ \<Rightarrow> (s, [], False)
      | Inr ps \<Rightarrow> (s\<lparr>charging_profiles_of := ps\<rparr>, [], True))"

fun restore_profiles ::
  "usize \<Rightarrow> installed_profile list \<Rightarrow> charging_profile_store \<Rightarrow> charging_profile_store \<times> bool \<times> usize" where
  "restore_profiles evse_count [] ps = (ps, False, 0)"
| "restore_profiles evse_count (x # xs) ps =
     (if (case installed_scope x of ScopeEvse i \<Rightarrow> evse_count \<le> i | ScopeChargePoint \<Rightarrow> False)
      then restore_profiles evse_count xs ps
      else (case profile_install (installed_scope x) (installed_of x) ps of
              Inr ps1 \<Rightarrow>
                (case restore_profiles evse_count xs ps1 of (ps2, _, refused) \<Rightarrow> (ps2, True, refused))
            | Inl _ \<Rightarrow>
                (case restore_profiles evse_count xs ps of
                   (ps2, restored, refused) \<Rightarrow> (ps2, restored, Suc refused))))"

definition profiles_restored :: "installed_profile list \<Rightarrow> charge_point_state \<Rightarrow> applied" where
  "profiles_restored xs s =
     (let (ps, restored_any, refused) = restore_profiles (length (evses s)) xs (charging_profiles_of s)
      in (s\<lparr>charging_profiles_of := ps\<rparr>,
          if 0 < refused
          then [memory_exhaustion (''dropped '' @ nat_to_string refused
                  @ '' recovered charging profiles beyond the configured maximum of ''
                  @ nat_to_string (max_profiles ps))]
          else [],
          restored_any))"

definition tariff_default_set :: "tariff_scope \<Rightarrow> tariff \<Rightarrow> charge_point_state \<Rightarrow> applied" where
  "tariff_default_set scope t s =
     (case tariff_set_default scope t (tariffs_of s) of
        Inl _ \<Rightarrow> (s, [], False)
      | Inr ts \<Rightarrow> (s\<lparr>tariffs_of := ts\<rparr>, [], True))"

definition all_transactions :: "charge_point_state \<Rightarrow> (usize \<times> usize \<times> transaction option) list" where
  "all_transactions s =
     concat (map (\<lambda>(i, e). map (\<lambda>(c, t). (i, c, t)) (enumerate 0 (transactions e))) (enumerate 0 (evses s)))"

definition priority_charging_set :: "transaction_id \<Rightarrow> bool \<Rightarrow> bool \<Rightarrow> charge_point_state \<Rightarrow> applied" where
  "priority_charging_set i activated locally_initiated s =
     (case List.find (\<lambda>(_, _, slot). is_some_and slot (\<lambda>t. tx_id t = i)) (all_transactions s) of
        None \<Rightarrow> (s, [], False)
      | Some (e, c, slot) \<Rightarrow>
          (let changed = is_some_and slot (\<lambda>t. tx_priority_charging t \<noteq> activated)
           in (update_evse e (update_slot c (\<lambda>t. t\<lparr>tx_priority_charging := activated\<rparr>)) s,
               if changed \<and> locally_initiated
               then [PriorityChargingChanged \<lparr>priority_transaction_id = i, priority_activated = activated\<rparr>]
               else [],
               changed)))"

section \<open>The device model and its monitors\<close>

definition triggered_effect ::
  "component \<Rightarrow> variable \<Rightarrow> string \<Rightarrow> variable_monitor_id \<Rightarrow> variable_monitor \<Rightarrow> charge_point_effect" where
  "triggered_effect c v x i m =
     VariableMonitorTriggered
       \<lparr>triggered_monitor_id = Some i, triggered_component = c, triggered_variable = v,
        triggered_value = x, triggered_severity = monitor_severity m,
        triggered_by = (case monitor_type_of m of DeltaMonitor \<Rightarrow> DeltaTrigger | _ \<Rightarrow> Alerting)\<rparr>"

definition attribute_value_set ::
  "component \<Rightarrow> variable \<Rightarrow> attribute_type \<Rightarrow> string \<Rightarrow> charge_point_state \<Rightarrow> applied" where
  "attribute_value_set c v ty x s =
     (let old_value = (if ty = Actual then Option.bind (dm_actual (device_model_of s) c v) parse_f64 else None);
          (m, applied) = dm_set_attribute_value c v ty x (device_model_of s);
          s1 = s\<lparr>device_model_of := m\<rparr>
      in case (if applied \<and> ty = Actual then parse_f64 x else None) of
           None \<Rightarrow> (s1, [], applied)
         | Some new_value \<Rightarrow>
             (let (monitors1, ids) = monitor_evaluate c v old_value new_value (variable_monitors s1)
              in (s1\<lparr>variable_monitors := monitors1\<rparr>,
                  List.map_filter (\<lambda>i. map_option (triggered_effect c v x i) (monitor_get monitors1 i)) ids,
                  applied)))"

definition variable_registered ::
  "component \<Rightarrow> variable \<Rightarrow> variable_characteristics \<Rightarrow> variable_attribute list
   \<Rightarrow> charge_point_state \<Rightarrow> applied" where
  "variable_registered c v ch attrs s =
     (let (m, registered) = dm_register c v ch attrs (device_model_of s)
      in (s\<lparr>device_model_of := m\<rparr>, [], registered))"

fun restore_attributes :: "recovered_attribute list \<Rightarrow> device_model \<Rightarrow> device_model \<times> bool" where
  "restore_attributes [] m = (m, False)"
| "restore_attributes (a # as) m =
     (case dm_set_attribute_value (recovered_component a) (recovered_variable a)
             (recovered_attribute_type a) (recovered_value a) m of
        (m1, applied) \<Rightarrow>
          (case restore_attributes as m1 of (m2, restored) \<Rightarrow> (m2, applied \<or> restored)))"

definition clock_synced :: "(date_time \<Rightarrow> string) \<Rightarrow> date_time \<Rightarrow> monotonic_instant \<Rightarrow> charge_point_state \<Rightarrow> applied" where
  "clock_synced rfc3339 csms_time recorded_at s =
     (let m = fst (dm_set_attribute_value (Component clock_component None None)
                (Variable clock_date_time_variable None) Actual (rfc3339 csms_time) (device_model_of s));
          a = Some \<lparr>anchor_csms_time = csms_time, anchor_recorded_at = recorded_at\<rparr>
      in (s\<lparr>device_model_of := m, time_sync := a\<rparr>, [], time_sync s \<noteq> a))"

definition monitoring_event :: "variable_monitoring_event \<Rightarrow> charge_point_state \<Rightarrow> applied" where
  "monitoring_event ev s =
     (let (ms, changed) =
            (case ev of
               MonitorSet i c v t x severity \<Rightarrow> monitor_set i c v t x severity (variable_monitors s)
             | MonitorCleared i \<Rightarrow> monitor_clear i (variable_monitors s)
             | BaseSet b \<Rightarrow> monitor_set_base b (variable_monitors s)
             | LevelSet l \<Rightarrow> monitor_set_level l (variable_monitors s))
      in (s\<lparr>variable_monitors := ms\<rparr>, [], changed))"

section \<open>State recovered from storage\<close>

definition addressable :: "usize \<Rightarrow> usize \<Rightarrow> charge_point_state \<Rightarrow> bool" where
  "addressable i c s = is_some_and (vec_get (evses s) i) (\<lambda>e. c < length (connectors e))"

definition close_recovered :: "transaction \<Rightarrow> transaction" where
  "close_recovered t = t\<lparr>tx_stop_reason := Some PowerLoss, tx_seq_no := tx_seq_no t + 1\<rparr>"

definition transactions_restored :: "u64 \<Rightarrow> recovered_transaction list \<Rightarrow> charge_point_state \<Rightarrow> applied" where
  "transactions_restored next xs s =
     (let kept = filter (\<lambda>r. addressable (recovered_tx_evse r) (recovered_tx_connector r) s) xs
      in (s\<lparr>next_transaction_id := max (next_transaction_id s) next\<rparr>,
          map (\<lambda>r. transaction_effect (recovered_tx_evse r) (recovered_tx_connector r)
                 (Ended, close_recovered (recovered_tx r))) kept,
          next_transaction_id s < next \<or> kept \<noteq> []))"

fun restore_reservations :: "recovered_reservation list \<Rightarrow> charge_point_state \<Rightarrow> applied" where
  "restore_reservations [] s = (s, [], False)"
| "restore_reservations (r # rs) s =
     (if connector_at s (recovered_res_evse r) (recovered_res_connector r) = Some Available
      then (case apply_connector_event (recovered_res_evse r) (recovered_res_connector r)
                   (ReservedFor (recovered_res r)) s of
              (s1, effects1, changed1) \<Rightarrow>
                (case restore_reservations rs s1 of
                   (s2, effects2, changed2) \<Rightarrow> (s2, effects1 @ effects2, changed1 \<or> changed2)))
      else restore_reservations rs s)"

section \<open>External limits\<close>

definition set_external_charging_limit ::
  "usize option \<Rightarrow> external_charging_limit \<Rightarrow> charge_point_state \<Rightarrow> applied" where
  "set_external_charging_limit target limit s =
     (let notify = [SmartChargingNotification (NotifyExternalChargingLimitSet target limit)]
      in case target of
           None \<Rightarrow>
             if is_local_generation limit
             then (s\<lparr>station_local_generation_limit := Some limit\<rparr>, notify, True)
             else (s\<lparr>station_external_limit := Some limit\<rparr>, notify, True)
         | Some i \<Rightarrow>
             if length (evses s) \<le> i then (s, [], False)
             else (update_evse i
                     (\<lambda>e. if is_local_generation limit then e\<lparr>evse_local_generation_limit := Some limit\<rparr>
                          else e\<lparr>evse_external_limit := Some limit\<rparr>) s, notify, True))"

definition external_limit_slot ::
  "usize option \<Rightarrow> bool \<Rightarrow> charge_point_state \<Rightarrow> external_charging_limit option" where
  "external_limit_slot target local_generation s =
     (case target of
        None \<Rightarrow> if local_generation then station_local_generation_limit s else station_external_limit s
      | Some i \<Rightarrow>
          (case vec_get (evses s) i of
             None \<Rightarrow> None
           | Some e \<Rightarrow> if local_generation then evse_local_generation_limit e else evse_external_limit e))"

definition clear_external_charging_limit ::
  "usize option \<Rightarrow> charging_limit_source \<Rightarrow> bool \<Rightarrow> charge_point_state \<Rightarrow> applied" where
  "clear_external_charging_limit target source local_generation s =
     (if is_some_and (external_limit_slot target local_generation s) (\<lambda>l. external_source l = source)
      then ((case target of
               None \<Rightarrow>
                 if local_generation then s\<lparr>station_local_generation_limit := None\<rparr>
                 else s\<lparr>station_external_limit := None\<rparr>
             | Some i \<Rightarrow>
                 update_evse i
                   (\<lambda>e. if local_generation then e\<lparr>evse_local_generation_limit := None\<rparr>
                        else e\<lparr>evse_external_limit := None\<rparr>) s),
            [SmartChargingNotification (NotifyExternalChargingLimitCleared target source)], True)
      else (s, [], False))"

definition evse_event_applied :: "usize \<Rightarrow> evse_event \<Rightarrow> charge_point_state \<Rightarrow> applied" where
  "evse_event_applied i ev s =
     (case ev of
        OnConnector c cev \<Rightarrow> apply_connector_event i c cev s
      | EvseFaultDetected \<Rightarrow> cascade_evse_fault i True s
      | EvseFaultCleared \<Rightarrow> cascade_evse_fault i False s
      | EVChargingNeedsReported needs \<Rightarrow>
          (s, if i < length (evses s) then [SmartChargingNotification (NotifyEVChargingNeeds i needs)] else [],
           False)
      | EVChargingScheduleReported report \<Rightarrow>
          (s, if i < length (evses s) then [SmartChargingNotification (NotifyEVChargingSchedule i report)] else [],
           False)
      | _ \<Rightarrow> (case apply_to_evse i ev s of (s1, changed) \<Rightarrow> (s1, [], changed)))"

section \<open>Pending resets\<close>

text \<open>\<open>transactions[connector_id]\<close> panics where the vector is shorter than \<open>connectors\<close>.\<close>

fun any_open_transaction :: "charge_point_state \<Rightarrow> (usize \<times> usize) list \<Rightarrow> bool option" where
  "any_open_transaction s [] = Some False"
| "any_open_transaction s ((i, c) # rest) =
     (case vec_get (transactions (evses s ! i)) c of
        None \<Rightarrow> None
      | Some slot \<Rightarrow> if slot \<noteq> None then Some True else any_open_transaction s rest)"

definition pending_reset_ready :: "pending_reset \<Rightarrow> charge_point_state \<Rightarrow> bool option" where
  "pending_reset_ready p s =
     (let addresses = target_connector_addresses (pending_target p) s
      in case pending_kind p of
           Immediate \<Rightarrow>
             Some (\<not> list_ex (\<lambda>(i, c). connectors (evses s ! i) ! c \<in> {Stopping, Finishing}) addresses)
         | OnIdle \<Rightarrow> map_option Not (any_open_transaction s addresses))"

definition check_pending_reset ::
  "charge_point_state \<Rightarrow> (charge_point_state \<times> charge_point_effect list) option" where
  "check_pending_reset s =
     (case pending_reset_of s of
        None \<Rightarrow> Some (s, [])
      | Some p \<Rightarrow>
          (case pending_reset_ready p s of
             None \<Rightarrow> None
           | Some ready \<Rightarrow>
               Some (if ready
                     then (s\<lparr>pending_reset_of := None\<rparr>,
                           StateChanged # map (\<lambda>i. Command (Reboot i)) (target_evse_ids (pending_target p) s))
                     else (s, []))))"

section \<open>The event handler\<close>

fun apply_event :: "(date_time \<Rightarrow> string) \<Rightarrow> charge_point_event \<Rightarrow> charge_point_state \<Rightarrow> applied option" where
  "apply_event rfc BootCompleted s =
     Some (fst (set_lifecycle LifeAvailable s), [], snd (set_lifecycle LifeAvailable s))"
| "apply_event rfc SetAvailable s =
     Some (fst (set_lifecycle LifeAvailable s), [], snd (set_lifecycle LifeAvailable s))"
| "apply_event rfc SetUnavailable s =
     Some (fst (set_lifecycle LifeUnavailable s), [], snd (set_lifecycle LifeUnavailable s))"
| "apply_event rfc HardwareFault s = Some (station_fault True s)"
| "apply_event rfc FaultCleared s = Some (station_fault False s)"
| "apply_event rfc (RegistrationStatusReceived st) s = Some (registration_received st s)"
| "apply_event rfc (LocalListUpdated version entries) s =
     (case replace_local_authorization_list version entries s of
        (s1, effects) \<Rightarrow> Some (s1, effects, True))"
| "apply_event rfc (SecurityEventOccurred e) s = Some (s, [SecurityEventEffect e], False)"
| "apply_event rfc (ResetRequested target kind) s = Some (reset_requested target kind s)"
| "apply_event rfc (NetworkProfileSet n p) s = Some (network_profile_set n p s)"
| "apply_event rfc (PersistedNetworkProfilesRestored slots) s = Some (network_profiles_restored slots s)"
| "apply_event rfc (AuthorizationCached t st ts) s =
     map_option (\<lambda>cache. (s\<lparr>authorization_cache_of := cache\<rparr>, [], True))
       (cache_remember t st ts (authorization_cache_of s))"
| "apply_event rfc AuthorizationCacheCleared s =
     (case cache_clear (authorization_cache_of s) of
        (cache, n) \<Rightarrow> Some (s\<lparr>authorization_cache_of := cache\<rparr>, [], 0 < n))"
| "apply_event rfc (PersistedAuthorizationCacheRestored es) s =
     (case cache_replace es (authorization_cache_of s) of
        (cache, _) \<Rightarrow> Some (s\<lparr>authorization_cache_of := cache\<rparr>, [], cache_entries cache \<noteq> []))"
| "apply_event rfc (ChargingProfileSet scope p) s = Some (charging_profile_set scope p s)"
| "apply_event rfc (ChargingProfilesCleared c) s =
     (case profile_clear c (charging_profiles_of s) of
        (ps, n) \<Rightarrow> Some (s\<lparr>charging_profiles_of := ps\<rparr>, [], 0 < n))"
| "apply_event rfc (DefaultTariffSet scope t) s = Some (tariff_default_set scope t s)"
| "apply_event rfc (TariffsCleared c) s =
     (case tariff_clear c (tariffs_of s) of
        (ts, n) \<Rightarrow> Some (s\<lparr>tariffs_of := ts\<rparr>, [], 0 < n))"
| "apply_event rfc (PeriodicEventStreamOpened i mon params) s =
     (case stream_put \<lparr>stream_id = i, stream_monitoring_id = mon, stream_params = params\<rparr>
             (periodic_event_streams s) of
        (ss, opened) \<Rightarrow> Some (s\<lparr>periodic_event_streams := ss\<rparr>, [], opened))"
| "apply_event rfc (PeriodicEventStreamClosed i) s =
     (case stream_close i (periodic_event_streams s) of
        (ss, was_open) \<Rightarrow> Some (s\<lparr>periodic_event_streams := ss\<rparr>, [], was_open))"
| "apply_event rfc (PeriodicEventStreamAdjusted i params) s =
     (case stream_adjust i params (periodic_event_streams s) of
        (ss, adjusted) \<Rightarrow> Some (s\<lparr>periodic_event_streams := ss\<rparr>, [], adjusted))"
| "apply_event rfc (DynamicScheduleUpdated i limit updated_at) s =
     (case apply_dynamic_update i limit updated_at (charging_profiles_of s) of
        (ps, applied) \<Rightarrow> Some (s\<lparr>charging_profiles_of := ps\<rparr>, [], applied))"
| "apply_event rfc (PriorityChargingSet i activated locally_initiated) s =
     Some (priority_charging_set i activated locally_initiated s)"
| "apply_event rfc (DeviceModelChanged ev) s =
     (case ev of
        VariableRegistered c v ch attrs \<Rightarrow> Some (variable_registered c v ch attrs s)
      | AttributeValueSet c v ty x \<Rightarrow> Some (attribute_value_set c v ty x s))"
| "apply_event rfc (DERControlSet v) s =
     (case der_put v (der_controls_of s) of
        (ds, installed) \<Rightarrow> Some (s\<lparr>der_controls_of := ds\<rparr>, [], installed))"
| "apply_event rfc (DERControlsCleared q) s =
     (case der_clear q (der_controls_of s) of
        (ds, ids) \<Rightarrow> Some (s\<lparr>der_controls_of := ds\<rparr>, [], ids \<noteq> []))"
| "apply_event rfc (AfrrSignalReceived x ts) s =
     (let a = Some \<lparr>afrr_value = x, afrr_timestamp = ts\<rparr>
      in Some (s\<lparr>afrr_signal_of := a\<rparr>, [], afrr_signal_of s \<noteq> a))"
| "apply_event rfc (CapabilitiesDeclared caps) s =
     Some (s\<lparr>capabilities_of := caps\<rparr>, [], capabilities_of s \<noteq> caps)"
| "apply_event rfc (ElectricalCharacteristicsDeclared el) s =
     Some (register_electrical_variables el s, [], True)"
| "apply_event rfc (PersistedTransactionsRestored next xs) s = Some (transactions_restored next xs s)"
| "apply_event rfc (TimeSynced csms_time recorded_at) s = Some (clock_synced rfc csms_time recorded_at s)"
| "apply_event rfc (PersistedLocalAuthorizationListRestored version entries) s =
     (case replace_local_authorization_list version entries s of
        (s1, effects) \<Rightarrow> Some (s1, effects, True))"
| "apply_event rfc (PersistedReservationsRestored rs) s = Some (restore_reservations rs s)"
| "apply_event rfc (PersistedDeviceModelAttributesRestored as) s =
     (case restore_attributes as (device_model_of s) of
        (m, restored) \<Rightarrow> Some (s\<lparr>device_model_of := m\<rparr>, [], restored))"
| "apply_event rfc (PersistedChargingProfilesRestored xs) s = Some (profiles_restored xs s)"
| "apply_event rfc (CustomerInformationErased t) s = Some (customer_information_erased t s)"
| "apply_event rfc (DisplayMessageSet m) s =
     (case message_set m (display_messages_of s) of
        (ms, stored) \<Rightarrow> Some (s\<lparr>display_messages_of := ms\<rparr>, [], stored))"
| "apply_event rfc (DisplayMessageCleared i) s =
     (case message_clear i (display_messages_of s) of
        (ms, cleared) \<Rightarrow> Some (s\<lparr>display_messages_of := ms\<rparr>, [], cleared))"
| "apply_event rfc (ExternalChargingLimitSet target limit) s = Some (set_external_charging_limit target limit s)"
| "apply_event rfc (ExternalChargingLimitCleared target source local_generation) s =
     Some (clear_external_charging_limit target source local_generation s)"
| "apply_event rfc (OnEvse i ev) s = Some (evse_event_applied i ev s)"
| "apply_event rfc (VariableMonitoring ev) s = Some (monitoring_event ev s)"
| "apply_event rfc (BatterySwapRequested v) s =
     (case swap_insert v (battery_swaps_of s) of
        (bs, stored) \<Rightarrow> Some (s\<lparr>battery_swaps_of := bs\<rparr>, [], stored))"
| "apply_event rfc (BatterySwapCancelled i) s =
     (case swap_remove i (battery_swaps_of s) of
        (bs, removed) \<Rightarrow> Some (s\<lparr>battery_swaps_of := bs\<rparr>, [], removed \<noteq> None))"
| "apply_event rfc (BatterySwapReported ev) s =
     (case swap_remove (swap_request_id ev) (battery_swaps_of s) of
        (bs, removed) \<Rightarrow>
          Some (s\<lparr>battery_swaps_of := bs\<rparr>, [BatterySwapEventOccurred ev], removed \<noteq> None))"

definition sync_variables :: "charge_point_state \<Rightarrow> charge_point_state" where
  "sync_variables s =
     sync_inventory_counters (sync_network_configuration_variables (sync_availability_variables s))"

definition cp_apply ::
  "(date_time \<Rightarrow> string) \<Rightarrow> charge_point_event \<Rightarrow> charge_point_state
   \<Rightarrow> (charge_point_state \<times> charge_point_effect list) option" where
  "cp_apply rfc ev s =
     (case apply_event rfc ev s of
        None \<Rightarrow> None
      | Some (s1, effects, changed) \<Rightarrow>
          (case check_pending_reset (sync_variables s1) of
             None \<Rightarrow> None
           | Some (s2, reset_effects) \<Rightarrow>
               Some (s2, (if changed then [StateChanged] else []) @ effects @ reset_effects)))"

text \<open>A run of the charge point over a sequence of events.\<close>

fun cp_run ::
  "(date_time \<Rightarrow> string) \<Rightarrow> charge_point_event list \<Rightarrow> charge_point_state
   \<Rightarrow> (charge_point_state \<times> charge_point_effect list) option" where
  "cp_run rfc [] s = Some (s, [])"
| "cp_run rfc (ev # evs) s =
     (case cp_apply rfc ev s of
        None \<Rightarrow> None
      | Some (s1, effects1) \<Rightarrow>
          (case cp_run rfc evs s1 of
             None \<Rightarrow> None
           | Some (s2, effects2) \<Rightarrow> Some (s2, effects1 @ effects2)))"

inductive reachable :: "(date_time \<Rightarrow> string) \<Rightarrow> usize list \<Rightarrow> state_limits \<Rightarrow> charge_point_state \<Rightarrow> bool"
  for rfc counts limits where
  start: "reachable rfc counts limits (cp_with_limits counts limits)"
| step: "reachable rfc counts limits s \<Longrightarrow> cp_apply rfc ev s = Some (s', effects)
    \<Longrightarrow> reachable rfc counts limits s'"

end
