(* ===== verification/Handler_Relation.thy ===== *)
theory Handler_Relation
  imports Charge_Point
begin

text \<open>
  The contract between the connector handler and the properties proved about it.  A relation
  between a state, the effects and the next state that is reflexive, transitive and holds of the
  handler's primitive operations holds of the handler itself, with its recursion, and of every
  loop that calls it.  \<open>P\<close> restricts the connector events the relation is claimed for.
\<close>

text \<open>The events the handler raises itself.\<close>

definition internal :: "connector_event \<Rightarrow> bool" where
  "internal ev = (ev = ChargingStopped DeAuthorized \<or> ev = ChargingSuspendedByEvse \<or> ev = ChargingResumed
     \<or> (\<exists>t i. ev = RemoteStartRequested t i))"

locale handler_relation =
  fixes P :: "connector_event \<Rightarrow> bool"
    and Q :: "charge_point_state \<Rightarrow> charge_point_effect list \<Rightarrow> charge_point_state \<Rightarrow> bool"
  assumes Q_refl: "Q s [] s"
    and Q_trans: "Q s effects1 s1 \<Longrightarrow> Q s1 effects2 s2 \<Longrightarrow> Q s (effects1 @ effects2) s2"
    and Q_step: "connector_step i c ev s = Some (s', effects, out) \<Longrightarrow> P ev \<Longrightarrow> Q s effects s'"
    and Q_limit: "request_current_limit i c l s = (s', effects) \<Longrightarrow> Q s effects s'"
    and Q_mark: "mark_limit_reached i c kind s = (s', effects) \<Longrightarrow> Q s effects s'"
    and Q_clear: "Q s [] (clear_limit_reached i c s)"
    and Q_status: "apply_to_evse i eev s = (s', b) \<Longrightarrow> Q s [] s'"
    and P_internal: "internal ev \<Longrightarrow> P ev"
begin

lemma handler:
  "apply_connector_event i c ev s = (s', effects, b) \<Longrightarrow> P ev \<Longrightarrow> Q s effects s'"
  "enforce_transaction_limit i c s = (s', effects) \<Longrightarrow> Q s effects s'"
proof (induction i c ev s and i c s arbitrary: s' effects b and s' effects
    rule: apply_connector_event_enforce_transaction_limit.induct)
  case (1 i c ev s)
  show ?case
  proof (cases "connector_step i c ev s")
    case None
    with 1(4) show ?thesis by (auto simp: apply_connector_event.simps intro: Q_refl)
  next
    case (Some r)
    obtain s1 effects1 out where r: "r = (s1, effects1, out)" by (cases r)
    with Some have stepped: "connector_step i c ev s = Some (s1, effects1, out)" by simp
    then have first: "Q s effects1 s1" using 1(5) by (rule Q_step)
    show ?thesis
    proof (cases "allowance_spent i c ev s1")
      case True
      obtain s2 effects2 b2 where
        stop: "apply_connector_event i c (ChargingStopped DeAuthorized) s1 = (s2, effects2, b2)"
        by (metis prod_cases3)
      have "Q s1 effects2 s2"
        using 1(1) [OF stepped refl refl True stop] by (simp add: P_internal internal_def)
      with first 1(4) True stepped stop show ?thesis
        by (auto simp: apply_connector_event.simps [of i c ev s] intro: Q_trans)
    next
      case False
      obtain s2 effects2 where enf: "(if limit_relevant ev \<or> out_cost_recorded out
          then enforce_transaction_limit i c s1 else (s1, [])) = (s2, effects2)" by (metis prod.exhaust)
      have second: "Q s1 effects2 s2"
        using 1(2) [OF stepped refl refl False] enf by (auto split: if_splits intro: Q_refl)
      show ?thesis
      proof (cases "out_dispatch out")
        case None
        with first second 1(4) False stepped enf show ?thesis
          by (auto simp: apply_connector_event.simps [of i c ev s] intro: Q_trans)
      next
        case (Some p)
        obtain s3 effects3 b3 where start: "apply_connector_event i c
            (RemoteStartRequested (pending_id_token p) (pending_remote_start_id p)) s2 = (s3, effects3, b3)"
          by (metis prod_cases3)
        have "Q s2 effects3 s3"
          using 1(3) [OF stepped refl refl False enf [symmetric] Some start]
          by (simp add: P_internal internal_def)
        with first second 1(4) False stepped enf Some start show ?thesis
          by (auto simp: apply_connector_event.simps [of i c ev s] intro!: Q_trans)
      qed
    qed
  qed
next
  case (2 i c s)
  show ?case
  proof (cases "limit_decision_of i c s")
    case NoLimitChange
    with 2(3) show ?thesis by (auto simp: enforce_transaction_limit.simps intro: Q_refl)
  next
    case (LimitNowReached kind)
    obtain s1 effects1 where req: "request_current_limit i c (Some 0) s = (s1, effects1)"
      by (cases "request_current_limit i c (Some 0) s")
    obtain s2 effects2 b2 where susp: "apply_connector_event i c ChargingSuspendedByEvse s1 = (s2, effects2, b2)"
      by (metis prod_cases3)
    obtain s3 effects3 where mark: "mark_limit_reached i c kind s2 = (s3, effects3)"
      by (cases "mark_limit_reached i c kind s2")
    have "Q s1 effects2 s2"
      using 2(1) [OF LimitNowReached req [symmetric] susp] by (simp add: P_internal internal_def)
    with Q_limit [OF req] Q_mark [OF mark] 2(3) LimitNowReached req susp mark show ?thesis
      by (auto simp: enforce_transaction_limit.simps [of i c s] intro!: Q_trans)
  next
    case LimitNoLongerReached
    obtain s1 effects1 where req: "request_current_limit i c None s = (s1, effects1)"
      by (cases "request_current_limit i c None s")
    obtain s2 effects2 b2 where res: "apply_connector_event i c ChargingResumed s1 = (s2, effects2, b2)"
      by (metis prod_cases3)
    have "Q s1 effects2 s2"
      using 2(2) [OF LimitNoLongerReached req [symmetric] res] by (simp add: P_internal internal_def)
    then have "Q s (effects1 @ effects2 @ []) (clear_limit_reached i c s2)"
      using Q_limit [OF req] Q_clear by (intro Q_trans)
    then show ?thesis
      using 2(3) LimitNoLongerReached req res by (auto simp: enforce_transaction_limit.simps [of i c s])
  qed
qed

lemma each:
  "apply_each xs s = (s', effects, b) \<Longrightarrow> (\<And>i c ev. (i, c, ev) \<in> set xs \<Longrightarrow> P ev) \<Longrightarrow> Q s effects s'"
proof (induction xs s arbitrary: s' effects b rule: apply_each.induct)
  case (1 s)
  then show ?case by (auto intro: Q_refl)
next
  case (2 i c ev rest s)
  obtain s1 effects1 b1 where first: "apply_connector_event i c ev s = (s1, effects1, b1)" by (metis prod_cases3)
  obtain s2 effects2 b2 where second: "apply_each rest s1 = (s2, effects2, b2)" by (metis prod_cases3)
  have "Q s effects1 s1" by (rule handler(1) [OF first "2.prems"(2) [of i c]]) simp
  moreover have "Q s1 effects2 s2"
    using "2.IH" [OF first [symmetric] refl second] "2.prems" by auto
  ultimately show ?case using "2.prems"(1) first second by (auto intro: Q_trans)
qed

lemma cascade_evse:
  assumes "cascade_evse_fault i detected s = (s', effects, b)"
    and "P ConnectorFaultDetected" and "P ConnectorFaultCleared"
  shows "Q s effects s'"
proof -
  obtain s1 b1 where status: "apply_to_evse i (if detected then EvseFaultDetected else EvseFaultCleared) s = (s1, b1)"
    by fastforce
  define xs where "xs = map (\<lambda>c. (i, c, if detected then ConnectorFaultDetected else ConnectorFaultCleared))
    [0 ..< (case vec_get (evses s1) i of None \<Rightarrow> 0 | Some e \<Rightarrow> length (connectors e))]"
  obtain b2 where each_connector: "apply_each xs s1 = (s', effects, b2)"
    using assms(1) status by (auto simp: cascade_evse_fault_def Let_def xs_def split: prod.splits)
  have "Q s1 effects s'"
    by (rule each [OF each_connector]) (use assms(2,3) in \<open>auto simp: xs_def\<close>)
  from Q_trans [OF Q_status [OF status] this] show ?thesis by simp
qed

lemma cascade:
  "cascade_evses is detected s = (s', effects, b) \<Longrightarrow> P ConnectorFaultDetected \<Longrightarrow> P ConnectorFaultCleared \<Longrightarrow>
   Q s effects s'"
proof (induction "is" detected s arbitrary: s' effects b rule: cascade_evses.induct)
  case (1 detected s)
  then show ?case by (auto intro: Q_refl)
next
  case (2 i "is" detected s)
  obtain s1 effects1 b1 where first: "cascade_evse_fault i detected s = (s1, effects1, b1)" by (metis prod_cases3)
  obtain s2 effects2 b2 where second: "cascade_evses is detected s1 = (s2, effects2, b2)" by (metis prod_cases3)
  have "Q s effects1 s1" by (rule cascade_evse [OF first "2.prems"(2,3)])
  moreover have "Q s1 effects2 s2"
    using "2.IH" [OF first [symmetric] refl second] "2.prems" by simp
  ultimately show ?case using "2.prems"(1) first second by (auto intro: Q_trans)
qed

lemma reservations:
  "restore_reservations rs s = (s', effects, b) \<Longrightarrow> (\<And>r. P (ReservedFor r)) \<Longrightarrow> Q s effects s'"
proof (induction rs s arbitrary: s' effects b rule: restore_reservations.induct)
  case (1 s)
  then show ?case by (auto intro: Q_refl)
next
  case (2 r rs s)
  show ?case
  proof (cases "connector_at s (recovered_res_evse r) (recovered_res_connector r) = Some Available")
    case False
    with 2 show ?thesis by simp
  next
    case True
    obtain s1 effects1 b1 where first: "apply_connector_event (recovered_res_evse r) (recovered_res_connector r)
        (ReservedFor (recovered_res r)) s = (s1, effects1, b1)" by (metis prod_cases3)
    obtain s2 effects2 b2 where second: "restore_reservations rs s1 = (s2, effects2, b2)" by (metis prod_cases3)
    have "Q s effects1 s1" by (rule handler(1) [OF first "2.prems"(2)])
    moreover have "Q s1 effects2 s2"
      using "2.IH"(1) [OF True first [symmetric] refl second] "2.prems" by simp
    ultimately show ?thesis using "2.prems"(1) True first second by (auto intro: Q_trans)
  qed
qed

end

end
