(* ===== verification/Micro_Steps.thy ===== *)
theory Micro_Steps
  imports Connector_Steps Handler_Relation
begin

text \<open>
  Everything \<open>ChargePointState::apply\<close> does to connectors and transactions, as a sequence of
  small steps: a step of the connector handler, a change of a requested current limit, the two
  halves of limit enforcement, the transactions recovered at boot, and changes of other state.
  Invariants are proved by induction over the steps, once for every event.
\<close>

definition cp_wf :: "charge_point_state \<Rightarrow> bool" where
  "cp_wf s = list_all evse_wf (evses s)"

definition session_at :: "charge_point_state \<Rightarrow> usize \<Rightarrow> usize \<Rightarrow> session" where
  "session_at s i c = session_of (transaction_at s i c)"

text \<open>A change that no connector and no session takes part in.\<close>

definition quiet :: "charge_point_state \<Rightarrow> charge_point_effect list \<Rightarrow> charge_point_state \<Rightarrow> bool" where
  "quiet s effects s' =
     ((\<forall>i c. connector_at s' i c = connector_at s i c) \<and> (\<forall>i c. session_at s' i c = session_at s i c)
      \<and> connector_counts s' = connector_counts s \<and> (cp_wf s \<longrightarrow> cp_wf s')
      \<and> next_transaction_id s' = next_transaction_id s \<and> started_ids effects = []
      \<and> (\<forall>i c. tx_events i c effects = [] \<and> contactor_commands i c effects = []))"

inductive micro ::
  "(connector_event \<Rightarrow> bool) \<Rightarrow> bool \<Rightarrow> charge_point_state \<Rightarrow> charge_point_effect list \<Rightarrow> charge_point_state \<Rightarrow> bool"
  for P R where
  connector: "connector_step i c ev s = Some (s', effects, out) \<Longrightarrow> P ev \<Longrightarrow> micro P R s effects s'"
| marked: "mark_limit_reached i c kind s = (s', effects) \<Longrightarrow> micro P R s effects s'"
| restored: "R \<Longrightarrow> transactions_restored n xs s = (s', effects, b) \<Longrightarrow> micro P R s effects s'"
| quietly: "quiet s effects s' \<Longrightarrow> micro P R s effects s'"

inductive path ::
  "(connector_event \<Rightarrow> bool) \<Rightarrow> bool \<Rightarrow> charge_point_state \<Rightarrow> charge_point_effect list \<Rightarrow> charge_point_state \<Rightarrow> bool"
  for P R where
  none: "path P R s [] s"
| more: "path P R s effects1 s1 \<Longrightarrow> micro P R s1 effects2 s2 \<Longrightarrow> path P R s (effects1 @ effects2) s2"

lemma path_micro: "micro P R s effects s' \<Longrightarrow> path P R s effects s'"
  using path.more [OF path.none] by fastforce

lemma path_trans:
  assumes "path P R s1 effects1 s2" and "path P R s2 effects2 s3"
  shows "path P R s1 (effects1 @ effects2) s3"
  using assms(2,1)
proof induction
  case (more s effectsa sa effectsb sb)
  then show ?case using path.more [of P R s1 "effects1 @ effectsa" sa effectsb sb] by simp
qed simp

lemma micro_mono: "micro P R s effects s' \<Longrightarrow> (\<And>ev. P ev \<Longrightarrow> Q ev) \<Longrightarrow> (R \<Longrightarrow> T) \<Longrightarrow> micro Q T s effects s'"
  by (induction rule: micro.induct) (auto intro: micro.intros)

lemma path_mono: "path P R s effects s' \<Longrightarrow> (\<And>ev. P ev \<Longrightarrow> Q ev) \<Longrightarrow> (R \<Longrightarrow> T) \<Longrightarrow> path Q T s effects s'"
  by (induction rule: path.induct) (auto intro: path.intros micro_mono)

section \<open>Quiet changes\<close>

lemma quiet_refl [simp]: "quiet s [] s"
  by (simp add: quiet_def)

lemma quiet_same_evses:
  assumes "evses s' = evses s" and "next_transaction_id s' = next_transaction_id s"
    and "started_ids effects = []" and "\<And>i c. tx_events i c effects = [] \<and> contactor_commands i c effects = []"
  shows "quiet s effects s'"
  using assms
  by (simp add: quiet_def connector_at_def session_at_def transaction_at_def connector_counts_def cp_wf_def)

lemma path_quiet: "quiet s effects s' \<Longrightarrow> path P R s effects s'"
  by (rule path_micro, rule micro.quietly)

text \<open>An update of one EVSE that keeps its connectors and its sessions is quiet.\<close>

lemma quiet_update_evse:
  assumes "\<And>e. connectors (f e) = connectors e" and "\<And>e j. slot_session (f e) j = slot_session e j"
    and "\<And>e. evse_wf e \<Longrightarrow> evse_wf (f e)" and "started_ids effects = []"
    and "\<And>i c. tx_events i c effects = [] \<and> contactor_commands i c effects = []"
  shows "quiet s effects (update_evse i f s)"
proof -
  have "list_all evse_wf (evses s) \<Longrightarrow> list_all evse_wf ((evses s)[i := f (evses s ! i)])"
    if "i < length (evses s)"
    using that assms(3) by (auto simp: list_all_length nth_list_update)
  then show ?thesis
    using assms
    by (auto simp: quiet_def update_evse_def connector_at_def session_at_def transaction_at_def
        connector_counts_def cp_wf_def vec_get_def nth_list_update map_update
        intro!: nth_equalityI)
qed

section \<open>A step of the connector handler\<close>

lemma lock_problem_stage_quiet:
  assumes "lock_problem_stage i c ev new s = (s', b, effects)"
  shows "evses s' = evses s \<and> next_transaction_id s' = next_transaction_id s \<and> started_ids effects = []
    \<and> (\<forall>i c. tx_events i c effects = [] \<and> contactor_commands i c effects = [])"
  using assms
  by (auto simp: lock_problem_stage_def set_plug_retention_lock_problem_def Let_def split: if_splits prod.splits)

lemma connector_step_evse:
  assumes "connector_step i c ev s = Some (s', effects, out)"
  obtains e e' effects1 out1 where "i < length (evses s)" and "e = evses s ! i" and "c < length (connectors e)"
    and "evse_step (connector_policy_of s) (string_variable ''TxCtrlr'' ''SupportedLimits'' s)
          i c ev (next_transaction_id s) e = (e', next_transaction_id s', effects1, out1)"
    and "evses s' = (evses s)[i := e']" and "started_ids effects = started_ids effects1"
    and "\<forall>i' c'. tx_events i' c' effects = tx_events i' c' effects1
      \<and> contactor_commands i' c' effects = contactor_commands i' c' effects1"
  using assms
proof (rule connector_stepE)
  fix e e1 next1 effects1 out1 lock_changed lock_effects
  assume st: "i < length (evses s)" "e = evses s ! i" "c < length (connectors e)"
    and step: "evse_step (connector_policy_of s) (string_variable ''TxCtrlr'' ''SupportedLimits'' s)
          i c ev (next_transaction_id s) e = (e1, next1, effects1, out1)"
    and lock: "lock_problem_stage i c ev (connectors e1 ! c)
          (s\<lparr>evses := (evses s)[i := e1], next_transaction_id := next1\<rparr>) = (s', lock_changed, lock_effects)"
    and eff: "effects = effects1 @ lock_effects"
  note q = lock_problem_stage_quiet [OF lock]
  show ?thesis
    by (rule that [of e e1 effects1 out1]) (use st step q eff in auto)
qed

lemma connector_at_update:
  "i < length (evses s) \<Longrightarrow> evses s' = (evses s)[i := e'] \<Longrightarrow>
   connector_at s' i' c' = (if i' = i then vec_get (connectors e') c' else connector_at s i' c')"
  by (auto simp: connector_at_def vec_get_def nth_list_update)

lemma session_at_update:
  "i < length (evses s) \<Longrightarrow> evses s' = (evses s)[i := e'] \<Longrightarrow>
   session_at s' i' c' = (if i' = i then slot_session e' c' else session_at s i' c')"
  by (auto simp: session_at_def transaction_at_def vec_get_def nth_list_update)

lemma session_at_here: "i < length (evses s) \<Longrightarrow> session_at s i c = slot_session (evses s ! i) c"
  by (simp add: session_at_def transaction_at_def)

lemma connector_step_connector:
  assumes "connector_step i c ev s = Some (s', effects, out)"
  obtains st where "connector_at s i c = Some st"
    and "connector_at s' i c = Some (fst (connector_next st ev (connector_policy_of s)))"
    and "\<forall>i' c'. (i', c') \<noteq> (i, c) \<longrightarrow> connector_at s' i' c' = connector_at s i' c'"
    and "connector_counts s' = connector_counts s" and "cp_wf s \<Longrightarrow> cp_wf s'"
proof -
  from assms obtain e e' effects1 out1 where
    st: "i < length (evses s)" "e = evses s ! i" "c < length (connectors e)" and
    step: "evse_step (connector_policy_of s) (string_variable ''TxCtrlr'' ''SupportedLimits'' s)
          i c ev (next_transaction_id s) e = (e', next_transaction_id s', effects1, out1)" and
    s': "evses s' = (evses s)[i := e']"
    by (rule connector_step_evse)
  note shape = evse_step_shape [OF step]
  then have conn: "connectors e' = (connectors e)[c := fst (connector_next (connectors e ! c) ev (connector_policy_of s))]"
    by (simp add: same_shape_def)
  have "evse_wf e \<Longrightarrow> evse_wf e'"
    using same_shape_wf [OF shape] by (simp add: evse_wf_def Let_def)
  then have "cp_wf s \<Longrightarrow> cp_wf s'"
    using st by (auto simp: cp_wf_def s' list_all_length nth_list_update)
  moreover have "connector_counts s' = connector_counts s"
    using st conn by (auto simp: connector_counts_def s' map_update intro!: nth_equalityI simp: nth_list_update)
  moreover have "connector_at s i c = Some (connectors e ! c)"
    using st by (simp add: connector_at_def)
  ultimately show ?thesis
    using that [of "connectors e ! c"] st conn connector_at_update [OF st(1) s']
    by (auto simp: vec_get_def nth_list_update connector_at_def)
qed

text \<open>Connectors in \<open>Faulted\<close> have no transaction.\<close>

definition faulted_clear :: "charge_point_state \<Rightarrow> bool" where
  "faulted_clear s = (\<forall>i c. connector_at s i c = Some Faulted \<longrightarrow> session_at s i c = None)"

lemma connector_step_tracks:
  assumes step: "connector_step i c ev s = Some (s', effects, out)" and clear: "faulted_clear s"
  shows "\<forall>i' c'. session_run (session_at s i' c') (tx_events i' c' effects) = Some (session_at s' i' c')"
    and "(started_ids effects = [] \<and> next_transaction_id s' = next_transaction_id s)
      \<or> (started_ids effects = [next_transaction_id s] \<and> next_transaction_id s' = next_transaction_id s + 1)"
    and "faulted_clear s'"
proof -
  from step obtain e e' effects1 out1 where
    st: "i < length (evses s)" "e = evses s ! i" "c < length (connectors e)" and
    est: "evse_step (connector_policy_of s) (string_variable ''TxCtrlr'' ''SupportedLimits'' s)
          i c ev (next_transaction_id s) e = (e', next_transaction_id s', effects1, out1)" and
    s': "evses s' = (evses s)[i := e']" and ids: "started_ids effects = started_ids effects1" and
    obs: "\<forall>i' c'. tx_events i' c' effects = tx_events i' c' effects1
      \<and> contactor_commands i' c' effects = contactor_commands i' c' effects1"
    by (rule connector_step_evse)
  have here: "connector_at s i c = Some (connectors e ! c)" "session_at s i j = slot_session e j" for j
    using st by (simp_all add: connector_at_def session_at_def transaction_at_def)
  have faulted: "connectors e ! c = Faulted \<Longrightarrow> vec_slot (transactions e) c = None"
    using clear here by (metis faulted_clear_def session_of_None)
  note es = evse_step_session [OF est faulted]
  show "(started_ids effects = [] \<and> next_transaction_id s' = next_transaction_id s)
      \<or> (started_ids effects = [next_transaction_id s] \<and> next_transaction_id s' = next_transaction_id s + 1)"
    using es(4) ids by simp
  show "\<forall>i' c'. session_run (session_at s i' c') (tx_events i' c' effects) = Some (session_at s' i' c')"
  proof (intro allI)
    fix i' c'
    show "session_run (session_at s i' c') (tx_events i' c' effects) = Some (session_at s' i' c')"
      using es(1-3) obs here
      by (cases "i' = i"; cases "c' = c") (auto simp: session_at_update [OF st(1) s'])
  qed
  have conn: "connectors e' = (connectors e)[c := fst (connector_next (connectors e ! c) ev (connector_policy_of s))]"
    using evse_step_shape [OF est] by (simp add: same_shape_def)
  show "faulted_clear s'"
    unfolding faulted_clear_def
  proof (intro allI impI)
    fix i' c'
    assume at: "connector_at s' i' c' = Some Faulted"
    show "session_at s' i' c' = None"
    proof (cases "i' = i \<and> c' = c")
      case True
      with at conn st evse_step_faulted [OF est] show ?thesis
        by (auto simp: connector_at_update [OF st(1) s'] session_at_update [OF st(1) s'])
    next
      case False
      from step have "\<forall>i' c'. (i', c') \<noteq> (i, c) \<longrightarrow> connector_at s' i' c' = connector_at s i' c'"
        by (rule connector_step_connector)
      with at False have "connector_at s i' c' = Some Faulted" by auto
      with clear have "session_at s i' c' = None" by (simp add: faulted_clear_def)
      with False es(2) here show ?thesis
        by (auto simp: session_at_update [OF st(1) s'])
    qed
  qed
qed

section \<open>Invariants along a path\<close>

lemma quietD:
  assumes "quiet s effects s'"
  shows "connector_at s' i c = connector_at s i c" "session_at s' i c = session_at s i c"
    "connector_counts s' = connector_counts s" "cp_wf s \<Longrightarrow> cp_wf s'"
    "next_transaction_id s' = next_transaction_id s" "started_ids effects = []"
    "tx_events i c effects = []" "contactor_commands i c effects = []"
  using assms by (simp_all add: quiet_def)

lemma map_update_same: "i < length xs \<Longrightarrow> f y = f (xs ! i) \<Longrightarrow> map f (xs[i := y]) = map f xs"
  by (metis list_update_id map_update)

lemma connectors_update_slot [simp]: "connectors (update_slot c f e) = connectors e"
  by (simp add: update_slot_def split: option.splits)

lemma mark_limit_reached_evse:
  assumes "mark_limit_reached i c kind s = (s', effects)"
  shows "connector_at s' i' c' = connector_at s i' c' \<and> connector_counts s' = connector_counts s
    \<and> (cp_wf s \<longrightarrow> cp_wf s') \<and> next_transaction_id s' = next_transaction_id s \<and> started_ids effects = []
    \<and> contactor_commands i' c' effects = []
    \<and> session_run (session_at s i' c') (tx_events i' c' effects) = Some (session_at s' i' c')"
proof (cases "i < length (evses s)")
  case False
  with assms show ?thesis
    by (auto simp: mark_limit_reached_def Let_def update_evse_def transaction_at_def)
next
  case True
  let ?f = "\<lambda>t. t\<lparr>tx_limit_reached := Some kind, tx_seq_no := tx_seq_no t + 1\<rparr>"
  let ?e = "update_slot c ?f (evses s ! i)"
  have s': "s' = s\<lparr>evses := (evses s)[i := ?e]\<rparr>"
    using assms True by (auto simp: mark_limit_reached_def Let_def update_evse_def)
  then have ev': "evses s' = (evses s)[i := ?e]" by simp
  have eff: "effects = map (\<lambda>t. transaction_effect i c (Updated (LimitReached kind), t))
      (option_list (map_option ?f (vec_slot (transactions (evses s ! i)) c)))"
    using assms True
    by (auto simp: mark_limit_reached_def Let_def update_evse_def transaction_at_def vec_slot_update_slot)
  have shape: "same_shape (evses s ! i) ?e" by simp
  have "list_all evse_wf (evses s) \<Longrightarrow> list_all evse_wf ((evses s)[i := ?e])"
    using True same_shape_wf [OF shape] by (auto simp: list_all_length nth_list_update)
  moreover have "connector_at s' i' c' = connector_at s i' c'"
    unfolding connector_at_update [OF True ev'] using True by (simp add: connector_at_def)
  moreover have "connector_counts s' = connector_counts s"
    using True by (simp add: s' connector_counts_def map_update_same)
  moreover have "session_run (session_at s i' c') (tx_events i' c' effects) = Some (session_at s' i' c')"
    unfolding session_at_update [OF True ev'] using True
    by (cases "vec_slot (transactions (evses s ! i)) c")
      (auto simp: eff vec_slot_update_slot session_at_here)
  moreover have "started_ids effects = [] \<and> contactor_commands i' c' effects = []"
    by (cases "vec_slot (transactions (evses s ! i)) c") (auto simp: eff)
  ultimately show ?thesis by (simp add: s' cp_wf_def)
qed

lemma transactions_restored_evses:
  assumes "transactions_restored n xs s = (s', effects, b)"
  shows "evses s' = evses s \<and> contactor_commands i c effects = [] \<and> started_ids effects = []"
proof -
  have "started_ids (map (\<lambda>r. transaction_effect (f r) (g r) (Ended, h r)) rs) = []
      \<and> contactor_commands i c (map (\<lambda>r. transaction_effect (f r) (g r) (Ended, h r)) rs) = []"
    for f g h and rs :: "recovered_transaction list"
    by (induction rs) auto
  with assms show ?thesis by (auto simp: transactions_restored_def Let_def)
qed

lemma micro_wf:
  assumes "micro P R s effects s'"
  shows "connector_counts s' = connector_counts s \<and> (cp_wf s \<longrightarrow> cp_wf s')"
  using assms
proof cases
  case (connector i c ev out)
  then show ?thesis by (elim connector_step_connector) simp
next
  case (restored n xs b)
  then show ?thesis
    using transactions_restored_evses [of n xs s s' effects b] by (simp add: connector_counts_def cp_wf_def)
next
  case (marked i c kind)
  from mark_limit_reached_evse [OF marked] show ?thesis by simp
qed (simp add: quiet_def)

lemma micro_faulted_clear:
  assumes "micro P R s effects s'" and "faulted_clear s"
  shows "faulted_clear s'"
  using assms(1)
proof cases
  case (connector i c ev out)
  with assms(2) show ?thesis by (auto intro: connector_step_tracks(3))
next
  case (marked i c kind)
  then have at: "connector_at s' i' c' = connector_at s i' c'"
    and run: "session_run (session_at s i' c') (tx_events i' c' effects) = Some (session_at s' i' c')" for i' c'
    using mark_limit_reached_evse [OF marked] by blast+
  have "session_at s i' c' = None \<Longrightarrow> session_at s' i' c' = None" for i' c'
    using marked
    by (auto simp: mark_limit_reached_def Let_def update_evse_def session_at_def transaction_at_def
        vec_slot_update_slot vec_get_def nth_list_update split: if_splits)
  with at assms(2) show ?thesis by (simp add: faulted_clear_def)
next
  case (restored n xs b)
  then show ?thesis
    using transactions_restored_evses [of n xs s s' effects b] assms(2)
    by (simp add: faulted_clear_def connector_at_def session_at_def transaction_at_def)
next
  case quietly
  with assms(2) show ?thesis by (simp add: faulted_clear_def quiet_def)
qed

lemma path_wf:
  "path P R s effects s' \<Longrightarrow> connector_counts s' = connector_counts s \<and> (cp_wf s \<longrightarrow> cp_wf s')"
  by (induction rule: path.induct) (auto dest: micro_wf)

lemma path_faulted_clear: "path P R s effects s' \<Longrightarrow> faulted_clear s \<Longrightarrow> faulted_clear s'"
  by (induction rule: path.induct) (auto dest: micro_faulted_clear)

text \<open>Sessions: every path without recovered transactions follows the protocol.\<close>

lemma micro_session:
  assumes "micro P False s effects s'" and "faulted_clear s"
  shows "session_run (session_at s i c) (tx_events i c effects) = Some (session_at s' i c)"
  using assms(1)
proof cases
  case (connector i' c' ev out)
  with assms(2) connector_step_tracks(1) show ?thesis by blast
next
  case (marked i' c' kind)
  with mark_limit_reached_evse show ?thesis by blast
qed (simp_all add: quiet_def)

lemma path_session:
  "path P False s effects s' \<Longrightarrow> faulted_clear s \<Longrightarrow>
   session_run (session_at s i c) (tx_events i c effects) = Some (session_at s' i c)"
proof (induction rule: path.induct)
  case (more s effects1 s1 effects2 s2)
  then have "faulted_clear s1" by (auto intro: path_faulted_clear)
  with more micro_session [OF more.hyps(2)] show ?case by (simp add: session_run_append)
qed simp

text \<open>Ids: they are issued consecutively.\<close>

definition consecutive :: "u64 \<Rightarrow> u64 list \<Rightarrow> u64 \<Rightarrow> bool" where
  "consecutive n ids m = (ids = map (\<lambda>k. n + of_nat k) [0 ..< length ids] \<and> m = n + of_nat (length ids))"

lemma consecutive_Nil [simp]: "consecutive n [] m \<longleftrightarrow> m = n"
  by (auto simp: consecutive_def)

lemma consecutive_append:
  assumes "consecutive n xs m" and "consecutive m ys l"
  shows "consecutive n (xs @ ys) l"
proof -
  have "map (\<lambda>k. n + of_nat k) [length xs ..< length xs + length ys]
      = map (\<lambda>k. (n + of_nat (length xs)) + of_nat k) [0 ..< length ys]"
    by (rule nth_equalityI) (auto simp: add.assoc)
  with assms show ?thesis
    by (auto simp: consecutive_def upt_add_eq_append [of 0] add.assoc)
qed

lemma micro_ids:
  assumes "micro P False s effects s'" and "faulted_clear s"
  shows "consecutive (next_transaction_id s) (started_ids effects) (next_transaction_id s')"
  using assms(1)
proof cases
  case (connector i c ev out)
  with connector_step_tracks(2) [of i c ev s s' effects out] assms(2) show ?thesis
    by (auto simp: consecutive_def)
next
  case (marked i c kind)
  from mark_limit_reached_evse [OF marked] show ?thesis by simp
qed (simp_all add: quiet_def)

lemma path_ids:
  "path P False s effects s' \<Longrightarrow> faulted_clear s \<Longrightarrow>
   consecutive (next_transaction_id s) (started_ids effects) (next_transaction_id s')"
proof (induction rule: path.induct)
  case (more s effects1 s1 effects2 s2)
  then have "faulted_clear s1" by (auto intro: path_faulted_clear)
  with more micro_ids [OF more.hyps(2)] show ?case by (auto intro: consecutive_append)
qed simp

lemma consecutive_distinct:
  assumes "consecutive n ids m" and "length ids \<le> 2 ^ 64"
  shows "distinct ids"
proof -
  have "inj_on (\<lambda>k. n + of_nat k :: u64) {0 ..< length ids}"
    using assms(2) by (auto simp: inj_on_def word_of_nat_eq_iff take_bit_nat_eq_self)
  then have "distinct (map (\<lambda>k. n + of_nat k :: u64) [0 ..< length ids])"
    by (simp add: distinct_map)
  with assms(1) show ?thesis by (metis consecutive_def)
qed

section \<open>The contactor\<close>

text \<open>The position the last contactor command asked for, starting from \<open>b\<close>.\<close>

definition contactor_after :: "bool \<Rightarrow> bool list \<Rightarrow> bool" where
  "contactor_after b cmds = (if cmds = [] then b else last cmds)"

lemma contactor_after_simps [simp]:
  "contactor_after b [] = b" "contactor_after b [x] = x"
  "contactor_after b (xs @ ys) = contactor_after (contactor_after b xs) ys"
  by (auto simp: contactor_after_def)

definition energised_at :: "charge_point_state \<Rightarrow> usize \<Rightarrow> usize \<Rightarrow> bool" where
  "energised_at s i c = is_some_and (connector_at s i c) energised"

text \<open>The two administrative events that change a connector's state without a command.\<close>

definition administrative :: "connector_event \<Rightarrow> bool" where
  "administrative ev = (ev \<in> {ConnectorSetAvailable, ConnectorSetUnavailable})"

lemma connector_next_opens:
  "snd (connector_next st ev p) = Some CmdOpenContactor \<Longrightarrow> \<not> energised (fst (connector_next st ev p))"
  by (cases ev) (auto split: if_splits)

lemma connector_next_contactor:
  shows "energised (fst (connector_next st ev p)) \<Longrightarrow>
      contactor_after (energised st) (contactor_of (snd (connector_next st ev p)))"
    and "\<not> administrative ev \<Longrightarrow>
      contactor_after (energised st) (contactor_of (snd (connector_next st ev p)))
        = energised (fst (connector_next st ev p))"
proof -
  let ?cmd = "snd (connector_next st ev p)" and ?new = "fst (connector_next st ev p)"
  have close: "?cmd = Some CmdCloseContactor \<Longrightarrow> energised ?new"
    using connector_next_closes [of st ev p] connector_next_enters_energised [of st ev p] by auto
  have enter: "energised ?new \<Longrightarrow> \<not> energised st \<Longrightarrow> ?cmd = Some CmdCloseContactor"
    by (simp add: connector_next_enters_energised)
  have leave: "\<not> energised ?new \<Longrightarrow> energised st \<Longrightarrow> \<not> administrative ev \<Longrightarrow> ?cmd = Some CmdOpenContactor"
    using connector_next_leaves_energised [of st ev p] by (auto simp: administrative_def)
  note cmd = contactor_of.cases [of ?cmd]
  show "energised ?new \<Longrightarrow> contactor_after (energised st) (contactor_of ?cmd)"
    using enter connector_next_opens [of st ev p] by (rule_tac cmd) auto
  show "contactor_after (energised st) (contactor_of ?cmd) = energised ?new" if "\<not> administrative ev"
    using enter leave [OF _ _ that] close connector_next_opens [of st ev p] by (rule_tac cmd) auto
qed

lemma connector_step_contactor:
  assumes step: "connector_step i c ev s = Some (s', effects, out)"
  shows "contactor_commands i' c' effects =
    (if i' = i \<and> c' = c
     then contactor_of (snd (connector_next (the (connector_at s i c)) ev (connector_policy_of s))) else [])"
proof -
  from step obtain e e' effects1 out1 where
    st: "i < length (evses s)" "e = evses s ! i" "c < length (connectors e)" and
    est: "evse_step (connector_policy_of s) (string_variable ''TxCtrlr'' ''SupportedLimits'' s)
          i c ev (next_transaction_id s) e = (e', next_transaction_id s', effects1, out1)" and
    obs: "\<forall>i' c'. tx_events i' c' effects = tx_events i' c' effects1
      \<and> contactor_commands i' c' effects = contactor_commands i' c' effects1"
    by (rule connector_step_evse)
  from est obtain eff6 eff8 e5 e6 e7 e8 lc origin points where
    stage: "transaction_stage i c ev (connectors e ! c)
      (fst (connector_next (connectors e ! c) ev (connector_policy_of s))) origin points
      (next_transaction_id s) e5 = (e6, next_transaction_id s', eff6)" and
    current: "current_limit_stage i c ev e7 = (e8, lc, eff8)" and
    cmds: "\<forall>i' c'. contactor_commands i' c' effects1
      = (if i' = i \<and> c' = c then contactor_of (snd (connector_next (connectors e ! c) ev (connector_policy_of s))) else [])
        @ contactor_commands i' c' eff6 @ contactor_commands i' c' eff8"
    by (rule evse_step_condensed)
  show ?thesis
    using transaction_stage_only(2) [OF stage] current_limit_stage_session [OF current] st
    by (simp add: obs cmds connector_at_def)
qed

lemma micro_contactor:
  assumes "micro P R s effects s'"
  shows "(energised_at s i c \<longrightarrow> b) \<Longrightarrow> energised_at s' i c \<Longrightarrow> contactor_after b (contactor_commands i c effects)"
    and "(\<And>ev. P ev \<Longrightarrow> \<not> administrative ev) \<Longrightarrow>
      contactor_after (energised_at s i c) (contactor_commands i c effects) = energised_at s' i c"
proof -
  have mono: "contactor_after x cmds \<Longrightarrow> (x \<longrightarrow> y) \<Longrightarrow> contactor_after y cmds" for x y cmds
    by (auto simp: contactor_after_def split: if_splits)
  have *: "(energised_at s' i c \<longrightarrow> contactor_after (energised_at s i c) (contactor_commands i c effects))
    \<and> ((\<forall>ev. P ev \<longrightarrow> \<not> administrative ev) \<longrightarrow>
        contactor_after (energised_at s i c) (contactor_commands i c effects) = energised_at s' i c)"
    using assms
  proof cases
    case (connector j d ev out)
    from connector(1) obtain st where st: "connector_at s j d = Some st"
      "connector_at s' j d = Some (fst (connector_next st ev (connector_policy_of s)))"
      "\<forall>i' c'. (i', c') \<noteq> (j, d) \<longrightarrow> connector_at s' i' c' = connector_at s i' c'"
      by (rule connector_step_connector)
    show ?thesis
    proof (cases "i = j \<and> c = d")
      case True
      with st connector connector_next_contactor(1) [of st ev "connector_policy_of s"]
        connector_next_contactor(2) [of ev st "connector_policy_of s"] show ?thesis
        by (simp add: connector_step_contactor [OF connector(1)] energised_at_def)
    next
      case False
      with st(3) connector_step_contactor [OF connector(1), of i c] show ?thesis
        by (auto simp: energised_at_def)
    qed
  next
    case (marked j d kind)
    from mark_limit_reached_evse [OF marked, of i c] show ?thesis by (simp add: energised_at_def)
  next
    case (restored n xs d)
    from transactions_restored_evses [OF restored(2), of i c] show ?thesis
      by (simp add: energised_at_def connector_at_def)
  next
    case quietly
    then show ?thesis by (simp add: quiet_def energised_at_def)
  qed
  show "(energised_at s i c \<longrightarrow> b) \<Longrightarrow> energised_at s' i c \<Longrightarrow> contactor_after b (contactor_commands i c effects)"
    using * mono by blast
  show "(\<And>ev. P ev \<Longrightarrow> \<not> administrative ev) \<Longrightarrow>
      contactor_after (energised_at s i c) (contactor_commands i c effects) = energised_at s' i c"
    using * by blast
qed

lemma path_contactor_closed:
  "path P R s effects s' \<Longrightarrow> (energised_at s i c \<longrightarrow> b) \<Longrightarrow> energised_at s' i c \<Longrightarrow>
   contactor_after b (contactor_commands i c effects)"
proof (induction rule: path.induct)
  case (more s effects1 s1 effects2 s2)
  then have "energised_at s1 i c \<longrightarrow> contactor_after b (contactor_commands i c effects1)" by simp
  from micro_contactor(1) [OF more.hyps(2) this more.prems(2)] show ?case by simp
qed simp

lemma path_contactor_exact:
  "path P R s effects s' \<Longrightarrow> (\<And>ev. P ev \<Longrightarrow> \<not> administrative ev) \<Longrightarrow>
   contactor_after (energised_at s i c) (contactor_commands i c effects) = energised_at s' i c"
proof (induction rule: path.induct)
  case (more s effects1 s1 effects2 s2)
  with micro_contactor(2) [OF more.hyps(2)] show ?case by simp
qed simp

section \<open>The handler as a path\<close>

lemma request_current_limit_quiet:
  assumes "request_current_limit i c l s = (s', effects)"
  shows "quiet s effects s'"
proof -
  have "quiet s [Command (SetCurrentLimit i c l)]
      (update_evse i (\<lambda>e. e\<lparr>charging_limits := (charging_limits e)[c := l]\<rparr>) s)"
    by (rule quiet_update_evse) (auto simp: evse_wf_def Let_def)
  with assms show ?thesis
    by (auto simp: request_current_limit_def split: option.splits if_splits)
qed

lemma clear_limit_reached_quiet: "quiet s [] (clear_limit_reached i c s)"
  unfolding clear_limit_reached_def
proof (rule quiet_update_evse)
  show "slot_session (update_slot c (\<lambda>t. t\<lparr>tx_limit_reached := None\<rparr>) e) j = slot_session e j" for e j
    by (cases "vec_slot (transactions e) c") (auto simp: vec_slot_update_slot)
  show "evse_wf e \<Longrightarrow> evse_wf (update_slot c (\<lambda>t. t\<lparr>tx_limit_reached := None\<rparr>) e)" for e
    using same_shape_wf [OF update_slot_shape] by simp
qed simp_all

lemma quiet_apply_to_evse:
  assumes "apply_to_evse i ev s = (s', b)"
  shows "quiet s [] s'"
proof -
  have "quiet s [] (update_evse i (\<lambda>e. fst (evse_apply ev e)) s)"
    by (rule quiet_update_evse)
      (simp_all add: evse_apply_def evse_set_status_def split: evse_event.splits, auto simp: evse_wf_def Let_def)
  with assms show ?thesis
    by (auto simp: apply_to_evse_def update_evse_def vec_get_def split: if_splits)
qed

lemma path_handler:
  assumes "\<And>ev. internal ev \<Longrightarrow> P ev"
  shows "handler_relation P (path P R)"
proof
  show "path P R s [] s" for s by (rule path.none)
  show "path P R s (effects1 @ effects2) s2" if "path P R s effects1 s1" "path P R s1 effects2 s2"
    for s effects1 s1 effects2 s2
    using that by (rule path_trans)
  show "path P R s effects s'" if "connector_step i c ev s = Some (s', effects, out)" "P ev" for i c ev s s' effects out
    using that by (intro path_micro micro.connector)
  show "path P R s effects s'" if "request_current_limit i c l s = (s', effects)" for i c l s s' effects
    by (rule path_quiet [OF request_current_limit_quiet [OF that]])
  show "path P R s effects s'" if "mark_limit_reached i c kind s = (s', effects)" for i c kind s s' effects
    using that by (intro path_micro micro.marked)
  show "path P R s [] (clear_limit_reached i c s)" for i c s
    by (rule path_quiet [OF clear_limit_reached_quiet])
  show "path P R s [] s'" if "apply_to_evse i ev s = (s', b)" for i ev s s' b
    by (rule path_quiet [OF quiet_apply_to_evse [OF that]])
qed (rule assms)

interpretation any_path: handler_relation "\<lambda>_. True" "path (\<lambda>_. True) R"
  by (rule path_handler) simp

end
