(* ===== verification/Charge_Point_Paths.thy ===== *)
theory Charge_Point_Paths
  imports Micro_Steps
begin

text \<open>
  \<open>ChargePointState::apply\<close> as a path of small steps, for every event, and what follows for a
  run: well-formedness, the absence of panics, sessions, ids and contactor commands.
\<close>

lemma device_model_frames [frame_simps]:
  "evses (refresh_network_configuration_priority s) = evses s"
  "next_transaction_id (refresh_network_configuration_priority s) = next_transaction_id s"
  "evses (register_electrical_variables el s) = evses s"
  "next_transaction_id (register_electrical_variables el s) = next_transaction_id s"
  "evses (sync_variables s) = evses s"
  "next_transaction_id (sync_variables s) = next_transaction_id s"
  by (simp_all add: refresh_network_configuration_priority_def register_electrical_variables_def
      sync_variables_def sync_inventory_counters_def sync_network_configuration_variables_def
      sync_availability_variables_def Let_def)

lemma quiet_priority:
  assumes "priority_charging_set i activated locally_initiated s = (s', effects, b)"
  shows "quiet s effects s'"
proof -
  let ?f = "\<lambda>c. update_slot c (\<lambda>t. t\<lparr>tx_priority_charging := activated\<rparr>)"
  have upd: "quiet s xs (update_evse e (?f c) s)"
    if "xs = [] \<or> (\<exists>p. xs = [PriorityChargingChanged p])" for e c xs
  proof (rule quiet_update_evse)
    show "slot_session (?f c x) j = slot_session x j" for x j
      by (cases "vec_slot (transactions x) c") (auto simp: vec_slot_update_slot)
    show "evse_wf x \<Longrightarrow> evse_wf (?f c x)" for x
      using same_shape_wf [OF update_slot_shape] by simp
  qed (use that in auto)
  from assms show ?thesis
    by (auto simp: priority_charging_set_def Let_def split: option.splits if_splits intro!: upd)
qed

lemma quiet_external_limits:
  "set_external_charging_limit target limit s = (s', effects, b) \<Longrightarrow> quiet s effects s'"
  "clear_external_charging_limit target source lg s = (s', effects, b) \<Longrightarrow> quiet s effects s'"
  by (auto simp: set_external_charging_limit_def clear_external_charging_limit_def Let_def evse_wf_def
      split: option.splits if_splits intro: quiet_same_evses intro!: quiet_update_evse)

section \<open>Every event is a path\<close>

definition event_allows :: "charge_point_event \<Rightarrow> connector_event \<Rightarrow> bool" where
  "event_allows ev cev =
     (internal cev \<or> cev \<in> {ConnectorFaultDetected, ConnectorFaultCleared, ConnectorResetRequested}
      \<or> (\<exists>r. cev = ReservedFor r) \<or> (\<exists>i c. ev = OnEvse i (OnConnector c cev)))"

definition restores_transactions :: "charge_point_event \<Rightarrow> bool" where
  "restores_transactions ev = (\<exists>n xs. ev = PersistedTransactionsRestored n xs)"

text \<open>The events that touch neither an EVSE nor the transaction counter.\<close>

definition store_event :: "charge_point_event \<Rightarrow> bool" where
  "store_event ev =
     (case ev of
        HardwareFault \<Rightarrow> False
      | FaultCleared \<Rightarrow> False
      | ResetRequested _ _ \<Rightarrow> False
      | PriorityChargingSet _ _ _ \<Rightarrow> False
      | PersistedTransactionsRestored _ _ \<Rightarrow> False
      | PersistedReservationsRestored _ \<Rightarrow> False
      | ExternalChargingLimitSet _ _ \<Rightarrow> False
      | ExternalChargingLimitCleared _ _ _ \<Rightarrow> False
      | OnEvse _ _ \<Rightarrow> False
      | _ \<Rightarrow> True)"

lemma triggered_effects_quiet:
  "started_ids (List.map_filter (\<lambda>j. map_option (triggered_effect c v x j) (f j)) js) = []"
  "tx_events i k (List.map_filter (\<lambda>j. map_option (triggered_effect c v x j) (f j)) js) = []"
  "contactor_commands i k (List.map_filter (\<lambda>j. map_option (triggered_effect c v x j) (f j)) js) = []"
  by (induction js) (auto simp: map_filter_simps triggered_effect_def split: option.splits)

lemma attribute_value_set_quiet:
  "attribute_value_set c v ty x s = (s', effects, b) \<Longrightarrow> quiet s effects s'"
  by (rule quiet_same_evses)
    (auto simp: attribute_value_set_def Let_def triggered_effects_quiet split: prod.splits option.splits)

lemma store_event_quiet:
  assumes "apply_event rfc ev s = Some (s', effects, b)" and "store_event ev"
  shows "quiet s effects s'"
proof (cases "\<exists>c v ty x. ev = DeviceModelChanged (AttributeValueSet c v ty x)")
  case True
  with assms(1) show ?thesis by (auto intro: attribute_value_set_quiet)
next
  case False
  have "evses s' = evses s \<and> next_transaction_id s' = next_transaction_id s \<and> started_ids effects = []
    \<and> (\<forall>i c. tx_events i c effects = [] \<and> contactor_commands i c effects = [])"
    using assms False
    by (cases ev)
      (auto simp: store_event_def set_lifecycle_def registration_received_def
        replace_local_authorization_list_def memory_exhaustion_def network_profile_set_def
        network_profiles_restored_def customer_information_erased_def charging_profile_set_def
        profiles_restored_def tariff_default_set_def variable_registered_def clock_synced_def
        monitoring_event_def Let_def frame_simps
        split: prod.splits if_splits sum.splits device_model_event.splits)
  then show ?thesis by (intro quiet_same_evses) auto
qed

lemma quiet_fields:
  "quiet s [] (s\<lparr>lifecycle := l\<rparr>)" "quiet s [] (s\<lparr>pending_reset_of := p\<rparr>)"
  by (rule quiet_same_evses; simp)+

lemma allowed_path: "handler_relation (event_allows ev) (path (event_allows ev) R)"
  by (rule path_handler) (simp add: event_allows_def)

lemma evse_event_path:
  assumes "evse_event_applied i ev s = (s', effects, b)"
  shows "path (event_allows (OnEvse i ev)) R s effects s'"
proof (cases ev)
  case (OnConnector c cev)
  with assms have "apply_connector_event i c cev s = (s', effects, b)"
    by (simp add: evse_event_applied_def)
  then show ?thesis
    by (rule handler_relation.handler(1) [OF allowed_path]) (auto simp: event_allows_def OnConnector)
next
  case EvseFaultDetected
  with assms show ?thesis
    by (auto simp: evse_event_applied_def event_allows_def
        intro: handler_relation.cascade_evse [OF allowed_path])
next
  case EvseFaultCleared
  with assms show ?thesis
    by (auto simp: evse_event_applied_def event_allows_def
        intro: handler_relation.cascade_evse [OF allowed_path])
qed (use assms in \<open>auto simp: evse_event_applied_def split: prod.splits
    intro!: path_quiet intro: quiet_apply_to_evse quiet_same_evses\<close>)

lemma station_fault_path:
  assumes "station_fault detected s = (s', effects, b)"
  shows "path (event_allows ev) R s effects s'"
proof -
  let ?s = "s\<lparr>lifecycle := if detected then LifeFaulted else LifeUnavailable\<rparr>"
  obtain b1 where cascade: "cascade_evses [0 ..< length (evses ?s)] detected ?s = (s', effects, b1)"
    using assms(1)
    by (auto simp: station_fault_def set_lifecycle_def cascade_charge_point_fault_def Let_def split: prod.splits)
  have "path (event_allows ev) R ?s effects s'"
    by (rule handler_relation.cascade [OF allowed_path cascade]) (auto simp: event_allows_def)
  with path_trans [OF path_quiet [OF quiet_fields(1)] this] show ?thesis by simp
qed

lemma reset_requested_path:
  assumes "reset_requested target kind s = (s', effects, b)"
  shows "path (event_allows ev) R s effects s'"
proof -
  let ?s = "s\<lparr>pending_reset_of := Some \<lparr>pending_target = target, pending_kind = kind\<rparr>\<rparr>"
  have start: "path (event_allows ev) R s [] ?s" by (rule path_quiet) (simp add: quiet_fields)
  show ?thesis
  proof (cases "kind = Immediate")
    case True
    then obtain b1 where each: "apply_each (map (\<lambda>(i, c). (i, c, ConnectorResetRequested))
        (target_connector_addresses target ?s)) ?s = (s', effects, b1)"
      using assms(1) by (auto simp: reset_requested_def Let_def split: prod.splits)
    have "path (event_allows ev) R ?s effects s'"
      by (rule handler_relation.each [OF allowed_path each]) (auto simp: event_allows_def)
    from path_trans [OF start this] show ?thesis by simp
  next
    case False
    with assms(1) start show ?thesis by (simp add: reset_requested_def Let_def)
  qed
qed

lemma apply_event_path:
  assumes "apply_event rfc ev s = Some (s', effects, b)"
  shows "path (event_allows ev) (restores_transactions ev) s effects s'"
proof (cases "store_event ev")
  case True
  with assms show ?thesis by (intro path_quiet store_event_quiet)
next
  case False
  show ?thesis
  proof (cases ev)
    case HardwareFault
    with assms show ?thesis by (intro station_fault_path) auto
  next
    case FaultCleared
    with assms show ?thesis by (intro station_fault_path) auto
  next
    case (ResetRequested target kind)
    with assms show ?thesis by (intro reset_requested_path) auto
  next
    case (PersistedReservationsRestored rs)
    with assms have "restore_reservations rs s = (s', effects, b)" by simp
    then show ?thesis
      by (rule handler_relation.reservations [OF allowed_path]) (simp add: event_allows_def)
  next
    case (PersistedTransactionsRestored n xs)
    with assms show ?thesis
      by (intro path_micro micro.restored) (auto simp: restores_transactions_def)
  next
    case (OnEvse i eev)
    with assms show ?thesis by (auto intro: evse_event_path)
  qed (use assms False in \<open>auto simp: store_event_def intro!: path_quiet intro: quiet_priority quiet_external_limits\<close>)
qed

lemma check_pending_reset_quiet:
  assumes "check_pending_reset s = Some (s', effects)"
  shows "quiet s effects s'"
proof -
  have "started_ids (map (\<lambda>i. Command (Reboot i)) xs) = []
      \<and> tx_events i c (map (\<lambda>i. Command (Reboot i)) xs) = []
      \<and> contactor_commands i c (map (\<lambda>i. Command (Reboot i)) xs) = []" for i c and xs :: "usize list"
    by (induction xs) auto
  with assms show ?thesis
    by (auto simp: check_pending_reset_def split: option.splits if_splits intro!: quiet_same_evses)
qed

lemma cp_apply_path:
  assumes "cp_apply rfc ev s = Some (s', effects)"
  shows "path (event_allows ev) (restores_transactions ev) s effects s'"
proof -
  obtain s1 effects1 changed where event: "apply_event rfc ev s = Some (s1, effects1, changed)"
    using assms by (auto simp: cp_apply_def split: option.splits)
  then obtain effects2 where reset: "check_pending_reset (sync_variables s1) = Some (s', effects2)"
    and eff: "effects = (if changed then [StateChanged] else []) @ effects1 @ effects2"
    using assms by (auto simp: cp_apply_def split: option.splits)
  have "path (event_allows ev) (restores_transactions ev) s (if changed then [StateChanged] else []) s"
    by (rule path_quiet, rule quiet_same_evses) auto
  moreover note apply_event_path [OF event]
  moreover have "path (event_allows ev) (restores_transactions ev) s1 [] (sync_variables s1)"
    by (rule path_quiet, rule quiet_same_evses) (auto simp: frame_simps)
  moreover have "path (event_allows ev) (restores_transactions ev) (sync_variables s1) effects2 s'"
    by (rule path_quiet, rule check_pending_reset_quiet [OF reset])
  ultimately have "path (event_allows ev) (restores_transactions ev) s
      ((if changed then [StateChanged] else []) @ effects1 @ [] @ effects2) s'"
    by (intro path_trans)
  then show ?thesis by (simp add: eff)
qed

lemma cp_run_path:
  "cp_run rfc evs s = Some (s', effects) \<Longrightarrow>
   path (\<lambda>cev. \<exists>ev \<in> set evs. event_allows ev cev) (\<exists>ev \<in> set evs. restores_transactions ev) s effects s'"
proof (induction evs arbitrary: s effects)
  case Nil
  then show ?case by (auto intro: path.none)
next
  case (Cons ev evs)
  then obtain s1 effects1 effects2 where
    first: "cp_apply rfc ev s = Some (s1, effects1)" and
    rest: "cp_run rfc evs s1 = Some (s', effects2)" and eff: "effects = effects1 @ effects2"
    by (auto split: option.splits)
  let ?P = "\<lambda>cev. \<exists>e \<in> set (ev # evs). event_allows e cev"
  let ?R = "\<exists>e \<in> set (ev # evs). restores_transactions e"
  have "path ?P ?R s effects1 s1"
    by (rule path_mono [OF cp_apply_path [OF first]]) auto
  moreover have "path ?P ?R s1 effects2 s'"
    by (rule path_mono [OF Cons.IH [OF rest]]) auto
  ultimately show ?case by (simp add: eff path_trans)
qed

end
