(* ===== verification/Fault_Cascade.thy ===== *)
theory Fault_Cascade
  imports Charge_Point_Paths
begin

text \<open>
  What the loops over connectors do to each connector: a fault of the station or of an EVSE, and
  an immediate reset, send one event to every connector of their target.  The connectors of the
  target make exactly the transition of that event, and no other connector moves.
\<close>

section \<open>Events that call nothing further\<close>

lemma apply_connector_event_plain:
  assumes "event_rank ev = 0"
  shows "apply_connector_event i c ev s =
    (case connector_step i c ev s of
       None \<Rightarrow> (s, [], False)
     | Some (s1, effects1, out) \<Rightarrow> (s1, effects1, out_changed out))"
proof (cases "connector_step i c ev s")
  case (Some r)
  obtain s1 effects1 out where r: "r = (s1, effects1, out)" by (cases r)
  with Some have step: "connector_step i c ev s = Some (s1, effects1, out)" by simp
  have "\<not> allowance_spent i c ev s1" and "\<not> limit_relevant ev" and "\<not> out_cost_recorded out"
    and "out_dispatch out = None"
    using assms allowance_spent_rank limit_relevant_rank
      connector_step_cost_recorded [OF step] connector_step_dispatch [OF step]
    by (fastforce split: option.splits)+
  with step show ?thesis by (simp add: apply_connector_event.simps)
qed (simp add: apply_connector_event.simps)

lemma connector_step_None: "connector_step i c ev s = None \<longleftrightarrow> connector_at s i c = None"
  by (auto simp: connector_step_def connector_at_def Let_def split: option.splits prod.splits)

text \<open>What a plain event does to the connectors and to the contactor commands.\<close>

lemma plain_event:
  assumes "apply_connector_event i c ev s = (s', effects, b)" and "event_rank ev = 0"
  shows "connector_at s' j d =
      (if (j, d) = (i, c)
       then map_option (\<lambda>st. fst (connector_next st ev (connector_policy_of s))) (connector_at s i c)
       else connector_at s j d)"
    and "contactor_commands j d effects =
      (if (j, d) = (i, c)
       then (case connector_at s i c of
               None \<Rightarrow> [] | Some st \<Rightarrow> contactor_of (snd (connector_next st ev (connector_policy_of s))))
       else [])"
proof -
  have "connector_at s' j d =
      (if (j, d) = (i, c)
       then map_option (\<lambda>st. fst (connector_next st ev (connector_policy_of s))) (connector_at s i c)
       else connector_at s j d)
    \<and> contactor_commands j d effects =
      (if (j, d) = (i, c)
       then (case connector_at s i c of
               None \<Rightarrow> [] | Some st \<Rightarrow> contactor_of (snd (connector_next st ev (connector_policy_of s))))
       else [])"
  proof (cases "connector_step i c ev s")
    case None
    with assms show ?thesis by (auto simp: apply_connector_event_plain connector_step_None)
  next
    case (Some r)
    with assms obtain out where step: "connector_step i c ev s = Some (s', effects, out)"
      by (auto simp: apply_connector_event_plain split: prod.splits)
    then obtain st where "connector_at s i c = Some st"
      and "connector_at s' i c = Some (fst (connector_next st ev (connector_policy_of s)))"
      and "\<forall>i' c'. (i', c') \<noteq> (i, c) \<longrightarrow> connector_at s' i' c' = connector_at s i' c'"
      by (rule connector_step_connector)
    then show ?thesis by (simp add: connector_step_contactor [OF step])
  qed
  then show "connector_at s' j d =
      (if (j, d) = (i, c)
       then map_option (\<lambda>st. fst (connector_next st ev (connector_policy_of s))) (connector_at s i c)
       else connector_at s j d)"
    and "contactor_commands j d effects =
      (if (j, d) = (i, c)
       then (case connector_at s i c of
               None \<Rightarrow> [] | Some st \<Rightarrow> contactor_of (snd (connector_next st ev (connector_policy_of s))))
       else [])" by simp_all
qed

section \<open>The same event for every connector of a list\<close>

text \<open>
  \<open>settles ev st cmds\<close>: the event takes every connector state to the same \<open>st\<close>, whatever the
  policy, and always with the same contactor commands.
\<close>

definition settles :: "connector_event \<Rightarrow> (connector_state \<Rightarrow> connector_state)
    \<Rightarrow> (connector_state \<Rightarrow> connector_command option) \<Rightarrow> bool" where
  "settles ev f g = (event_rank ev = 0 \<and> (\<forall>st p. connector_next st ev p = (f st, g st)))"

lemma settles_events:
  "settles ConnectorFaultDetected (\<lambda>_. Faulted) (\<lambda>_. Some CmdOpenContactor)"
  "settles ConnectorFaultCleared (\<lambda>st. if st = FaultedSafe then Unlocking else st)
     (\<lambda>st. if st = FaultedSafe then Some CmdUnlock else None)"
  "settles ConnectorResetRequested (\<lambda>st. if st \<in> set reset_states then Stopping else st)
     (\<lambda>st. if st \<in> set reset_states then Some CmdOpenContactor else None)"
  by (simp_all add: settles_def)

lemma apply_each_settles:
  assumes "settles ev f g" and "distinct addresses"
    and "apply_each (map (\<lambda>(i, c). (i, c, ev)) addresses) s = (s', effects, b)"
  shows "connector_at s' i c
      = (if (i, c) \<in> set addresses then map_option f (connector_at s i c) else connector_at s i c)"
    and "contactor_commands i c effects
      = (if (i, c) \<in> set addresses
         then (case connector_at s i c of None \<Rightarrow> [] | Some st \<Rightarrow> contactor_of (g st)) else [])"
proof -
  from assms(2,3) have "connector_at s' i c
      = (if (i, c) \<in> set addresses then map_option f (connector_at s i c) else connector_at s i c)
    \<and> contactor_commands i c effects
      = (if (i, c) \<in> set addresses
         then (case connector_at s i c of None \<Rightarrow> [] | Some st \<Rightarrow> contactor_of (g st)) else [])"
  proof (induction addresses arbitrary: s effects b)
    case (Cons a rest)
    obtain j d where a: "a = (j, d)" by (cases a)
    obtain s1 effects1 b1 where first: "apply_connector_event j d ev s = (s1, effects1, b1)"
      by (metis prod_cases3)
    obtain effects2 b2 where
      second: "apply_each (map (\<lambda>(i, c). (i, c, ev)) rest) s1 = (s', effects2, b2)"
      and eff: "effects = effects1 @ effects2"
      using Cons.prems(2) a first by (auto split: prod.splits)
    note step = plain_event [OF first, of i c]
    from Cons.IH [OF _ second] Cons.prems(1) step assms(1) a eff show ?case
      by (auto simp: settles_def split: option.splits)
  qed simp
  then show "connector_at s' i c
      = (if (i, c) \<in> set addresses then map_option f (connector_at s i c) else connector_at s i c)"
    and "contactor_commands i c effects
      = (if (i, c) \<in> set addresses
         then (case connector_at s i c of None \<Rightarrow> [] | Some st \<Rightarrow> contactor_of (g st)) else [])"
    by simp_all
qed

section \<open>The cascades\<close>

definition cascade_event :: "bool \<Rightarrow> connector_event" where
  "cascade_event detected = (if detected then ConnectorFaultDetected else ConnectorFaultCleared)"

definition cascade_state :: "bool \<Rightarrow> connector_state \<Rightarrow> connector_state" where
  "cascade_state detected st = (if detected then Faulted else if st = FaultedSafe then Unlocking else st)"

definition cascade_command :: "bool \<Rightarrow> bool list" where
  "cascade_command detected = (if detected then [False] else [])"

lemma cascade_evse_connectors:
  assumes "cascade_evse_fault i detected s = (s', effects, b)"
  shows "connector_at s' j d
      = (if j = i then map_option (cascade_state detected) (connector_at s j d) else connector_at s j d)"
    and "contactor_commands j d effects
      = (if j = i \<and> connector_at s j d \<noteq> None then cascade_command detected else [])"
    and "length (evses s') = length (evses s)"
proof -
  obtain s1 b1 where status: "apply_to_evse i (if detected then EvseFaultDetected else EvseFaultCleared) s = (s1, b1)"
    by fastforce
  define n where "n = (case vec_get (evses s1) i of None \<Rightarrow> 0 | Some e \<Rightarrow> length (connectors e))"
  define xs where "xs = map (\<lambda>c. (i, c)) [0 ..< n]"
  have "map (\<lambda>c. (i, c, cascade_event detected)) [0 ..< n] = map (\<lambda>(i, c). (i, c, cascade_event detected)) xs"
    by (simp add: xs_def)
  then obtain b2 where each: "apply_each (map (\<lambda>(i, c). (i, c, cascade_event detected)) xs) s1 = (s', effects, b2)"
    using assms status by (auto simp: cascade_evse_fault_def cascade_event_def Let_def n_def split: prod.splits)
  have same: "connector_at s1 j d = connector_at s j d" for j d
    using quiet_apply_to_evse [OF status] by (simp add: quiet_def)
  have n: "connector_at s i d \<noteq> None \<longleftrightarrow> d < n" for d
    unfolding same [symmetric] by (auto simp: n_def connector_at_def vec_get_def split: option.splits)
  have "distinct xs" by (simp add: xs_def distinct_map inj_on_def)
  have mem: "(j, d) \<in> set xs \<longleftrightarrow> j = i \<and> connector_at s j d \<noteq> None"
    using n [of d] by (auto simp: xs_def)
  have set: "settles (cascade_event detected) (cascade_state detected)
      (\<lambda>st. if detected then Some CmdOpenContactor else if st = FaultedSafe then Some CmdUnlock else None)"
    by (simp add: settles_def cascade_event_def cascade_state_def)
  note settled = apply_each_settles [OF set \<open>distinct xs\<close> each]
  show "connector_at s' j d
      = (if j = i then map_option (cascade_state detected) (connector_at s j d) else connector_at s j d)"
    using settled(1) [of j d] mem by (cases "connector_at s j d") (auto simp: same)
  show "contactor_commands j d effects
      = (if j = i \<and> connector_at s j d \<noteq> None then cascade_command detected else [])"
    using settled(2) [of j d] mem by (auto simp: same cascade_command_def)
  have "path (\<lambda>_. True) False s effects s'"
    by (rule any_path.cascade_evse [OF assms]) simp_all
  then have "connector_counts s' = connector_counts s" using path_wf by blast
  then show "length (evses s') = length (evses s)"
    by (metis connector_counts_def length_map)
qed

lemma cascade_evses_connectors:
  assumes "distinct is" and "cascade_evses is detected s = (s', effects, b)"
  shows "connector_at s' j d
      = (if j \<in> set is then map_option (cascade_state detected) (connector_at s j d) else connector_at s j d)"
    and "contactor_commands j d effects
      = (if j \<in> set is \<and> connector_at s j d \<noteq> None then cascade_command detected else [])"
proof -
  from assms have "connector_at s' j d
      = (if j \<in> set is then map_option (cascade_state detected) (connector_at s j d) else connector_at s j d)
    \<and> contactor_commands j d effects
      = (if j \<in> set is \<and> connector_at s j d \<noteq> None then cascade_command detected else [])"
  proof (induction "is" arbitrary: s effects b)
    case (Cons i rest)
    obtain s1 effects1 b1 where first: "cascade_evse_fault i detected s = (s1, effects1, b1)"
      by (metis prod_cases3)
    obtain effects2 b2 where second: "cascade_evses rest detected s1 = (s', effects2, b2)"
      and eff: "effects = effects1 @ effects2"
      using Cons.prems(2) first by (auto split: prod.splits)
    from Cons.IH [OF _ second] Cons.prems(1) cascade_evse_connectors(1,2) [OF first, of j d] eff show ?case
      by auto
  qed simp
  then show "connector_at s' j d
      = (if j \<in> set is then map_option (cascade_state detected) (connector_at s j d) else connector_at s j d)"
    and "contactor_commands j d effects
      = (if j \<in> set is \<and> connector_at s j d \<noteq> None then cascade_command detected else [])" by simp_all
qed

lemma station_fault_connectors:
  assumes "station_fault detected s = (s', effects, b)"
  shows "connector_at s' i c = map_option (cascade_state detected) (connector_at s i c)"
    and "contactor_commands i c effects = (if connector_at s i c = None then [] else cascade_command detected)"
proof -
  let ?s = "s\<lparr>lifecycle := if detected then LifeFaulted else LifeUnavailable\<rparr>"
  obtain b1 where cascade: "cascade_evses [0 ..< length (evses s)] detected ?s = (s', effects, b1)"
    using assms
    by (auto simp: station_fault_def set_lifecycle_def cascade_charge_point_fault_def Let_def split: prod.splits)
  have same: "connector_at ?s i c = connector_at s i c" by (simp add: connector_at_def)
  have range: "\<not> i < length (evses s) \<Longrightarrow> connector_at s i c = None"
    by (simp add: connector_at_def)
  show "connector_at s' i c = map_option (cascade_state detected) (connector_at s i c)"
    using cascade_evses_connectors(1) [OF _ cascade, of i c] range same by auto
  show "contactor_commands i c effects = (if connector_at s i c = None then [] else cascade_command detected)"
    using cascade_evses_connectors(2) [OF _ cascade, of i c] range same by auto
qed

text \<open>The tail of \<open>apply\<close> moves no connector and commands no contactor.\<close>

lemma cp_applyE:
  assumes "cp_apply rfc ev s = Some (s', effects)"
  obtains s1 effects1 b effects2 where "apply_event rfc ev s = Some (s1, effects1, b)"
    and "check_pending_reset (sync_variables s1) = Some (s', effects2)"
    and "effects = (if b then [StateChanged] else []) @ effects1 @ effects2"
    and "quiet s1 effects2 s'"
proof -
  obtain s1 effects1 b effects2 where event: "apply_event rfc ev s = Some (s1, effects1, b)"
    and reset: "check_pending_reset (sync_variables s1) = Some (s', effects2)"
    and eff: "effects = (if b then [StateChanged] else []) @ effects1 @ effects2"
    using assms by (auto simp: cp_apply_def split: option.splits)
  have "quiet (sync_variables s1) effects2 s'" by (rule check_pending_reset_quiet [OF reset])
  then have "quiet s1 effects2 s'"
    by (simp add: quiet_def connector_at_def session_at_def transaction_at_def connector_counts_def
        cp_wf_def frame_simps)
  with event reset eff that show ?thesis by blast
qed

lemma cp_apply_connectors:
  assumes "cp_apply rfc ev s = Some (s', effects)" and "apply_event rfc ev s = Some (s1, effects1, b)"
  shows "connector_at s' i c = connector_at s1 i c"
    and "contactor_commands i c effects = contactor_commands i c effects1"
    and "session_at s' i c = session_at s1 i c"
  using assms by (auto elim!: cp_applyE simp: quiet_def)

end
