(* ===== verification/Availability_Sync.thy ===== *)
theory Availability_Sync
  imports Fault_Cascade
begin

text \<open>
  \<open>sync_availability_variables\<close> and the two passes after it: after every event the device
  model's \<open>AvailabilityState\<close> variables agree with the state machines they project.
\<close>

type_synonym availability_address = "(usize \<times> usize option) option"

text \<open>The specification: the status of the station, of an EVSE, of a connector.\<close>

fun availability_of :: "charge_point_state \<Rightarrow> availability_address \<Rightarrow> connector_status option" where
  "availability_of s None = Some (station_status (lifecycle s))"
| "availability_of s (Some (i, None)) = map_option evse_rolled_up_status (vec_get (evses s) i)"
| "availability_of s (Some (i, Some c)) = map_option availability_status (connector_at s i c)"

definition availability_synced :: "charge_point_state \<Rightarrow> bool" where
  "availability_synced s =
     (\<forall>a st x. availability_of s a = Some st
        \<longrightarrow> dm_actual (device_model_of s) (availability_component a) availability_variable = Some x
        \<longrightarrow> x = availability_state_value st)"

section \<open>Writes\<close>

lemma dm_actual_write:
  "dm_actual (dm_write_actual c v x m) c' v' =
    (if c' = c \<and> v' = v then map_option (\<lambda>_. x) (dm_actual m c v) else dm_actual m c' v')"
  by (auto simp: dm_write_actual_def dm_actual_set_attribute_value)

lemma availability_component_inject [simp]:
  "availability_component a = availability_component b \<longleftrightarrow> a = b"
  by (cases a rule: availability_component.cases; cases b rule: availability_component.cases)
    (simp_all add: device_model_names)

text \<open>The synchronisation as a sequence of writes, one per address.\<close>

definition write_availability :: "charge_point_state \<Rightarrow> availability_address \<Rightarrow> device_model \<Rightarrow> device_model" where
  "write_availability s a =
     dm_write_actual (availability_component a) availability_variable
       (availability_state_value (the (availability_of s a)))"

definition evse_addresses :: "usize \<times> evse_state \<Rightarrow> availability_address list" where
  "evse_addresses = (\<lambda>(i, e). map (\<lambda>c. Some (i, Some c)) [0 ..< length (connectors e)] @ [Some (i, None)])"

definition all_addresses :: "charge_point_state \<Rightarrow> availability_address list" where
  "all_addresses s = None # concat (map evse_addresses (enumerate 0 (evses s)))"

lemma enumerate_map: "enumerate 0 xs = map (\<lambda>i. (i, xs ! i)) [0 ..< length xs]"
  by (rule nth_equalityI) (simp_all add: nth_enumerate_eq)

lemma evse_addresses_iff:
  "a \<in> set (evse_addresses (i, e)) \<longleftrightarrow>
   a = Some (i, None) \<or> (\<exists>c < length (connectors e). a = Some (i, Some c))"
  by (auto simp: evse_addresses_def)

lemma all_addresses_iff: "a \<in> set (all_addresses s) \<longleftrightarrow> availability_of s a \<noteq> None"
proof -
  have "a \<in> set (all_addresses s) \<longleftrightarrow>
      a = None \<or> (\<exists>i < length (evses s). a \<in> set (evse_addresses (i, evses s ! i)))"
    by (auto simp: all_addresses_def enumerate_map)
  then show ?thesis
    by (cases a rule: availability_component.cases)
      (auto simp: evse_addresses_iff connector_at_def vec_get_def split: if_splits)
qed

lemma fold_enumerate: "fold f (enumerate 0 xs) m = fold (\<lambda>i. f (i, xs ! i)) [0 ..< length xs] m"
  by (simp add: enumerate_map fold_map comp_def)

lemma fold_concat: "fold f (concat xss) m = fold (fold f) xss m"
  by (induction xss arbitrary: m) auto

lemma sync_evse_writes:
  assumes "i < length (evses s)"
  shows "sync_evse_availability (i, evses s ! i) m
    = fold (write_availability s) (evse_addresses (i, evses s ! i)) m"
proof -
  have "fold (sync_connector_availability i) (enumerate 0 (connectors (evses s ! i))) m
    = fold (\<lambda>c. write_availability s (Some (i, Some c))) [0 ..< length (connectors (evses s ! i))] m"
    unfolding fold_enumerate
    by (rule fold_cong) (use assms in \<open>auto simp: sync_connector_availability_def set_availability_state_def
        write_availability_def connector_at_def\<close>)
  then show ?thesis
    using assms
    by (simp add: sync_evse_availability_def evse_addresses_def fold_map comp_def
        set_availability_state_def write_availability_def)
qed

lemma sync_availability_writes:
  "device_model_of (sync_availability_variables s)
   = fold (write_availability s) (all_addresses s) (device_model_of s)"
proof -
  have "fold sync_evse_availability (enumerate 0 (evses s)) m
    = fold (\<lambda>x. fold (write_availability s) (evse_addresses x)) (enumerate 0 (evses s)) m" for m
    by (rule fold_cong) (auto simp: enumerate_map sync_evse_writes intro!: ext)
  then show ?thesis
    by (simp add: sync_availability_variables_def all_addresses_def fold_concat fold_map comp_def
        set_availability_state_def write_availability_def)
qed

lemma dm_actual_writes:
  "dm_actual (fold (write_availability s) as m) (availability_component a) availability_variable =
    (if a \<in> set as
     then map_option (\<lambda>_. availability_state_value (the (availability_of s a)))
            (dm_actual m (availability_component a) availability_variable)
     else dm_actual m (availability_component a) availability_variable)"
  by (induction as arbitrary: m)
    (auto simp: write_availability_def dm_actual_write option.map_comp comp_def)

section \<open>The passes after it\<close>

text \<open>Network configuration components and counters are other components.\<close>

lemma register_into_other:
  assumes "comp_name c \<noteq> network_configuration_component"
  shows "dm_actual (register_into i p m) c v = dm_actual m c v"
proof -
  have "dm_actual (fold (register_network_variable i) rows m) c v = dm_actual m c v" for rows m
    using assms
    by (induction rows arbitrary: m) (auto simp: register_network_variable_def dm_actual_register)
  then show ?thesis by (simp only: register_into_def)
qed

lemma sync_network_other:
  assumes "comp_name c \<noteq> network_configuration_component"
  shows "dm_actual (device_model_of (sync_network_configuration_variables s)) c v
    = dm_actual (device_model_of s) c v"
proof -
  have removed: "dm_actual (fold (\<lambda>d m. fst (dm_remove_component d m)) ds m) c v = dm_actual m c v"
    if "\<forall>d \<in> set ds. comp_name d = network_configuration_component" for ds m
    using that assms by (induction ds arbitrary: m) (auto simp: dm_actual_remove_component)
  have registered: "dm_actual (fold (\<lambda>(i, p). register_into i p) ws m) c v = dm_actual m c v" for ws m
    using assms by (induction ws arbitrary: m) (auto simp: register_into_other)
  show ?thesis
    by (simp add: sync_network_configuration_variables_def Let_def registered removed
        stale_network_components_def)
qed

lemma sync_counters_other:
  assumes "var_name v \<notin> {''DisplayMessages'', ''Entries''}"
  shows "dm_actual (device_model_of (sync_inventory_counters s)) c v = dm_actual (device_model_of s) c v"
proof -
  have "dm_actual (set_counter_variable d w i n m) c v = dm_actual m c v"
    if "w \<in> {''DisplayMessages'', ''Entries''}" for d w i n m
    using that assms by (simp only: set_counter_variable_def dm_actual_write) (metis variable.sel(1))
  then show ?thesis by (simp add: sync_inventory_counters_def)
qed

lemma availability_component_names:
  "comp_name (availability_component a) \<noteq> network_configuration_component"
  "var_name availability_variable \<notin> {''DisplayMessages'', ''Entries''}"
  by (cases a rule: availability_component.cases) (simp_all add: device_model_names)

lemma sync_variables_availability:
  "dm_actual (device_model_of (sync_variables s)) (availability_component a) availability_variable =
    (case availability_of s a of
       None \<Rightarrow> dm_actual (device_model_of s) (availability_component a) availability_variable
     | Some st \<Rightarrow> map_option (\<lambda>_. availability_state_value st)
         (dm_actual (device_model_of s) (availability_component a) availability_variable))"
  unfolding sync_variables_def
  by (simp only: sync_counters_other [OF availability_component_names(2)]
      sync_network_other [OF availability_component_names(1)] sync_availability_writes dm_actual_writes)
    (auto simp: all_addresses_iff split: option.splits)

lemma availability_of_cong:
  "lifecycle s' = lifecycle s \<Longrightarrow> evses s' = evses s \<Longrightarrow> availability_of s' a = availability_of s a"
  by (cases a rule: availability_component.cases) (simp_all add: connector_at_def)

lemma lifecycle_sync [frame_simps]: "lifecycle (sync_variables s) = lifecycle s"
  by (simp add: sync_variables_def sync_inventory_counters_def sync_network_configuration_variables_def
      sync_availability_variables_def Let_def)

lemma cp_apply_synced:
  assumes "cp_apply rfc ev s = Some (s', effects)"
  shows "availability_synced s'"
proof -
  from assms obtain s1 effects2 where "check_pending_reset (sync_variables s1) = Some (s', effects2)"
    by (rule cp_applyE)
  then have same: "lifecycle s' = lifecycle s1" "evses s' = evses s1"
    "device_model_of s' = device_model_of (sync_variables s1)"
    by (auto simp: check_pending_reset_def frame_simps split: option.splits if_splits)
  show ?thesis
    unfolding availability_synced_def
    by (auto simp: availability_of_cong [OF same(1,2)] same(3) sync_variables_availability)
qed

end
