(* ===== verification/Store_Bounds.thy ===== *)
theory Store_Bounds
  imports Charge_Point_Paths
begin

text \<open>
  How an event reaches the bounded stores.  \<open>ChargePointState::apply\<close> changes each store only
  through that store's own operations, so what the stores' interpretations of
  \<open>bounded_store\<close> say about their operations holds of every reachable charge point.
\<close>

section \<open>The device model\<close>

lemma dm_ops_1 [intro]:
  "dm_op\<^sup>*\<^sup>* m (fst (dm_register c v ch attrs m))"
  "dm_op\<^sup>*\<^sup>* m (fst (dm_set_attribute_value c v t x m))"
  "dm_op\<^sup>*\<^sup>* m (fst (dm_remove_component c m))"
  by (intro r_into_rtranclp dm_op.intros)+

lemma dm_ops_fold:
  assumes "\<And>x m. x \<in> set xs \<Longrightarrow> dm_op\<^sup>*\<^sup>* m (f x m)"
  shows "dm_op\<^sup>*\<^sup>* m (fold f xs m)"
  using assms by (induction xs arbitrary: m) (auto intro: rtranclp_trans)

lemma dm_ops_write_actual [intro]: "dm_op\<^sup>*\<^sup>* m (dm_write_actual c v x m)"
  by (auto simp: dm_write_actual_def)

lemma dm_ops_availability [intro]: "dm_op\<^sup>*\<^sup>* m (set_availability_state n e st m)"
  by (auto simp: set_availability_state_def)

lemma dm_ops_sync_evse: "dm_op\<^sup>*\<^sup>* m (sync_evse_availability x m)"
  by (cases x)
    (auto simp: sync_evse_availability_def sync_connector_availability_def
      intro!: rtranclp_trans [OF dm_ops_fold dm_ops_availability])

lemma dm_ops_sync_availability:
  "dm_op\<^sup>*\<^sup>* (device_model_of s) (device_model_of (sync_availability_variables s))"
  by (auto simp: sync_availability_variables_def
      intro!: rtranclp_trans [OF dm_ops_availability dm_ops_fold] dm_ops_sync_evse)

lemma dm_ops_register_into: "dm_op\<^sup>*\<^sup>* m (register_into i p m)"
  unfolding register_into_def by (rule dm_ops_fold) (auto simp: register_network_variable_def)

lemma dm_ops_sync_network:
  "dm_op\<^sup>*\<^sup>* (device_model_of s) (device_model_of (sync_network_configuration_variables s))"
  by (auto simp: sync_network_configuration_variables_def Let_def
      intro!: rtranclp_trans [OF dm_ops_fold dm_ops_fold] dm_ops_register_into)

lemma dm_ops_counter [intro]: "dm_op\<^sup>*\<^sup>* m (set_counter_variable c v i n m)"
  by (auto simp: set_counter_variable_def)

lemma dm_ops_sync_counters:
  "dm_op\<^sup>*\<^sup>* (device_model_of s) (device_model_of (sync_inventory_counters s))"
  by (auto simp: sync_inventory_counters_def
      intro!: rtranclp_trans [OF rtranclp_trans [OF dm_ops_counter dm_ops_counter] dm_ops_counter])

lemma dm_ops_readonly [intro]: "dm_op\<^sup>*\<^sup>* m (register_readonly n e v ty x l m)"
  by (auto simp: register_readonly_def)

lemma dm_ops_discharge [intro]: "dm_op\<^sup>*\<^sup>* m (register_discharge_power b i x m)"
  by (auto simp: register_discharge_power_def)

lemma dm_ops_connector_electrical: "dm_op\<^sup>*\<^sup>* m (register_connector_electrical el i c m)"
  by (auto simp: register_connector_electrical_def Let_def
      intro!: rtranclp_trans [OF dm_ops_readonly dm_ops_readonly])

lemma dm_ops_evse_electrical: "dm_op\<^sup>*\<^sup>* m (register_evse_electrical b el x m)"
proof (cases x)
  case (Pair i e)
  let ?m2 = "\<lambda>m. register_readonly availability_component_evse (Some (i, None)) ''Power'' DecimalType []
    (Option.bind (electrical_evse el i) max_power_w) m"
  have "dm_op\<^sup>*\<^sup>* m (register_discharge_power b i y (register_discharge_power b i y (?m2
      (register_readonly n l v ty z k m))))" for y n l v ty z k
    by (meson dm_ops_readonly dm_ops_discharge rtranclp_trans)
  from rtranclp_trans [OF this dm_ops_fold [OF dm_ops_connector_electrical]] show ?thesis
    by (simp add: register_evse_electrical_def Pair Let_def)
qed

lemma dm_ops_electrical:
  "dm_op\<^sup>*\<^sup>* (device_model_of s) (device_model_of (register_electrical_variables el s))"
  by (auto simp: register_electrical_variables_def
      intro!: rtranclp_trans [OF dm_ops_readonly dm_ops_fold] dm_ops_evse_electrical)

lemma dm_ops_priority:
  "dm_op\<^sup>*\<^sup>* (device_model_of s) (device_model_of (refresh_network_configuration_priority s))"
  by (auto simp: refresh_network_configuration_priority_def Let_def)

lemma dm_ops_restore: "dm_op\<^sup>*\<^sup>* m (fst (restore_attributes as m))"
proof (induction as m rule: restore_attributes.induct)
  case (2 a as m)
  let ?m = "fst (dm_set_attribute_value (recovered_component a) (recovered_variable a)
    (recovered_attribute_type a) (recovered_value a) m)"
  have "dm_op\<^sup>*\<^sup>* ?m (fst (restore_attributes as ?m))"
    using 2 by (metis prod.collapse)
  with dm_ops_1(2) have "dm_op\<^sup>*\<^sup>* m (fst (restore_attributes as ?m))"
    by (meson rtranclp_trans)
  then show ?case by (simp add: case_prod_beta)
qed simp

section \<open>All stores\<close>

definition store_ops :: "charge_point_state \<Rightarrow> charge_point_state \<Rightarrow> bool" where
  "store_ops s s' =
     (local_list_op\<^sup>*\<^sup>* (local_authorization_list_of s) (local_authorization_list_of s')
      \<and> dm_op\<^sup>*\<^sup>* (device_model_of s) (device_model_of s')
      \<and> profile_op\<^sup>*\<^sup>* (charging_profiles_of s) (charging_profiles_of s')
      \<and> tariff_op\<^sup>*\<^sup>* (tariffs_of s) (tariffs_of s')
      \<and> cache_op\<^sup>*\<^sup>* (authorization_cache_of s) (authorization_cache_of s')
      \<and> network_op\<^sup>*\<^sup>* (network_profiles s) (network_profiles s')
      \<and> monitor_op\<^sup>*\<^sup>* (variable_monitors s) (variable_monitors s')
      \<and> message_op\<^sup>*\<^sup>* (display_messages_of s) (display_messages_of s')
      \<and> stream_op\<^sup>*\<^sup>* (periodic_event_streams s) (periodic_event_streams s')
      \<and> swap_op\<^sup>*\<^sup>* (battery_swaps_of s) (battery_swaps_of s')
      \<and> der_op\<^sup>*\<^sup>* (der_controls_of s) (der_controls_of s'))"

lemma store_ops_refl [simp]: "store_ops s s"
  by (simp add: store_ops_def)

lemma store_ops_trans: "store_ops s s1 \<Longrightarrow> store_ops s1 s2 \<Longrightarrow> store_ops s s2"
  unfolding store_ops_def by (intro conjI; meson rtranclp_trans)

text \<open>An operation that leaves every store but the device model alone.\<close>

definition stores_kept :: "charge_point_state \<Rightarrow> charge_point_state \<Rightarrow> bool" where
  "stores_kept s s' =
     (local_authorization_list_of s' = local_authorization_list_of s
      \<and> charging_profiles_of s' = charging_profiles_of s \<and> tariffs_of s' = tariffs_of s
      \<and> authorization_cache_of s' = authorization_cache_of s \<and> network_profiles s' = network_profiles s
      \<and> variable_monitors s' = variable_monitors s \<and> display_messages_of s' = display_messages_of s
      \<and> periodic_event_streams s' = periodic_event_streams s \<and> battery_swaps_of s' = battery_swaps_of s
      \<and> der_controls_of s' = der_controls_of s
      \<and> dm_op\<^sup>*\<^sup>* (device_model_of s) (device_model_of s'))"

lemma stores_kept_ops: "stores_kept s s' \<Longrightarrow> store_ops s s'"
  by (simp add: stores_kept_def store_ops_def)

lemma stores_kept_update_evse [simp]: "stores_kept s (update_evse i f s)"
  by (simp add: stores_kept_def update_evse_def)

lemma stores_kept_lock:
  "set_plug_retention_lock_problem i c p s = (s', b) \<Longrightarrow> stores_kept s s'"
  by (auto simp: set_plug_retention_lock_problem_def stores_kept_def Let_def split: if_splits)

lemma stores_kept_connector_step:
  assumes "connector_step i c ev s = Some (s', effects, out)"
  shows "stores_kept s s'"
proof -
  have evse_part: "stores_kept s s1"
    if "stores_kept (s\<lparr>evses := es, next_transaction_id := n\<rparr>) s1" for es n s1
    using that by (simp add: stores_kept_def)
  have "stores_kept s1 s2" if "lock_problem_stage i c ev new s1 = (s2, b, effs)" for new s1 s2 b effs
    using that stores_kept_lock
    by (fastforce simp: lock_problem_stage_def Let_def stores_kept_def split: if_splits prod.splits)
  with assms evse_part show ?thesis
    by (fastforce simp: connector_step_def Let_def split: option.splits if_splits prod.splits)
qed

interpretation store_handler: handler_relation "\<lambda>_. True" "\<lambda>s _ s'. store_ops s s'"
proof
  show "store_ops s s'" if "connector_step i c ev s = Some (s', effects, out)" for i c ev s s' effects out
    using that by (intro stores_kept_ops stores_kept_connector_step)
  show "store_ops s s'" if "request_current_limit i c l s = (s', effects)" for i c l s s' effects
    using that by (auto simp: request_current_limit_def intro: stores_kept_ops split: option.splits if_splits)
  show "store_ops s s'" if "mark_limit_reached i c kind s = (s', effects)" for i c kind s s' effects
    using that by (auto simp: mark_limit_reached_def Let_def intro: stores_kept_ops split: option.splits)
  show "store_ops s (clear_limit_reached i c s)" for i c s
    by (simp add: clear_limit_reached_def stores_kept_ops)
  show "store_ops s s'" if "apply_to_evse i eev s = (s', b)" for i eev s s' b
    using that by (auto simp: apply_to_evse_def store_ops_def split: option.splits)
qed (auto intro: store_ops_trans)

section \<open>Every event\<close>

lemma store_op_of [intro]:
  "local_list_replace v es l = (l', d) \<Longrightarrow> local_list_op\<^sup>*\<^sup>* l l'"
  "local_list_forget t l = (l', b) \<Longrightarrow> local_list_op\<^sup>*\<^sup>* l l'"
  "dm_register c var ch attrs m = (m', b) \<Longrightarrow> dm_op\<^sup>*\<^sup>* m m'"
  "dm_set_attribute_value c var ty x m = (m', b) \<Longrightarrow> dm_op\<^sup>*\<^sup>* m m'"
  "restore_attributes as m = (m', b) \<Longrightarrow> dm_op\<^sup>*\<^sup>* m m'"
  "profile_install scope p ps = Inr ps' \<Longrightarrow> profile_op\<^sup>*\<^sup>* ps ps'"
  "apply_dynamic_update i dl u ps = (ps', b) \<Longrightarrow> profile_op\<^sup>*\<^sup>* ps ps'"
  "profile_clear crit ps = (ps', n) \<Longrightarrow> profile_op\<^sup>*\<^sup>* ps ps'"
  "tariff_set_default ts tf tariff_st = Inr tariff_st' \<Longrightarrow> tariff_op\<^sup>*\<^sup>* tariff_st tariff_st'"
  "tariff_clear tc tariff_st = (tariff_st', n) \<Longrightarrow> tariff_op\<^sup>*\<^sup>* tariff_st tariff_st'"
  "cache_remember t st when cache = Some cache' \<Longrightarrow> cache_op\<^sup>*\<^sup>* cache cache'"
  "cache_clear cache = (cache', n) \<Longrightarrow> cache_op\<^sup>*\<^sup>* cache cache'"
  "cache_forget t cache = (cache', b) \<Longrightarrow> cache_op\<^sup>*\<^sup>* cache cache'"
  "cache_replace ces cache = (cache', n) \<Longrightarrow> cache_op\<^sup>*\<^sup>* cache cache'"
  "network_set k np net = (net', b) \<Longrightarrow> network_op\<^sup>*\<^sup>* net net'"
  "network_op\<^sup>*\<^sup>* net (fst (network_replace slots net))"
  "monitor_set mi c var mt mx sev mon = (mon', b) \<Longrightarrow> monitor_op\<^sup>*\<^sup>* mon mon'"
  "monitor_clear mid mon = (mon', b) \<Longrightarrow> monitor_op\<^sup>*\<^sup>* mon mon'"
  "monitor_set_base base mon = (mon', b) \<Longrightarrow> monitor_op\<^sup>*\<^sup>* mon mon'"
  "monitor_set_level lev mon = (mon', b) \<Longrightarrow> monitor_op\<^sup>*\<^sup>* mon mon'"
  "monitor_evaluate c var old new mon = (mon', ids) \<Longrightarrow> monitor_op\<^sup>*\<^sup>* mon mon'"
  "message_set dm msgs = (msgs', b) \<Longrightarrow> message_op\<^sup>*\<^sup>* msgs msgs'"
  "message_clear dmi msgs = (msgs', b) \<Longrightarrow> message_op\<^sup>*\<^sup>* msgs msgs'"
  "stream_put str strs = (strs', b) \<Longrightarrow> stream_op\<^sup>*\<^sup>* strs strs'"
  "stream_close si strs = (strs', b) \<Longrightarrow> stream_op\<^sup>*\<^sup>* strs strs'"
  "stream_adjust si sp strs = (strs', b) \<Longrightarrow> stream_op\<^sup>*\<^sup>* strs strs'"
  "swap_insert sw swaps = (swaps', b) \<Longrightarrow> swap_op\<^sup>*\<^sup>* swaps swaps'"
  "swap_remove swi swaps = (swaps', removed) \<Longrightarrow> swap_op\<^sup>*\<^sup>* swaps swaps'"
  "der_put der ders = (ders', b) \<Longrightarrow> der_op\<^sup>*\<^sup>* ders ders'"
  "der_clear dq ders = (ders', dids) \<Longrightarrow> der_op\<^sup>*\<^sup>* ders ders'"
  by (metis fst_conv r_into_rtranclp dm_ops_restore local_list_op.intros dm_op.intros profile_op.intros
      tariff_op.intros cache_op.intros network_op.intros monitor_op.intros message_op.intros
      stream_op.intros swap_op.intros der_op.intros)+

lemma restore_profiles_ops: "restore_profiles n xs ps = (ps', b, k) \<Longrightarrow> profile_op\<^sup>*\<^sup>* ps ps'"
proof (induction n xs ps arbitrary: b k rule: restore_profiles.induct)
  case (2 n x xs ps)
  show ?case
  proof (cases "(case installed_scope x of ScopeEvse i \<Rightarrow> n \<le> i | ScopeChargePoint \<Rightarrow> False)")
    case True
    with 2 show ?thesis by simp
  next
    case False
    with 2 show ?thesis
      by (cases "profile_install (installed_scope x) (installed_of x) ps")
        (auto split: prod.splits dest!: store_op_of(6) intro: rtranclp_trans)
  qed
qed simp

lemma store_ops_same:
  assumes "stores_kept s s'"
  shows "store_ops s s'"
  using assms by (rule stores_kept_ops)

lemma store_ops_set:
  "local_list_op\<^sup>*\<^sup>* (local_authorization_list_of s) l \<Longrightarrow> store_ops s (s\<lparr>local_authorization_list_of := l\<rparr>)"
  "dm_op\<^sup>*\<^sup>* (device_model_of s) m \<Longrightarrow> store_ops s (s\<lparr>device_model_of := m\<rparr>)"
  "profile_op\<^sup>*\<^sup>* (charging_profiles_of s) ps \<Longrightarrow> store_ops s (s\<lparr>charging_profiles_of := ps\<rparr>)"
  "tariff_op\<^sup>*\<^sup>* (tariffs_of s) ts \<Longrightarrow> store_ops s (s\<lparr>tariffs_of := ts\<rparr>)"
  "cache_op\<^sup>*\<^sup>* (authorization_cache_of s) cache \<Longrightarrow> store_ops s (s\<lparr>authorization_cache_of := cache\<rparr>)"
  "network_op\<^sup>*\<^sup>* (network_profiles s) net \<Longrightarrow> store_ops s (s\<lparr>network_profiles := net\<rparr>)"
  "monitor_op\<^sup>*\<^sup>* (variable_monitors s) mon \<Longrightarrow> store_ops s (s\<lparr>variable_monitors := mon\<rparr>)"
  "message_op\<^sup>*\<^sup>* (display_messages_of s) msgs \<Longrightarrow> store_ops s (s\<lparr>display_messages_of := msgs\<rparr>)"
  "stream_op\<^sup>*\<^sup>* (periodic_event_streams s) strs \<Longrightarrow> store_ops s (s\<lparr>periodic_event_streams := strs\<rparr>)"
  "swap_op\<^sup>*\<^sup>* (battery_swaps_of s) swaps \<Longrightarrow> store_ops s (s\<lparr>battery_swaps_of := swaps\<rparr>)"
  "der_op\<^sup>*\<^sup>* (der_controls_of s) ders \<Longrightarrow> store_ops s (s\<lparr>der_controls_of := ders\<rparr>)"
  by (simp_all add: store_ops_def)

lemma store_ops_sync: "store_ops s (sync_variables s)"
proof -
  have "store_ops s (sync_availability_variables s)" for s
    using dm_ops_sync_availability [of s]
    by (auto simp: sync_availability_variables_def intro: store_ops_set)
  moreover have "store_ops s (sync_network_configuration_variables s)" for s
    using dm_ops_sync_network [of s]
    by (auto simp: sync_network_configuration_variables_def Let_def intro: store_ops_set)
  moreover have "store_ops s (sync_inventory_counters s)" for s
    using dm_ops_sync_counters [of s]
    by (auto simp: sync_inventory_counters_def intro: store_ops_set)
  ultimately show ?thesis unfolding sync_variables_def by (meson store_ops_trans)
qed

lemma store_ops_priority: "store_ops s (refresh_network_configuration_priority s)"
  using dm_ops_priority [of s]
  by (auto simp: refresh_network_configuration_priority_def Let_def intro: store_ops_set)

lemma store_ops_networks:
  "network_profile_set n p s = (s', effects, b) \<Longrightarrow> store_ops s s'"
  "network_profiles_restored slots s = (s', effects, b) \<Longrightarrow> store_ops s s'"
  by (auto simp: network_profile_set_def network_profiles_restored_def Let_def split: prod.splits if_splits
      intro!: store_ops_trans [OF _ store_ops_priority] store_ops_set(6))

lemma store_ops_monitored:
  "attribute_value_set c v ty x s = (s', effects, b) \<Longrightarrow> store_ops s s'"
  "monitoring_event ev s = (s', effects, b) \<Longrightarrow> store_ops s s'"
  by (auto simp: attribute_value_set_def monitoring_event_def store_ops_def Let_def
      split: prod.splits option.splits if_splits variable_monitoring_event.splits)

lemma store_ops_electrical: "store_ops s (register_electrical_variables el s)"
  using dm_ops_electrical [of s el]
  by (auto simp: register_electrical_variables_def intro: store_ops_set)

lemma store_ops_status:
  "store_ops s (fst (set_lifecycle l s))"
  "registration_received st s = (s', effects, b) \<Longrightarrow> store_ops s s'"
  by (auto simp: set_lifecycle_def registration_received_def store_ops_def Let_def split: if_splits)

lemma store_ops_lists:
  "replace_local_authorization_list version entries s = (s', effects) \<Longrightarrow> store_ops s s'"
  "customer_information_erased t s = (s', effects, b) \<Longrightarrow> store_ops s s'"
  by (auto simp: replace_local_authorization_list_def customer_information_erased_def store_ops_def Let_def
      split: prod.splits)

lemma store_ops_profiles:
  "charging_profile_set scope p s = (s', effects, b) \<Longrightarrow> store_ops s s'"
  "profiles_restored xs s = (s', effects, b) \<Longrightarrow> store_ops s s'"
  "tariff_default_set tscope t s = (s', effects, b) \<Longrightarrow> store_ops s s'"
  by (auto simp: charging_profile_set_def profiles_restored_def tariff_default_set_def Let_def
      split: prod.splits sum.splits intro!: store_ops_set intro: restore_profiles_ops)

lemma store_ops_variables:
  "variable_registered c v ch attrs s = (s', effects, b) \<Longrightarrow> store_ops s s'"
  "clock_synced rfc t r s = (s', effects, b) \<Longrightarrow> store_ops s s'"
  by (auto simp: variable_registered_def clock_synced_def store_ops_def Let_def split: prod.splits)

lemma store_ops_fields:
  "store_ops s (s\<lparr>afrr_signal_of := a\<rparr>)" "store_ops s (s\<lparr>capabilities_of := caps\<rparr>)"
  "store_ops s (s\<lparr>pending_reset_of := p\<rparr>)" "store_ops s (s\<lparr>lifecycle := l\<rparr>)"
  by (simp_all add: store_ops_def)

lemmas store_ops_event =
  store_ops_networks store_ops_monitored store_ops_electrical store_ops_status store_ops_lists
  store_ops_profiles store_ops_variables store_ops_fields

lemma store_event_ops:
  assumes "apply_event rfc ev s = Some (s', effects, b)" and "store_event ev"
  shows "store_ops s s'"
  using assms
  by (cases ev)
    (auto simp: store_event_def Let_def split: prod.splits device_model_event.splits
      intro: store_ops_event store_op_of intro!: store_ops_set)

lemma store_ops_evse_event:
  assumes "evse_event_applied i ev s = (s', effects, b)"
  shows "store_ops s s'"
  using assms store_handler.handler(1) store_handler.cascade_evse store_handler.Q_status
  by (cases ev) (auto simp: evse_event_applied_def split: prod.splits)

lemma store_ops_station_fault:
  assumes "station_fault detected s = (s', effects, b)"
  shows "store_ops s s'"
proof -
  obtain l b1 where "cascade_evses [0 ..< length (evses s)] detected (s\<lparr>lifecycle := l\<rparr>) = (s', effects, b1)"
    using assms by (auto simp: station_fault_def set_lifecycle_def cascade_charge_point_fault_def Let_def
        split: prod.splits)
  then have "store_ops (s\<lparr>lifecycle := l\<rparr>) s'" by (rule store_handler.cascade) simp_all
  with store_ops_fields(4) show ?thesis by (rule store_ops_trans)
qed

lemma store_ops_reset_requested:
  assumes "reset_requested target kind s = (s', effects, b)"
  shows "store_ops s s'"
proof -
  have each: "store_ops t u" if "apply_each xs t = (u, effs, b)" for xs t u effs b
    using store_handler.each [OF that] by simp
  from assms show ?thesis
    by (auto simp: reset_requested_def Let_def store_ops_fields split: if_splits prod.splits
        intro: store_ops_trans [OF store_ops_fields(3) each])
qed

lemma store_ops_evse_fields:
  "priority_charging_set i on locally s = (s', effects, b) \<Longrightarrow> store_ops s s'"
  "set_external_charging_limit target limit s = (s', effects, b) \<Longrightarrow> store_ops s s'"
  "clear_external_charging_limit target source lg s = (s', effects, b) \<Longrightarrow> store_ops s s'"
  "transactions_restored n xs s = (s', effects, b) \<Longrightarrow> store_ops s s'"
  by (auto simp: priority_charging_set_def set_external_charging_limit_def clear_external_charging_limit_def
      transactions_restored_def Let_def store_ops_def update_evse_def
      split: option.splits if_splits)

lemma apply_event_ops:
  assumes "apply_event rfc ev s = Some (s', effects, b)"
  shows "store_ops s s'"
proof (cases "store_event ev")
  case True
  with assms show ?thesis by (rule store_event_ops)
next
  case False
  with assms store_handler.reservations show ?thesis
    by (cases ev)
      (auto simp: store_event_def intro: store_ops_evse_event store_ops_station_fault
        store_ops_reset_requested store_ops_evse_fields)
qed

lemma cp_apply_ops:
  assumes "cp_apply rfc ev s = Some (s', effects)"
  shows "store_ops s s'"
proof -
  obtain s1 effects1 b effects2 where "apply_event rfc ev s = Some (s1, effects1, b)"
    and reset: "check_pending_reset (sync_variables s1) = Some (s', effects2)"
    using assms by (auto simp: cp_apply_def split: option.splits)
  then have "store_ops s (sync_variables s1)"
    by (meson apply_event_ops store_ops_sync store_ops_trans)
  moreover have "store_ops (sync_variables s1) s'"
    using reset by (auto simp: check_pending_reset_def store_ops_fields split: option.splits if_splits)
  ultimately show ?thesis by (rule store_ops_trans)
qed

lemma reachable_ops: "reachable rfc counts limits s \<Longrightarrow> store_ops (cp_with_limits counts limits) s"
  by (induction rule: reachable.induct) (auto intro: cp_apply_ops store_ops_trans)

section \<open>Invariants of the stores\<close>

definition stores_inv :: "charge_point_state \<Rightarrow> bool" where
  "stores_inv s =
     (local_list_inv (local_authorization_list_of s) \<and> dm_inv (device_model_of s)
      \<and> profiles_inv (charging_profiles_of s) \<and> tariffs_inv (tariffs_of s)
      \<and> cache_inv (authorization_cache_of s) \<and> network_inv (network_profiles s)
      \<and> monitors_inv (variable_monitors s) \<and> message_inv (display_messages_of s)
      \<and> stream_inv (periodic_event_streams s) \<and> swap_inv (battery_swaps_of s)
      \<and> der_inv (der_controls_of s))"

lemma store_ops_inv: "store_ops s s' \<Longrightarrow> stores_inv s \<Longrightarrow> stores_inv s'"
  unfolding store_ops_def stores_inv_def
  by (intro conjI; elim conjE)
    (erule (1) local_list.ops_invar dm_store.ops_invar charging_profiles.ops_invar tariffs.ops_invar
      auth_cache.ops_invar network.ops_invar monitor_store.ops_invar display_messages.ops_invar
      event_streams.ops_invar battery_swaps.ops_invar der_controls.ops_invar)+

lemma stores_inv_init [simp]: "stores_inv (cp_with_limits counts limits)"
  by (simp add: stores_inv_def cp_with_limits_def)

lemma reachable_stores_inv: "reachable rfc counts limits s \<Longrightarrow> stores_inv s"
  using store_ops_inv [OF reachable_ops stores_inv_init] .

lemma store_ops_bounded:
  assumes "store_ops s s'" and "stores_inv s"
  shows "length (list_entries (local_authorization_list_of s')) \<le> list_max_entries (local_authorization_list_of s)"
    and "length (cache_entries (authorization_cache_of s')) \<le> cache_max_entries (authorization_cache_of s)"
    and "length (profiles (charging_profiles_of s')) \<le> max_profiles (charging_profiles_of s)"
    and "length (tariffs (tariffs_of s')) \<le> max_tariffs (tariffs_of s)"
    and "length (profile_slots (network_profiles s')) \<le> max_slots (network_profiles s)"
    and "length (monitors (variable_monitors s')) \<le> max_monitors (variable_monitors s)"
    and "length (messages (display_messages_of s')) \<le> max_messages (display_messages_of s)"
    and "length (streams (periodic_event_streams s')) \<le> max_streams (periodic_event_streams s)"
    and "length (pending_swaps (battery_swaps_of s')) \<le> max_pending (battery_swaps_of s)"
    and "length (controls (der_controls_of s')) \<le> max_controls (der_controls_of s)"
    and "dm_len (device_model_of s') \<le> dm_max_variables (device_model_of s)"
  using assms unfolding store_ops_def stores_inv_def
  by (auto intro: local_list.ops_bounded auth_cache.ops_bounded charging_profiles.ops_bounded
      tariffs.ops_bounded network.ops_bounded monitor_store.ops_bounded display_messages.ops_bounded
      event_streams.ops_bounded battery_swaps.ops_bounded der_controls.ops_bounded dm_store.ops_bounded)

text \<open>The maximum of a fresh device model: what is configured, and at least room for the built-in
  variables of the topology.\<close>

lemma dm_len_registrations:
  "dm_inv m \<Longrightarrow> dm_len (registrations rs m) \<le> dm_len m + length rs"
proof (induction rs arbitrary: m)
  case Nil
  then show ?case by (simp add: registrations_def)
next
  case (Cons r rs)
  have "dm_inv (register_one r m)"
    using dm_store.ops_invar [OF registrations_ops [of m "[r]"] Cons.prems] by (simp add: registrations_def)
  from Cons.IH [OF this] dm_len_register_one [OF Cons.prems, of r] show ?case
    by (simp add: registrations_def)
qed

lemma dm_max_with_topology:
  "dm_max_variables (dm_with_topology n counts) \<le> max n (56 + 2 * length counts + 3 * sum_list counts)"
  using dm_len_registrations [OF dm_inv_empty, of "topology_rows counts" usize_max]
  by (auto simp: dm_with_topology_def Let_def with_topology_rows length_topology_rows dm_len_def bt_values_def)

section \<open>No panic\<close>

lemma target_address_in_range:
  "(i, c) \<in> set (target_connector_addresses target s) \<Longrightarrow>
   i < length (evses s) \<and> c < length (connectors (evses s ! i))"
  by (auto simp: target_connector_addresses_def target_evse_ids_def split: reset_target.splits if_splits)

lemma any_open_transaction_eq:
  assumes "cp_wf s" and "\<And>i c. (i, c) \<in> set xs \<Longrightarrow> i < length (evses s) \<and> c < length (connectors (evses s ! i))"
  shows "any_open_transaction s xs = Some (\<exists>(i, c) \<in> set xs. transaction_at s i c \<noteq> None)"
  using assms(2)
proof (induction xs)
  case (Cons x xs)
  obtain i c where x: "x = (i, c)" by (cases x)
  then have "i < length (evses s)" and c: "c < length (connectors (evses s ! i))"
    using Cons.prems [of i c] by auto
  then have "c < length (transactions (evses s ! i))"
    using assms(1) by (auto simp: cp_wf_def evse_wf_def Let_def list_all_length)
  with Cons x \<open>i < length (evses s)\<close> show ?case
    by (auto simp: transaction_at_def)
qed simp

lemma pending_reset_ready_eq:
  assumes "cp_wf s"
  shows "pending_reset_ready p s = Some
    (\<forall>(i, c) \<in> set (target_connector_addresses (pending_target p) s).
       case pending_kind p of
         Immediate \<Rightarrow> connectors (evses s ! i) ! c \<notin> {Stopping, Finishing}
       | OnIdle \<Rightarrow> transaction_at s i c = None)"
  using any_open_transaction_eq [OF assms target_address_in_range]
  by (auto simp: pending_reset_ready_def Let_def list_ex_iff split: reset_kind.splits)

lemma apply_event_total:
  assumes "cache_inv (authorization_cache_of s)"
  shows "apply_event rfc ev s \<noteq> None"
proof (cases ev)
  case (AuthorizationCached t st ts)
  with assms cache_remember_eq [of "authorization_cache_of s" t st ts] show ?thesis
    by (auto simp: cache_inv_def Let_def)
next
  case (DeviceModelChanged e)
  then show ?thesis by (cases e) simp_all
qed (simp_all add: case_prod_beta Let_def)

lemma cp_apply_total:
  assumes "cp_wf s" and "cache_inv (authorization_cache_of s)"
  shows "\<exists>s' effects. cp_apply rfc ev s = Some (s', effects)"
proof -
  obtain s1 effects b where event: "apply_event rfc ev s = Some (s1, effects, b)"
    using apply_event_total [OF assms(2), of rfc ev] by auto
  have "cp_wf s1" using path_wf [OF apply_event_path [OF event]] assms(1) by simp
  then have "cp_wf (sync_variables s1)" by (simp add: cp_wf_def frame_simps)
  from pending_reset_ready_eq [OF this] event show ?thesis
    by (auto simp: cp_apply_def check_pending_reset_def split: option.splits)
qed

section \<open>Reachable states and runs\<close>

lemma fresh_wf [simp]:
  "cp_wf (cp_with_limits counts limits)" "connector_counts (cp_with_limits counts limits) = counts"
  by (simp_all add: cp_wf_def cp_with_limits_def connector_counts_def list_all_iff comp_def evse_new_def
      evse_wf_def Let_def)

lemma fresh_connector_at:
  "connector_at (cp_with_limits counts limits) i c
   = (if i < length counts \<and> c < counts ! i then Some Available else None)"
  by (auto simp: connector_at_def cp_with_limits_def evse_new_def vec_get_def)

lemma fresh_session_at [simp]: "session_at (cp_with_limits counts limits) i c = None"
  by (auto simp: session_at_def transaction_at_def cp_with_limits_def evse_new_def vec_slot_def vec_get_def)

lemma fresh_faulted_clear [simp]: "faulted_clear (cp_with_limits counts limits)"
  by (simp add: faulted_clear_def)

lemma fresh_not_energised [simp]: "\<not> energised_at (cp_with_limits counts limits) i c"
  by (simp add: energised_at_def fresh_connector_at)

lemma reachable_wf:
  "reachable rfc counts limits s \<Longrightarrow> connector_counts s = counts \<and> cp_wf s \<and> faulted_clear s"
  by (induction rule: reachable.induct)
    (auto dest!: cp_apply_path dest: path_wf path_faulted_clear)

lemma reachable_total:
  assumes "reachable rfc counts limits s"
  shows "\<exists>s' effects. cp_apply rfc ev s = Some (s', effects)"
  using assms reachable_wf reachable_stores_inv by (intro cp_apply_total) (auto simp: stores_inv_def)

lemma reachable_run:
  "reachable rfc counts limits s \<Longrightarrow> cp_run rfc evs s = Some (s', effects) \<Longrightarrow> reachable rfc counts limits s'"
proof (induction evs arbitrary: s effects)
  case (Cons ev evs)
  then obtain s1 effects1 effects2 where "cp_apply rfc ev s = Some (s1, effects1)"
    and "cp_run rfc evs s1 = Some (s', effects2)"
    by (auto split: option.splits)
  with Cons show ?case by (meson reachable.step)
qed simp

lemma reachable_run_total:
  "reachable rfc counts limits s \<Longrightarrow> \<exists>s' effects. cp_run rfc evs s = Some (s', effects)"
proof (induction evs arbitrary: s)
  case (Cons ev evs)
  obtain s1 effects1 where first: "cp_apply rfc ev s = Some (s1, effects1)"
    using reachable_total [OF Cons.prems] by blast
  with Cons obtain s2 effects2 where "cp_run rfc evs s1 = Some (s2, effects2)"
    by (meson reachable.step)
  with first show ?case by simp
qed simp

end
