(* ===== verification/Pending_Resets.thy ===== *)
theory Pending_Resets
  imports Fault_Cascade Store_Bounds
begin

text \<open>
  Pending resets: \<open>check_pending_reset\<close> is the only place that reboots an EVSE, it does so as
  soon as the reset's condition holds, and it forgets the reset when it does.
\<close>

section \<open>Who reboots\<close>

definition no_reboot :: "charge_point_effect list \<Rightarrow> bool" where
  "no_reboot effects = (\<forall>i. Command (Reboot i) \<notin> set effects)"

lemma no_reboot_simps [simp]:
  "no_reboot []" "no_reboot (x # xs) \<longleftrightarrow> (\<forall>i. x \<noteq> Command (Reboot i)) \<and> no_reboot xs"
  "no_reboot (xs @ ys) \<longleftrightarrow> no_reboot xs \<and> no_reboot ys"
  by (auto simp: no_reboot_def)

lemma no_reboot_map [simp]: "no_reboot (map f xs) \<longleftrightarrow> (\<forall>x \<in> set xs. \<forall>i. f x \<noteq> Command (Reboot i))"
  by (metis (no_types, lifting) no_reboot_def in_set_conv_nth length_map nth_map)

lemma transaction_effect_no_reboot [simp]: "transaction_effect i c p \<noteq> Command (Reboot j)"
  by (cases p) (simp add: transaction_effect_def)

lemma hardware_command_no_reboot [simp]: "hardware_command_for i c cmd \<noteq> Reboot j"
  by (cases cmd) simp_all

lemma evse_step_no_reboot:
  assumes "evse_step policy sl i c ev next e = (e', next', effects, out)"
  shows "no_reboot effects"
proof (rule evse_stepE [OF assms], goal_cases)
  case (1 new tr e1 re e3 limit_set e4 elapsed e5 pc dispatch e6 eff6 e7 sr e8 lc eff8)
  from 1(2) have "no_reboot re"
    by (auto simp: reservation_stage_def Let_def split: prod.splits)
  moreover have "no_reboot (transition_effects i c ev tr new held)" for held
    by (auto simp: transition_effects_def)
  moreover from 1(6) have "no_reboot eff6"
    by (auto simp: transaction_stage_def Let_def split: option.splits prod.splits)
  moreover from 1(8) have "no_reboot eff8"
    by (auto simp: current_limit_stage_def Let_def split: connector_event.splits option.splits if_splits)
  moreover have "no_reboot (limit_set_effects i c limit_set e8)"
    by (simp add: limit_set_effects_def)
  ultimately show ?case using 1(13) by simp
qed

interpretation no_reboot_handler: handler_relation "\<lambda>_. True" "\<lambda>_ effects _. no_reboot effects"
proof
  show "no_reboot effects" if "connector_step i c ev s = Some (s', effects, out)" for i c ev s s' effects out
    using that
    by (rule connector_stepE)
      (auto dest!: evse_step_no_reboot simp: lock_problem_stage_def Let_def split: if_splits prod.splits)
  show "no_reboot effects" if "request_current_limit i c l s = (s', effects)" for i c l s s' effects
    using that by (auto simp: request_current_limit_def split: option.splits if_splits)
  show "no_reboot effects" if "mark_limit_reached i c kind s = (s', effects)" for i c kind s s' effects
    using that by (auto simp: mark_limit_reached_def Let_def)
qed auto

lemma triggered_no_reboot:
  "no_reboot (List.map_filter (\<lambda>i. map_option (triggered_effect c v x i) (f i)) ids)"
  by (induction ids) (auto simp: map_filter_simps triggered_effect_def split: option.splits)

lemma attribute_value_set_no_reboot: "attribute_value_set c v ty x s = (s', effects, b) \<Longrightarrow> no_reboot effects"
  by (auto simp: attribute_value_set_def Let_def triggered_no_reboot split: prod.splits option.splits)

lemma evse_event_no_reboot:
  assumes "evse_event_applied i ev s = (s', effects, b)"
  shows "no_reboot effects"
  using assms no_reboot_handler.handler(1) no_reboot_handler.cascade_evse
  by (cases ev) (auto simp: evse_event_applied_def split: prod.splits if_splits)

lemma station_events_no_reboot:
  "station_fault detected s = (s', effects, b) \<Longrightarrow> no_reboot effects"
  "reset_requested target kind s = (s', effects, b) \<Longrightarrow> no_reboot effects"
  "restore_reservations rs s = (s', effects, b) \<Longrightarrow> no_reboot effects"
  "transactions_restored n xs s = (s', effects, b) \<Longrightarrow> no_reboot effects"
  "priority_charging_set t on locally s = (s', effects, b) \<Longrightarrow> no_reboot effects"
  "set_external_charging_limit scope limit s = (s', effects, b) \<Longrightarrow> no_reboot effects"
  "clear_external_charging_limit scope source lg s = (s', effects, b) \<Longrightarrow> no_reboot effects"
  by (auto simp: station_fault_def cascade_charge_point_fault_def reset_requested_def
      transactions_restored_def priority_charging_set_def set_external_charging_limit_def
      clear_external_charging_limit_def Let_def split: prod.splits if_splits option.splits
      dest!: no_reboot_handler.cascade no_reboot_handler.each
      intro: no_reboot_handler.reservations)

lemma apply_event_no_reboot:
  assumes "apply_event rfc ev s = Some (s', effects, b)"
  shows "no_reboot effects"
  using assms
  by (cases ev)
    (auto simp: registration_received_def
      replace_local_authorization_list_def memory_exhaustion_def network_profile_set_def
      network_profiles_restored_def customer_information_erased_def charging_profile_set_def
      profiles_restored_def tariff_default_set_def variable_registered_def clock_synced_def
      monitoring_event_def Let_def
      split: prod.splits if_splits sum.splits device_model_event.splits
      intro: evse_event_no_reboot station_events_no_reboot attribute_value_set_no_reboot)

section \<open>When it reboots\<close>

text \<open>The condition of a reset on one connector.\<close>

definition reset_ready_at :: "reset_kind \<Rightarrow> charge_point_state \<Rightarrow> usize \<Rightarrow> usize \<Rightarrow> bool" where
  "reset_ready_at kind s i c =
     (case kind of
        Immediate \<Rightarrow> connector_at s i c \<notin> {Some Stopping, Some Finishing}
      | OnIdle \<Rightarrow> transaction_at s i c = None)"

definition target_contains :: "reset_target \<Rightarrow> usize \<Rightarrow> bool" where
  "target_contains target i = (case target of TargetChargePoint \<Rightarrow> True | TargetEvse j \<Rightarrow> i = j)"

lemma target_evse_ids_iff:
  "i \<in> set (target_evse_ids target s) \<longleftrightarrow> target_contains target i \<and> i < length (evses s)"
  by (auto simp: target_evse_ids_def target_contains_def split: reset_target.splits)

lemma target_addresses_iff:
  "(i, c) \<in> set (target_connector_addresses target s) \<longleftrightarrow>
   target_contains target i \<and> connector_at s i c \<noteq> None"
proof -
  have "(i, c) \<in> set (target_connector_addresses target s) \<longleftrightarrow>
      i \<in> set (target_evse_ids target s) \<and> c < length (connectors (evses s ! i))"
    by (force simp: target_connector_addresses_def)
  then show ?thesis by (auto simp: target_evse_ids_iff connector_at_def vec_get_def split: if_splits)
qed

lemma pending_reset_ready_iff:
  assumes "cp_wf s"
  shows "pending_reset_ready p s = Some
    (\<forall>i c. target_contains (pending_target p) i \<longrightarrow> connector_at s i c \<noteq> None
       \<longrightarrow> reset_ready_at (pending_kind p) s i c)"
proof -
  have at: "(case pending_kind p of
         Immediate \<Rightarrow> connectors (evses s ! i) ! c \<notin> {Stopping, Finishing}
       | OnIdle \<Rightarrow> transaction_at s i c = None) = reset_ready_at (pending_kind p) s i c"
    if "(i, c) \<in> set (target_connector_addresses (pending_target p) s)" for i c
    using target_address_in_range [OF that] by (simp add: connector_at_def reset_ready_at_def split: reset_kind.splits)
  have "(\<forall>(i, c) \<in> set (target_connector_addresses (pending_target p) s). reset_ready_at (pending_kind p) s i c)
    \<longleftrightarrow> (\<forall>i c. target_contains (pending_target p) i \<longrightarrow> connector_at s i c \<noteq> None
       \<longrightarrow> reset_ready_at (pending_kind p) s i c)"
    unfolding Ball_def split_paired_All prod.case target_addresses_iff by blast
  moreover have "pending_reset_ready p s = Some
    (\<forall>(i, c) \<in> set (target_connector_addresses (pending_target p) s). reset_ready_at (pending_kind p) s i c)"
    unfolding pending_reset_ready_eq [OF assms] using at by (simp add: Ball_def)
  ultimately show ?thesis by simp
qed

lemma check_pending_reset_eq:
  assumes "cp_wf s" and "pending_reset_of s = Some p"
  shows "check_pending_reset s = Some
    (if \<forall>i c. target_contains (pending_target p) i \<longrightarrow> connector_at s i c \<noteq> None
          \<longrightarrow> reset_ready_at (pending_kind p) s i c
     then (s\<lparr>pending_reset_of := None\<rparr>,
           StateChanged # map (\<lambda>i. Command (Reboot i)) (target_evse_ids (pending_target p) s))
     else (s, []))"
  using assms by (simp add: check_pending_reset_def pending_reset_ready_iff)

lemma target_addresses_distinct: "distinct (target_connector_addresses target s)"
proof -
  have "distinct (concat (map (\<lambda>i. map (Pair i) [0 ..< f i]) xs))" if "distinct xs" for f :: "usize \<Rightarrow> usize" and xs
    using that by (induction xs) (auto simp: distinct_map inj_on_def)
  then show ?thesis
    by (simp add: target_connector_addresses_def target_evse_ids_def split: reset_target.splits)
qed

lemma pending_reset_sync [frame_simps]: "pending_reset_of (sync_variables s) = pending_reset_of s"
  by (simp add: sync_variables_def sync_inventory_counters_def sync_network_configuration_variables_def
      sync_availability_variables_def Let_def)

text \<open>An immediate reset: every connector of the target takes the reset transition.\<close>

lemma reset_requested_connectors:
  assumes "reset_requested target Immediate s = (s', effects, b)"
  shows "connector_at s' i c
      = map_option (\<lambda>st. if target_contains target i \<and> st \<in> set reset_states then Stopping else st)
          (connector_at s i c)"
    and "contactor_commands i c effects
      = (case connector_at s i c of
           None \<Rightarrow> []
         | Some st \<Rightarrow> if target_contains target i \<and> st \<in> set reset_states then [False] else [])"
proof -
  let ?s1 = "s\<lparr>pending_reset_of := Some \<lparr>pending_target = target, pending_kind = Immediate\<rparr>\<rparr>"
  from assms obtain b' where
    each: "apply_each (map (\<lambda>(i, c). (i, c, ConnectorResetRequested)) (target_connector_addresses target ?s1)) ?s1
      = (s', effects, b')"
    by (auto simp: reset_requested_def Let_def split: prod.splits)
  have same: "connector_at ?s1 i c = connector_at s i c" by (simp add: connector_at_def)
  note step = apply_each_settles [OF settles_events(3) target_addresses_distinct each, of i c,
      unfolded target_addresses_iff same]
  from step(1) show "connector_at s' i c
      = map_option (\<lambda>st. if target_contains target i \<and> st \<in> set reset_states then Stopping else st)
          (connector_at s i c)"
    by (cases "connector_at s i c") auto
  from step(2) show "contactor_commands i c effects
      = (case connector_at s i c of
           None \<Rightarrow> []
         | Some st \<Rightarrow> if target_contains target i \<and> st \<in> set reset_states then [False] else [])"
    by (cases "connector_at s i c") auto
qed

text \<open>On a station with no transaction, an on-idle reset reboots at once.\<close>

lemma fresh_transaction_at [simp]: "transaction_at (cp_with_limits counts limits) i c = None"
  by (auto simp: transaction_at_def cp_with_limits_def evse_new_def vec_slot_def vec_get_def)

lemma fresh_idle_reset:
  obtains s' where "cp_apply rfc (ResetRequested TargetChargePoint OnIdle) (cp_with_limits counts limits)
    = Some (s', [StateChanged, StateChanged] @ map (\<lambda>i. Command (Reboot i)) [0 ..< length counts])"
    and "evses s' = evses (cp_with_limits counts limits)"
proof -
  let ?s = "cp_with_limits counts limits"
  let ?p = "\<lparr>pending_target = TargetChargePoint, pending_kind = OnIdle\<rparr>"
  let ?s1 = "sync_variables (?s\<lparr>pending_reset_of := Some ?p\<rparr>)"
  have same: "evses ?s1 = evses ?s" "pending_reset_of ?s1 = Some ?p"
    by (simp_all add: frame_simps)
  then have wf: "cp_wf ?s1"
    using fresh_wf(1) [of counts limits] by (simp add: cp_wf_def)
  have "transaction_at ?s1 i c = None" for i c
    using fresh_transaction_at [of counts limits i c] by (simp add: transaction_at_def same)
  moreover have "target_evse_ids TargetChargePoint ?s1 = [0 ..< length counts]"
    unfolding target_evse_ids_def same by (simp add: cp_with_limits_def)
  ultimately have "check_pending_reset ?s1 = Some (?s1\<lparr>pending_reset_of := None\<rparr>,
      StateChanged # map (\<lambda>i. Command (Reboot i)) [0 ..< length counts])"
    by (simp add: check_pending_reset_eq [OF wf same(2)] reset_ready_at_def)
  then have "cp_apply rfc (ResetRequested TargetChargePoint OnIdle) ?s
    = Some (?s1\<lparr>pending_reset_of := None\<rparr>,
        [StateChanged, StateChanged] @ map (\<lambda>i. Command (Reboot i)) [0 ..< length counts])"
    by (simp add: cp_apply_def reset_requested_def)
  then show ?thesis by (rule that) (simp add: same)
qed

end
