(* ===== verification/Charging_Session.thy ===== *)
theory Charging_Session
  imports Fault_Cascade Store_Bounds
begin

text \<open>
  A charging session on the whole station.  From any reachable state whose connector is free,
  plugging in, locking, presenting an identifier, authorizing it and closing the contactor
  brings the connector to \<open>Charging\<close>, under every configuration of the device model and also when
  a remote start is waiting for the cable.
\<close>

lemma cp_apply_plain:
  assumes "cp_apply rfc (OnEvse i (OnConnector c ev)) s = Some (s', effects)" and "event_rank ev = 0"
  shows "connector_at s' i c
    = map_option (\<lambda>st. fst (connector_next st ev (connector_policy_of s))) (connector_at s i c)"
proof -
  from assms(1) obtain s1 effects1 b where
    event: "apply_event rfc (OnEvse i (OnConnector c ev)) s = Some (s1, effects1, b)"
    by (rule cp_applyE)
  then have "apply_connector_event i c ev s = (s1, effects1, b)" by (simp add: evse_event_applied_def)
  from plain_event(1) [OF this assms(2), of i c] show ?thesis
    by (simp add: cp_apply_connectors [OF assms(1) event])
qed

text \<open>A confirmed lock may start a held remote start at once.\<close>

lemma lock_confirmed_connector:
  assumes "apply_connector_event i c LockConfirmed s = (s', effects, b)"
    and "connector_at s i c = Some Connected"
  shows "connector_at s' i c \<in> {Some Locked, Some Authorizing, Some Starting}"
proof -
  obtain s1 effects1 out where step: "connector_step i c LockConfirmed s = Some (s1, effects1, out)"
    using assms(2) connector_step_None [of i c LockConfirmed s] by (cases "connector_step i c LockConfirmed s") auto
  have "\<not> allowance_spent i c LockConfirmed s1" and "\<not> limit_relevant LockConfirmed"
    and "\<not> out_cost_recorded out"
    using connector_step_cost_recorded [OF step]
    by (auto simp: allowance_spent_def event_sample_def limit_relevant_def)
  then have handled: "(s', effects, b) = (case out_dispatch out of
       None \<Rightarrow> (s1, effects1, out_changed out)
     | Some p \<Rightarrow> (case apply_connector_event i c
           (RemoteStartRequested (pending_id_token p) (pending_remote_start_id p)) s1 of
         (s3, effects3, _) \<Rightarrow> (s3, effects1 @ effects3, True)))"
    using assms(1) step
    by (auto simp: apply_connector_event.simps [of i c LockConfirmed] split: option.splits prod.splits)
  from step obtain st where "connector_at s i c = Some st"
    "connector_at s1 i c = Some (fst (connector_next st LockConfirmed (connector_policy_of s)))"
    by (rule connector_step_connector)
  then have locked: "connector_at s1 i c = Some Locked" using assms(2) by simp
  show ?thesis
  proof (cases "out_dispatch out")
    case None
    with handled locked show ?thesis by simp
  next
    case (Some p)
    let ?ev = "RemoteStartRequested (pending_id_token p) (pending_remote_start_id p)"
    from Some handled obtain effects3 b3 where "apply_connector_event i c ?ev s1 = (s', effects3, b3)"
      by (auto split: prod.splits)
    from plain_event(1) [OF this, of i c] locked show ?thesis by auto
  qed
qed

definition session_start :: "usize \<Rightarrow> usize \<Rightarrow> id_token \<Rightarrow> charge_point_event list" where
  "session_start i c t =
     [OnEvse i (OnConnector c CableConnected), OnEvse i (OnConnector c LockConfirmed),
      OnEvse i (OnConnector c (IdTokenPresented t)), OnEvse i (OnConnector c (ChargingAuthorized t)),
      OnEvse i (OnConnector c ContactorClosed)]"

lemma cp_run_Cons_Some:
  assumes "cp_run rfc (ev # evs) s = Some (s', effects)"
  obtains s1 effects1 effects2 where "cp_apply rfc ev s = Some (s1, effects1)"
    and "cp_run rfc evs s1 = Some (s', effects2)" and "effects = effects1 @ effects2"
  using assms by (auto split: option.splits)

lemma session_start_charges:
  assumes "cp_run rfc (session_start i c t) s = Some (s', effects)"
    and "connector_at s i c \<in> {Some Available, Some Reserved}"
  shows "connector_at s' i c = Some Charging"
proof -
  from assms(1) [unfolded session_start_def] obtain s1 s2 s3 s4 f1 f2 f3 f4 f5 where
    e1: "cp_apply rfc (OnEvse i (OnConnector c CableConnected)) s = Some (s1, f1)" and
    e2: "cp_apply rfc (OnEvse i (OnConnector c LockConfirmed)) s1 = Some (s2, f2)" and
    e3: "cp_apply rfc (OnEvse i (OnConnector c (IdTokenPresented t))) s2 = Some (s3, f3)" and
    e4: "cp_apply rfc (OnEvse i (OnConnector c (ChargingAuthorized t))) s3 = Some (s4, f4)" and
    e5: "cp_apply rfc (OnEvse i (OnConnector c ContactorClosed)) s4 = Some (s', f5)"
    by (elim cp_run_Cons_Some) auto
  have c1: "connector_at s1 i c = Some Connected" using cp_apply_plain [OF e1] assms(2) by auto
  from e2 obtain u effects1 b where
    event: "apply_event rfc (OnEvse i (OnConnector c LockConfirmed)) s1 = Some (u, effects1, b)"
    by (rule cp_applyE)
  then have "connector_at u i c \<in> {Some Locked, Some Authorizing, Some Starting}"
    using lock_confirmed_connector [OF _ c1, of u effects1 b] by (simp add: evse_event_applied_def)
  then have c2: "connector_at s2 i c \<in> {Some Locked, Some Authorizing, Some Starting}"
    by (simp add: cp_apply_connectors [OF e2 event])
  then have "connector_at s3 i c \<in> {Some Authorizing, Some Starting}" using cp_apply_plain [OF e3] by auto
  then have "connector_at s4 i c = Some Starting" using cp_apply_plain [OF e4] by auto
  then show ?thesis using cp_apply_plain [OF e5] by simp
qed

lemma fresh_session_run:
  obtains s' effects where
    "cp_run (\<lambda>_. []) (session_start 0 0 \<lparr>token_value = ''TAG1'', token_kind = ISO14443\<rparr>)
       (cp_with_limits [1] default_state_limits) = Some (s', effects)"
    and "connector_at s' 0 0 = Some Charging"
proof -
  let ?t = "\<lparr>token_value = ''TAG1'', token_kind = ISO14443\<rparr>"
  obtain s' effects where run: "cp_run (\<lambda>_. []) (session_start 0 0 ?t) (cp_with_limits [1] default_state_limits)
      = Some (s', effects)"
    using reachable_run_total [OF reachable.start] by blast
  moreover have "connector_at s' 0 0 = Some Charging"
    by (rule session_start_charges [OF run]) (simp add: fresh_connector_at)
  ultimately show ?thesis by (rule that)
qed

end
