(* ===== verification/Store_Properties.thy ===== *)
theory Store_Properties
  imports Variable_Monitors Device_Model_Defaults Authorization_Stores Network_Profiles Event_Streams
    Battery_Swaps Display_Messages Der_Controls Charging_Profiles Tariffs
begin

text \<open>
  What the stores promise to the rest of the crate: lookups after updates, refusals, eviction,
  the choice of the tariff in force and of the schedule period in force, and what a log line
  shows of an identifier.
\<close>

section \<open>The authorization cache\<close>

text \<open>C37: remembering a decision always succeeds; afterwards a lookup of that identifier finds
  that decision unless it has expired, the cache is within its maximum, and of the other
  identifiers' entries only the oldest are gone: what is kept is a suffix, in the same order.\<close>

theorem cache_remember_contract:
  assumes "cache_inv c"
  shows "\<exists>c' kept. cache_remember t st ts c = Some c'
    \<and> cache_inv c' \<and> cache_max_entries c' = cache_max_entries c
    \<and> cache_entries c' = kept @ [\<lparr>cached_token = t, cached_status = st, cached_at = ts\<rparr>]
    \<and> (\<exists>evicted. filter (\<lambda>e. \<not> same_token (cached_token e) t) (cache_entries c) = evicted @ kept
         \<and> (evicted \<noteq> [] \<longrightarrow> length (cache_entries c') = cache_max_entries c))
    \<and> cache_lookup c' t now life
      = (if cache_entry_is_expired now life \<lparr>cached_token = t, cached_status = st, cached_at = ts\<rparr>
         then None else Some \<lparr>cached_token = t, cached_status = st, cached_at = ts\<rparr>)"
proof -
  let ?kept = "filter (\<lambda>e. \<not> same_token (cached_token e) t) (cache_entries c)"
  let ?n = "Suc (length ?kept) - cache_max_entries c"
  let ?new = "\<lparr>cached_token = t, cached_status = st, cached_at = ts\<rparr>"
  let ?c' = "c\<lparr>cache_entries := drop ?n ?kept @ [?new]\<rparr>"
  have c': "cache_remember t st ts c = Some ?c'"
    using assms by (simp add: cache_inv_def cache_remember_eq Let_def)
  then have "cache_inv ?c'" using assms auth_cache.op_invar cache_op.remember by blast
  moreover have "?kept = take ?n ?kept @ drop ?n ?kept" by simp
  moreover have "take ?n ?kept \<noteq> [] \<longrightarrow> length (cache_entries ?c') = cache_max_entries c"
    using assms by (auto simp: cache_inv_def)
  moreover have "cache_lookup ?c' t now life
      = (if cache_entry_is_expired now life ?new then None else Some ?new)"
    using cache_remember_find [OF assms c'] by (simp add: cache_lookup_def)
  ultimately show ?thesis
    unfolding c' option.inject
    by (intro exI [of _ ?c'] exI [of _ "drop ?n ?kept"] conjI exI [of _ "take ?n ?kept"]) simp_all
qed

theorem cache_remember_contract_witness:
  "\<exists>c' kept. cache_remember \<lparr>token_value = ''AB'', token_kind = Central\<rparr> AuthAccepted (Some 5) (cache_with_max 2)
      = Some c' \<and> cache_inv c' \<and> cache_entries c'
      = kept @ [\<lparr>cached_token = \<lparr>token_value = ''AB'', token_kind = Central\<rparr>, cached_status = AuthAccepted,
                 cached_at = Some 5\<rparr>]"
  using cache_remember_contract [of "cache_with_max 2" "\<lparr>token_value = ''AB'', token_kind = Central\<rparr>" AuthAccepted
      "Some 5" None None] by auto

section \<open>Keyed stores\<close>

text \<open>C38: a display message is stored under its id, replacing one with that id, and a new id
  is refused, leaving the store unchanged, exactly when the store is full.\<close>

theorem display_message_set_contract:
  assumes "message_inv s"
  shows "if message_get s (message_id m) \<noteq> None \<or> length (messages s) < max_messages s
    then snd (message_set m s) \<and> message_get (fst (message_set m s)) = (message_get s)(message_id m \<mapsto> m)
    else \<not> snd (message_set m s) \<and> fst (message_set m s) = s \<and> length (messages s) = max_messages s"
  using assms by (rule display_messages.put_contract)

theorem display_message_set_contract_witness:
  "let m = \<lparr>message_id = 1, message_priority_of = AlwaysFront, message_state_of = None,
        message_body = \<lparr>content = ''x'', content_format = Ascii, content_language = None\<rparr>,
        message_transaction_id = None\<rparr>
   in message_get (fst (message_set m (messages_with_max 1))) 1 = Some m
      \<and> \<not> snd (message_set (m\<lparr>message_id := 2\<rparr>) (fst (message_set m (messages_with_max 1))))"
proof -
  let ?m = "\<lparr>message_id = 1, message_priority_of = AlwaysFront, message_state_of = None,
        message_body = \<lparr>content = ''x'', content_format = Ascii, content_language = None\<rparr>,
        message_transaction_id = None\<rparr>"
  have "message_inv (fst (message_set ?m (messages_with_max 1)))"
    by (rule display_messages.put_invar) simp
  from display_message_set_contract [OF message_inv_init, of 1 ?m]
    display_message_set_contract [OF this, of "?m\<lparr>message_id := 2\<rparr>"]
  show ?thesis by (simp add: messages_with_max_def message_set_def message_get_def)
qed

text \<open>C39: opening a periodic event stream and closing it again leaves the other streams as
  they were and the stream gone; closing reports whether the stream was open.\<close>

theorem event_stream_open_close:
  assumes "stream_inv s" and "snd (stream_put v s)"
  shows "stream_get (fst (stream_close (stream_id v) (fst (stream_put v s)))) = (stream_get s)(stream_id v := None)
    \<and> snd (stream_close (stream_id v) (fst (stream_put v s)))
    \<and> stream_inv (fst (stream_close (stream_id v) (fst (stream_put v s))))"
  using event_streams.put_del_get [OF assms] event_streams.del_reports [of "stream_id v" "fst (stream_put v s)"]
    event_streams.get_put [OF assms(2)] event_streams.del_invar [OF event_streams.put_invar [OF assms(1)]]
  by simp

theorem event_stream_open_close_witness:
  "stream_get (fst (stream_close 7 (fst (stream_put
      \<lparr>stream_id = 7, stream_monitoring_id = 1, stream_params = \<lparr>interval_secs = None, stream_values = None\<rparr>\<rparr>
      (streams_with_limit 2))))) 7 = None"
  using event_stream_open_close [OF stream_inv_init [of 2], of "\<lparr>stream_id = 7, stream_monitoring_id = 1,
      stream_params = \<lparr>interval_secs = None, stream_values = None\<rparr>\<rparr>"]
  by (simp add: streams_with_limit_def stream_put_def stream_open_def)

section \<open>Charging profiles\<close>

text \<open>C31: installing a charging profile keeps the store's rules: one profile per id, one per
  scope, purpose and stack level, never more than the maximum.  A well-shaped profile is
  refused only when nothing is superseded and the store is full; otherwise the store is
  exactly the profiles it does not supersede, followed by it.\<close>

theorem profile_install_contract:
  assumes "profiles_inv s" and "schedules p \<noteq> []" and "check_dynamic_shape p = None"
    and "\<not> (scope = ScopeChargePoint \<and> profile_purpose p = TxPurpose)"
  shows "(case profile_install scope p s of
      Inl r \<Rightarrow> r = TooManyProfiles \<and> length (profiles s) = max_profiles s
        \<and> (\<forall>i \<in> set (profiles s). profile_id (installed_of i) \<noteq> profile_id p
             \<and> profile_slot i \<noteq> (scope, profile_purpose p, stack_level p))
    | Inr s' \<Rightarrow> profiles_inv s'
        \<and> (\<forall>i. i \<in> set (profiles s') \<longleftrightarrow>
              i = \<lparr>installed_scope = scope, installed_of = p, installed_source = Cso\<rparr>
              \<or> (i \<in> set (profiles s) \<and> profile_id (installed_of i) \<noteq> profile_id p
                 \<and> profile_slot i \<noteq> (scope, profile_purpose p, stack_level p))))"
proof (cases "profile_install scope p s")
  case (Inl r)
  with assms have "r = TooManyProfiles" "\<not> list_ex (superseded scope p) (profiles s)"
    "max_profiles s \<le> length (profiles s)"
    by (auto simp: profile_install_def split: if_splits)
  moreover have "length (profiles s) \<le> max_profiles s" using assms(1) by (simp add: profiles_inv_def)
  ultimately show ?thesis
    using Inl by (auto simp: list_ex_iff superseded_def profile_slot_def)
next
  case (Inr s')
  with assms(1) profile_install_inv [OF _ Inr] profile_install_InrD(1) [OF Inr] show ?thesis
    by (auto simp: superseded_def profile_slot_def)
qed

theorem profile_install_contract_witness:
  "\<exists>s'. profile_install (ScopeEvse 0)
      \<lparr>profile_id = 4, stack_level = 1, profile_purpose = TxPurpose, profile_kind = AbsoluteKind,
       recurrency = None, valid_from = None, valid_to = None, profile_transaction_id = None,
       schedules = [\<lparr>schedule_id = 1, start_schedule = None, duration_secs = None, rate_unit = Amps,
          min_charging_rate = None, periods = []\<rparr>],
       dyn_update_interval_secs = None, dyn_update_time = None\<rparr> (profiles_with_limit 2) = Inr s'
     \<and> profiles_inv s'"
proof -
  let ?p = "\<lparr>profile_id = 4, stack_level = 1, profile_purpose = TxPurpose, profile_kind = AbsoluteKind,
       recurrency = None, valid_from = None, valid_to = None, profile_transaction_id = None,
       schedules = [\<lparr>schedule_id = 1, start_schedule = None, duration_secs = None, rate_unit = Amps,
          min_charging_rate = None, periods = []\<rparr>],
       dyn_update_interval_secs = None, dyn_update_time = None\<rparr>"
  have "check_dynamic_shape ?p = None" by (simp add: check_dynamic_shape_def)
  note contract = profile_install_contract [OF profiles_inv_init [of 2] _ this, of "ScopeEvse 0"]
  have "length (profiles (profiles_with_limit 2)) \<noteq> max_profiles (profiles_with_limit 2)"
    by (simp add: profiles_with_limit_def)
  with contract show ?thesis
    by (cases "profile_install (ScopeEvse 0) ?p (profiles_with_limit 2)") auto
qed

text \<open>C32: between an instant inside a schedule and the next change the schedule announces, the
  period in force does not change, so a projection may sleep until then.\<close>

theorem schedule_constant_until_next_change:
  assumes "sorted (map period_start (periods s))" and "0 \<le> e"
    and "is_none_or (duration_secs s) (\<lambda>d. e < uint d)"
    and "e \<le> t" and "is_none_or (next_change_after s e) (\<lambda>n. t < n)"
  shows "limit_at s t = limit_at s e"
  using assms by (rule limit_at_constant)

theorem schedule_constant_until_next_change_witness:
  "let s = \<lparr>schedule_id = 1, start_schedule = None, duration_secs = Some 100, rate_unit = Amps, min_charging_rate = None,
      periods = [\<lparr>start_period_secs = 0, period_limit = Fin 16, number_phases = None\<rparr>,
                 \<lparr>start_period_secs = 60, period_limit = Fin 8, number_phases = None\<rparr>]\<rparr>
   in limit_at s 59 = limit_at s 10 \<and> map_option period_limit (limit_at s 10) = Some (Fin 16)"
  using schedule_constant_until_next_change [of "\<lparr>schedule_id = 1, start_schedule = None, duration_secs = Some 100,
      rate_unit = Amps, min_charging_rate = None,
      periods = [\<lparr>start_period_secs = 0, period_limit = Fin 16, number_phases = None\<rparr>,
                 \<lparr>start_period_secs = 60, period_limit = Fin 8, number_phases = None\<rparr>]\<rparr>" 10 59]
  by (simp add: next_change_after_def limit_at_def)

section \<open>Tariffs\<close>

text \<open>C33: the tariff in force on an EVSE is installed, valid at that instant, and the latest
  such tariff of its scope; a tariff of the EVSE takes precedence over one of the station, and
  there is none only when no installed tariff of either scope is valid.\<close>

theorem effective_tariff_is_latest_valid:
  "case tariff_effective_at evse now s of
     None \<Rightarrow> \<forall>i \<in> set (tariffs s). tariff_scope_of i \<in> {TariffEvse evse, TariffChargePoint}
               \<longrightarrow> \<not> tariff_is_valid_at (tariff_of i) now
   | Some t \<Rightarrow> \<exists>i \<in> set (tariffs s). tariff_of i = t \<and> tariff_is_valid_at t now
       \<and> tariff_scope_of i \<in> {TariffEvse evse, TariffChargePoint}
       \<and> (\<forall>j \<in> set (tariffs s). tariff_scope_of j = tariff_scope_of i \<and> tariff_is_valid_at (tariff_of j) now
            \<longrightarrow> tariff_valid_from (tariff_of j) \<le> tariff_valid_from t)
       \<and> (tariff_scope_of i = TariffChargePoint \<longrightarrow>
            (\<forall>j \<in> set (tariffs s). tariff_scope_of j = TariffEvse evse
               \<longrightarrow> \<not> tariff_is_valid_at (tariff_of j) now))"
proof -
  have scope: "(case tariff_effective_for_scope scope now s of
      None \<Rightarrow> \<forall>i \<in> set (tariffs s). tariff_scope_of i = scope \<longrightarrow> \<not> tariff_is_valid_at (tariff_of i) now
    | Some t \<Rightarrow> \<exists>i \<in> set (tariffs s). tariff_of i = t \<and> tariff_is_valid_at t now \<and> tariff_scope_of i = scope
       \<and> (\<forall>j \<in> set (tariffs s). tariff_scope_of j = scope \<and> tariff_is_valid_at (tariff_of j) now
            \<longrightarrow> tariff_valid_from (tariff_of j) \<le> tariff_valid_from t))" for scope
  proof (cases "max_by_key (\<lambda>i. tariff_valid_from (tariff_of i))
        (filter (\<lambda>i. tariff_scope_of i = scope \<and> tariff_is_valid_at (tariff_of i) now) (tariffs s))")
    case (Some i)
    from max_by_key_Some [OF this] Some show ?thesis
      by (auto simp: tariff_effective_for_scope_def)
  qed (auto simp: tariff_effective_for_scope_def filter_empty_conv)
  show ?thesis
    using scope [of "TariffEvse evse"] scope [of TariffChargePoint]
    by (cases "tariff_effective_for_scope (TariffEvse evse) now s";
        cases "tariff_effective_for_scope TariffChargePoint now s")
      (auto simp: tariff_effective_at_def)
qed

theorem effective_tariff_is_latest_valid_witness:
  "let s = \<lparr>tariffs = [\<lparr>tariff_scope_of = TariffChargePoint, tariff_of = tariff_new ''A'' ''EUR''\<rparr>,
        \<lparr>tariff_scope_of = TariffEvse 0, tariff_of = (tariff_new ''B'' ''EUR'')\<lparr>tariff_valid_from := Some 9\<rparr>\<rparr>],
        max_tariffs = 2\<rparr>
   in map_option tariff_id_of (tariff_effective_at 0 5 s) = Some ''A''
      \<and> map_option tariff_id_of (tariff_effective_at 0 9 s) = Some ''B''"
  using effective_tariff_is_latest_valid [where evse = 0 and now = 9 and s = "\<lparr>tariffs =
      [\<lparr>tariff_scope_of = TariffChargePoint, tariff_of = tariff_new ''A'' ''EUR''\<rparr>,
       \<lparr>tariff_scope_of = TariffEvse 0, tariff_of = (tariff_new ''B'' ''EUR'')\<lparr>tariff_valid_from := Some 9\<rparr>\<rparr>],
      max_tariffs = 2\<rparr>"]
  by (simp add: tariff_effective_at_def tariff_effective_for_scope_def tariff_new_def tariff_is_valid_at_def)

section \<open>The device model\<close>

text \<open>C34: registering a variable makes it readable with exactly the given characteristics and
  attributes and leaves every other variable as it was; a new variable is refused, without
  effect, exactly when the model holds its maximum.\<close>

theorem device_model_register_contract:
  assumes "dm_inv m"
  shows "if dm_get m c v \<noteq> None \<or> dm_len m < dm_max_variables m
    then snd (dm_register c v ch attrs m) \<and> dm_inv (fst (dm_register c v ch attrs m))
      \<and> (\<forall>c' v'. dm_get (fst (dm_register c v ch attrs m)) c' v'
           = (if c' = c \<and> v' = v then Some \<lparr>characteristics = ch, attributes = attrs\<rparr> else dm_get m c' v'))
    else dm_register c v ch attrs m = (m, False) \<and> dm_len m = dm_max_variables m"
  using assms dm_register_accepts [of c v ch attrs m] dm_register_refused [of c v ch attrs m]
    dm_register_inv [OF assms] dm_get_register [of c v ch attrs m]
  by (auto simp: dm_inv_def prod_eq_iff)

theorem device_model_register_contract_witness:
  "let m = \<lparr>dm_components = [], dm_max_variables = 1\<rparr>;
       ch = \<lparr>data_type = StringType, var_unit_of = None, min_limit = None, max_limit = None,
             values_list = None, supports_monitoring = False\<rparr>
   in dm_get (fst (dm_register (Component ''A'' None None) (Variable ''x'' None) ch [] m))
        (Component ''A'' None None) (Variable ''x'' None) = Some \<lparr>characteristics = ch, attributes = []\<rparr>"
  using device_model_register_contract [OF dm_inv_empty [of 1], of "Component ''A'' None None" "Variable ''x'' None"]
  by (simp add: dm_len_def bt_values_def)

text \<open>C35: a device model built for a topology reports, for the station, for every EVSE and for
  every connector, an \<open>AvailabilityState\<close>: \<open>Unavailable\<close> for the station, which has not
  booted, and \<open>Available\<close> for the others, whatever the configured maximum.\<close>

theorem fresh_device_model_reports_availability:
  assumes "in_topology counts a" and "56 + 2 * length counts + 3 * sum_list counts \<le> usize_max"
  shows "dm_actual (dm_with_topology n counts) (availability_component a) availability_variable
    = Some (initial_availability a)"
  using assms by (rule dm_with_topology_availability)

theorem fresh_device_model_reports_availability_witness:
  "dm_actual (dm_with_topology 0 [2, 1]) (Component ''Connector'' None (Some (1, Some 0)))
     (Variable ''AvailabilityState'' None) = Some ''Available''"
  using fresh_device_model_reports_availability [of "[2, 1]" "Some (1, Some 0)" 0]
  by (simp add: usize_max_def device_model_names)

section \<open>Monitors\<close>

text \<open>C36: a change of a variable reports the monitors of that variable that fire, in
  ascending order of id and each once, and no other monitor is touched; an upper threshold
  fires only on a crossing from below.\<close>

theorem monitor_evaluation:
  assumes "monitors_inv s" and "monitor_evaluate c v old new s = (s', ids)"
  shows "sorted_wrt (<) ids
    \<and> (\<forall>i. i \<in> set ids \<longleftrightarrow> (\<exists>m. monitor_get s i = Some m \<and> monitor_component m = c
          \<and> monitor_variable m = v \<and> snd (monitor_fires old new m)))
    \<and> (\<forall>i m. monitor_get s i = Some m \<and> (monitor_component m \<noteq> c \<or> monitor_variable m \<noteq> v)
          \<longrightarrow> monitor_get s' i = Some m)"
proof -
  let ?fires = "\<lambda>p. monitor_component (snd p) = c \<and> monitor_variable (snd p) = v
    \<and> snd (monitor_fires old new (snd p))"
  from assms(2) have ids: "ids = map (\<lambda>p. monitor_id (snd p)) (filter ?fires (monitors s))"
    and s': "monitors s' = fst (evaluate_monitors c v old new (monitors s))"
    using evaluate_monitors_eq [of c v old new "monitors s"]
    by (auto simp: monitor_evaluate_def split: prod.splits)
  have key: "(k, m) \<in> set (monitors s) \<Longrightarrow> monitor_id m = k" for k m
    using assms(1) by (auto simp: monitors_inv_def list_all_iff)
  then have ids_fst: "ids = map fst (filter ?fires (monitors s))"
    unfolding ids by (intro map_cong) auto
  have distinct: "distinct (map fst (monitors s))" and "sorted_wrt (<) (map fst (monitors s))"
    using assms(1) by (auto simp: monitors_inv_def bt_inv_def strict_sorted_iff)
  then have sorted: "sorted_wrt (<) ids"
    unfolding ids_fst by (auto simp: sorted_wrt_map sorted_wrt_filter)
  have get: "monitor_get s i = Some m \<longleftrightarrow> (i, m) \<in> set (monitors s)" for i m
    using distinct by (simp add: monitor_get_def bt_get_def)
  have "map_of (fst (evaluate_monitors c v old new ms)) i = Some m"
    if "map_of ms i = Some m" and "monitor_component m \<noteq> c \<or> monitor_variable m \<noteq> v" for ms i m
    using that by (induction ms) (auto simp: Let_def split: prod.splits if_splits)
  then have "monitor_get s' i = Some m"
    if "monitor_get s i = Some m" and "monitor_component m \<noteq> c \<or> monitor_variable m \<noteq> v" for i m
    using that by (simp add: s' monitor_get_def bt_get_def)
  moreover have "i \<in> set ids \<longleftrightarrow> (\<exists>m. monitor_get s i = Some m \<and> monitor_component m = c
      \<and> monitor_variable m = v \<and> snd (monitor_fires old new m))" for i
    unfolding ids_fst get by force
  ultimately show ?thesis using sorted by blast
qed

theorem monitor_evaluation_witness:
  "let s = fst (monitor_set 3 (Component ''A'' None None) (Variable ''x'' None) UpperThreshold (Fin 10) 2
        (monitors_with_limit 4))
   in snd (monitor_evaluate (Component ''A'' None None) (Variable ''x'' None) (Some (Fin 9)) (Fin 11) s) = [3]
      \<and> snd (monitor_evaluate (Component ''A'' None None) (Variable ''x'' None) (Some (Fin 10)) (Fin 11) s) = []"
proof -
  let ?s = "fst (monitor_set 3 (Component ''A'' None None) (Variable ''x'' None) UpperThreshold (Fin 10) 2
        (monitors_with_limit 4))"
  have "monitors_inv ?s" using monitor_store.op_invar [OF monitor_op.set monitors_inv_init] .
  from monitor_evaluation [OF this surjective_pairing] show ?thesis
    by (simp add: monitor_set_def monitors_with_limit_def monitor_evaluate_def monitor_fires_def bt_get_def
        f64_le_def f64_eq_def)
qed

section \<open>Identifiers\<close>

text \<open>C40: a redacted identifier is never longer than four characters of it and the ellipsis:
  two identifiers of more than four characters that end in the same four are
  indistinguishable in a log, and a short one shows nothing but that it is not empty.\<close>

theorem redaction_hides_all_but_the_last_four:
  "if length (str_chars (token_value t)) \<le> 4
   then redacted_value t = (if token_value t = [] then [] else ''****'')
   else (\<exists>hidden shown. str_chars (token_value t) = hidden @ shown \<and> length shown = 4
          \<and> redacted_value t = utf8 [226, 128, 166] @ concat shown)"
proof (cases "length (str_chars (token_value t)) \<le> 4")
  case True
  moreover have "str_chars (token_value t) = [] \<longleftrightarrow> token_value t = []"
    by (cases "token_value t") simp_all
  ultimately show ?thesis by (auto simp: redacted_value_def Let_def)
next
  case False
  let ?cs = "str_chars (token_value t)"
  have "?cs = take (length ?cs - 4) ?cs @ drop (length ?cs - 4) ?cs" by simp
  moreover have "length (drop (length ?cs - 4) ?cs) = 4" using False by simp
  moreover have "redacted_value t = utf8 [226, 128, 166] @ concat (drop (length ?cs - 4) ?cs)"
    using False by (auto simp: redacted_value_def Let_def)
  ultimately show ?thesis using False by (meson)
qed

end
