(* ===== verification/Connector_Properties.thy ===== *)
theory Connector_Properties
  imports Connector_Machine
begin

text \<open>
  The connector state machine on its own: when it may energise a cable, when it may release a
  plug, how the configured transaction points are read, and that a session and a recovery from
  a fault can run to their end.
\<close>

text \<open>C21: a connector asks for its contactor to close only on an authorization: when a
  presented identifier is authorized, or on a remote start of a locked connector that needs no
  authorization of its own.\<close>

theorem contactor_closes_only_when_authorized:
  "snd (connector_next s ev p) = Some CmdCloseContactor \<longleftrightarrow>
    (s = Authorizing \<and> (\<exists>tok. ev = ChargingAuthorized tok))
    \<or> (s = Locked \<and> (\<exists>tok i. ev = RemoteStartRequested tok i
          \<and> \<not> (authorize_remote_start p \<and> requires_authorization (token_kind tok))))"
  by (rule connector_next_closes)

text \<open>C22: the plug is never released while the cable is energised: an unlock command is given
  only from a state whose contactor is open or confirmed open, and leads to a state in which
  the unlock is awaited.\<close>

theorem plug_released_only_when_safe:
  assumes "snd (connector_next s ev p) = Some CmdUnlock"
  shows "\<not> energised s \<and> (s, fst (connector_next s ev p)) \<in>
     {(Stopping, Finishing), (Locked, Unlocking), (FaultedSafe, Unlocking)}
    \<and> (s = Stopping \<longrightarrow> ev = ContactorOpened)"
  using connector_next_unlocks [OF assms] assms by (cases ev) (auto split: if_splits)

theorem plug_released_only_when_safe_witness:
  "snd (connector_next Stopping ContactorOpened default_connector_policy) = Some CmdUnlock \<and> \<not> energised Stopping"
  using plug_released_only_when_safe [of Stopping ContactorOpened default_connector_policy] by simp

text \<open>C23: leaving an energised state opens the contactor, except through the two administrative
  events, which change the state without a command.\<close>

theorem leaving_energised_opens_contactor:
  assumes "energised s" and "\<not> energised (fst (connector_next s ev p))"
  shows "snd (connector_next s ev p) = Some CmdOpenContactor
    \<or> ev \<in> {ConnectorSetAvailable, ConnectorSetUnavailable}"
  using assms by (rule connector_next_leaves_energised)

theorem leaving_energised_opens_contactor_witness:
  "snd (connector_next Charging (ChargingStopped Remote) default_connector_policy) = Some CmdOpenContactor"
  using leaving_energised_opens_contactor [of Charging "ChargingStopped Remote" default_connector_policy]
  by (simp add: energy_states_def)

text \<open>C25: the configured start point is the latest of the points a member list names and the
  stop point the earliest, whatever their order and number, with the documented defaults for a
  list that names none.\<close>

theorem transaction_points_of_member_list:
  "start_from_member_list l =
     (let ps = set (List.map_filter (\<lambda>m. start_member (str_trim m)) (str_split (CHR '','') l))
      in if ps = {} then StartAuthorized else Max ps)
   \<and> stop_from_member_list l =
     (let ps = set (List.map_filter (\<lambda>m. stop_member (str_trim m)) (str_split (CHR '','') l))
      in if ps = {} then StopPowerPathClosed else Min ps)"
proof
  let ?xs = "List.map_filter (\<lambda>m. start_member (str_trim m)) (str_split (CHR '','') l)"
  show "start_from_member_list l = (let ps = set ?xs in if ps = {} then StartAuthorized else Max ps)"
  proof (cases "max_by_key id ?xs")
    case (Some x)
    then have "x \<in> set ?xs" and "\<forall>y \<in> set ?xs. y \<le> x" using max_by_key_Some [OF Some] by auto
    then have "Max (set ?xs) = x" and "set ?xs \<noteq> {}" by (auto intro!: Max_eqI)
    with Some show ?thesis by (simp add: start_from_member_list_def Let_def)
  qed (simp add: start_from_member_list_def)
  let ?ys = "List.map_filter (\<lambda>m. stop_member (str_trim m)) (str_split (CHR '','') l)"
  show "stop_from_member_list l = (let ps = set ?ys in if ps = {} then StopPowerPathClosed else Min ps)"
  proof (cases "sort ?ys")
    case Nil
    then have "set ?ys = {}" by (metis list.set(1) set_sort)
    with Nil show ?thesis by (simp add: stop_from_member_list_def)
  next
    case (Cons y ys)
    have "set (y # ys) = set ?ys" and "sorted (y # ys)"
      using Cons by (metis set_sort, metis sorted_sort)
    then have "Min (set ?ys) = y" and "set ?ys \<noteq> {}" by (auto intro!: Min_eqI)
    with Cons show ?thesis by (simp add: stop_from_member_list_def Let_def)
  qed
qed

text \<open>A run of the machine with the commands it gives.\<close>

fun connector_run :: "connector_policy \<Rightarrow> connector_event list \<Rightarrow> connector_state
    \<Rightarrow> connector_state \<times> connector_command list" where
  "connector_run p [] s = (s, [])"
| "connector_run p (ev # evs) s =
     (case connector_next s ev p of
        (s1, cmd) \<Rightarrow>
          (case connector_run p evs s1 of
             (s2, cmds) \<Rightarrow> (s2, (case cmd of None \<Rightarrow> [] | Some k \<Rightarrow> [k]) @ cmds)))"

text \<open>A session can run to its end under every configuration: from a free connector, plugging
  in, locking, presenting an identifier that is authorized and closing the contactor leads to
  \<open>Charging\<close>; stopping, opening and unlocking leads back to a connected cable with the
  contactor open, and removing it frees the connector.  The commands are lock, close, open and
  unlock, in this order.\<close>

theorem session_runs_to_completion:
  "connector_run p [CableConnected, LockConfirmed, IdTokenPresented t, ChargingAuthorized t, ContactorClosed] Available
     = (Charging, [CmdLock, CmdCloseContactor])
   \<and> connector_run p [ChargingStopped r, ContactorOpened, UnlockConfirmed, CableDisconnected] Charging
     = (Available, [CmdOpenContactor, CmdUnlock])"
  by (simp add: energy_states_def)

text \<open>From any state a connector recovers from a fault: once the fault is detected, the
  contactor confirmed open, the fault cleared and the plug released, the connector is
  available again, and the only commands are to open the contactor and then to unlock.\<close>

theorem fault_recovery:
  "connector_run p [ConnectorFaultDetected, ContactorOpened, ConnectorFaultCleared, UnlockConfirmed] s
     = (Available, [CmdOpenContactor, CmdUnlock])"
  by simp

text \<open>C24: no event but those of the recovery, and an administrative one, takes a connector out of
  the fault states; in particular no event energises it.\<close>

theorem faults_are_latched:
  assumes "s \<in> {Faulted, FaultedSafe}" and "fst (connector_next s ev p) \<notin> {Faulted, FaultedSafe}"
  shows "(s = FaultedSafe \<and> ev = ConnectorFaultCleared \<and> fst (connector_next s ev p) = Unlocking)
    \<or> (ev = ConnectorSetUnavailable \<and> fst (connector_next s ev p) = Unavailable)"
  using assms by (cases ev) (auto simp: energy_states_def reset_states_def split: if_splits)

theorem faults_are_latched_witness:
  "fst (connector_next FaultedSafe ConnectorFaultCleared default_connector_policy) = Unlocking"
  using faults_are_latched [of FaultedSafe ConnectorFaultCleared default_connector_policy] by simp

end
