(* ===== verification/Pricing.thy ===== *)
theory Pricing
  imports Tariffs Authorization_Stores "HOL-Library.Signed_Division"
begin

text \<open>
  \<open>src/pricing.rs\<close>: the local cost calculation of OCPP 2.1.  Prices are fixed-point integers,
  products are exact (\<open>i128\<close>) and every division truncates towards zero.  Additions of \<open>i64\<close>
  counters wrap as in a release build; the products and sums inside an \<open>i128\<close> are exact here.
  Local dates and times are computed on nanoseconds since the epoch, without leap seconds and
  without the end of \<open>chrono\<close>'s calendar.
\<close>

section \<open>Local time\<close>

definition ns_per_minute :: int where
  "ns_per_minute = 60000000000"

definition ns_per_day :: int where
  "ns_per_day = 1440 * ns_per_minute"

type_synonym naive_date_time = int

definition naive_day :: "naive_date_time \<Rightarrow> naive_date" where
  "naive_day t = t div ns_per_day"

text \<open>\<open>hour() * 60 + minute()\<close>, and the weekday: the epoch was a Thursday.\<close>

definition minute_of_day :: "naive_date_time \<Rightarrow> int" where
  "minute_of_day t = (t mod ns_per_day) div ns_per_minute"

definition day_weekday :: "naive_date \<Rightarrow> weekday" where
  "day_weekday d = [Thu, Fri, Sat, Sun, Mon, Tue, Wed] ! nat (d mod 7)"

section \<open>Readings and totals\<close>

definition max_sub_intervals :: usize where
  "max_sub_intervals = 4096"

record pricing_context =
  pc_now :: date_time
  pc_local_offset_minutes :: i32
  pc_energy_mwh :: i64
  pc_power_mw :: "i64 option"
  pc_current_ma :: "i64 option"
  pc_charging :: bool
  pc_evse_kind :: "evse_kind option"
  pc_payment_brand :: "string option"
  pc_payment_recognition :: "string option"

definition pricing_context_new :: "date_time \<Rightarrow> pricing_context" where
  "pricing_context_new now =
     \<lparr>pc_now = now, pc_local_offset_minutes = 0, pc_energy_mwh = 0, pc_power_mw = None,
      pc_current_ma = None, pc_charging = False, pc_evse_kind = None, pc_payment_brand = None,
      pc_payment_recognition = None\<rparr>"

definition context_local :: "pricing_context \<Rightarrow> date_time \<Rightarrow> naive_date_time" where
  "context_local ctx t = t + pc_local_offset_minutes ctx * ns_per_minute"

definition zero_cost :: dimension_cost where
  "zero_cost = \<lparr>cost_excl_tax = 0, cost_incl_tax = 0\<rparr>"

definition cost_saturating_add :: "dimension_cost \<Rightarrow> dimension_cost \<Rightarrow> dimension_cost" where
  "cost_saturating_add a b =
     \<lparr>cost_excl_tax = money_saturating_add (cost_excl_tax a) (cost_excl_tax b),
      cost_incl_tax = money_saturating_add (cost_incl_tax a) (cost_incl_tax b)\<rparr>"

definition cost_is_zero :: "dimension_cost \<Rightarrow> bool" where
  "cost_is_zero c = (c = zero_cost)"

datatype total_cost_kind = NormalCost | MinCost | MaxCost

record cost_totals =
  totals_currency :: string
  totals_kind :: total_cost_kind
  totals_fixed :: "dimension_cost option"
  totals_energy :: "dimension_cost option"
  totals_charging_time :: "dimension_cost option"
  totals_idle_time :: "dimension_cost option"
  totals_reservation_time :: "dimension_cost option"
  totals_reservation_fixed :: "dimension_cost option"
  totals_total :: dimension_cost

section \<open>Taxes\<close>

text \<open>The \<open>loop\<close> of \<open>apply_taxes\<close>, with its \<open>u8\<close> counter.\<close>

definition stack_percent :: "tax_rate list \<Rightarrow> u8 \<Rightarrow> int" where
  "stack_percent rates stack = sum_list (map tax_rate_percent (filter (\<lambda>r. tax_stack r = stack) rates))"

definition tax_level :: "tax_rate list \<Rightarrow> u8 \<Rightarrow> money \<Rightarrow> money" where
  "tax_level rates stack base =
     (let percent = stack_percent rates stack
      in if percent \<noteq> 0 then saturate_i64 (base + (base * percent) sdiv (100 * 1000000)) else base)"

function tax_loop :: "tax_rate list \<Rightarrow> u8 \<Rightarrow> u8 \<Rightarrow> money \<Rightarrow> money" where
  "tax_loop rates highest stack base =
     (let base1 = tax_level rates stack base
      in if stack = highest then base1 else tax_loop rates highest (stack + 1) base1)"
  by pat_completeness auto

termination
proof (relation "measure (\<lambda>(rates, highest, stack, base). unat (highest - stack))", goal_cases)
  case (2 rates highest stack base base1)
  then have "unat (highest - stack - 1) < unat (highest - stack)" by (intro measure_unat) simp
  then show ?case by (simp add: diff_diff_eq)
qed simp

declare tax_loop.simps [simp del]

definition apply_taxes :: "money \<Rightarrow> tax_rate list \<Rightarrow> money" where
  "apply_taxes net rates =
     (if rates = [] then net else tax_loop rates (foldr max (map tax_stack rates) 0) 0 net)"

definition energy_cost :: "money \<Rightarrow> i64 \<Rightarrow> money" where
  "energy_cost p mwh = saturate_i64 ((p * mwh) sdiv 1000000)"

definition time_cost :: "money \<Rightarrow> i64 \<Rightarrow> money" where
  "time_cost p secs = saturate_i64 ((p * secs) sdiv 60)"

section \<open>Accumulators\<close>

definition empty_accumulator :: accumulator where
  "empty_accumulator = \<lparr>acc_sealed = zero_cost, acc_live_excl_tax = 0, acc_rates = []\<rparr>"

definition live_cost :: "accumulator \<Rightarrow> dimension_cost" where
  "live_cost a =
     \<lparr>cost_excl_tax = acc_live_excl_tax a, cost_incl_tax = apply_taxes (acc_live_excl_tax a) (acc_rates a)\<rparr>"

definition acc_seal :: "accumulator \<Rightarrow> accumulator" where
  "acc_seal a =
     (if acc_live_excl_tax a \<noteq> 0
      then a\<lparr>acc_sealed := cost_saturating_add (acc_sealed a) (live_cost a), acc_live_excl_tax := 0\<rparr>
      else a)"

definition acc_add :: "money \<Rightarrow> tax_rate list \<Rightarrow> accumulator \<Rightarrow> accumulator" where
  "acc_add amount rates a =
     (let a1 = (if acc_rates a \<noteq> rates then (acc_seal a)\<lparr>acc_rates := rates\<rparr> else a)
      in a1\<lparr>acc_live_excl_tax := money_saturating_add (acc_live_excl_tax a1) amount\<rparr>)"

definition acc_total :: "accumulator \<Rightarrow> dimension_cost" where
  "acc_total a = cost_saturating_add (acc_sealed a) (live_cost a)"

section \<open>Conditions\<close>

definition min_satisfied :: "i64 \<Rightarrow> i64 \<Rightarrow> bool" where
  "min_satisfied value lo = (if lo < 0 then value \<le> lo else lo \<le> value)"

definition max_satisfied :: "i64 \<Rightarrow> i64 \<Rightarrow> bool" where
  "max_satisfied value hi = (if hi < 0 then hi < value else value < hi)"

definition tod_minutes :: "time_of_day option \<Rightarrow> int" where
  "tod_minutes t = (case t of None \<Rightarrow> 0 | Some x \<Rightarrow> uint (minutes_since_midnight x))"

definition in_daily_window :: "naive_date_time \<Rightarrow> time_of_day option \<Rightarrow> time_of_day option \<Rightarrow> bool" where
  "in_daily_window local start stop =
     (if start = None \<and> stop = None then True
      else let minutes = minute_of_day local; s = tod_minutes start; e = tod_minutes stop
           in if s = e then True
              else if s < e then s \<le> minutes \<and> minutes < e
              else s \<le> minutes \<or> minutes < e)"

definition in_date_range :: "naive_date \<Rightarrow> naive_date option \<Rightarrow> naive_date option \<Rightarrow> bool" where
  "in_date_range d from_date to_date =
     (is_none_or from_date (\<lambda>f. f \<le> d) \<and> is_none_or to_date (\<lambda>t. d < t))"

record pricing_snapshot =
  snap_at :: date_time
  snap_energy_mwh :: i64
  snap_elapsed_secs :: i64
  snap_charging_secs :: i64
  snap_idle_secs :: i64

definition threshold_met :: "i64 option \<times> i64 option \<times> bool \<Rightarrow> bool" where
  "threshold_met = (\<lambda>(threshold, value, is_min).
     case (threshold, value) of
       (None, _) \<Rightarrow> True
     | (Some _, None) \<Rightarrow> False
     | (Some t, Some v) \<Rightarrow> if is_min then min_satisfied v t else max_satisfied v t)"

definition condition_thresholds ::
  "tariff_conditions \<Rightarrow> pricing_context \<Rightarrow> pricing_snapshot \<Rightarrow> (i64 option \<times> i64 option \<times> bool) list" where
  "condition_thresholds c ctx s =
     [(min_energy_mwh c, Some (snap_energy_mwh s), True), (max_energy_mwh c, Some (snap_energy_mwh s), False),
      (min_current_ma c, pc_current_ma ctx, True), (max_current_ma c, pc_current_ma ctx, False),
      (min_power_mw c, pc_power_mw ctx, True), (max_power_mw c, pc_power_mw ctx, False),
      (min_time_secs c, Some (snap_elapsed_secs s), True), (max_time_secs c, Some (snap_elapsed_secs s), False),
      (min_charging_time_secs c, Some (snap_charging_secs s), True),
      (max_charging_time_secs c, Some (snap_charging_secs s), False),
      (min_idle_time_secs c, Some (snap_idle_secs s), True),
      (max_idle_time_secs c, Some (snap_idle_secs s), False)]"

definition conditions_apply :: "tariff_conditions \<Rightarrow> pricing_context \<Rightarrow> pricing_snapshot \<Rightarrow> bool" where
  "conditions_apply c ctx s =
     (let local = context_local ctx (snap_at s)
      in in_daily_window local (start_time_of_day c) (end_time_of_day c)
         \<and> (day_of_week c = [] \<or> day_weekday (naive_day local) \<in> set (day_of_week c))
         \<and> in_date_range (naive_day local) (valid_from_date c) (valid_to_date c)
         \<and> \<not> is_some_and (condition_evse_kind c) (\<lambda>k. pc_evse_kind ctx \<noteq> Some k)
         \<and> list_all threshold_met (condition_thresholds c ctx s))"

definition fixed_conditions_apply :: "tariff_conditions_fixed \<Rightarrow> pricing_context \<Rightarrow> date_time \<Rightarrow> bool" where
  "fixed_conditions_apply c ctx t =
     (let local = context_local ctx t
      in in_daily_window local (fixed_start_time_of_day c) (fixed_end_time_of_day c)
         \<and> (fixed_day_of_week c = [] \<or> day_weekday (naive_day local) \<in> set (fixed_day_of_week c))
         \<and> in_date_range (naive_day local) (fixed_valid_from_date c) (fixed_valid_to_date c)
         \<and> \<not> is_some_and (fixed_evse_kind c) (\<lambda>k. pc_evse_kind ctx \<noteq> Some k)
         \<and> \<not> is_some_and (payment_brand c) (\<lambda>b. pc_payment_brand ctx \<noteq> Some b)
         \<and> \<not> is_some_and (payment_recognition c) (\<lambda>k. pc_payment_recognition ctx \<noteq> Some k))"

text \<open>\<open>Iterator::position\<close>.\<close>

primrec position :: "('a \<Rightarrow> bool) \<Rightarrow> 'a list \<Rightarrow> usize option" where
  "position P [] = None"
| "position P (x # xs) = (if P x then Some 0 else map_option Suc (position P xs))"

definition select_energy :: "energy_component \<Rightarrow> pricing_context \<Rightarrow> pricing_snapshot \<Rightarrow> usize option" where
  "select_energy cmp ctx s =
     position (\<lambda>p. is_none_or (energy_conditions p) (\<lambda>c. conditions_apply c ctx s)) (energy_prices cmp)"

definition select_time :: "time_component \<Rightarrow> pricing_context \<Rightarrow> pricing_snapshot \<Rightarrow> usize option" where
  "select_time cmp ctx s =
     position (\<lambda>p. is_none_or (time_conditions p) (\<lambda>c. conditions_apply c ctx s)) (time_prices cmp)"

definition select_fixed :: "fixed_component \<Rightarrow> pricing_context \<Rightarrow> date_time \<Rightarrow> usize option" where
  "select_fixed cmp ctx t =
     position (\<lambda>p. is_none_or (fixed_conditions p) (\<lambda>c. fixed_conditions_apply c ctx t)) (fixed_prices cmp)"

section \<open>Boundaries\<close>

definition condition_minutes :: "tariff_conditions option \<Rightarrow> u16 list" where
  "condition_minutes c =
     (case c of
        None \<Rightarrow> []
      | Some x \<Rightarrow> map minutes_since_midnight (flatten_options [start_time_of_day x, end_time_of_day x]))"

definition energy_minutes :: "energy_component \<Rightarrow> u16 list" where
  "energy_minutes cmp = concat (map (\<lambda>p. condition_minutes (energy_conditions p)) (energy_prices cmp))"

definition time_minutes :: "time_component \<Rightarrow> u16 list" where
  "time_minutes cmp = concat (map (\<lambda>p. condition_minutes (time_conditions p)) (time_prices cmp))"

definition boundary_minutes :: "tariff \<Rightarrow> u16 list" where
  "boundary_minutes t =
     remdups_adj (sort (0 # (case tariff_energy t of None \<Rightarrow> [] | Some c \<Rightarrow> energy_minutes c)
       @ concat (map time_minutes
           (flatten_options [tariff_charging_time t, tariff_idle_time t, tariff_reservation_time t]))))"

text \<open>\<open>NaiveTime::from_hms_opt\<close> refuses an hour after 23; \<open>succ_opt\<close> always succeeds here.\<close>

definition boundary_candidates :: "naive_date_time \<Rightarrow> u16 \<Rightarrow> naive_date_time list" where
  "boundary_candidates local minute =
     (if uint minute div 60 < 24
      then let time = uint minute * ns_per_minute; d = naive_day local
           in [d * ns_per_day + time, (d + 1) * ns_per_day + time]
      else [])"

definition better_boundary :: "naive_date_time \<Rightarrow> naive_date_time \<Rightarrow> naive_date_time option \<Rightarrow> naive_date_time option" where
  "better_boundary local candidate best =
     (if local < candidate \<and> is_none_or best (\<lambda>b. candidate < b) then Some candidate else best)"

definition next_boundary :: "naive_date_time \<Rightarrow> u16 list \<Rightarrow> naive_date_time option" where
  "next_boundary local minutes =
     fold (\<lambda>minute. fold (better_boundary local) (boundary_candidates local minute)) minutes None"

section \<open>The cost of a transaction\<close>

definition no_used_elements :: used_elements where
  "no_used_elements = \<lparr>used_energy = None, used_charging_time = None, used_idle_time = None\<rparr>"

definition fixed_fee :: "fixed_component option \<Rightarrow> pricing_context \<Rightarrow> accumulator" where
  "fixed_fee component ctx =
     (case component of
        None \<Rightarrow> empty_accumulator
      | Some c \<Rightarrow>
          (case select_fixed c ctx (pc_now ctx) of
             None \<Rightarrow> empty_accumulator
           | Some i \<Rightarrow> acc_add (fixed_price_of (fixed_prices c ! i)) (fixed_tax_rates c) empty_accumulator))"

definition reservation_charge :: "time_component option \<Rightarrow> i64 \<Rightarrow> accumulator" where
  "reservation_charge component secs =
     (case component of
        None \<Rightarrow> empty_accumulator
      | Some c \<Rightarrow>
          (case time_prices c of
             [] \<Rightarrow> empty_accumulator
           | p # _ \<Rightarrow> acc_add (time_cost (price_per_minute p) secs) (time_tax_rates c) empty_accumulator))"

definition tc_start :: "tariff \<Rightarrow> pricing_context \<Rightarrow> i64 option \<Rightarrow> transaction_cost" where
  "tc_start t ctx reservation_secs =
     \<lparr>tc_tariff_id = tariff_id_of t, tc_currency = tariff_currency t,
      tc_fixed = fixed_fee (tariff_fixed_fee t) ctx,
      tc_energy = empty_accumulator, tc_charging_time = empty_accumulator, tc_idle_time = empty_accumulator,
      tc_reservation_time =
        (case reservation_secs of
           None \<Rightarrow> empty_accumulator | Some secs \<Rightarrow> reservation_charge (tariff_reservation_time t) secs),
      tc_reservation_fixed =
        (case reservation_secs of
           None \<Rightarrow> empty_accumulator | Some _ \<Rightarrow> fixed_fee (tariff_reservation_fixed t) ctx),
      tc_usage = \<lparr>usage_energy_mwh = 0, usage_charging_secs = 0, usage_idle_secs = 0,
                  usage_reservation_secs = reservation_secs\<rparr>,
      tc_periods =
        [\<lparr>cp_tariff_id = tariff_id_of t, cp_start = pc_now ctx, cp_energy_mwh = 0, cp_charging_secs = 0,
          cp_idle_secs = 0, cp_min_power_mw = pc_power_mw ctx, cp_max_power_mw = pc_power_mw ctx,
          cp_min_current_ma = pc_current_ma ctx, cp_max_current_ma = pc_current_ma ctx\<rparr>],
      tc_last_at = pc_now ctx, tc_last_energy_mwh = pc_energy_mwh ctx,
      tc_used_elements = no_used_elements, tc_capped = False\<rparr>"

definition open_period :: "tariff_id \<Rightarrow> date_time \<Rightarrow> transaction_cost \<Rightarrow> transaction_cost" where
  "open_period i t c =
     c\<lparr>tc_periods := tc_periods c @
         [\<lparr>cp_tariff_id = i, cp_start = t, cp_energy_mwh = 0, cp_charging_secs = 0, cp_idle_secs = 0,
           cp_min_power_mw = None, cp_max_power_mw = None, cp_min_current_ma = None,
           cp_max_current_ma = None\<rparr>]\<rparr>"

text \<open>\<open>last_mut()\<close>.\<close>

definition update_last :: "('a \<Rightarrow> 'a) \<Rightarrow> 'a list \<Rightarrow> 'a list" where
  "update_last f xs = (if xs = [] then [] else butlast xs @ [f (last xs)])"

definition widen :: "(i64 \<Rightarrow> i64 \<Rightarrow> i64) \<Rightarrow> i64 option \<Rightarrow> i64 option \<Rightarrow> i64 option" where
  "widen f reading bound =
     (case reading of
        None \<Rightarrow> bound
      | Some x \<Rightarrow> Some (case bound of None \<Rightarrow> x | Some b \<Rightarrow> f b x))"

definition record_readings :: "pricing_context \<Rightarrow> transaction_cost \<Rightarrow> transaction_cost" where
  "record_readings ctx c =
     c\<lparr>tc_periods := update_last (\<lambda>p. p\<lparr>cp_min_power_mw := widen min (pc_power_mw ctx) (cp_min_power_mw p),
         cp_max_power_mw := widen max (pc_power_mw ctx) (cp_max_power_mw p),
         cp_min_current_ma := widen min (pc_current_ma ctx) (cp_min_current_ma p),
         cp_max_current_ma := widen max (pc_current_ma ctx) (cp_max_current_ma p)\<rparr>) (tc_periods c)\<rparr>"

definition raw_total :: "transaction_cost \<Rightarrow> dimension_cost" where
  "raw_total c =
     fold (\<lambda>a total. cost_saturating_add total (acc_total a))
       [tc_fixed c, tc_energy c, tc_charging_time c, tc_idle_time c, tc_reservation_time c,
        tc_reservation_fixed c] zero_cost"

definition reaches :: "dimension_cost \<Rightarrow> price \<Rightarrow> bool" where
  "reaches cost bound =
     (is_some_and (price_excl_tax bound) (\<lambda>l. l \<le> cost_excl_tax cost)
      \<or> is_some_and (price_incl_tax bound) (\<lambda>l. l \<le> cost_incl_tax cost))"

definition switch_tariff :: "tariff \<Rightarrow> date_time \<Rightarrow> transaction_cost \<Rightarrow> transaction_cost" where
  "switch_tariff t now c =
     open_period (tariff_id_of t) now
       (c\<lparr>tc_fixed := acc_seal (tc_fixed c), tc_energy := acc_seal (tc_energy c),
          tc_charging_time := acc_seal (tc_charging_time c), tc_idle_time := acc_seal (tc_idle_time c),
          tc_reservation_time := acc_seal (tc_reservation_time c),
          tc_reservation_fixed := acc_seal (tc_reservation_fixed c),
          tc_tariff_id := tariff_id_of t, tc_currency := tariff_currency t,
          tc_used_elements := no_used_elements\<rparr>)"

subsection \<open>One sub-interval\<close>

definition usage_snapshot :: "date_time \<Rightarrow> usage \<Rightarrow> pricing_snapshot" where
  "usage_snapshot t u =
     \<lparr>snap_at = t, snap_energy_mwh = usage_energy_mwh u,
      snap_elapsed_secs = wrap_i64 (usage_charging_secs u + usage_idle_secs u),
      snap_charging_secs = usage_charging_secs u, snap_idle_secs = usage_idle_secs u\<rparr>"

definition used_by :: "tariff \<Rightarrow> pricing_context \<Rightarrow> pricing_snapshot \<Rightarrow> used_elements" where
  "used_by t ctx s =
     \<lparr>used_energy = Option.bind (tariff_energy t) (\<lambda>c. select_energy c ctx s),
      used_charging_time = Option.bind (tariff_charging_time t) (\<lambda>c. select_time c ctx s),
      used_idle_time = Option.bind (tariff_idle_time t) (\<lambda>c. select_time c ctx s)\<rparr>"

text \<open>A new charging period when the used element list changes.\<close>

definition use_elements :: "tariff \<Rightarrow> date_time \<Rightarrow> used_elements \<Rightarrow> transaction_cost \<Rightarrow> transaction_cost" where
  "use_elements t from_time used c =
     (if used \<noteq> tc_used_elements c
      then (if tc_periods c \<noteq> [] \<and> tc_used_elements c \<noteq> no_used_elements
            then open_period (tariff_id_of t) from_time c else c)\<lparr>tc_used_elements := used\<rparr>
      else c)"

definition charge_energy :: "tariff \<Rightarrow> used_elements \<Rightarrow> i64 \<Rightarrow> transaction_cost \<Rightarrow> transaction_cost" where
  "charge_energy t used mwh c =
     (case (tariff_energy t, used_energy used) of
        (Some e, Some i) \<Rightarrow>
          c\<lparr>tc_energy := acc_add (energy_cost (price_per_kwh (energy_prices e ! i)) mwh)
              (energy_tax_rates e) (tc_energy c)\<rparr>
      | _ \<Rightarrow> c)"

definition charge_time :: "tariff \<Rightarrow> bool \<Rightarrow> used_elements \<Rightarrow> i64 \<Rightarrow> transaction_cost \<Rightarrow> transaction_cost" where
  "charge_time t charging used secs c =
     (case (if charging then opt_zip (tariff_charging_time t) (used_charging_time used)
            else opt_zip (tariff_idle_time t) (used_idle_time used)) of
        None \<Rightarrow> c
      | Some (e, i) \<Rightarrow>
          (let amount = time_cost (price_per_minute (time_prices e ! i)) secs
           in if charging
              then c\<lparr>tc_charging_time := acc_add amount (time_tax_rates e) (tc_charging_time c)\<rparr>
              else c\<lparr>tc_idle_time := acc_add amount (time_tax_rates e) (tc_idle_time c)\<rparr>))"

definition count_usage :: "bool \<Rightarrow> i64 \<Rightarrow> i64 \<Rightarrow> transaction_cost \<Rightarrow> transaction_cost" where
  "count_usage charging secs mwh c =
     (let u = tc_usage c
      in c\<lparr>tc_usage := u\<lparr>usage_energy_mwh := wrap_i64 (usage_energy_mwh u + mwh),
             usage_charging_secs :=
               (if charging then wrap_i64 (usage_charging_secs u + secs) else usage_charging_secs u),
             usage_idle_secs :=
               (if charging then usage_idle_secs u else wrap_i64 (usage_idle_secs u + secs))\<rparr>,
           tc_periods := update_last (\<lambda>p. p\<lparr>cp_energy_mwh := wrap_i64 (cp_energy_mwh p + mwh),
             cp_charging_secs :=
               (if charging then wrap_i64 (cp_charging_secs p + secs) else cp_charging_secs p),
             cp_idle_secs :=
               (if charging then cp_idle_secs p else wrap_i64 (cp_idle_secs p + secs))\<rparr>) (tc_periods c)\<rparr>)"

definition check_cap :: "tariff \<Rightarrow> transaction_cost \<Rightarrow> transaction_cost" where
  "check_cap t c =
     (case tariff_max_cost t of
        None \<Rightarrow> c
      | Some hi \<Rightarrow> if tc_capped c then c else c\<lparr>tc_capped := reaches (raw_total c) hi\<rparr>)"

definition charge ::
  "tariff \<Rightarrow> pricing_context \<Rightarrow> date_time \<Rightarrow> i64 \<Rightarrow> i64 \<Rightarrow> transaction_cost \<Rightarrow> transaction_cost" where
  "charge t ctx from_time secs mwh c =
     (let used = used_by t ctx (usage_snapshot from_time (tc_usage c));
          c1 = use_elements t from_time used c;
          c2 = (if tc_capped c1 then c1
                else charge_time t (pc_charging ctx) used secs (charge_energy t used mwh c1));
          c3 = count_usage (pc_charging ctx) secs mwh c2
      in check_cap t c3)"

subsection \<open>Advancing to the present\<close>

definition next_split :: "pricing_context \<Rightarrow> u16 list \<Rightarrow> date_time \<Rightarrow> date_time" where
  "next_split ctx boundaries from_time =
     unwrap_or (opt_filter (\<lambda>n. n < pc_now ctx)
         (map_option (\<lambda>l. from_time + (l - context_local ctx from_time))
            (next_boundary (context_local ctx from_time) boundaries)))
       (pc_now ctx)"

text \<open>The bounded \<open>for\<close> loop of \<open>advance\<close>; the result is \<open>from\<close>, what was charged, the cost.\<close>

fun split_loop ::
  "usize \<Rightarrow> tariff \<Rightarrow> pricing_context \<Rightarrow> u16 list \<Rightarrow> i64 \<Rightarrow> i64 \<Rightarrow> date_time \<times> i64 \<times> i64 \<times> transaction_cost
   \<Rightarrow> date_time \<times> i64 \<times> i64 \<times> transaction_cost" where
  "split_loop 0 t ctx boundaries total_secs total_mwh st = st"
| "split_loop (Suc n) t ctx boundaries total_secs total_mwh (from_time, charged_mwh, charged_secs, c) =
     (let next = next_split ctx boundaries from_time;
          secs = num_seconds (next - from_time);
          mwh = (if next = pc_now ctx then total_mwh - charged_mwh
                 else wrap_i64 ((total_mwh * secs) sdiv total_secs));
          st = (next, charged_mwh + mwh, charged_secs + secs, charge t ctx from_time secs mwh c)
      in if pc_now ctx \<le> next then st
         else split_loop n t ctx boundaries total_secs total_mwh st)"

definition tc_advance :: "tariff \<Rightarrow> pricing_context \<Rightarrow> transaction_cost \<Rightarrow> transaction_cost" where
  "tc_advance t ctx c =
     (let c1 = (if tariff_id_of t \<noteq> tc_tariff_id c then switch_tariff t (pc_now ctx) c else c);
          total_secs = num_seconds (pc_now ctx - tc_last_at c1);
          total_mwh = max (saturate_i64 (pc_energy_mwh ctx - tc_last_energy_mwh c1)) 0;
          c2 = (if total_secs \<le> 0 then charge t ctx (tc_last_at c1) 0 total_mwh c1
                else case split_loop max_sub_intervals t ctx (boundary_minutes t) total_secs total_mwh
                            (tc_last_at c1, 0, 0, c1) of
                       (from_time, charged_mwh, charged_secs, c') \<Rightarrow>
                         if from_time < pc_now ctx
                         then charge t ctx from_time (total_secs - charged_secs) (total_mwh - charged_mwh) c'
                         else c')
      in (record_readings ctx c2)\<lparr>tc_last_at := pc_now ctx, tc_last_energy_mwh := pc_energy_mwh ctx\<rparr>)"

definition dimension_total :: "accumulator \<Rightarrow> dimension_cost option" where
  "dimension_total a = (let total = acc_total a in if cost_is_zero total then None else Some total)"

definition tc_totals :: "tariff \<Rightarrow> transaction_cost \<Rightarrow> cost_totals" where
  "tc_totals t c =
     (let total = raw_total c;
          normal = \<lparr>totals_currency = tc_currency c, totals_kind = (if tc_capped c then MaxCost else NormalCost),
            totals_fixed = dimension_total (tc_fixed c), totals_energy = dimension_total (tc_energy c),
            totals_charging_time = dimension_total (tc_charging_time c),
            totals_idle_time = dimension_total (tc_idle_time c),
            totals_reservation_time = dimension_total (tc_reservation_time c),
            totals_reservation_fixed = dimension_total (tc_reservation_fixed c), totals_total = total\<rparr>
      in case tariff_min_cost t of
           None \<Rightarrow> normal
         | Some lo \<Rightarrow>
             if reaches total lo then normal
             else let floor = \<lparr>cost_excl_tax = unwrap_or (price_excl_tax lo) (cost_excl_tax total),
                               cost_incl_tax = unwrap_or (price_incl_tax lo) (cost_incl_tax total)\<rparr>
                  in \<lparr>totals_currency = tc_currency c, totals_kind = MinCost, totals_fixed = Some floor,
                      totals_energy = None, totals_charging_time = None, totals_idle_time = None,
                      totals_reservation_time = None, totals_reservation_fixed = None, totals_total = floor\<rparr>)"

end
