(* ===== verification/Pricing_Properties.thy ===== *)
theory Pricing_Properties
  imports Pricing
begin

text \<open>
  The cost calculation: what a meter reading adds to the usage, that the charging periods add up
  to it, that the tariff's boundaries split an interval where its conditions may change, that a
  reached maximum freezes the cost, and the tax stack.
\<close>

section \<open>Usage\<close>

lemma wrap_i64_add [simp]: "wrap_i64 (wrap_i64 a + b) = wrap_i64 (a + b)" "wrap_i64 (a + wrap_i64 b) = wrap_i64 (a + b)"
  by (simp_all add: wrap_i64_def mod_simps algebra_simps)

lemma usage_frame [simp]:
  "tc_usage (open_period i now c) = tc_usage c" "tc_usage (use_elements t f used c) = tc_usage c"
  "tc_usage (charge_energy t used mwh c) = tc_usage c" "tc_usage (charge_time t b used secs c) = tc_usage c"
  "tc_usage (check_cap t c) = tc_usage c" "tc_usage (record_readings ctx c) = tc_usage c"
  "tc_usage (switch_tariff t now c) = tc_usage c"
  by (simp_all add: open_period_def use_elements_def charge_energy_def charge_time_def check_cap_def
      record_readings_def switch_tariff_def Let_def split: option.splits prod.splits)

text \<open>What one call of \<open>charge\<close>, and a sequence of them, adds.\<close>

definition adds_usage :: "bool \<Rightarrow> int \<Rightarrow> int \<Rightarrow> usage \<Rightarrow> usage \<Rightarrow> bool" where
  "adds_usage charging secs mwh u v =
     (usage_energy_mwh v = wrap_i64 (usage_energy_mwh u + mwh)
      \<and> usage_charging_secs v = (if charging then wrap_i64 (usage_charging_secs u + secs) else usage_charging_secs u)
      \<and> usage_idle_secs v = (if charging then usage_idle_secs u else wrap_i64 (usage_idle_secs u + secs))
      \<and> usage_reservation_secs v = usage_reservation_secs u)"

lemma charge_usage: "adds_usage (pc_charging ctx) secs mwh (tc_usage c) (tc_usage (charge t ctx f secs mwh c))"
  by (simp add: charge_def count_usage_def adds_usage_def Let_def)

lemma adds_usage_trans:
  "adds_usage b s e u v \<Longrightarrow> adds_usage b s' e' v w \<Longrightarrow> adds_usage b (s + s') (e + e') u w"
  by (auto simp: adds_usage_def add.assoc)

lemma num_seconds_nonneg: "0 \<le> ns \<Longrightarrow> num_seconds ns = ns div 1000000000"
  by (cases "ns = 0") (simp_all add: num_seconds_def)

lemma num_seconds_add: "0 \<le> a \<Longrightarrow> 0 \<le> b \<Longrightarrow> num_seconds a + num_seconds b \<le> num_seconds (a + b)"
  using div_add1_eq [of a b 1000000000] by (simp add: num_seconds_nonneg pos_imp_zdiv_nonneg_iff)

lemma num_seconds_ge_0: "0 \<le> ns \<Longrightarrow> 0 \<le> num_seconds ns"
  by (simp add: num_seconds_nonneg pos_imp_zdiv_nonneg_iff)

lemma num_seconds_le_0: "ns \<le> 0 \<Longrightarrow> num_seconds ns \<le> 0"
  by (auto simp: num_seconds_def sgn_if pos_imp_zdiv_nonneg_iff)

section \<open>Splitting at the boundaries\<close>

lemma better_boundary_invariant:
  "is_none_or best (\<lambda>b. local < b) \<Longrightarrow> is_none_or (better_boundary local x best) (\<lambda>b. local < b)"
  by (auto simp: better_boundary_def)

text \<open>\<open>next_boundary\<close> is the least candidate after the given instant.\<close>

lemma fold_better_boundary:
  "fold (better_boundary local) xs best = Some b \<longleftrightarrow>
    (b \<in> set_option best \<union> {x \<in> set xs. local < x}
     \<and> (\<forall>x \<in> set_option best \<union> {x \<in> set xs. local < x}. b \<le> x))"
  and fold_better_boundary_None:
  "fold (better_boundary local) xs best = None \<longleftrightarrow> best = None \<and> (\<forall>x \<in> set xs. \<not> local < x)"
proof (induction xs arbitrary: best)
  case Nil
  { case 1 show ?case by (cases best) auto }
  { case 2 show ?case by simp }
next
  case (Cons x xs)
  { case 1 show ?case
      unfolding fold_Cons comp_apply Cons.IH(1) by (cases best) (auto simp: better_boundary_def) }
  { case 2 show ?case
      unfolding fold_Cons comp_apply Cons.IH(2) by (cases best) (auto simp: better_boundary_def) }
qed

lemma next_boundary_fold:
  "next_boundary local minutes = fold (better_boundary local) (concat (map (boundary_candidates local) minutes)) None"
proof -
  have "fold (\<lambda>m. fold (better_boundary local) (boundary_candidates local m)) ms best
    = fold (better_boundary local) (concat (map (boundary_candidates local) ms)) best" for ms best
    by (induction ms arbitrary: best) simp_all
  then show ?thesis by (simp add: next_boundary_def)
qed

lemma next_boundary_after: "next_boundary local minutes = Some b \<Longrightarrow> local < b"
  by (simp add: next_boundary_fold fold_better_boundary)

lemma next_boundary_least:
  assumes "m \<in> set minutes" and "x \<in> set (boundary_candidates local m)" and "local < x"
  shows "\<exists>b. next_boundary local minutes = Some b \<and> b \<le> x"
proof (cases "next_boundary local minutes")
  case None
  with assms show ?thesis by (fastforce simp: next_boundary_fold fold_better_boundary_None)
next
  case (Some b)
  with assms show ?thesis by (auto simp: next_boundary_fold fold_better_boundary)
qed

lemma next_split_after: "f < pc_now ctx \<Longrightarrow> f < next_split ctx bs f \<and> next_split ctx bs f \<le> pc_now ctx"
  by (cases "next_boundary (context_local ctx f) bs") (auto simp: next_split_def dest: next_boundary_after)

lemma split_loop_usage:
  assumes "split_loop (Suc n) t ctx bs total_secs total_mwh (f, mwh, secs, c) = (f', mwh', secs', c')"
    and "f < pc_now ctx"
  shows "adds_usage (pc_charging ctx) (secs' - secs) (mwh' - mwh) (tc_usage c) (tc_usage c')
    \<and> f' \<le> pc_now ctx \<and> (pc_now ctx \<le> f' \<longrightarrow> mwh' = total_mwh)
    \<and> 0 \<le> secs' - secs \<and> secs' - secs + num_seconds (pc_now ctx - f') \<le> num_seconds (pc_now ctx - f)"
  using assms
proof (induction n arbitrary: f mwh secs c)
  case 0
  let ?next = "next_split ctx bs f"
  from 0 next_split_after [OF 0(2), of bs] num_seconds_add [of "?next - f" "pc_now ctx - ?next"]
  show ?case
    by (auto simp: Let_def charge_usage num_seconds_ge_0 split: if_splits)
next
  case (Suc n)
  let ?next = "next_split ctx bs f"
  note after = next_split_after [OF Suc.prems(2), of bs]
  have add: "num_seconds (?next - f) + num_seconds (pc_now ctx - ?next) \<le> num_seconds (pc_now ctx - f)"
    "0 \<le> num_seconds (?next - f)"
    using after num_seconds_add [of "?next - f" "pc_now ctx - ?next"] by (simp_all add: num_seconds_ge_0)
  show ?case
  proof (cases "pc_now ctx \<le> ?next")
    case True
    with Suc.prems after add show ?thesis by (auto simp: Let_def charge_usage)
  next
    case False
    define e where "e = wrap_i64 ((total_mwh * num_seconds (?next - f)) sdiv total_secs)"
    from False Suc.prems(1) have "split_loop (Suc n) t ctx bs total_secs total_mwh
        (?next, mwh + e, secs + num_seconds (?next - f), charge t ctx f (num_seconds (?next - f)) e c)
      = (f', mwh', secs', c')"
      by (subst (asm) split_loop.simps(2)) (simp add: Let_def e_def)
    from Suc.IH [OF this] False add
      adds_usage_trans [OF charge_usage [of ctx "num_seconds (?next - f)" e c t f]]
    show ?thesis by fastforce
  qed
qed

lemma tc_advance_usage:
  obtains secs where
    "adds_usage (pc_charging ctx) secs (max (saturate_i64 (pc_energy_mwh ctx - tc_last_energy_mwh c)) 0)
       (tc_usage c) (tc_usage (tc_advance t ctx c))"
    and "0 \<le> secs" and "secs \<le> max 0 (num_seconds (pc_now ctx - tc_last_at c))"
proof -
  let ?c1 = "if tariff_id_of t \<noteq> tc_tariff_id c then switch_tariff t (pc_now ctx) c else c"
  let ?mwh = "max (saturate_i64 (pc_energy_mwh ctx - tc_last_energy_mwh c)) 0"
  let ?secs = "num_seconds (pc_now ctx - tc_last_at c)"
  have c1: "tc_usage ?c1 = tc_usage c" "tc_last_at ?c1 = tc_last_at c" "tc_last_energy_mwh ?c1 = tc_last_energy_mwh c"
    by (simp_all add: switch_tariff_def open_period_def)
  show ?thesis
  proof (cases "?secs \<le> 0")
    case True
    then have "tc_usage (tc_advance t ctx c) = tc_usage (charge t ctx (tc_last_at c) 0 ?mwh ?c1)"
      by (simp only: tc_advance_def Let_def c1 if_True) simp
    then show ?thesis using that [of 0] charge_usage [of ctx 0 ?mwh ?c1] by (simp add: c1)
  next
    case False
    then have before: "tc_last_at c < pc_now ctx"
      using num_seconds_le_0 [of "pc_now ctx - tc_last_at c"] by linarith
    obtain f mwh secs c' where loop: "split_loop max_sub_intervals t ctx (boundary_minutes t) ?secs ?mwh
        (tc_last_at c, 0, 0, ?c1) = (f, mwh, secs, c')" by (metis prod_cases4)
    have "max_sub_intervals = Suc 4095" by (simp add: max_sub_intervals_def)
    note l = split_loop_usage [OF loop [unfolded this] before]
    have adv: "tc_usage (tc_advance t ctx c)
        = tc_usage (if f < pc_now ctx then charge t ctx f (?secs - secs) (?mwh - mwh) c' else c')"
      using False by (simp only: tc_advance_def Let_def c1 if_False loop prod.case) simp
    show ?thesis
    proof (cases "f < pc_now ctx")
      case True
      with adv l adds_usage_trans [OF _ charge_usage [of ctx "?secs - secs" "?mwh - mwh" c' t f]]
      have "adds_usage (pc_charging ctx) ?secs ?mwh (tc_usage c) (tc_usage (tc_advance t ctx c))"
        by (fastforce simp: c1)
      then show ?thesis using that [of ?secs] False by simp
    next
      case False
      with adv l show ?thesis using that [of secs] by (auto simp: c1 num_seconds_nonneg)
    qed
  qed
qed

section \<open>What every step of the calculation keeps\<close>

text \<open>An invariant that opening a period for a new tariff, charging a sub-interval and recording
  the readings keep is one that \<open>advance\<close> keeps.\<close>

locale cost_invariant =
  fixes I :: "transaction_cost \<Rightarrow> bool"
  assumes switch: "I c \<Longrightarrow> I (switch_tariff t now c)"
    and charged: "I c \<Longrightarrow> I (charge t ctx f secs mwh c)"
    and readings: "I c \<Longrightarrow> I (record_readings ctx c)"
    and marked: "I c \<Longrightarrow> I (c\<lparr>tc_last_at := now, tc_last_energy_mwh := mwh\<rparr>)"
begin

lemma loop:
  "I c \<Longrightarrow> split_loop n t ctx bs total_secs total_mwh (f, mwh, secs, c) = (f', mwh', secs', c') \<Longrightarrow> I c'"
proof (induction n arbitrary: f mwh secs c)
  case (Suc n)
  show ?case
  proof (cases "pc_now ctx \<le> next_split ctx bs f")
    case True
    with Suc.prems(2) charged [OF Suc.prems(1)] show ?thesis by (auto simp: Let_def)
  next
    case False
    with Suc.prems(2) Suc.IH [OF charged [OF Suc.prems(1)]] show ?thesis by (simp add: Let_def)
  qed
qed simp

lemma advance:
  assumes "I c"
  shows "I (tc_advance t ctx c)"
proof -
  have "I (if tariff_id_of t \<noteq> tc_tariff_id c then switch_tariff t (pc_now ctx) c else c)"
    using assms by (simp add: switch)
  then show ?thesis
    unfolding tc_advance_def Let_def
    by (intro marked readings) (auto intro: charged split: prod.splits dest: loop)
qed

end

section \<open>Charging periods\<close>

text \<open>The charging periods add up to the usage, in the arithmetic of the counters.\<close>

definition periods_agree :: "transaction_cost \<Rightarrow> bool" where
  "periods_agree c =
     (tc_periods c \<noteq> []
      \<and> wrap_i64 (sum_list (map cp_energy_mwh (tc_periods c))) = usage_energy_mwh (tc_usage c)
      \<and> wrap_i64 (sum_list (map cp_charging_secs (tc_periods c))) = usage_charging_secs (tc_usage c)
      \<and> wrap_i64 (sum_list (map cp_idle_secs (tc_periods c))) = usage_idle_secs (tc_usage c))"

lemma periods_frame [simp]:
  "tc_periods (charge_energy t used mwh c) = tc_periods c" "tc_periods (charge_time t b used secs c) = tc_periods c"
  "tc_periods (check_cap t c) = tc_periods c"
  by (simp_all add: charge_energy_def charge_time_def check_cap_def Let_def split: option.splits prod.splits)

lemma sum_update_last:
  assumes "xs \<noteq> []" and "\<And>x. g (f x) = wrap_i64 (g x + d)"
  shows "wrap_i64 (sum_list (map g (update_last f xs))) = wrap_i64 (sum_list (map g xs) + d)"
  using assms by (cases xs rule: rev_cases) (simp_all add: update_last_def add.assoc)

lemma sum_update_last_same:
  "(\<And>x. g (f x) = g x) \<Longrightarrow> sum_list (map g (update_last f xs)) = sum_list (map g xs)"
  by (cases xs rule: rev_cases) (simp_all add: update_last_def)

lemma update_last_Nil [simp]: "update_last f xs = [] \<longleftrightarrow> xs = []"
  by (simp add: update_last_def)

lemma periods_agree_open: "periods_agree c \<Longrightarrow> periods_agree (open_period i t c)"
  by (simp add: periods_agree_def open_period_def)

lemma periods_agree_use: "periods_agree c \<Longrightarrow> periods_agree (use_elements t f used c)"
  using periods_agree_open by (auto simp: use_elements_def periods_agree_def open_period_def)

lemma periods_agree_count: "periods_agree c \<Longrightarrow> periods_agree (count_usage b secs mwh c)"
  by (cases b)
    (simp_all add: periods_agree_def count_usage_def Let_def sum_update_last [where g = cp_energy_mwh]
      sum_update_last [where g = cp_charging_secs] sum_update_last [where g = cp_idle_secs] sum_update_last_same,
      metis wrap_i64_add(1), metis wrap_i64_add(1))

lemma periods_agree_charge:
  assumes "periods_agree c"
  shows "periods_agree (charge t ctx f secs mwh c)"
proof -
  let ?used = "used_by t ctx (usage_snapshot f (tc_usage c))"
  let ?c1 = "use_elements t f ?used c"
  have "periods_agree ?c1" by (rule periods_agree_use [OF assms])
  then have "periods_agree (if tc_capped ?c1 then ?c1
      else charge_time t (pc_charging ctx) ?used secs (charge_energy t ?used mwh ?c1))"
    by (simp add: periods_agree_def)
  from periods_agree_count [OF this] show ?thesis
    by (simp add: charge_def Let_def periods_agree_def)
qed

lemma periods_agree_readings: "periods_agree c \<Longrightarrow> periods_agree (record_readings ctx c)"
  by (simp add: periods_agree_def record_readings_def sum_update_last_same)

lemma periods_agree_switch: "periods_agree c \<Longrightarrow> periods_agree (switch_tariff t now c)"
  by (simp add: periods_agree_def switch_tariff_def open_period_def)

lemma periods_agree_start: "periods_agree (tc_start t ctx r)"
  by (simp add: periods_agree_def tc_start_def wrap_i64_def)

interpretation periods: cost_invariant periods_agree
  by unfold_locales
    (simp_all add: periods_agree_switch periods_agree_charge periods_agree_readings, simp add: periods_agree_def)

section \<open>The cap\<close>

lemma tax_level_0 [simp]: "tax_level rates stack 0 = 0"
  by (simp add: tax_level_def Let_def saturate_i64_def i64_min_def i64_max_def)

lemma tax_loop_0 [simp]: "tax_loop rates highest stack 0 = 0"
  by (induction rates highest stack "0 :: int" rule: tax_loop.induct) (simp add: tax_loop.simps)

lemma apply_taxes_0 [simp]: "apply_taxes 0 rates = 0"
  by (simp add: apply_taxes_def)

lemma acc_total_seal [simp]: "acc_total (acc_seal a) = acc_total a"
  by (simp add: acc_total_def acc_seal_def live_cost_def cost_saturating_add_def money_saturating_add_def
      saturate_i64_id saturate_i64_bounds)

lemma frozen_frame:
  "raw_total (open_period i now c) = raw_total c" "tc_capped (open_period i now c) = tc_capped c"
  "raw_total (use_elements t f used c) = raw_total c" "tc_capped (use_elements t f used c) = tc_capped c"
  "raw_total (count_usage b secs mwh c) = raw_total c" "tc_capped (count_usage b secs mwh c) = tc_capped c"
  "raw_total (record_readings ctx c) = raw_total c" "tc_capped (record_readings ctx c) = tc_capped c"
  "raw_total (switch_tariff t now c) = raw_total c" "tc_capped (switch_tariff t now c) = tc_capped c"
  "raw_total (c\<lparr>tc_last_at := now, tc_last_energy_mwh := mwh\<rparr>) = raw_total c"
  by (simp_all add: raw_total_def open_period_def use_elements_def count_usage_def record_readings_def
      switch_tariff_def Let_def)

interpretation frozen: cost_invariant "\<lambda>c. tc_capped c \<and> raw_total c = frozen_total" for frozen_total
  by unfold_locales
    (auto simp: frozen_frame charge_def check_cap_def Let_def split: option.splits)

section \<open>Between two boundaries nothing changes\<close>

lemma ns_pos [simp]: "0 < ns_per_minute" "0 < ns_per_day"
  by (simp_all add: ns_per_day_def ns_per_minute_def)

lemma le_div_iff_mult_le: "0 < k \<Longrightarrow> m \<le> x div k \<longleftrightarrow> m * k \<le> x" for m x k :: int
proof -
  assume k: "0 < k"
  have x: "x = (x div k) * k + x mod k" "0 \<le> x mod k" "x mod k < k" using k by simp_all
  show "m \<le> x div k \<longleftrightarrow> m * k \<le> x"
  proof
    assume "m \<le> x div k"
    then have "m * k \<le> (x div k) * k" using k by simp
    with x show "m * k \<le> x" by linarith
  next
    assume le: "m * k \<le> x"
    show "m \<le> x div k"
    proof (rule ccontr)
      assume "\<not> m \<le> x div k"
      then have "(x div k + 1) * k \<le> m * k" using k by (intro mult_right_mono) auto
      then have "(x div k) * k + k \<le> m * k" by (simp add: distrib_right)
      with le x show False by linarith
    qed
  qed
qed

lemma naive_day_bounds: "naive_day t * ns_per_day \<le> t" "t < (naive_day t + 1) * ns_per_day"
proof -
  show "naive_day t * ns_per_day \<le> t" using le_div_iff_mult_le [of ns_per_day "naive_day t" t] by (simp add: naive_day_def)
  show "t < (naive_day t + 1) * ns_per_day"
    using le_div_iff_mult_le [of ns_per_day "naive_day t + 1" t] by (simp add: naive_day_def)
qed

lemma naive_dayI:
  assumes "d * ns_per_day \<le> t" and "t < (d + 1) * ns_per_day"
  shows "naive_day t = d"
  using assms le_div_iff_mult_le [of ns_per_day d t] le_div_iff_mult_le [of ns_per_day "d + 1" t]
  by (simp add: naive_day_def)

text \<open>A time of day is reached on a day from its instant on.\<close>

lemma minute_reached: "m \<le> minute_of_day t \<longleftrightarrow> naive_day t * ns_per_day + m * ns_per_minute \<le> t"
proof -
  have "t = t div ns_per_day * ns_per_day + t mod ns_per_day" by simp
  with le_div_iff_mult_le [of ns_per_minute m "t mod ns_per_day"] show ?thesis
    unfolding minute_of_day_def naive_day_def by (metis (no_types) add_le_cancel_left ns_pos(1))
qed

lemma minute_of_day_bounds: "0 \<le> minute_of_day t \<and> minute_of_day t < 1440"
  using pos_mod_bound [of ns_per_day t]
  by (auto simp: minute_of_day_def pos_imp_zdiv_nonneg_iff ns_per_day_def ns_per_minute_def)

text \<open>The instants up to the next boundary, for a list of boundaries that has midnight.\<close>

lemma before_boundary:
  assumes "0 \<in> set minutes" and "local \<le> t" and "is_none_or (next_boundary local minutes) (\<lambda>b. t < b)"
  shows "naive_day t = naive_day local"
    and "m \<in> set minutes \<Longrightarrow> uint m \<le> minute_of_day t \<longleftrightarrow> uint m \<le> minute_of_day local"
proof -
  let ?d = "naive_day local"
  have candidate: "t < x" if "m \<in> set minutes" "x \<in> set (boundary_candidates local m)" "local < x" for m x
    using next_boundary_least [OF that] assms(3) by auto
  have "(?d + 1) * ns_per_day \<in> set (boundary_candidates local 0)"
    by (simp add: boundary_candidates_def Let_def)
  then have "t < (?d + 1) * ns_per_day" using candidate assms(1) naive_day_bounds(2) by blast
  moreover have "?d * ns_per_day \<le> t" using naive_day_bounds(1) [of local] assms(2) by linarith
  ultimately show day: "naive_day t = ?d" by (intro naive_dayI)
  show "uint m \<le> minute_of_day t \<longleftrightarrow> uint m \<le> minute_of_day local" if "m \<in> set minutes"
  proof (cases "uint m div 60 < 24")
    case True
    then have "?d * ns_per_day + uint m * ns_per_minute \<in> set (boundary_candidates local m)"
      by (simp add: boundary_candidates_def Let_def)
    note reached = candidate [OF that this]
    show ?thesis
      unfolding minute_reached day
      using reached assms(2) by (cases "local < ?d * ns_per_day + uint m * ns_per_minute") auto
  next
    case False
    then have "1440 \<le> uint m" by linarith
    with minute_of_day_bounds [of t] minute_of_day_bounds [of local] show ?thesis by linarith
  qed
qed

lemma in_daily_window_constant:
  assumes "0 \<in> set minutes" and "local \<le> t" and "is_none_or (next_boundary local minutes) (\<lambda>b. t < b)"
    and "set (map minutes_since_midnight (flatten_options [start, stop])) \<subseteq> set minutes"
  shows "in_daily_window t start stop = in_daily_window local start stop"
proof -
  have "tod_minutes x \<le> minute_of_day t \<longleftrightarrow> tod_minutes x \<le> minute_of_day local" if "x \<in> {start, stop}" for x
  proof (cases x)
    case None
    then show ?thesis by (simp add: tod_minutes_def minute_of_day_bounds)
  next
    case (Some y)
    with that assms(4) have "minutes_since_midnight y \<in> set minutes"
      by (cases start; cases stop) (auto simp: flatten_options_def)
    from before_boundary(2) [OF assms(1-3) this] Some show ?thesis by (simp add: tod_minutes_def)
  qed
  from this [of start] this [of stop] show ?thesis
    by (simp add: in_daily_window_def Let_def not_le [symmetric])
qed

lemma conditions_constant:
  assumes "set (condition_minutes (Some c)) \<subseteq> set minutes" and "0 \<in> set minutes"
    and "context_local ctx (snap_at s) \<le> context_local ctx t"
    and "is_none_or (next_boundary (context_local ctx (snap_at s)) minutes) (\<lambda>b. context_local ctx t < b)"
  shows "conditions_apply c ctx (s\<lparr>snap_at := t\<rparr>) = conditions_apply c ctx s"
proof -
  have "in_daily_window (context_local ctx t) (start_time_of_day c) (end_time_of_day c)
      = in_daily_window (context_local ctx (snap_at s)) (start_time_of_day c) (end_time_of_day c)"
    by (rule in_daily_window_constant [OF assms(2,3,4)]) (use assms(1) in \<open>simp add: condition_minutes_def\<close>)
  with before_boundary(1) [OF assms(2,3,4)] show ?thesis
    by (simp add: conditions_apply_def condition_thresholds_def Let_def)
qed

lemma boundary_minutes_set:
  "set (boundary_minutes t) = insert 0 (\<Union> (set ` energy_minutes ` set_option (tariff_energy t))
     \<union> \<Union> (set ` time_minutes ` (set_option (tariff_charging_time t) \<union> set_option (tariff_idle_time t)
         \<union> set_option (tariff_reservation_time t))))"
  unfolding boundary_minutes_def remdups_adj_set set_sort
  by (auto simp: flatten_options_def split: option.splits)

lemma position_cong: "(\<And>x. x \<in> set xs \<Longrightarrow> P x = Q x) \<Longrightarrow> position P xs = position Q xs"
  by (induction xs) simp_all

lemma select_constant:
  assumes "0 \<in> set minutes" and "context_local ctx (snap_at s) \<le> context_local ctx t"
    and "is_none_or (next_boundary (context_local ctx (snap_at s)) minutes) (\<lambda>b. context_local ctx t < b)"
  shows "set (energy_minutes e) \<subseteq> set minutes \<Longrightarrow> select_energy e ctx (s\<lparr>snap_at := t\<rparr>) = select_energy e ctx s"
    and "set (time_minutes d) \<subseteq> set minutes \<Longrightarrow> select_time d ctx (s\<lparr>snap_at := t\<rparr>) = select_time d ctx s"
proof -
  have same: "is_none_or c (\<lambda>c. conditions_apply c ctx (s\<lparr>snap_at := t\<rparr>)) = is_none_or c (\<lambda>c. conditions_apply c ctx s)"
    if "set (condition_minutes c) \<subseteq> set minutes" for c
    using conditions_constant [OF _ assms] that by (cases c) auto
  show "select_energy e ctx (s\<lparr>snap_at := t\<rparr>) = select_energy e ctx s" if "set (energy_minutes e) \<subseteq> set minutes"
    unfolding select_energy_def by (rule position_cong) (use that in \<open>auto simp: energy_minutes_def intro!: same\<close>)
  show "select_time d ctx (s\<lparr>snap_at := t\<rparr>) = select_time d ctx s" if "set (time_minutes d) \<subseteq> set minutes"
    unfolding select_time_def by (rule position_cong) (use that in \<open>auto simp: time_minutes_def intro!: same\<close>)
qed

lemma used_by_constant:
  assumes "f \<le> x" and "x < next_split ctx (boundary_minutes t) f"
  shows "used_by t ctx (usage_snapshot x u) = used_by t ctx (usage_snapshot f u)"
proof -
  let ?s = "usage_snapshot f u" and ?ms = "boundary_minutes t"
  have "is_none_or (next_boundary (context_local ctx f) ?ms) (\<lambda>b. context_local ctx x < b)"
    using assms(2)
    by (cases "next_boundary (context_local ctx f) ?ms")
      (auto simp: next_split_def context_local_def split: if_splits)
  then have "is_none_or (next_boundary (context_local ctx (snap_at ?s)) ?ms) (\<lambda>b. context_local ctx x < b)"
    and "context_local ctx (snap_at ?s) \<le> context_local ctx x" and "0 \<in> set ?ms"
    using assms(1) by (simp_all add: usage_snapshot_def context_local_def boundary_minutes_set)
  note same = select_constant [OF this(3,2,1)]
  have "usage_snapshot x u = ?s\<lparr>snap_at := x\<rparr>" by (simp add: usage_snapshot_def)
  then show ?thesis
    using same
    by (cases "tariff_energy t"; cases "tariff_charging_time t"; cases "tariff_idle_time t")
      (simp_all add: used_by_def boundary_minutes_set subset_iff)
qed

section \<open>Taxes\<close>

text \<open>The loop over the tax stack as a fold over its levels.\<close>

lemma tax_loop_fold:
  "unat stack \<le> unat highest \<Longrightarrow>
   tax_loop rates highest stack base
     = fold (tax_level rates) (map of_nat [unat stack ..< Suc (unat highest)]) base"
proof (induction rates highest stack base rule: tax_loop.induct)
  case (1 rates highest stack base)
  show ?case
  proof (cases "stack = highest")
    case False
    with 1(2) have less: "unat stack < unat highest"
      by (metis le_neq_implies_less word_unat_eq_iff)
    then have suc: "unat (stack + 1) = Suc (unat stack)"
      using unsigned_less [of highest, where 'a = nat] by (simp add: unat_word_ariths)
    have "[unat stack ..< Suc (unat highest)] = unat stack # [Suc (unat stack) ..< Suc (unat highest)]"
      using less by (simp add: upt_conv_Cons)
    with 1(1) [OF refl False] less suc False show ?thesis
      by (simp add: tax_loop.simps [of rates highest stack base] Let_def)
  qed (simp add: tax_loop.simps Let_def)
qed

lemma sdiv_nonneg: "0 \<le> a \<Longrightarrow> 0 < b \<Longrightarrow> 0 \<le> a sdiv b" for a b :: int
  by (simp add: signed_divide_int_def sgn_if pos_imp_zdiv_nonneg_iff)

lemma tax_level_ge:
  assumes "\<forall>r \<in> set rates. 0 \<le> tax_rate_percent r" and "0 \<le> base" and "base \<le> i64_max"
  shows "base \<le> tax_level rates stack base \<and> tax_level rates stack base \<le> i64_max"
proof -
  have "0 \<le> stack_percent rates stack"
    using assms(1) by (auto simp: stack_percent_def intro!: sum_list_nonneg)
  then have "0 \<le> (base * stack_percent rates stack) sdiv (100 * 1000000)"
    using assms(2) by (intro sdiv_nonneg) auto
  with assms(2,3) show ?thesis
    by (auto simp: tax_level_def Let_def saturate_i64_def i64_min_def i64_max_def)
qed

lemma fold_tax_level_ge:
  "\<forall>r \<in> set rates. 0 \<le> tax_rate_percent r \<Longrightarrow> 0 \<le> base \<Longrightarrow> base \<le> i64_max
   \<Longrightarrow> base \<le> fold (tax_level rates) stacks base \<and> fold (tax_level rates) stacks base \<le> i64_max"
proof (induction stacks arbitrary: base)
  case (Cons x xs)
  from tax_level_ge [OF Cons.prems, of x] Cons.prems Cons.IH [of "tax_level rates x base"] show ?case by auto
qed simp

section \<open>Properties\<close>

text \<open>A transaction's cost over a sequence of readings, each with the tariff in force.\<close>

definition tc_run :: "(tariff \<times> pricing_context) list \<Rightarrow> transaction_cost \<Rightarrow> transaction_cost" where
  "tc_run readings c = fold (\<lambda>(t, ctx). tc_advance t ctx) readings c"

text \<open>C33: a reading is accounted for exactly once: the energy usage grows by exactly what the
  meter counted since the last reading (nothing if it went backwards), however many tariff
  boundaries the interval crosses, and the charging or the idle time, never both, grows by at
  most the whole seconds that passed.\<close>

theorem advance_accounts_for_the_meter:
  "\<exists>secs. 0 \<le> secs \<and> secs \<le> max 0 (num_seconds (pc_now ctx - tc_last_at c))
     \<and> tc_usage (tc_advance t ctx c) =
        (tc_usage c)\<lparr>usage_energy_mwh := wrap_i64 (usage_energy_mwh (tc_usage c)
            + max (saturate_i64 (pc_energy_mwh ctx - tc_last_energy_mwh c)) 0),
          usage_charging_secs := (if pc_charging ctx then wrap_i64 (usage_charging_secs (tc_usage c) + secs)
            else usage_charging_secs (tc_usage c)),
          usage_idle_secs := (if pc_charging ctx then usage_idle_secs (tc_usage c)
            else wrap_i64 (usage_idle_secs (tc_usage c) + secs))\<rparr>
     \<and> tc_last_at (tc_advance t ctx c) = pc_now ctx
     \<and> tc_last_energy_mwh (tc_advance t ctx c) = pc_energy_mwh ctx"
proof -
  have "tc_last_at (tc_advance t ctx c) = pc_now ctx" "tc_last_energy_mwh (tc_advance t ctx c) = pc_energy_mwh ctx"
    by (simp_all add: tc_advance_def Let_def)
  then show ?thesis
    by (rule_tac tc_advance_usage [of ctx c t]) (auto simp: adds_usage_def intro!: exI usage.equality)
qed

text \<open>C34: the charging periods that are reported always add up to the usage: their energies,
  charging times and idle times sum to the totals, over every sequence of readings and tariff
  changes, so a central system that recalculates the cost from the periods sees all of it.\<close>

theorem charging_periods_add_up: "periods_agree (tc_run readings (tc_start t ctx r))"
proof -
  have "periods_agree c \<Longrightarrow> periods_agree (tc_run readings c)" for c
    by (induction readings arbitrary: c) (auto simp: tc_run_def periods.advance)
  then show ?thesis by (simp add: periods_agree_start)
qed

text \<open>C39: once a tariff's maximum cost is reached the cost is frozen: no later reading, under
  whatever tariff, changes the total.\<close>

theorem reached_maximum_freezes_the_cost:
  assumes "tc_capped c"
  shows "tc_capped (tc_run readings c) \<and> raw_total (tc_run readings c) = raw_total c"
  using assms
proof (induction readings arbitrary: c)
  case (Cons r rs)
  obtain t ctx where r: "r = (t, ctx)" by (cases r)
  from Cons.IH frozen.advance [of c "raw_total c" t ctx] Cons.prems show ?case
    by (simp add: tc_run_def r)
qed (simp add: tc_run_def)

definition capped_tariff :: tariff where
  "capped_tariff = (tariff_new ''A'' ''EUR'')\<lparr>
     tariff_energy := Some \<lparr>energy_prices = [\<lparr>price_per_kwh = 250000, energy_conditions = None\<rparr>],
                            energy_tax_rates = []\<rparr>,
     tariff_max_cost := Some \<lparr>price_excl_tax = Some 1000000, price_incl_tax = None\<rparr>\<rparr>"

theorem reached_maximum_freezes_the_cost_witness:
  "let c = tc_advance capped_tariff ((pricing_context_new 0)\<lparr>pc_energy_mwh := 8000000\<rparr>)
        (tc_start capped_tariff (pricing_context_new 0) None)
   in raw_total (tc_run [(capped_tariff, (pricing_context_new 0)\<lparr>pc_energy_mwh := 9000000\<rparr>)] c)
      = \<lparr>cost_excl_tax = 2000000, cost_incl_tax = 2000000\<rparr>"
proof -
  let ?c = "tc_advance capped_tariff ((pricing_context_new 0)\<lparr>pc_energy_mwh := 8000000\<rparr>)
        (tc_start capped_tariff (pricing_context_new 0) None)"
  have "tc_capped ?c" by code_simp
  moreover have "raw_total ?c = \<lparr>cost_excl_tax = 2000000, cost_incl_tax = 2000000\<rparr>" by code_simp
  ultimately show ?thesis using reached_maximum_freezes_the_cost [of ?c] by (simp add: Let_def)
qed

text \<open>C35: an interval is split where it has to be: from an instant up to the next split of
  \<open>advance\<close>, the prices that apply, by time of day, weekday and date, are the same for each of
  the dimensions, so pricing the piece at its start prices every instant of it.\<close>

theorem prices_constant_between_splits:
  assumes "f \<le> x" and "x < next_split ctx (boundary_minutes t) f"
  shows "used_by t ctx (usage_snapshot x u) = used_by t ctx (usage_snapshot f u)"
  using assms by (rule used_by_constant)

definition night_tariff :: tariff where
  "night_tariff = (tariff_new ''N'' ''EUR'')\<lparr>
     tariff_energy := Some \<lparr>energy_prices = [
         \<lparr>price_per_kwh = 100000, energy_conditions = Some (no_tariff_conditions\<lparr>
            start_time_of_day := Some \<lparr>tod_hour = 22, tod_minute = 0\<rparr>,
            end_time_of_day := Some \<lparr>tod_hour = 6, tod_minute = 0\<rparr>\<rparr>)\<rparr>,
         \<lparr>price_per_kwh = 250000, energy_conditions = None\<rparr>],
       energy_tax_rates = []\<rparr>\<rparr>"

theorem prices_constant_between_splits_witness:
  "let ctx = pricing_context_new (8 * 3600000000000); u = tc_usage (tc_start night_tariff ctx None)
   in used_by night_tariff ctx (usage_snapshot (5 * 3600000000000) u)
      = used_by night_tariff ctx (usage_snapshot 0 u)"
proof -
  let ?ctx = "pricing_context_new (8 * 3600000000000)"
  have "5 * 3600000000000 < next_split ?ctx (boundary_minutes night_tariff) 0" by code_simp
  from prices_constant_between_splits [OF _ this] show ?thesis by (simp add: Let_def)
qed

text \<open>C40: taxes are applied stack by stack, each level on the amount with the taxes of the
  levels below, from level zero to the highest level that a rate names; with rates that are not
  negative the taxed amount is never below the net amount and never overflows.\<close>

theorem taxes_apply_stack_by_stack:
  "apply_taxes net rates
     = fold (tax_level rates) (map of_nat [0 ..< Suc (unat (foldr max (map tax_stack rates) 0))]) net
   \<and> ((\<forall>r \<in> set rates. 0 \<le> tax_rate_percent r) \<and> 0 \<le> net \<and> net \<le> i64_max
      \<longrightarrow> net \<le> apply_taxes net rates \<and> apply_taxes net rates \<le> i64_max)"
proof -
  have eq: "apply_taxes net rates
     = fold (tax_level rates) (map of_nat [0 ..< Suc (unat (foldr max (map tax_stack rates) 0))]) net"
  proof (cases "rates = []")
    case True
    then show ?thesis by (simp add: apply_taxes_def tax_level_def stack_percent_def)
  next
    case False
    then show ?thesis by (simp add: apply_taxes_def tax_loop_fold del: upt_Suc)
  qed
  with fold_tax_level_ge [of rates net] show ?thesis by metis
qed

theorem taxes_apply_stack_by_stack_witness:
  "1000000 \<le> apply_taxes 1000000 [\<lparr>tax_kind = ''vat'', tax_rate_percent = 20000000, tax_stack = 0\<rparr>,
      \<lparr>tax_kind = ''eco'', tax_rate_percent = 10000000, tax_stack = 1\<rparr>]"
  using taxes_apply_stack_by_stack [of 1000000 "[\<lparr>tax_kind = ''vat'', tax_rate_percent = 20000000, tax_stack = 0\<rparr>,
      \<lparr>tax_kind = ''eco'', tax_rate_percent = 10000000, tax_stack = 1\<rparr>]"]
  by (simp add: i64_max_def)

section \<open>Two deviations from the documentation\<close>

text \<open>The documentation says that a new charging period starts whenever the used element list
  changes, and that only the first evaluation is not a change; but after a stretch in which no
  price applied, a price that applies again opens no period either.\<close>

lemma no_period_after_an_unpriced_stretch:
  "tc_used_elements c = no_used_elements \<Longrightarrow> tc_periods (use_elements t f used c) = tc_periods c"
  by (simp add: use_elements_def)

text \<open>The documentation says that a replaced tariff applies from that moment, never
  retroactively; but the interval since the last reading is priced at the new tariff, and counted
  in a period that starts only at the reading: here one kilowatt hour that was used in the hour
  before, under a tariff that is free of charge.\<close>

lemma tariff_change_prices_the_past:
  "let c = tc_advance capped_tariff
        ((pricing_context_new 3600000000000)\<lparr>pc_energy_mwh := 1000000, pc_charging := True\<rparr>)
        (tc_start (tariff_new ''free'' ''EUR'') (pricing_context_new 0) None)
   in raw_total c = \<lparr>cost_excl_tax = 250000, cost_incl_tax = 250000\<rparr>
     \<and> map (\<lambda>p. (cp_tariff_id p, cp_start p, cp_energy_mwh p)) (tc_periods c)
         = [(''free'', 0, 0), (''A'', 3600000000000, 1000000)]"
  by code_simp

end
