(* ===== verification/Publication.thy ===== *)
theory Publication
  imports Store_Bounds Fault_Cascade
begin

text \<open>
  When the actor publishes its state.  \<open>actor/charge_point_actor.rs\<close> hands the state to its
  readers only on the effect \<open>StateChanged\<close>, so an event that changes the state without it leaves
  every reader with an old snapshot.  The handler reports a change whenever it makes one, for all
  events but a few, which are named here.
\<close>

section \<open>The stages of the connector handler\<close>

text \<open>The connector events whose change the handler may not report: a revoked identifier that is
  granted an allowance, a meter sample equal to the last one, a second reservation of a reserved
  connector, and a transaction limit none of whose parts is supported.\<close>

definition silent_connector_event :: "connector_event \<Rightarrow> bool" where
  "silent_connector_event ev =
     (ev = AuthorizationRevoked \<or> (\<exists>x. ev = MeterValueSampled x) \<or> (\<exists>r. ev = ReservedFor r)
      \<or> (\<exists>l b. ev = TransactionLimitSet l b))"

text \<open>Writing into a vector what it holds changes nothing.\<close>

lemma evse_same:
  "connectors e ! c = x1 \<Longrightarrow> e\<lparr>connectors := (connectors e)[c := x1]\<rparr> = e"
  "transactions e ! c = x2 \<Longrightarrow> e\<lparr>transactions := (transactions e)[c := x2]\<rparr> = e"
  "latest_meter_samples e ! c = x3 \<Longrightarrow> e\<lparr>latest_meter_samples := (latest_meter_samples e)[c := x3]\<rparr> = e"
  "applied_charging_limits e ! c = x4 \<Longrightarrow> e\<lparr>applied_charging_limits := (applied_charging_limits e)[c := x4]\<rparr> = e"
  "pending_remote_starts e ! c = x5 \<Longrightarrow> e\<lparr>pending_remote_starts := (pending_remote_starts e)[c := x5]\<rparr> = e"
  by auto

lemma honoured_same:
  "vec_slot (honoured_reservations e) c = None \<Longrightarrow>
   e\<lparr>honoured_reservations := (honoured_reservations e)[c := None]\<rparr> = e"
  by (cases "c < length (honoured_reservations e)")
    (auto simp: list_update_beyond intro!: evse_state.equality nth_equalityI simp: nth_list_update)

lemma stage_silent:
  "\<not> silent_connector_event ev \<Longrightarrow> allowance_stage policy c ev e = e"
  "limit_set_stage sl c ev e = (e', False) \<Longrightarrow> e' = e"
  "elapsed_stage c ev e = (e', False) \<Longrightarrow> e' = e"
  "sample_stage c ev e = (e', False) \<Longrightarrow> e' = e"
  "current_limit_stage i c ev e = (e', False, effs) \<Longrightarrow> e' = e"
  "confirmed_limit_stage c ev e = (e', False) \<Longrightarrow> e' = e"
  "cost_stage c ev e = (e', False) \<Longrightarrow> e' = e"
  "tariff_stage c ev e = (e', False) \<Longrightarrow> e' = e"
  "running_cost_stage c ev e = (e', False) \<Longrightarrow> e' = e"
  by (auto simp: allowance_stage_def silent_connector_event_def limit_set_stage_def elapsed_stage_def
      update_slot_def sample_stage_def evse_same current_limit_stage_def confirmed_limit_stage_def
      cost_stage_def tariff_stage_def running_cost_stage_def Let_def
      split: connector_event.splits if_splits option.splits)

lemma reservation_stage_silent:
  assumes "reservation_stage c ev st st e = (e', effs)" and "\<not> silent_connector_event ev"
    and "st = Available \<Longrightarrow> vec_slot (honoured_reservations e) c = None"
  shows "e' = e"
  using assms(1,2) assms(3) [THEN honoured_same]
  by (auto simp: reservation_stage_def silent_connector_event_def split: if_splits connector_event.splits)

lemma pending_stage_silent:
  "pending_stage c ev st st e = (e', False, dispatch) \<Longrightarrow> e' = e \<and> dispatch = None"
  by (auto simp: pending_stage_def set_pending_def evse_same dest!: vec_get_SomeD
      split: option.splits if_splits)

lemma advance_transaction_silent:
  assumes "advance_transaction slot n st st reason origin points = (slot', n', happened)"
    and "st = Faulted \<longrightarrow> slot = None"
  shows "slot' = slot \<and> n' = n \<and> happened = None"
  using assms
  by (cases "points_start points"; cases "points_stop points")
    (auto simp: advance_transaction_def update_transaction_def record_stop_reason_def Let_def
      split: if_splits option.splits)

lemma transaction_stage_silent:
  assumes "transaction_stage i c ev st st origin points n e = (e', n', effs)"
    and "\<not> silent_connector_event ev" and "st = Faulted \<longrightarrow> vec_slot (transactions e) c = None"
  shows "e' = e \<and> n' = n"
proof (cases "vec_get (transactions e) c")
  case None
  with assms(1) show ?thesis by (simp add: transaction_stage_def)
next
  case (Some slot)
  then have slot: "transactions e ! c = slot" "vec_slot (transactions e) c = slot"
    by (auto dest!: vec_get_SomeD)
  obtain slot1 n1 happened where
    adv: "advance_transaction slot n st st (event_stop_reason ev) origin points = (slot1, n1, happened)"
    by (metis prod_cases3)
  have "event_sample ev = None"
    using assms(2) by (auto simp: silent_connector_event_def event_sample_def split: connector_event.splits)
  with advance_transaction_silent [OF adv] assms(1,3) Some adv slot show ?thesis
    by (auto simp: transaction_stage_def Let_def evse_same)
qed

lemma evse_step_silent:
  assumes "evse_step policy sl i c ev n e = (e', n', effs, out)" and "\<not> out_changed out"
    and "\<not> silent_connector_event ev"
    and "connectors e ! c = Available \<Longrightarrow> vec_slot (honoured_reservations e) c = None"
    and "connectors e ! c = Faulted \<Longrightarrow> vec_slot (transactions e) c = None"
  shows "e' = e \<and> n' = n \<and> out_dispatch out = None \<and> \<not> out_cost_recorded out
    \<and> (\<forall>secs. ev = TransactionElapsed secs \<longrightarrow> vec_slot (transactions e) c = None)"
proof (rule evse_stepE [OF assms(1)], goal_cases)
  case (1 new tr e1 re e3 limit_set e4 elapsed e5 pc dispatch e6 eff6 e7 sr e8 lc eff8 e10 con e11 cr e12 tar rcr)
  have flags: "\<not> transition_changed tr" "\<not> limit_set" "\<not> elapsed" "\<not> pc" "\<not> sr" "\<not> lc" "\<not> con" "\<not> cr"
    "\<not> tar" "\<not> rcr"
    using assms(2) 1(14) by simp_all
  have same: "new = connectors e ! c"
    using 1(1) flags(1) by (auto simp: connector_apply_def Let_def split: prod.splits)
  have e1: "e1 = e"
    using reservation_stage_silent [OF 1(2) [unfolded same evse_same(1) [OF refl]] assms(3,4)] by simp
  have e3: "e3 = e" using stage_silent(1) [OF assms(3)] stage_silent(2) 1(3) flags e1 by metis
  have e4: "e4 = e" using stage_silent(3) 1(4) flags e3 by metis
  have elapsed: "vec_slot (transactions e) c = None" if "ev = TransactionElapsed secs" for secs
    using 1(4) flags(3) that e3 by (simp add: elapsed_stage_def)
  have pending: "e5 = e" "dispatch = None" using pending_stage_silent 1(5) flags same e4 by metis+
  have transaction: "e6 = e" "n' = n"
    using transaction_stage_silent [OF 1(6) [unfolded same pending(1)] assms(3)] assms(5) by simp_all
  have "e' = e"
    using stage_silent(4-9) 1(7-12) flags transaction(1) by metis
  then show ?case using transaction(2) pending(2) 1(14) flags elapsed by simp
qed

section \<open>The connector handler\<close>

definition honoured_at :: "charge_point_state \<Rightarrow> usize \<Rightarrow> usize \<Rightarrow> i64 option" where
  "honoured_at s i c = (case vec_get (evses s) i of None \<Rightarrow> None | Some e \<Rightarrow> vec_slot (honoured_reservations e) c)"

text \<open>A free connector honours no reservation, and a faulted one has no transaction.\<close>

definition settled :: "charge_point_state \<Rightarrow> bool" where
  "settled s = (faulted_clear s \<and> (\<forall>i c. connector_at s i c = Some Available \<longrightarrow> honoured_at s i c = None))"

lemma lock_problem_silent: "lock_problem_stage i c ev new s = (s', False, effs) \<Longrightarrow> s' = s"
  by (auto simp: lock_problem_stage_def set_plug_retention_lock_problem_def Let_def split: if_splits)

lemma connector_step_silent:
  assumes "connector_step i c ev s = Some (s', effs, out)" and "\<not> out_changed out"
    and "\<not> silent_connector_event ev" and "settled s"
  shows "s' = s \<and> out_dispatch out = None \<and> \<not> out_cost_recorded out
    \<and> (\<forall>secs. ev = TransactionElapsed secs \<longrightarrow> transaction_at s i c = None)"
  using assms(1)
proof (rule connector_stepE)
  fix e e1 next1 effects1 out1 lock_changed lock_effects
  assume e: "i < length (evses s)" "e = evses s ! i" "c < length (connectors e)"
    and step: "evse_step (connector_policy_of s) (string_variable ''TxCtrlr'' ''SupportedLimits'' s)
          i c ev (next_transaction_id s) e = (e1, next1, effects1, out1)"
    and lock: "lock_problem_stage i c ev (connectors e1 ! c)
          (s\<lparr>evses := (evses s)[i := e1], next_transaction_id := next1\<rparr>) = (s', lock_changed, lock_effects)"
    and out: "out = out1\<lparr>out_changed := out_changed out1 \<or> lock_changed\<rparr>"
  have here: "connector_at s i c = Some (connectors e ! c)" "honoured_at s i c = vec_slot (honoured_reservations e) c"
    "transaction_at s i c = vec_slot (transactions e) c"
    using e by (simp_all add: connector_at_def honoured_at_def transaction_at_def)
  have "e1 = e \<and> next1 = next_transaction_id s \<and> out_dispatch out1 = None \<and> \<not> out_cost_recorded out1
    \<and> (\<forall>secs. ev = TransactionElapsed secs \<longrightarrow> vec_slot (transactions e) c = None)"
    by (rule evse_step_silent [OF step _ assms(3)])
      (use assms(2,4) out here in \<open>auto simp: settled_def faulted_clear_def session_at_def session_of_def\<close>)
  then show ?thesis
    using lock_problem_silent lock assms(2) out e here by auto
qed

lemma connector_event_silent:
  assumes "apply_connector_event i c ev s = (s', effs, False)" and "\<not> silent_connector_event ev" and "settled s"
  shows "s' = s"
proof (cases "connector_step i c ev s")
  case None
  with assms(1) show ?thesis by (simp add: apply_connector_event.simps)
next
  case (Some r)
  obtain s1 effects1 out where r: "r = (s1, effects1, out)" by (cases r)
  with Some have step: "connector_step i c ev s = Some (s1, effects1, out)" by simp
  have spent: "\<not> allowance_spent i c ev s1"
    using assms(2) by (auto simp: allowance_spent_def event_sample_def silent_connector_event_def
        split: connector_event.splits)
  have False_out: "\<not> out_changed out"
    using assms(1) step spent
    by (auto simp: apply_connector_event.simps [of i c ev s] split: option.splits prod.splits if_splits)
  note silent = connector_step_silent [OF step False_out assms(2,3)]
  have "enforce_transaction_limit i c s = (s, [])" if relevant: "limit_relevant ev"
  proof -
    obtain secs where "ev = TransactionElapsed secs"
      using relevant assms(2) by (cases ev) (auto simp: limit_relevant_def silent_connector_event_def)
    with silent have "transaction_at s i c = None" by simp
    then have "limit_decision_of i c s = NoLimitChange"
      by (cases "vec_get (evses s) i") (simp_all add: limit_decision_of_def transaction_at_def)
    then show ?thesis by (simp add: enforce_transaction_limit.simps)
  qed
  with silent spent assms(1) step show ?thesis
    by (auto simp: apply_connector_event.simps [of i c ev s] split: if_splits)
qed

section \<open>Settled states\<close>

lemma update_slot_honoured [simp]: "honoured_reservations (update_slot c f e) = honoured_reservations e"
  by (simp add: update_slot_def split: option.splits)

lemma stages_honoured:
  "honoured_reservations (allowance_stage policy c ev e) = honoured_reservations e"
  "limit_set_stage sl c ev e = (e', b) \<Longrightarrow> honoured_reservations e' = honoured_reservations e"
  "elapsed_stage c ev e = (e', b) \<Longrightarrow> honoured_reservations e' = honoured_reservations e"
  "pending_stage c ev prev new e = (e', b, dispatch) \<Longrightarrow> honoured_reservations e' = honoured_reservations e"
  "transaction_stage i c ev prev new origin points n e = (e', n', effs) \<Longrightarrow> honoured_reservations e' = honoured_reservations e"
  "sample_stage c ev e = (e', b) \<Longrightarrow> honoured_reservations e' = honoured_reservations e"
  "current_limit_stage i c ev e = (e', b, effs) \<Longrightarrow> honoured_reservations e' = honoured_reservations e"
  "confirmed_limit_stage c ev e = (e', b) \<Longrightarrow> honoured_reservations e' = honoured_reservations e"
  "cost_stage c ev e = (e', b) \<Longrightarrow> honoured_reservations e' = honoured_reservations e"
  "tariff_stage c ev e = (e', b) \<Longrightarrow> honoured_reservations e' = honoured_reservations e"
  "running_cost_stage c ev e = (e', b) \<Longrightarrow> honoured_reservations e' = honoured_reservations e"
  by (auto simp: allowance_stage_def limit_set_stage_def elapsed_stage_def pending_stage_def set_pending_def
      transaction_stage_def clear_costs_def sample_stage_def current_limit_stage_def confirmed_limit_stage_def
      cost_stage_def tariff_stage_def running_cost_stage_def Let_def
      split: connector_event.splits if_splits option.splits prod.splits transaction_event_kind.splits)

lemma reservation_stage_honoured:
  assumes "reservation_stage c ev prev new e = (e', effs)"
  shows "new = Available \<Longrightarrow> vec_slot (honoured_reservations e') c = None"
    and "d \<noteq> c \<Longrightarrow> vec_slot (honoured_reservations e') d = vec_slot (honoured_reservations e) d"
  using assms
  by (auto simp: reservation_stage_def reservation_end_def vec_slot_def vec_get_def Let_def
      split: if_splits connector_event.splits option.splits)

lemma evse_step_honoured:
  assumes "evse_step policy sl i c ev n e = (e', n', effs, out)"
  shows "fst (connector_next (connectors e ! c) ev policy) = Available \<Longrightarrow> vec_slot (honoured_reservations e') c = None"
    and "d \<noteq> c \<Longrightarrow> vec_slot (honoured_reservations e') d = vec_slot (honoured_reservations e) d"
proof -
  have "(fst (connector_next (connectors e ! c) ev policy) = Available \<longrightarrow> vec_slot (honoured_reservations e') c = None)
    \<and> (d \<noteq> c \<longrightarrow> vec_slot (honoured_reservations e') d = vec_slot (honoured_reservations e) d)"
  proof (rule evse_stepE [OF assms], goal_cases)
    case (1 new tr e1 re e3 limit_set e4 elapsed e5 pc dispatch e6 eff6 e7 sr e8 lc eff8 e10 con e11 cr e12 tar rcr)
    have "new = fst (connector_next (connectors e ! c) ev policy)"
      using 1(1) by (auto simp: connector_apply_def Let_def split: prod.splits)
    moreover have "honoured_reservations e' = honoured_reservations e1"
      using stages_honoured(2) [OF 1(3)] stages_honoured(3) [OF 1(4)] stages_honoured(4) [OF 1(5)]
        stages_honoured(5) [OF 1(6)] stages_honoured(6) [OF 1(7)] stages_honoured(7) [OF 1(8)]
        stages_honoured(8) [OF 1(9)] stages_honoured(9) [OF 1(10)] stages_honoured(10) [OF 1(11)]
        stages_honoured(11) [OF 1(12)]
      by (simp add: stages_honoured(1))
    ultimately show ?case using reservation_stage_honoured [OF 1(2)] by simp
  qed
  then show "fst (connector_next (connectors e ! c) ev policy) = Available \<Longrightarrow> vec_slot (honoured_reservations e') c = None"
    and "d \<noteq> c \<Longrightarrow> vec_slot (honoured_reservations e') d = vec_slot (honoured_reservations e) d" by simp_all
qed

lemma settled_connector_step:
  assumes "connector_step i c ev s = Some (s', effs, out)" and "settled s"
  shows "settled s'"
proof -
  from assms(1) obtain e e' effects1 out1 where
    st: "i < length (evses s)" "e = evses s ! i" "c < length (connectors e)" and
    step: "evse_step (connector_policy_of s) (string_variable ''TxCtrlr'' ''SupportedLimits'' s)
          i c ev (next_transaction_id s) e = (e', next_transaction_id s', effects1, out1)" and
    s': "evses s' = (evses s)[i := e']"
    by (rule connector_step_evse)
  from assms(1) obtain old where
    old: "connector_at s i c = Some old" and
    new: "connector_at s' i c = Some (fst (connector_next old ev (connector_policy_of s)))" and
    other: "\<forall>i' c'. (i', c') \<noteq> (i, c) \<longrightarrow> connector_at s' i' c' = connector_at s i' c'"
    by (rule connector_step_connector)
  have old_e: "old = connectors e ! c" using old st by (simp add: connector_at_def)
  have honoured: "honoured_at s' j d = (if j = i then vec_slot (honoured_reservations e') d else honoured_at s j d)" for j d
    using st(1) by (cases "j < length (evses s)") (auto simp: honoured_at_def s' nth_list_update)
  have here: "honoured_at s i d = vec_slot (honoured_reservations e) d" for d
    using st by (simp add: honoured_at_def)
  have "honoured_at s' j d = None" if "connector_at s' j d = Some Available" for j d
  proof (cases "(j, d) = (i, c)")
    case True
    with that new evse_step_honoured(1) [OF step] old_e show ?thesis by (auto simp: honoured)
  next
    case False
    with that other assms(2) have "honoured_at s j d = None" by (auto simp: settled_def)
    with False evse_step_honoured(2) [OF step, of d] here [of d] show ?thesis by (auto simp: honoured)
  qed
  with connector_step_tracks(3) [OF assms(1)] assms(2) show ?thesis by (simp add: settled_def)
qed

lemma settled_quiet:
  "settled s \<Longrightarrow> quiet s effs s' \<Longrightarrow> (\<And>i c. honoured_at s' i c = honoured_at s i c) \<Longrightarrow> settled s'"
  by (simp add: settled_def faulted_clear_def quiet_def)

lemma honoured_at_update_evse:
  "(\<And>e. honoured_reservations (f e) = honoured_reservations e) \<Longrightarrow> honoured_at (update_evse i f s) j c = honoured_at s j c"
  by (auto simp: honoured_at_def update_evse_def vec_get_def nth_list_update)

lemma honoured_at_fields [simp]:
  "honoured_at (s\<lparr>station_external_limit := x\<rparr>) i c = honoured_at s i c"
  "honoured_at (s\<lparr>station_local_generation_limit := x\<rparr>) i c = honoured_at s i c"
  by (simp_all add: honoured_at_def)

lemma evse_apply_honoured: "honoured_reservations (fst (evse_apply ev e)) = honoured_reservations e"
  by (cases ev) (simp_all add: evse_apply_def evse_set_status_def)

interpretation settled_handler: handler_relation "\<lambda>_. True" "\<lambda>s _ s'. settled s \<longrightarrow> settled s'"
proof
  show "settled s \<longrightarrow> settled s'" if "connector_step i c ev s = Some (s', effects, out)" for i c ev s s' effects out
    using that settled_connector_step by blast
  show "settled s \<longrightarrow> settled s'" if "request_current_limit i c l s = (s', effects)" for i c l s s' effects
  proof -
    have "honoured_at s' j d = honoured_at s j d" for j d
      using that by (auto simp: request_current_limit_def honoured_at_update_evse split: option.splits if_splits)
    then show ?thesis using settled_quiet [OF _ request_current_limit_quiet [OF that]] by blast
  qed
  show "settled s \<longrightarrow> settled s'" if "mark_limit_reached i c kind s = (s', effects)" for i c kind s s' effects
  proof
    assume "settled s"
    moreover have "faulted_clear s'"
      using \<open>settled s\<close> micro_faulted_clear [OF micro.marked [OF that]] by (auto simp: settled_def)
    moreover have "honoured_at s' j d = honoured_at s j d" for j d
      using that by (auto simp: mark_limit_reached_def Let_def honoured_at_update_evse)
    moreover have "connector_at s' j d = connector_at s j d" for j d using mark_limit_reached_evse [OF that] by blast
    ultimately show "settled s'" by (simp add: settled_def)
  qed
  show "settled s \<longrightarrow> settled (clear_limit_reached i c s)" for i c s
    using settled_quiet [OF _ clear_limit_reached_quiet]
    by (simp add: clear_limit_reached_def honoured_at_update_evse)
  show "settled s \<longrightarrow> settled s'" if "apply_to_evse i eev s = (s', b)" for i eev s s' b
  proof -
    have "s' = s \<or> s' = update_evse i (\<lambda>e. fst (evse_apply eev e)) s"
      using that by (auto simp: apply_to_evse_def update_evse_def dest!: vec_get_SomeD split: option.splits)
    then have "honoured_at s' j d = honoured_at s j d" for j d
      by (auto simp: honoured_at_update_evse evse_apply_honoured)
    then show ?thesis using settled_quiet [OF _ quiet_apply_to_evse [OF that]] by blast
  qed
qed auto

section \<open>Every reachable state is settled\<close>

lemma settled_evses: "evses s' = evses s \<Longrightarrow> settled s \<Longrightarrow> settled s'"
  by (simp add: settled_def faulted_clear_def connector_at_def session_at_def transaction_at_def honoured_at_def)

lemma settled_fields:
  assumes "settled s"
  shows "priority_charging_set t on locally s = (s', effs, b) \<Longrightarrow> settled s'"
    and "set_external_charging_limit target limit s = (s', effs, b) \<Longrightarrow> settled s'"
    and "clear_external_charging_limit target source lg s = (s', effs, b) \<Longrightarrow> settled s'"
proof -
  show "settled s'" if "priority_charging_set t on locally s = (s', effs, b)"
    by (rule settled_quiet [OF assms quiet_priority [OF that]])
      (use that in \<open>auto simp: priority_charging_set_def Let_def honoured_at_update_evse split: option.splits\<close>)
  show "settled s'" if "set_external_charging_limit target limit s = (s', effs, b)"
    by (rule settled_quiet [OF assms quiet_external_limits(1) [OF that]])
      (use that in \<open>auto simp: set_external_charging_limit_def Let_def honoured_at_update_evse
        split: option.splits if_splits\<close>)
  show "settled s'" if "clear_external_charging_limit target source lg s = (s', effs, b)"
    by (rule settled_quiet [OF assms quiet_external_limits(2) [OF that]])
      (use that in \<open>auto simp: clear_external_charging_limit_def Let_def honoured_at_update_evse
        split: option.splits if_splits\<close>)
qed

lemma settled_cascades:
  assumes "settled s"
  shows "station_fault detected s = (s', effs, b) \<Longrightarrow> settled s'"
    and "reset_requested target kind s = (s', effs, b) \<Longrightarrow> settled s'"
    and "restore_reservations rs s = (s', effs, b) \<Longrightarrow> settled s'"
    and "evse_event_applied i eev s = (s', effs, b) \<Longrightarrow> settled s'"
proof -
  have fields: "settled (s\<lparr>lifecycle := l\<rparr>)" "settled (s\<lparr>pending_reset_of := p\<rparr>)" for l p
    by (rule settled_evses [OF _ assms]; simp)+
  show "settled s'" if "station_fault detected s = (s', effs, b)"
  proof -
    from that obtain l b' where "cascade_evses [0 ..< length (evses s)] detected (s\<lparr>lifecycle := l\<rparr>) = (s', effs, b')"
      by (auto simp: station_fault_def cascade_charge_point_fault_def set_lifecycle_def Let_def split: prod.splits)
    from settled_handler.cascade [OF this] fields(1) show ?thesis by simp
  qed
  show "settled s'" if "reset_requested target kind s = (s', effs, b)"
  proof (cases "kind = Immediate")
    case True
    with that obtain xs p b' where "apply_each xs (s\<lparr>pending_reset_of := p\<rparr>) = (s', effs, b')"
      by (auto simp: reset_requested_def Let_def split: prod.splits)
    from settled_handler.each [OF this] fields(2) show ?thesis by simp
  next
    case False
    with that fields(2) show ?thesis by (auto simp: reset_requested_def Let_def)
  qed
  show "settled s'" if "restore_reservations rs s = (s', effs, b)"
    using settled_handler.reservations [OF that] assms by simp
  show "settled s'" if "evse_event_applied i eev s = (s', effs, b)"
    using that assms settled_handler.handler(1) settled_handler.cascade_evse settled_handler.Q_status
    by (cases eev) (auto simp: evse_event_applied_def split: prod.splits)
qed

lemma store_event_evses:
  assumes "apply_event rfc ev s = Some (s', effects, b)" and "store_event ev"
  shows "evses s' = evses s"
  using assms
  by (cases ev)
    (auto simp: store_event_def set_lifecycle_def registration_received_def attribute_value_set_def
      replace_local_authorization_list_def memory_exhaustion_def network_profile_set_def
      network_profiles_restored_def customer_information_erased_def charging_profile_set_def
      profiles_restored_def tariff_default_set_def variable_registered_def clock_synced_def
      monitoring_event_def Let_def frame_simps
      split: prod.splits if_splits sum.splits option.splits device_model_event.splits)

lemma settled_event:
  assumes "apply_event rfc ev s = Some (s', effects, b)" and "settled s"
  shows "settled s'"
proof (cases "store_event ev")
  case True
  from store_event_evses [OF assms(1) this] assms(2) show ?thesis by (rule settled_evses)
next
  case False
  have "settled s'" if "transactions_restored n xs s = (s', effects, b)" for n xs
    by (rule settled_evses [OF _ assms(2)]) (use that in \<open>auto simp: transactions_restored_def Let_def\<close>)
  with False assms(1) show ?thesis
    by (cases ev) (auto simp: store_event_def intro: settled_cascades [OF assms(2)] settled_fields [OF assms(2)])
qed

lemma reachable_settled: "reachable rfc counts limits s \<Longrightarrow> settled s"
proof (induction rule: reachable.induct)
  case start
  have "honoured_at (cp_with_limits counts limits) i c = None" for i c
    by (auto simp: honoured_at_def cp_with_limits_def evse_new_def vec_slot_def vec_get_def)
  then show ?case by (simp add: settled_def)
next
  case (step s ev s' effects)
  from step(2) obtain s1 effects1 b effects2 where "apply_event rfc ev s = Some (s1, effects1, b)"
    and reset: "check_pending_reset (sync_variables s1) = Some (s', effects2)"
    by (auto simp: cp_apply_def split: option.splits)
  then have "settled s1" using step.IH settled_event by blast
  moreover have "evses s' = evses s1"
    using reset by (auto simp: check_pending_reset_def frame_simps split: option.splits if_splits)
  ultimately show ?case by (blast intro: settled_evses)
qed

section \<open>The stores report their changes\<close>

lemma filter_same_length: "length (filter P xs) = length xs \<Longrightarrow> filter P xs = xs"
  by (metis filter_True length_filter_less less_irrefl)

lemma filter_all_kept: "length xs \<le> length (filter P xs) \<Longrightarrow> filter P xs = xs"
  by (rule filter_same_length) (simp add: le_antisym)

lemma store_silent:
  "network_set n p ns = (ns', False) \<Longrightarrow> ns' = ns"
  "cache_clear cc = (cc', 0) \<Longrightarrow> cc' = cc"
  "cache_forget t cc = (cc', False) \<Longrightarrow> cc' = cc"
  "local_list_forget t l = (l', False) \<Longrightarrow> l' = l"
  "profile_clear cr ps = (ps', 0) \<Longrightarrow> ps' = ps"
  "tariff_clear tcr ts = (ts', 0) \<Longrightarrow> ts' = ts"
  "stream_put v ss = (ss', False) \<Longrightarrow> ss' = ss"
  "stream_close j ss = (ss', False) \<Longrightarrow> ss' = ss"
  "stream_adjust j params ss = (ss', False) \<Longrightarrow> ss' = ss"
  "message_set m ms = (ms', False) \<Longrightarrow> ms' = ms"
  "message_clear k ms = (ms', False) \<Longrightarrow> ms' = ms"
  "swap_insert w bs = (bs', False) \<Longrightarrow> bs' = bs"
  "swap_remove r bs = (bs', None) \<Longrightarrow> bs' = bs"
  "der_put d ds = (ds', False) \<Longrightarrow> ds' = ds"
  "der_clear q ds = (ds', []) \<Longrightarrow> ds' = ds"
  subgoal by (auto simp: network_set_def Let_def split: if_splits option.splits)
  subgoal by (auto simp: cache_clear_def)
  subgoal by (auto simp: cache_forget_def Let_def dest!: filter_same_length)
  subgoal by (auto simp: local_list_forget_def Let_def dest!: filter_same_length split: if_splits)
  subgoal by (auto simp: profile_clear_def Let_def dest!: filter_all_kept)
  subgoal by (auto simp: tariff_clear_def Let_def dest!: filter_all_kept)
  subgoal by (auto simp: stream_put_def stream_open_def Let_def split: if_splits option.splits sum.splits)
  subgoal by (auto simp: stream_close_def Let_def dest!: filter_same_length split: if_splits)
  subgoal by (auto simp: stream_adjust_def Let_def split: if_splits)
  subgoal by (auto simp: message_set_def Let_def split: if_splits)
  subgoal by (auto simp: message_clear_def Let_def dest!: filter_same_length)
  subgoal by (auto simp: swap_insert_def Let_def split: if_splits)
  subgoal by (auto simp: swap_remove_def Let_def split: if_splits option.splits)
  subgoal by (auto simp: der_put_def der_install_def Let_def split: if_splits sum.splits)
  subgoal by (auto simp: der_clear_def filter_empty_conv)
  done

lemma bt_remove_missing: "bt_get m k = None \<Longrightarrow> bt_remove k m = m"
  by (induction m) (auto simp: bt_get_def bt_remove_def split: if_splits)

lemma variable_silent:
  "dm_register cmp v ch attrs m = (m', False) \<Longrightarrow> m' = m"
  "dm_set_attribute_value cmp v ty x m = (m', False) \<Longrightarrow> m' = m"
  "apply_dynamic_update k limit upd ps = (ps', False) \<Longrightarrow> ps' = ps"
  "monitor_set j cmp v t y sev vs = (vs', False) \<Longrightarrow> vs' = vs"
  "monitor_clear j vs = (vs', False) \<Longrightarrow> vs' = vs"
  "monitor_set_base base vs = (vs', False) \<Longrightarrow> vs' = vs"
  "monitor_set_level sev vs = (vs', False) \<Longrightarrow> vs' = vs"
  subgoal by (auto simp: dm_register_def Let_def split: if_splits)
  subgoal by (auto simp: dm_set_attribute_value_def split: if_splits option.splits)
  subgoal by (auto simp: apply_dynamic_update_def split: if_splits option.splits)
  subgoal by (auto simp: monitor_set_def Let_def split: if_splits)
  subgoal by (auto simp: monitor_clear_def bt_remove_missing)
  subgoal by (auto simp: monitor_set_base_def Let_def split: monitoring_base.splits)
  subgoal by (auto simp: monitor_set_level_def)
  done

lemma restored_silent:
  "restore_attributes as m = (m', False) \<Longrightarrow> m' = m"
  "restore_profiles n xs ps = (ps', False, r) \<Longrightarrow> ps' = ps"
proof -
  show "restore_attributes as m = (m', False) \<Longrightarrow> m' = m"
    by (induction as m rule: restore_attributes.induct)
      (auto split: prod.splits dest: variable_silent(2))
  show "restore_profiles n xs ps = (ps', False, r) \<Longrightarrow> ps' = ps"
    by (induction n xs ps arbitrary: r rule: restore_profiles.induct)
      (auto split: if_splits sum.splits prod.splits)
qed

section \<open>The other handlers\<close>

lemma evse_apply_silent: "\<not> snd (evse_apply eev e) \<Longrightarrow> fst (evse_apply eev e) = e"
  by (cases eev) (auto simp: evse_apply_def evse_set_status_def)

lemma apply_to_evse_silent: "apply_to_evse i eev s = (s', False) \<Longrightarrow> s' = s"
  by (auto simp: apply_to_evse_def evse_apply_silent dest!: vec_get_SomeD split: option.splits)

lemma apply_each_silent:
  assumes "apply_each xs s = (s', effs, False)" and "settled s"
    and "\<forall>x\<in>set xs. \<not> silent_connector_event (snd (snd x))"
  shows "s' = s"
  using assms
proof (induction xs s arbitrary: effs rule: apply_each.induct)
  case (2 i c ev rest s)
  obtain s1 effs1 b1 where 1: "apply_connector_event i c ev s = (s1, effs1, b1)" by (metis prod_cases3)
  with 2(2) obtain effs2 where rest: "apply_each rest s1 = (s', effs2, False)" and "\<not> b1"
    by (auto split: prod.splits)
  with 1 2(3,4) have "s1 = s" using connector_event_silent by auto
  with 2 1 rest show ?case by auto
qed simp

lemma cascade_evse_silent:
  assumes "cascade_evse_fault i detected s = (s', effs, False)" and "settled s"
  shows "s' = s"
proof -
  let ?eev = "if detected then EvseFaultDetected else EvseFaultCleared"
  obtain s1 b1 where 1: "apply_to_evse i ?eev s = (s1, b1)" by (metis surj_pair)
  with assms(1) have "\<not> b1" by (auto simp: cascade_evse_fault_def Let_def split: prod.splits)
  with 1 have "s1 = s" using apply_to_evse_silent by auto
  with assms 1 \<open>\<not> b1\<close> show ?thesis
    by (auto simp: cascade_evse_fault_def Let_def silent_connector_event_def split: prod.splits if_splits
        elim!: apply_each_silent)
qed

lemma cascade_silent:
  "cascade_evses is detected s = (s', effs, False) \<Longrightarrow> settled s \<Longrightarrow> s' = s"
proof (induction "is" detected s arbitrary: effs rule: cascade_evses.induct)
  case (2 i "is" detected s)
  obtain s1 effs1 b1 where 1: "cascade_evse_fault i detected s = (s1, effs1, b1)" by (metis prod_cases3)
  with 2(2) obtain effs2 where rest: "cascade_evses is detected s1 = (s', effs2, False)" and "\<not> b1"
    by (auto split: prod.splits)
  with 1 2(3) have "s1 = s" using cascade_evse_silent by auto
  with 2 1 rest show ?case by auto
qed simp

lemma station_fault_silent:
  assumes "station_fault detected s = (s', effs, False)" and "settled s"
  shows "s' = s"
proof -
  have "s\<lparr>lifecycle := if detected then LifeFaulted else LifeUnavailable\<rparr> = s"
    using assms(1) by (auto simp: station_fault_def set_lifecycle_def Let_def split: prod.splits if_splits)
  with assms show ?thesis
    by (auto simp: station_fault_def set_lifecycle_def cascade_charge_point_fault_def Let_def
        split: prod.splits elim!: cascade_silent)
qed

text \<open>A reservation of a free connector always changes its state.\<close>

lemma reserved_free:
  assumes "connector_at s i c = Some Available"
    and "apply_connector_event i c (ReservedFor r) s = (s', effs, b)"
  shows "b"
proof -
  obtain s1 effects1 out where step: "connector_step i c (ReservedFor r) s = Some (s1, effects1, out)"
    using assms(1) connector_step_None [of i c "ReservedFor r" s]
    by (cases "connector_step i c (ReservedFor r) s") auto
  have "out_changed out"
    using step
  proof (rule connector_stepE)
    fix e e1 next1 effects1 out1 lock_changed
    assume e: "e = evses s ! i" "i < length (evses s)"
      and evse: "evse_step (connector_policy_of s) (string_variable ''TxCtrlr'' ''SupportedLimits'' s)
          i c (ReservedFor r) (next_transaction_id s) e = (e1, next1, effects1, out1)"
      and out: "out = out1\<lparr>out_changed := out_changed out1 \<or> lock_changed\<rparr>"
    have "connectors e ! c = Available" using assms(1) e by (auto simp: connector_at_def vec_get_def split: if_splits)
    then have "out_changed out1"
      using evse by (rule_tac evse_stepE [OF evse]) (auto simp: connector_apply_def Let_def)
    then show ?thesis by (simp add: out)
  qed
  with assms(2) step show ?thesis
    by (auto simp: apply_connector_event.simps [of i c "ReservedFor r" s] split: prod.splits if_splits option.splits)
qed

lemma reservations_silent: "restore_reservations rs s = (s', effs, False) \<Longrightarrow> s' = s"
proof (induction rs s arbitrary: effs rule: restore_reservations.induct)
  case (2 r rs s)
  then show ?case
    using reserved_free [of s "recovered_res_evse r" "recovered_res_connector r" "recovered_res r"]
    by (auto split: if_splits prod.splits)
qed simp

lemma priority_silent:
  assumes "priority_charging_set t on locally s = (s', effs, False)"
  shows "s' = s"
proof (cases "List.find (\<lambda>(_, _, slot). is_some_and slot (\<lambda>x. tx_id x = t)) (all_transactions s)")
  case None
  with assms show ?thesis by (simp add: priority_charging_set_def)
next
  case (Some r)
  obtain i c slot where r: "r = (i, c, slot)" by (cases r)
  with Some have here: "(i, c, slot) \<in> set (all_transactions s)" and "slot \<noteq> None"
    by (auto simp: find_Some_iff is_some_and_def split: option.splits) (metis nth_mem)
  then obtain x where x: "slot = Some x" "tx_priority_charging x = on"
    using assms Some r by (auto simp: priority_charging_set_def is_some_and_def Let_def)
  have slot: "i < length (evses s)" "c < length (transactions (evses s ! i))" "transactions (evses s ! i) ! c = slot"
    using here by (auto simp: all_transactions_def in_set_enumerate_eq)
  then have "update_slot c (\<lambda>t. t\<lparr>tx_priority_charging := on\<rparr>) (evses s ! i) = evses s ! i"
    using x by (auto simp: update_slot_def vec_get_def intro!: evse_same)
  with assms Some r x slot show ?thesis
    by (auto simp: priority_charging_set_def update_evse_def is_some_and_def Let_def)
qed

text \<open>The events after which the handler may report no change although it made one.\<close>

definition silent_event :: "charge_point_event \<Rightarrow> bool" where
  "silent_event ev =
     ((\<exists>i c cev. ev = OnEvse i (OnConnector c cev) \<and> silent_connector_event cev)
      \<or> (\<exists>slots. ev = PersistedNetworkProfilesRestored slots)
      \<or> (\<exists>es. ev = PersistedAuthorizationCacheRestored es)
      \<or> (\<exists>t i. ev = TimeSynced t i))"

lemma store_event_silent:
  assumes "apply_event rfc ev s = Some (s', effects, False)" and "store_event ev" and "\<not> silent_event ev"
  shows "s' = s"
  using assms
  by (cases ev)
    (auto simp: store_event_def silent_event_def set_lifecycle_def registration_received_def attribute_value_set_def
      replace_local_authorization_list_def network_profile_set_def customer_information_erased_def
      charging_profile_set_def profiles_restored_def tariff_default_set_def variable_registered_def
      monitoring_event_def Let_def
      dest!: store_silent variable_silent restored_silent
      split: prod.splits if_splits sum.splits option.splits device_model_event.splits
        variable_monitoring_event.splits)

lemma apply_event_silent:
  assumes "apply_event rfc ev s = Some (s', effects, False)" and "settled s" and "\<not> silent_event ev"
  shows "s' = s"
proof (cases "store_event ev")
  case True
  with assms show ?thesis using store_event_silent by blast
next
  case False
  have evse: "s' = s" if "evse_event_applied i eev s = (s', effects, False)" "ev = OnEvse i eev" for i eev
    using that assms(2,3)
    by (cases eev)
      (auto simp: evse_event_applied_def silent_event_def split: prod.splits
        dest: connector_event_silent cascade_evse_silent apply_to_evse_silent)
  have other: "reset_requested target kind s = (s', effects, False) \<Longrightarrow> s' = s"
    "transactions_restored n xs s = (s', effects, False) \<Longrightarrow> s' = s"
    "set_external_charging_limit tgt lim s = (s', effects, False) \<Longrightarrow> s' = s"
    "clear_external_charging_limit tgt src lg s = (s', effects, False) \<Longrightarrow> s' = s" for target kind n xs tgt lim src lg
    by (auto simp: reset_requested_def transactions_restored_def set_external_charging_limit_def
        clear_external_charging_limit_def Let_def max_def split: if_splits prod.splits option.splits)
  from False assms(1) show ?thesis
    by (cases ev)
      (auto simp: store_event_def intro: evse other station_fault_silent [OF _ assms(2)] priority_silent
        reservations_silent)
qed

text \<open>Two states that agree outside the device model.\<close>

definition same_but_model :: "charge_point_state \<Rightarrow> charge_point_state \<Rightarrow> bool" where
  "same_but_model s t = (s\<lparr>device_model_of := device_model_of t\<rparr> = t)"

lemma same_but_model_iff: "same_but_model s t \<longleftrightarrow> (\<exists>m. t = s\<lparr>device_model_of := m\<rparr>)"
  by (auto simp: same_but_model_def) metis

lemma same_but_model_refl [simp]: "same_but_model s s"
  by (simp add: same_but_model_def)

lemma same_but_model_trans: "same_but_model s t \<Longrightarrow> same_but_model t u \<Longrightarrow> same_but_model s u"
  by (auto simp: same_but_model_iff)

lemma sync_same: "same_but_model s (sync_variables s)"
  by (auto simp: same_but_model_iff sync_variables_def sync_availability_variables_def
      sync_network_configuration_variables_def sync_inventory_counters_def Let_def)

lemma cp_apply_unpublished:
  assumes "reachable rfc counts limits s" and "cp_apply rfc ev s = Some (s', effects)"
    and "StateChanged \<notin> set effects" and "\<not> silent_event ev"
  shows "same_but_model s s'"
proof -
  from assms(2,3) obtain s1 effects1 effects2 where
    event: "apply_event rfc ev s = Some (s1, effects1, False)" and
    reset: "check_pending_reset (sync_variables s1) = Some (s', effects2)" and "StateChanged \<notin> set effects2"
    by (auto simp: cp_apply_def split: option.splits if_splits)
  then have "s' = sync_variables s1"
    by (auto simp: check_pending_reset_def split: option.splits if_splits)
  with apply_event_silent [OF event reachable_settled [OF assms(1)] assms(4)] show ?thesis
    by (simp add: sync_same)
qed

end
