(* ===== verification/Actor.thy ===== *)
theory Actor
  imports Publication
begin

text \<open>
  \<open>sync.rs\<close> and \<open>actor/charge_point_actor.rs\<close>: the channels and the task that owns the state.
  \<open>Chan\<close> is the bounded mailbox, \<open>Watch\<close> the latest value, \<open>Broadcast\<close> one unbounded queue per
  subscriber.  The run loop takes an event from the mailbox, applies it, dispatches the effects
  in order and acknowledges the sender; what it does between two \<open>.await\<close> points is one step here.
  Sends, runs and receives interleave freely.
\<close>

section \<open>Channels\<close>

record 'a chan =
  chan_queue :: "'a list"
  chan_capacity :: usize

definition default_mailbox_capacity :: usize where
  "default_mailbox_capacity = 256"

definition chan_with_capacity :: "usize \<Rightarrow> 'a chan" where
  "chan_with_capacity capacity = \<lparr>chan_queue = [], chan_capacity = max capacity 1\<rparr>"

definition chan_new :: "'a chan" where
  "chan_new = chan_with_capacity default_mailbox_capacity"

definition chan_send :: "'a \<Rightarrow> 'a chan \<Rightarrow> 'a chan \<times> bool" where
  "chan_send x ch =
     (if chan_capacity ch \<le> length (chan_queue ch) then (ch, False)
      else (ch\<lparr>chan_queue := chan_queue ch @ [x]\<rparr>, True))"

text \<open>\<open>None\<close>: the receiver waits.\<close>

definition chan_recv :: "'a chan \<Rightarrow> ('a \<times> 'a chan) option" where
  "chan_recv ch =
     (case chan_queue ch of [] \<Rightarrow> None | x # xs \<Rightarrow> Some (x, ch\<lparr>chan_queue := xs\<rparr>))"

record 'a watch =
  watch_version :: u64
  watch_value :: 'a

definition watch_channel :: "'a \<Rightarrow> 'a watch" where
  "watch_channel initial = \<lparr>watch_version = 0, watch_value = initial\<rparr>"

definition send_replace :: "'a \<Rightarrow> 'a watch \<Rightarrow> 'a watch" where
  "send_replace x w = w\<lparr>watch_version := watch_version w + 1, watch_value := x\<rparr>"

text \<open>\<open>WatchReceiver::changed\<close>: the version now seen, or wait.\<close>

definition watch_changed :: "u64 \<Rightarrow> 'a watch \<Rightarrow> u64 option" where
  "watch_changed seen w = (if watch_version w \<noteq> seen then Some (watch_version w) else None)"

text \<open>One queue per subscriber.\<close>

type_synonym 'a broadcast = "'a list list"

definition broadcast_channel :: "'a broadcast" where
  "broadcast_channel = []"

definition broadcast_subscribe :: "'a broadcast \<Rightarrow> 'a broadcast \<times> usize" where
  "broadcast_subscribe b = (b @ [[]], length b)"

definition broadcast_send :: "'a \<Rightarrow> 'a broadcast \<Rightarrow> 'a broadcast" where
  "broadcast_send x b = map (\<lambda>q. q @ [x]) b"

definition broadcast_recv :: "usize \<Rightarrow> 'a broadcast \<Rightarrow> ('a \<times> 'a broadcast) option" where
  "broadcast_recv n b =
     (case vec_get b n of
        Some (x # xs) \<Rightarrow> Some (x, b[n := xs])
      | _ \<Rightarrow> None)"

section \<open>The actor\<close>

datatype actor_error = Stopped | MailboxFull

record effect_senders =
  commands :: "hardware_command broadcast"
  status_notifications :: "connector_status_changed broadcast"
  transaction_events :: "transaction_event broadcast"
  authorization_requests :: "authorization_requested broadcast"
  security_events :: "security_event broadcast"
  reservation_updates :: "reservation_update broadcast"
  priority_charging_changes :: "priority_charging_change broadcast"
  variable_monitor_events :: "triggered_monitor broadcast"
  battery_swap_events :: "battery_swap_event broadcast"
  smart_charging_notifications :: "smart_charging_notification broadcast"

text \<open>A queued event carries its acknowledgement, a \<open>OneShot\<close>, here a number.\<close>

record actor_command =
  command_event :: charge_point_event
  command_acknowledged :: nat

record actor =
  actor_state :: charge_point_state
  mailbox :: "actor_command chan"
  updates :: "charge_point_state watch"
  senders :: effect_senders
  acknowledged :: "nat list"

definition new_effect_senders :: effect_senders where
  "new_effect_senders =
     \<lparr>commands = broadcast_channel, status_notifications = broadcast_channel,
      transaction_events = broadcast_channel, authorization_requests = broadcast_channel,
      security_events = broadcast_channel, reservation_updates = broadcast_channel,
      priority_charging_changes = broadcast_channel, variable_monitor_events = broadcast_channel,
      battery_swap_events = broadcast_channel, smart_charging_notifications = broadcast_channel\<rparr>"

definition spawn_with_limits :: "usize list \<Rightarrow> state_limits \<Rightarrow> actor" where
  "spawn_with_limits counts limits =
     \<lparr>actor_state = cp_with_limits counts limits, mailbox = chan_new,
      updates = watch_channel (cp_with_limits counts limits), senders = new_effect_senders,
      acknowledged = []\<rparr>"

definition dispatch_effect :: "charge_point_effect \<Rightarrow> actor \<Rightarrow> actor" where
  "dispatch_effect eff a =
     (let e = senders a in
      case eff of
        StateChanged \<Rightarrow> a\<lparr>updates := send_replace (actor_state a) (updates a)\<rparr>
      | Command x \<Rightarrow> a\<lparr>senders := e\<lparr>commands := broadcast_send x (commands e)\<rparr>\<rparr>
      | StatusNotification x \<Rightarrow>
          a\<lparr>senders := e\<lparr>status_notifications := broadcast_send x (status_notifications e)\<rparr>\<rparr>
      | TransactionEvent x \<Rightarrow>
          a\<lparr>senders := e\<lparr>transaction_events := broadcast_send x (transaction_events e)\<rparr>\<rparr>
      | AuthorizationRequested x \<Rightarrow>
          a\<lparr>senders := e\<lparr>authorization_requests := broadcast_send x (authorization_requests e)\<rparr>\<rparr>
      | ReservationEnded x \<Rightarrow>
          a\<lparr>senders := e\<lparr>reservation_updates := broadcast_send x (reservation_updates e)\<rparr>\<rparr>
      | SecurityEventEffect x \<Rightarrow>
          a\<lparr>senders := e\<lparr>security_events := broadcast_send x (security_events e)\<rparr>\<rparr>
      | PriorityChargingChanged x \<Rightarrow>
          a\<lparr>senders := e\<lparr>priority_charging_changes := broadcast_send x (priority_charging_changes e)\<rparr>\<rparr>
      | VariableMonitorTriggered x \<Rightarrow>
          a\<lparr>senders := e\<lparr>variable_monitor_events := broadcast_send x (variable_monitor_events e)\<rparr>\<rparr>
      | BatterySwapEventOccurred x \<Rightarrow>
          a\<lparr>senders := e\<lparr>battery_swap_events := broadcast_send x (battery_swap_events e)\<rparr>\<rparr>
      | SmartChargingNotification x \<Rightarrow>
          a\<lparr>senders := e\<lparr>smart_charging_notifications := broadcast_send x (smart_charging_notifications e)\<rparr>\<rparr>)"

text \<open>One turn of the run loop; \<open>None\<close> where the mailbox is empty or the handler panics.\<close>

definition run_turn :: "(date_time \<Rightarrow> string) \<Rightarrow> actor \<Rightarrow> actor option" where
  "run_turn rfc a =
     (case chan_recv (mailbox a) of
        None \<Rightarrow> None
      | Some (cmd, rest) \<Rightarrow>
          (case cp_apply rfc (command_event cmd) (actor_state a) of
             None \<Rightarrow> None
           | Some (s, effects) \<Rightarrow>
               Some ((fold dispatch_effect effects (a\<lparr>actor_state := s, mailbox := rest\<rparr>))
                       \<lparr>acknowledged := acknowledged a @ [command_acknowledged cmd]\<rparr>)))"

text \<open>\<open>send\<close> up to its wait for the acknowledgement \<open>n\<close>.\<close>

definition actor_send :: "charge_point_event \<Rightarrow> nat \<Rightarrow> actor \<Rightarrow> actor \<times> (actor_error + unit)" where
  "actor_send ev n a =
     (case chan_send \<lparr>command_event = ev, command_acknowledged = n\<rparr> (mailbox a) of
        (ch, queued) \<Rightarrow> (a\<lparr>mailbox := ch\<rparr>, if queued then Inr () else Inl MailboxFull))"

text \<open>\<open>state\<close>: the snapshot every reader sees.\<close>

definition state_snapshot :: "actor \<Rightarrow> charge_point_state" where
  "state_snapshot a = watch_value (updates a)"

definition subscribe_commands :: "actor \<Rightarrow> actor \<times> usize" where
  "subscribe_commands a =
     (case broadcast_subscribe (commands (senders a)) of
        (b, n) \<Rightarrow> (a\<lparr>senders := (senders a)\<lparr>commands := b\<rparr>\<rparr>, n))"

section \<open>Executions\<close>

text \<open>What the tasks around the actor do, in any order.  A turn on an empty mailbox waits.\<close>

datatype actor_action = Send charge_point_event nat | Turn

definition actor_step :: "(date_time \<Rightarrow> string) \<Rightarrow> actor_action \<Rightarrow> actor \<Rightarrow> actor option" where
  "actor_step rfc x a =
     (case x of
        Send ev n \<Rightarrow> Some (fst (actor_send ev n a))
      | Turn \<Rightarrow> if chan_queue (mailbox a) = [] then Some a else run_turn rfc a)"

fun actor_exec :: "(date_time \<Rightarrow> string) \<Rightarrow> actor_action list \<Rightarrow> actor \<Rightarrow> actor option" where
  "actor_exec rfc [] a = Some a"
| "actor_exec rfc (x # xs) a =
     (case actor_step rfc x a of None \<Rightarrow> None | Some a1 \<Rightarrow> actor_exec rfc xs a1)"

text \<open>The commands the mailbox accepted along an execution.\<close>

fun accepted :: "(date_time \<Rightarrow> string) \<Rightarrow> actor_action list \<Rightarrow> actor \<Rightarrow> actor_command list" where
  "accepted rfc [] a = []"
| "accepted rfc (x # xs) a =
     (case x of
        Send ev n \<Rightarrow>
          if snd (actor_send ev n a) = Inr () then [\<lparr>command_event = ev, command_acknowledged = n\<rparr>] else []
      | Turn \<Rightarrow> [])
     @ (case actor_step rfc x a of None \<Rightarrow> [] | Some a1 \<Rightarrow> accepted rfc xs a1)"

fun command_of :: "charge_point_effect \<Rightarrow> hardware_command option" where
  "command_of (Command x) = Some x"
| "command_of _ = None"

lemma dispatch_keeps [simp]:
  "actor_state (dispatch_effect eff a) = actor_state a"
  "mailbox (dispatch_effect eff a) = mailbox a"
  "acknowledged (dispatch_effect eff a) = acknowledged a"
  by (simp_all add: dispatch_effect_def Let_def split: charge_point_effect.splits)

lemma dispatch_fold_keeps [simp]:
  "actor_state (fold dispatch_effect effs a) = actor_state a"
  "mailbox (fold dispatch_effect effs a) = mailbox a"
  "acknowledged (fold dispatch_effect effs a) = acknowledged a"
  by (induction effs arbitrary: a) simp_all

lemma dispatch_one:
  "commands (senders (dispatch_effect eff a))
   = map (\<lambda>q. q @ (case command_of eff of None \<Rightarrow> [] | Some x \<Rightarrow> [x])) (commands (senders a))"
  "state_snapshot (dispatch_effect eff a) = (if eff = StateChanged then actor_state a else state_snapshot a)"
  by (cases eff; simp add: dispatch_effect_def broadcast_send_def Let_def)
    (cases eff; simp add: dispatch_effect_def state_snapshot_def send_replace_def Let_def)

lemma dispatch_commands:
  "commands (senders (fold dispatch_effect effs a))
   = map (\<lambda>q. q @ List.map_filter command_of effs) (commands (senders a))"
  by (induction effs arbitrary: a)
    (auto simp: dispatch_one List.map_filter_simps comp_def split: option.splits)

lemma dispatch_snapshot:
  "state_snapshot (fold dispatch_effect effs a)
   = (if StateChanged \<in> set effs then actor_state a else state_snapshot a)"
  by (induction effs arbitrary: a) (auto simp: dispatch_one)

lemma run_turnE:
  assumes "run_turn rfc a = Some a'"
  obtains cmd rest s effects where "chan_queue (mailbox a) = cmd # rest"
    and "cp_apply rfc (command_event cmd) (actor_state a) = Some (s, effects)"
    and "actor_state a' = s" and "chan_queue (mailbox a') = rest"
    and "acknowledged a' = acknowledged a @ [command_acknowledged cmd]"
    and "commands (senders a') = map (\<lambda>q. q @ List.map_filter command_of effects) (commands (senders a))"
    and "state_snapshot a' = (if StateChanged \<in> set effects then s else state_snapshot a)"
proof -
  have snapshot: "state_snapshot (x\<lparr>acknowledged := n\<rparr>) = state_snapshot x"
    "state_snapshot (x\<lparr>actor_state := t, mailbox := m\<rparr>) = state_snapshot x" for x n t m
    by (simp_all add: state_snapshot_def)
  from assms obtain cmd rest s effects where "chan_queue (mailbox a) = cmd # rest"
    and "cp_apply rfc (command_event cmd) (actor_state a) = Some (s, effects)"
    and "a' = (fold dispatch_effect effects (a\<lparr>actor_state := s, mailbox := (mailbox a)\<lparr>chan_queue := rest\<rparr>\<rparr>))
          \<lparr>acknowledged := acknowledged a @ [command_acknowledged cmd]\<rparr>"
    by (auto simp: run_turn_def chan_recv_def split: option.splits list.splits)
  then show ?thesis by (auto simp: dispatch_commands dispatch_snapshot snapshot intro!: that)
qed

lemma actor_send_effect:
  "actor_state (fst (actor_send ev n a)) = actor_state a"
  "acknowledged (fst (actor_send ev n a)) = acknowledged a"
  "senders (fst (actor_send ev n a)) = senders a"
  "state_snapshot (fst (actor_send ev n a)) = state_snapshot a"
  "chan_queue (mailbox (fst (actor_send ev n a)))
   = chan_queue (mailbox a)
     @ (if snd (actor_send ev n a) = Inr () then [\<lparr>command_event = ev, command_acknowledged = n\<rparr>] else [])"
  by (simp_all add: actor_send_def chan_send_def state_snapshot_def)

text \<open>What every execution keeps: the commands accepted are those applied followed by those that
  wait, the state and the effects are those of the applied events, in order.\<close>

definition actor_follows ::
  "(date_time \<Rightarrow> string) \<Rightarrow> actor \<Rightarrow> actor_command list \<Rightarrow> charge_point_state \<Rightarrow> actor \<Rightarrow> bool" where
  "actor_follows rfc a0 cmds s0 a =
     (\<exists>done effects. cmds = done @ chan_queue (mailbox a)
        \<and> cp_run rfc (map command_event done) s0 = Some (actor_state a, effects)
        \<and> acknowledged a = acknowledged a0 @ map command_acknowledged done
        \<and> commands (senders a) = map (\<lambda>q. q @ List.map_filter command_of effects) (commands (senders a0)))"

lemma cp_run_append:
  "cp_run rfc (evs @ [ev]) s =
     (case cp_run rfc evs s of
        None \<Rightarrow> None
      | Some (s1, effects1) \<Rightarrow>
          (case cp_apply rfc ev s1 of
             None \<Rightarrow> None
           | Some (s2, effects2) \<Rightarrow> Some (s2, effects1 @ effects2)))"
  by (induction evs arbitrary: s) (auto split: option.splits)

lemma actor_follows_turn:
  assumes "actor_follows rfc a0 cmds s0 a" and "run_turn rfc a = Some a'"
  shows "actor_follows rfc a0 cmds s0 a'"
proof -
  from assms(1) obtain "done" effects where
    run: "cmds = done @ chan_queue (mailbox a)"
      "cp_run rfc (map command_event done) s0 = Some (actor_state a, effects)"
      "acknowledged a = acknowledged a0 @ map command_acknowledged done"
      "commands (senders a) = map (\<lambda>q. q @ List.map_filter command_of effects) (commands (senders a0))"
    by (auto simp: actor_follows_def)
  from assms(2) obtain cmd rest s effects1 where
    turn: "chan_queue (mailbox a) = cmd # rest"
      "cp_apply rfc (command_event cmd) (actor_state a) = Some (s, effects1)"
      "actor_state a' = s" "chan_queue (mailbox a') = rest"
      "acknowledged a' = acknowledged a @ [command_acknowledged cmd]"
      "commands (senders a') = map (\<lambda>q. q @ List.map_filter command_of effects1) (commands (senders a))"
    by (rule run_turnE)
  show ?thesis
    unfolding actor_follows_def
    by (rule exI [of _ "done @ [cmd]"], rule exI [of _ "effects @ effects1"])
      (use run turn in \<open>simp add: cp_run_append List.map_filter_def\<close>)
qed

lemma actor_follows_exec:
  assumes "actor_exec rfc xs a = Some a'" and "actor_follows rfc a0 cmds s0 a"
  shows "actor_follows rfc a0 (cmds @ accepted rfc xs a) s0 a'"
  using assms
proof (induction xs arbitrary: a cmds)
  case (Cons x xs)
  from Cons.prems(1) obtain a1 where step: "actor_step rfc x a = Some a1" and rest: "actor_exec rfc xs a1 = Some a'"
    by (auto split: option.splits)
  show ?case
  proof (cases x)
    case (Send ev n)
    with step Cons.prems(2) have "actor_follows rfc a0 (cmds @ (if snd (actor_send ev n a) = Inr ()
        then [\<lparr>command_event = ev, command_acknowledged = n\<rparr>] else [])) s0 a1"
      by (auto simp: actor_step_def actor_follows_def actor_send_effect)
    from Cons.IH [OF rest this] Send step show ?thesis by simp
  next
    case Turn
    with step Cons.prems(2) have "actor_follows rfc a0 cmds s0 a1"
      by (auto simp: actor_step_def intro: actor_follows_turn split: if_splits)
    from Cons.IH [OF rest this] Turn step show ?thesis by simp
  qed
qed simp

lemma actor_follows_start: "actor_follows rfc a (chan_queue (mailbox a)) (actor_state a) a"
  unfolding actor_follows_def by (rule exI [of _ "[]"], rule exI [of _ "[]"]) (simp add: map_filter_simps)

section \<open>The actor and the state machine\<close>

text \<open>An actor with \<open>k\<close> hardware bindings subscribed to its commands.\<close>

definition actor_start :: "usize list \<Rightarrow> state_limits \<Rightarrow> nat \<Rightarrow> actor" where
  "actor_start counts limits k = ((\<lambda>a. fst (subscribe_commands a)) ^^ k) (spawn_with_limits counts limits)"

lemma actor_start_fields [simp]:
  "actor_state (actor_start counts limits k) = cp_with_limits counts limits"
  "mailbox (actor_start counts limits k) = chan_new"
  "state_snapshot (actor_start counts limits k) = cp_with_limits counts limits"
  "acknowledged (actor_start counts limits k) = []"
  "commands (senders (actor_start counts limits k)) = replicate k []"
  unfolding actor_start_def
  by (induction k)
    (simp_all add: spawn_with_limits_def subscribe_commands_def broadcast_subscribe_def new_effect_senders_def
      broadcast_channel_def state_snapshot_def watch_channel_def replicate_append_same)

lemma chan_new_queue [simp]: "chan_queue chan_new = []" "chan_capacity chan_new = 256"
  by (simp_all add: chan_new_def chan_with_capacity_def default_mailbox_capacity_def)

text \<open>Three invariants of an execution: the handler never panics, the mailbox stays within its
  capacity, and the snapshot is current outside the device model.\<close>

definition actor_inv :: "(date_time \<Rightarrow> string) \<Rightarrow> usize list \<Rightarrow> state_limits \<Rightarrow> actor \<Rightarrow> bool" where
  "actor_inv rfc counts limits a =
     (reachable rfc counts limits (actor_state a) \<and> chan_capacity (mailbox a) = default_mailbox_capacity
      \<and> length (chan_queue (mailbox a)) \<le> default_mailbox_capacity)"

lemma actor_inv_start: "actor_inv rfc counts limits (actor_start counts limits k)"
  by (simp add: actor_inv_def reachable.start default_mailbox_capacity_def)

lemma actor_inv_send: "actor_inv rfc counts limits a \<Longrightarrow> actor_inv rfc counts limits (fst (actor_send ev n a))"
  by (simp add: actor_inv_def actor_send_def chan_send_def)

lemma run_turn_capacity: "run_turn rfc a = Some a' \<Longrightarrow> chan_capacity (mailbox a') = chan_capacity (mailbox a)"
  by (auto simp: run_turn_def chan_recv_def split: option.splits list.splits)

lemma actor_inv_turn:
  assumes "actor_inv rfc counts limits a" and "run_turn rfc a = Some a'"
  shows "actor_inv rfc counts limits a'"
  using assms(1) run_turn_capacity [OF assms(2)] reachable.step
  by (rule_tac run_turnE [OF assms(2)]) (auto simp: actor_inv_def)

lemma run_turn_total:
  assumes "actor_inv rfc counts limits a" and "chan_queue (mailbox a) \<noteq> []"
  obtains a' where "run_turn rfc a = Some a'"
proof -
  obtain cmd rest where queue: "chan_queue (mailbox a) = cmd # rest" using assms(2) by (cases "chan_queue (mailbox a)") auto
  obtain s effects where "cp_apply rfc (command_event cmd) (actor_state a) = Some (s, effects)"
    using reachable_total [of rfc counts limits "actor_state a" "command_event cmd"] assms(1)
    by (auto simp: actor_inv_def)
  with queue that show ?thesis by (simp add: run_turn_def chan_recv_def)
qed

lemma actor_step_total:
  assumes "actor_inv rfc counts limits a"
  obtains a' where "actor_step rfc x a = Some a'" and "actor_inv rfc counts limits a'"
proof (cases x)
  case (Send ev n)
  then show ?thesis using that actor_inv_send [OF assms] by (simp add: actor_step_def)
next
  case Turn
  show ?thesis
  proof (cases "chan_queue (mailbox a) = []")
    case True
    with Turn that assms show ?thesis by (simp add: actor_step_def)
  next
    case False
    then obtain a' where "run_turn rfc a = Some a'" using run_turn_total [OF assms] by blast
    with Turn False that actor_inv_turn [OF assms] show ?thesis by (simp add: actor_step_def)
  qed
qed

lemma actor_exec_total:
  assumes "actor_inv rfc counts limits a"
  obtains a' where "actor_exec rfc xs a = Some a'" and "actor_inv rfc counts limits a'"
proof -
  have "\<exists>a'. actor_exec rfc xs a = Some a' \<and> actor_inv rfc counts limits a'"
    using assms
  proof (induction xs arbitrary: a)
    case (Cons x xs)
    obtain a1 where "actor_step rfc x a = Some a1" "actor_inv rfc counts limits a1"
      using actor_step_total [OF Cons.prems] .
    with Cons.IH show ?case by simp
  qed simp
  with that show ?thesis by blast
qed

lemma actor_exec_append:
  "actor_exec rfc (xs @ ys) a = Option.bind (actor_exec rfc xs a) (actor_exec rfc ys)"
  by (induction xs arbitrary: a) (auto split: option.splits)

lemma turns_drain:
  assumes "actor_exec rfc (replicate n Turn) a = Some a'" and "length (chan_queue (mailbox a)) \<le> n"
  shows "chan_queue (mailbox a') = [] \<and> accepted rfc (replicate n Turn) a = []"
  using assms
proof (induction n arbitrary: a)
  case (Suc n)
  from Suc.prems(1) obtain a1 where step: "actor_step rfc Turn a = Some a1"
    and rest: "actor_exec rfc (replicate n Turn) a1 = Some a'" by (auto split: option.splits)
  have "length (chan_queue (mailbox a1)) \<le> n"
    using step Suc.prems(2) by (auto simp: actor_step_def split: if_splits elim: run_turnE)
  with Suc.IH [OF rest] step show ?case by simp
qed simp

lemma accepted_append:
  "actor_exec rfc xs a = Some a1 \<Longrightarrow> accepted rfc (xs @ ys) a = accepted rfc xs a @ accepted rfc ys a1"
  by (induction xs arbitrary: a) (auto split: option.splits)

lemma snapshot_exec:
  assumes "actor_exec rfc xs a = Some a'" and "actor_inv rfc counts limits a"
    and "same_but_model (state_snapshot a) (actor_state a)"
    and "\<And>ev n. Send ev n \<in> set xs \<Longrightarrow> \<not> silent_event ev"
    and "\<And>cmd. cmd \<in> set (chan_queue (mailbox a)) \<Longrightarrow> \<not> silent_event (command_event cmd)"
  shows "same_but_model (state_snapshot a') (actor_state a')"
  using assms
proof (induction xs arbitrary: a)
  case (Cons x xs)
  from Cons.prems(1) obtain a1 where step: "actor_step rfc x a = Some a1" and rest: "actor_exec rfc xs a1 = Some a'"
    by (auto split: option.splits)
  have inv: "actor_inv rfc counts limits a1"
    using actor_step_total [OF Cons.prems(2), of x] step by auto
  have sent: "\<not> silent_event ev" if "Send ev n \<in> set xs" for ev n using that Cons.prems(4) [of ev n] by simp
  have "same_but_model (state_snapshot a1) (actor_state a1)
    \<and> (\<forall>cmd\<in>set (chan_queue (mailbox a1)). \<not> silent_event (command_event cmd))"
  proof (cases "x = Turn \<and> chan_queue (mailbox a) \<noteq> []")
    case True
    with step have "run_turn rfc a = Some a1" by (simp add: actor_step_def)
    then show ?thesis
    proof (rule run_turnE)
      fix cmd rest s effects
      assume t: "chan_queue (mailbox a) = cmd # rest" "actor_state a1 = s" "chan_queue (mailbox a1) = rest"
        "cp_apply rfc (command_event cmd) (actor_state a) = Some (s, effects)"
        "state_snapshot a1 = (if StateChanged \<in> set effects then s else state_snapshot a)"
      have "reachable rfc counts limits (actor_state a)" using Cons.prems(2) by (simp add: actor_inv_def)
      from cp_apply_unpublished [OF this t(4)] same_but_model_trans [OF Cons.prems(3)] Cons.prems(5) t
      show ?thesis by auto
    qed
  next
    case False
    moreover have "\<not> silent_event ev" if "x = Send ev n" for ev n using that Cons.prems(4) [of ev n] by simp
    ultimately show ?thesis
      using step Cons.prems(3,5) by (cases x) (auto simp: actor_step_def actor_send_effect split: if_splits)
  qed
  with Cons.IH [OF rest inv] sent show ?case by blast
qed simp

section \<open>Properties\<close>

text \<open>C18: whatever the interleaving of senders and run loop, the actor is the state machine run
  over the accepted events in the order of their acceptance: the events applied so far are a
  prefix of the accepted ones, the rest is the mailbox, the state is theirs, and each of the \<open>k\<close>
  hardware bindings has been sent exactly their hardware commands, in order.\<close>

theorem actor_refines_the_state_machine:
  assumes "actor_exec rfc xs (actor_start counts limits k) = Some a"
  shows "\<exists>done effects. accepted rfc xs (actor_start counts limits k) = done @ chan_queue (mailbox a)
    \<and> cp_run rfc (map command_event done) (cp_with_limits counts limits) = Some (actor_state a, effects)
    \<and> acknowledged a = map command_acknowledged done
    \<and> commands (senders a) = replicate k (List.map_filter command_of effects)"
  using actor_follows_exec [OF assms actor_follows_start] by (simp add: actor_follows_def)

theorem actor_refines_the_state_machine_witness:
  "\<exists>a done effects. actor_exec (\<lambda>_. []) [Send HardwareFault 7, Turn] (actor_start [1] default_state_limits 2) = Some a
    \<and> accepted (\<lambda>_. []) [Send HardwareFault 7, Turn] (actor_start [1] default_state_limits 2)
        = done @ chan_queue (mailbox a)
    \<and> cp_run (\<lambda>_. []) (map command_event done) (cp_with_limits [1] default_state_limits)
        = Some (actor_state a, effects)
    \<and> commands (senders a) = replicate 2 (List.map_filter command_of effects)"
proof -
  obtain a where run: "actor_exec (\<lambda>_. []) [Send HardwareFault 7, Turn] (actor_start [1] default_state_limits 2) = Some a"
    by (rule actor_exec_total [OF actor_inv_start])
  with actor_refines_the_state_machine [OF this] show ?thesis by blast
qed

text \<open>C19: no accepted event is lost or left waiting: after any interleaving, \<open>256\<close> more turns
  of the run loop (the capacity of the mailbox) apply every accepted event and acknowledge it,
  and none of the turns panics.\<close>

theorem accepted_events_are_acknowledged:
  "\<exists>a. actor_exec rfc (xs @ replicate default_mailbox_capacity Turn) (actor_start counts limits k) = Some a
    \<and> chan_queue (mailbox a) = []
    \<and> acknowledged a = map command_acknowledged (accepted rfc xs (actor_start counts limits k))"
proof -
  obtain a1 where 1: "actor_exec rfc xs (actor_start counts limits k) = Some a1" "actor_inv rfc counts limits a1"
    by (rule actor_exec_total [OF actor_inv_start])
  obtain a where 2: "actor_exec rfc (replicate default_mailbox_capacity Turn) a1 = Some a"
    by (rule actor_exec_total [OF 1(2)])
  have drained: "chan_queue (mailbox a) = []" "accepted rfc (replicate default_mailbox_capacity Turn) a1 = []"
    using turns_drain [OF 2] 1(2) by (auto simp: actor_inv_def)
  have exec: "actor_exec rfc (xs @ replicate default_mailbox_capacity Turn) (actor_start counts limits k) = Some a"
    by (simp add: actor_exec_append 1 2)
  from actor_follows_exec [OF exec actor_follows_start] show ?thesis
    by (auto simp: actor_follows_def accepted_append [OF 1(1)] drained exec)
qed

text \<open>C20: what a reader of the actor's snapshot sees is the state: unless one of the few events
  that change the state without saying so was sent, the published state equals the state in
  everything but the device model, after every interleaving.\<close>

theorem snapshot_is_current:
  assumes "actor_exec rfc xs (actor_start counts limits k) = Some a"
    and "\<And>ev n. Send ev n \<in> set xs \<Longrightarrow> \<not> silent_event ev"
  shows "same_but_model (state_snapshot a) (actor_state a)"
  by (rule snapshot_exec [OF assms(1) actor_inv_start _ assms(2)]) simp_all

theorem snapshot_is_current_witness:
  "\<exists>a. actor_exec (\<lambda>_. []) [Send HardwareFault 0, Turn, Send SetUnavailable 1, Turn]
        (actor_start [1] default_state_limits 0) = Some a
     \<and> same_but_model (state_snapshot a) (actor_state a)"
proof -
  let ?xs = "[Send HardwareFault 0, Turn, Send SetUnavailable 1, Turn]"
  obtain a where run: "actor_exec (\<lambda>_. []) ?xs (actor_start [1] default_state_limits 0) = Some a"
    by (rule actor_exec_total [OF actor_inv_start])
  have "\<not> silent_event ev" if "Send ev n \<in> set ?xs" for ev n
    using that by (auto simp: silent_event_def)
  with snapshot_is_current [OF run] run show ?thesis by blast
qed

end
