(* ===== verification/Composite_Schedule.thy ===== *)
theory Composite_Schedule
  imports Charge_Point_State
begin

text \<open>
  \<open>smart_charging/mod.rs\<close>: the limit that results from all charging profiles of an EVSE, at one
  instant (\<open>limit_at\<close> there, \<open>composed_limit_at\<close> here) and as a schedule over a window
  (\<open>compose\<close>).  Instants are nanoseconds; \<open>num_seconds\<close> truncates towards zero as \<open>chrono\<close> does.
\<close>

definition max_composition_boundaries :: usize where
  "max_composition_boundaries = 512"

section \<open>Numbers\<close>

text \<open>\<open>f64::min\<close>, \<open>f64::max\<close>: the other operand where one is NaN.  \<open>clamp\<close> keeps NaN.\<close>

definition f64_min :: "f64 \<Rightarrow> f64 \<Rightarrow> f64" where
  "f64_min a b = (if a = NaN then b else if b = NaN then a else if f64_less b a then b else a)"

definition f64_max :: "f64 \<Rightarrow> f64 \<Rightarrow> f64" where
  "f64_max a b = (if a = NaN then b else if b = NaN then a else if f64_less a b then b else a)"

definition f64_clamp :: "f64 \<Rightarrow> f64 \<Rightarrow> f64 \<Rightarrow> f64" where
  "f64_clamp lo hi a = (if f64_less a lo then lo else if f64_less hi a then hi else a)"

definition f64_to_u32 :: "f64 \<Rightarrow> u32" where
  "f64_to_u32 a =
     (case a of
        NaN \<Rightarrow> 0
      | PInf \<Rightarrow> - 1
      | NInf \<Rightarrow> 0
      | Fin x \<Rightarrow> word_of_int (max 0 (min (2 ^ 32 - 1) (rat_trunc x))))"

section \<open>Units\<close>

record supply_characteristics =
  nominal_voltage_v :: u32
  supply_phases :: u8

definition watts_per_amp :: "supply_characteristics \<Rightarrow> f64" where
  "watts_per_amp s = f64_mul (f64_of_int (uint (nominal_voltage_v s))) (f64_of_int (uint (supply_phases s)))"

text \<open>The factor is a finite number: the product of a \<open>u32\<close> and a \<open>u8\<close>.\<close>

definition convert_rate ::
  "supply_characteristics \<Rightarrow> f64 \<Rightarrow> charging_rate_unit \<Rightarrow> charging_rate_unit \<Rightarrow> f64" where
  "convert_rate s limit from_unit to_unit =
     (case (from_unit, to_unit) of
        (Amps, Watts) \<Rightarrow> f64_mul limit (watts_per_amp s)
      | (Watts, Amps) \<Rightarrow>
          (case watts_per_amp s of
             Fin factor \<Rightarrow> if factor \<le> 0 then limit else f64_div_const limit factor
           | _ \<Rightarrow> limit)
      | _ \<Rightarrow> limit)"

record composition_context =
  ctx_now :: date_time
  ctx_transaction_id :: "transaction_id option"
  ctx_transaction_started_at :: "date_time option"
  ctx_rate_unit :: charging_rate_unit
  ctx_duration_secs :: u32
  ctx_supply :: "supply_characteristics option"
  ctx_priority_charging :: bool

section \<open>The schedule of a profile\<close>

definition schedule_for :: "charging_profile \<Rightarrow> composition_context \<Rightarrow> charging_schedule option" where
  "schedule_for p ctx =
     (case schedule_in p (ctx_rate_unit ctx) of
        Some s \<Rightarrow> Some s
      | None \<Rightarrow>
          if ctx_supply ctx = None then None
          else (case schedules p of [] \<Rightarrow> None | s # _ \<Rightarrow> Some s))"

definition schedule_anchor ::
  "charging_profile \<Rightarrow> charging_schedule \<Rightarrow> composition_context \<Rightarrow> date_time option" where
  "schedule_anchor p s ctx =
     (case profile_kind p of
        AbsoluteKind \<Rightarrow> Some (unwrap_or (start_schedule s) (ctx_now ctx))
      | RelativeKind \<Rightarrow> ctx_transaction_started_at ctx
      | RecurringKind \<Rightarrow> start_schedule s
      | DynamicKind \<Rightarrow> Some (unwrap_or (dyn_update_time p) (ctx_now ctx)))"

definition elapsed_into_schedule ::
  "charging_profile \<Rightarrow> charging_schedule \<Rightarrow> composition_context \<Rightarrow> date_time \<Rightarrow> i64 option" where
  "elapsed_into_schedule p s ctx t =
     (case schedule_anchor p s ctx of
        None \<Rightarrow> None
      | Some anchor \<Rightarrow>
          (let elapsed = num_seconds (t - anchor)
           in case (profile_kind p, recurrency p) of
                (RecurringKind, Some kind) \<Rightarrow>
                  if period_secs kind \<le> 0 \<or> elapsed < 0 then Some elapsed
                  else Some (elapsed mod period_secs kind)
              | _ \<Rightarrow> Some elapsed))"

definition applies_to_transaction :: "charging_profile \<Rightarrow> composition_context \<Rightarrow> bool" where
  "applies_to_transaction p ctx =
     (case profile_purpose p of
        ChargePointMax \<Rightarrow> True
      | ExternalConstraints \<Rightarrow> True
      | LocalGeneration \<Rightarrow> True
      | TxPurpose \<Rightarrow>
          (case (profile_transaction_id p, ctx_transaction_id ctx) of
             (Some own, Some running) \<Rightarrow> own = running
           | (None, Some _) \<Rightarrow> True
           | (_, None) \<Rightarrow> False)
      | TxDefault \<Rightarrow> ctx_transaction_id ctx \<noteq> None
      | PriorityCharging \<Rightarrow> ctx_transaction_id ctx \<noteq> None \<and> ctx_priority_charging ctx)"

section \<open>The limit at one instant\<close>

record contribution =
  contribution_limit :: f64
  contribution_phases :: "u8 option"
  contribution_min_rate :: "f64 option"

text \<open>The derived order of the purposes is their order of declaration.\<close>

fun purpose_rank :: "charging_profile_purpose \<Rightarrow> nat" where
  "purpose_rank ChargePointMax = 0"
| "purpose_rank TxDefault = 1"
| "purpose_rank TxPurpose = 2"
| "purpose_rank ExternalConstraints = 3"
| "purpose_rank LocalGeneration = 4"
| "purpose_rank PriorityCharging = 5"

definition outranks :: "charging_profile_purpose \<times> u32 \<Rightarrow> charging_profile_purpose \<times> u32 \<Rightarrow> bool" where
  "outranks a b =
     (purpose_rank (fst b) < purpose_rank (fst a) \<or> purpose_rank (fst b) = purpose_rank (fst a) \<and> snd b < snd a)"

text \<open>What one profile says at an instant, in the unit of the composition.\<close>

definition contribution_of ::
  "composition_context \<Rightarrow> date_time \<Rightarrow> charging_profile \<Rightarrow> contribution option" where
  "contribution_of ctx t p =
     (if \<not> profile_is_valid_at p t \<or> \<not> applies_to_transaction p ctx then None
      else case schedule_for p ctx of
        None \<Rightarrow> None
      | Some s \<Rightarrow>
          (case elapsed_into_schedule p s ctx t of
             None \<Rightarrow> None
           | Some elapsed \<Rightarrow>
               (case limit_at s elapsed of
                  None \<Rightarrow> None
                | Some period \<Rightarrow>
                    (let convert = (\<lambda>x. case ctx_supply ctx of
                                       Some supply \<Rightarrow> convert_rate supply x (rate_unit s) (ctx_rate_unit ctx)
                                     | None \<Rightarrow> x)
                     in Some \<lparr>contribution_limit = convert (period_limit period),
                              contribution_phases = number_phases period,
                              contribution_min_rate = map_option convert (min_charging_rate s)\<rparr>))))"

record composing =
  selected :: "(charging_profile_purpose \<times> u32 \<times> contribution) option"
  cap :: "f64 option"
  headroom :: "(u32 \<times> f64) option"

definition compose_profile :: "composition_context \<Rightarrow> date_time \<Rightarrow> installed_profile \<Rightarrow> composing \<Rightarrow> composing" where
  "compose_profile ctx t installed a =
     (let p = installed_of installed
      in case contribution_of ctx t p of
           None \<Rightarrow> a
         | Some c \<Rightarrow>
             if caps_the_result (profile_purpose p)
             then a\<lparr>cap := Some (case cap a of None \<Rightarrow> contribution_limit c
                                   | Some current \<Rightarrow> f64_min current (contribution_limit c))\<rparr>
             else if adds_to_the_result (profile_purpose p)
             then (if is_none_or (headroom a) (\<lambda>(level, _). level \<le> stack_level p)
                   then a\<lparr>headroom := Some (stack_level p, contribution_limit c)\<rparr> else a)
             else if is_none_or (selected a) (\<lambda>(purpose, level, _).
                        outranks (profile_purpose p, stack_level p) (purpose, level))
             then a\<lparr>selected := Some (profile_purpose p, stack_level p, c)\<rparr>
             else a)"

definition composed_limit_at ::
  "installed_profile list \<Rightarrow> composition_context \<Rightarrow> date_time \<Rightarrow> contribution option" where
  "composed_limit_at ps ctx t =
     (let a = fold (compose_profile ctx t) ps \<lparr>selected = None, cap = None, headroom = None\<rparr>;
          composed =
            (case (selected a, cap a) of
               (Some (_, _, c), Some most) \<Rightarrow> Some (c\<lparr>contribution_limit := f64_min (contribution_limit c) most\<rparr>)
             | (Some (_, _, c), None) \<Rightarrow> Some c
             | (None, Some most) \<Rightarrow>
                 Some \<lparr>contribution_limit = most, contribution_phases = None, contribution_min_rate = None\<rparr>
             | (None, None) \<Rightarrow> None)
      in case (composed, headroom a) of
           (Some c, Some (_, extra)) \<Rightarrow> Some (c\<lparr>contribution_limit := f64_add (contribution_limit c) extra\<rparr>)
         | (composed, _) \<Rightarrow> composed)"

section \<open>The boundaries of a window\<close>

definition schedule_instants :: "charging_schedule \<Rightarrow> date_time \<Rightarrow> date_time list" where
  "schedule_instants s anchor =
     anchor # map (\<lambda>p. anchor + duration_seconds (period_start p)) (periods s)
     @ (case duration_secs s of None \<Rightarrow> [] | Some d \<Rightarrow> [anchor + duration_seconds (uint d)])"

lemma recurrence_pos [simp]: "0 < duration_seconds (period_secs k)"
  by (cases k) (simp_all add: duration_seconds_def)

function boundary_loop ::
  "charging_schedule \<Rightarrow> recurrency_kind option \<Rightarrow> date_time \<Rightarrow> date_time \<Rightarrow> date_time \<Rightarrow> date_time list
   \<Rightarrow> date_time list" where
  "boundary_loop s kind now window_end anchor bs =
     (let bs1 = bs @ filter (\<lambda>t. now < t \<and> t < window_end) (schedule_instants s anchor)
      in case kind of
           None \<Rightarrow> bs1
         | Some k \<Rightarrow>
             if anchor + duration_seconds (period_secs k) < window_end
             then (if max_composition_boundaries < length bs1 then bs1
                   else boundary_loop s kind now window_end (anchor + duration_seconds (period_secs k)) bs1)
             else bs1)"
  by pat_completeness auto
termination
  by (relation "measure (\<lambda>(s, kind, now, window_end, anchor, bs). nat (window_end - anchor))")
    (use recurrence_pos in \<open>force intro: order_less_trans [rotated]\<close>)+

declare boundary_loop.simps [simp del]

definition profile_boundaries ::
  "composition_context \<Rightarrow> date_time \<Rightarrow> installed_profile \<Rightarrow> date_time list \<Rightarrow> date_time list" where
  "profile_boundaries ctx window_end installed bs =
     (let p = installed_of installed;
          edge = (\<lambda>e. case e of None \<Rightarrow> [] | Some t \<Rightarrow> if ctx_now ctx < t \<and> t < window_end then [t] else []);
          bs1 = bs @ edge (valid_from p) @ edge (valid_to p)
      in case schedule_for p ctx of
           None \<Rightarrow> bs1
         | Some s \<Rightarrow>
             (case schedule_anchor p s ctx of
                None \<Rightarrow> bs1
              | Some anchor \<Rightarrow>
                  boundary_loop s (if profile_kind p = RecurringKind then recurrency p else None)
                    (ctx_now ctx) window_end anchor bs1))"

definition raw_boundaries :: "installed_profile list \<Rightarrow> composition_context \<Rightarrow> date_time \<Rightarrow> date_time list" where
  "raw_boundaries ps ctx window_end = fold (profile_boundaries ctx window_end) ps [ctx_now ctx]"

definition composition_boundaries ::
  "installed_profile list \<Rightarrow> composition_context \<Rightarrow> date_time \<Rightarrow> date_time list" where
  "composition_boundaries ps ctx window_end =
     take max_composition_boundaries (remdups_adj (sort (raw_boundaries ps ctx window_end)))"

section \<open>The composite schedule\<close>

record composite_schedule =
  composite_start :: date_time
  composite_duration_secs :: u32
  composite_rate_unit :: charging_rate_unit
  composite_periods :: "charging_schedule_period list"
  ends_limit :: bool
  composite_min_rate :: "f64 option"

text \<open>The seconds from \<open>a\<close> to \<open>b\<close>, as the code casts them to \<open>u32\<close>.\<close>

definition secs_u32 :: "date_time \<Rightarrow> date_time \<Rightarrow> u32" where
  "secs_u32 a b = word_of_int (max 0 (num_seconds (b - a)))"

definition add_period ::
  "date_time \<Rightarrow> date_time \<Rightarrow> contribution \<Rightarrow> charging_schedule_period list \<Rightarrow> charging_schedule_period list" where
  "add_period start instant c ps =
     (if ps \<noteq> [] \<and> f64_eq (period_limit (last ps)) (contribution_limit c)
         \<and> number_phases (last ps) = contribution_phases c
      then ps
      else ps @ [\<lparr>start_period_secs = secs_u32 start instant, period_limit = contribution_limit c,
                  number_phases = contribution_phases c\<rparr>])"

text \<open>The state of the loop is the start, the periods and the minimum rate; its result adds
  where the limit ended, if it did.\<close>

fun compose_loop ::
  "(date_time \<Rightarrow> contribution option) \<Rightarrow> date_time list
   \<Rightarrow> date_time option \<times> charging_schedule_period list \<times> f64 option
   \<Rightarrow> (date_time option \<times> charging_schedule_period list \<times> f64 option) \<times> date_time option" where
  "compose_loop resolve [] acc = (acc, None)"
| "compose_loop resolve (instant # rest) (start, ps, rate) =
     (case resolve instant of
        None \<Rightarrow>
          if start \<noteq> None then ((start, ps, rate), Some instant)
          else compose_loop resolve rest (start, ps, rate)
      | Some c \<Rightarrow>
          (let begin = unwrap_or start instant;
               rate1 = (case contribution_min_rate c of
                          None \<Rightarrow> rate
                        | Some r \<Rightarrow> Some (case rate of None \<Rightarrow> r | Some current \<Rightarrow> f64_max current r))
           in compose_loop resolve rest (Some begin, add_period begin instant c ps, rate1)))"

definition window_end_of :: "composition_context \<Rightarrow> date_time" where
  "window_end_of ctx = ctx_now ctx + duration_seconds (uint (ctx_duration_secs ctx))"

definition compose :: "installed_profile list \<Rightarrow> composition_context \<Rightarrow> composite_schedule option" where
  "compose ps ctx =
     (let window_end = window_end_of ctx;
          ((start, periods, rate), ended) =
            compose_loop (composed_limit_at ps ctx) (composition_boundaries ps ctx window_end) (None, [], None)
      in case start of
           None \<Rightarrow> None
         | Some begin \<Rightarrow>
             Some \<lparr>composite_start = begin,
                   composite_duration_secs = secs_u32 begin (unwrap_or ended window_end),
                   composite_rate_unit = ctx_rate_unit ctx, composite_periods = periods,
                   ends_limit = (ended \<noteq> None), composite_min_rate = rate\<rparr>)"

definition composite_limit_at :: "composite_schedule \<Rightarrow> date_time \<Rightarrow> charging_schedule_period option" where
  "composite_limit_at s t =
     (let elapsed = num_seconds (t - composite_start s)
      in if elapsed < 0 \<or> uint (composite_duration_secs s) \<le> elapsed then None
         else List.find (\<lambda>p. period_start p \<le> elapsed) (rev (composite_periods s)))"

definition composite_next_change_after :: "composite_schedule \<Rightarrow> date_time \<Rightarrow> date_time option" where
  "composite_next_change_after s t =
     (let elapsed = num_seconds (t - composite_start s);
          next_period = List.find (\<lambda>x. elapsed < x) (map period_start (composite_periods s));
          ending = uint (composite_duration_secs s);
          next_change =
            (case (next_period, ends_limit s) of
               (Some next, True) \<Rightarrow> Some (min next ending)
             | (Some next, False) \<Rightarrow> Some next
             | (None, True) \<Rightarrow> if elapsed < ending then Some ending else None
             | _ \<Rightarrow> None)
      in map_option (\<lambda>n. composite_start s + duration_seconds n) next_change)"

text \<open>The limit now, in milliamps.\<close>

definition current_limit_ma :: "installed_profile list \<Rightarrow> composition_context \<Rightarrow> u32 option" where
  "current_limit_ma ps ctx =
     (case composed_limit_at ps (ctx\<lparr>ctx_rate_unit := Amps\<rparr>) (ctx_now ctx) of
        None \<Rightarrow> None
      | Some c \<Rightarrow>
          (let milliamps = f64_clamp (Fin 0) (f64_of_int (2 ^ 32 - 1)) (f64_mul (contribution_limit c) (Fin 1000))
           in Some (f64_to_u32 (f64_add milliamps (Fin (1 / 2))))))"

section \<open>External limits\<close>

definition i32_max :: int where
  "i32_max = 2 ^ 31 - 1"

definition sat_i32 :: "int \<Rightarrow> int" where
  "sat_i32 n = max (- (2 ^ 31)) (min i32_max n)"

text \<open>The sum with the offset stays within \<open>i32\<close> below \<open>2 ^ 30\<close> EVSEs.\<close>

definition external_limit_profile_id :: "charging_profile_scope \<Rightarrow> bool \<Rightarrow> charging_profile_id" where
  "external_limit_profile_id scope local_generation =
     (let offset = (if local_generation then 1 else 0)
      in case scope of
           ScopeChargePoint \<Rightarrow> - 1 - offset
         | ScopeEvse i \<Rightarrow>
             (let e = (if int i \<le> i32_max then int i else i32_max div 2)
              in sat_i32 (- 3 - (sat_i32 (e * 2) + offset))))"

definition as_composing_profile ::
  "external_charging_limit \<Rightarrow> charging_profile_scope \<Rightarrow> installed_profile option" where
  "as_composing_profile limit scope =
     map_option (\<lambda>s.
       \<lparr>installed_scope = scope,
        installed_of =
          \<lparr>profile_id = external_limit_profile_id scope (is_local_generation limit), stack_level = 0,
           profile_purpose = (if is_local_generation limit then LocalGeneration else ExternalConstraints),
           profile_kind = AbsoluteKind, recurrency = None, valid_from = None, valid_to = None,
           profile_transaction_id = None, schedules = [s], dyn_update_interval_secs = None,
           dyn_update_time = None\<rparr>,
        installed_source = external_source limit\<rparr>)
       (external_schedule limit)"

definition composing_of :: "external_charging_limit option \<Rightarrow> charging_profile_scope \<Rightarrow> installed_profile list" where
  "composing_of limit scope =
     (case Option.bind limit (\<lambda>l. as_composing_profile l scope) of None \<Rightarrow> [] | Some p \<Rightarrow> [p])"

definition external_charging_limits :: "charge_point_state \<Rightarrow> usize \<Rightarrow> installed_profile list" where
  "external_charging_limits s i =
     (let e = vec_get (evses s) i
      in composing_of (station_external_limit s) ScopeChargePoint
         @ composing_of (station_local_generation_limit s) ScopeChargePoint
         @ composing_of (Option.bind e evse_external_limit) (ScopeEvse i)
         @ composing_of (Option.bind e evse_local_generation_limit) (ScopeEvse i))"

definition reportable_external_limits :: "charge_point_state \<Rightarrow> installed_profile list" where
  "reportable_external_limits s =
     composing_of (station_external_limit s) ScopeChargePoint
     @ composing_of (station_local_generation_limit s) ScopeChargePoint
     @ concat (map (\<lambda>(i, e). composing_of (evse_external_limit e) (ScopeEvse i)
                     @ composing_of (evse_local_generation_limit e) (ScopeEvse i))
                 (enumerate 0 (evses s)))"

definition composing_profiles :: "charge_point_state \<Rightarrow> usize \<Rightarrow> installed_profile list \<Rightarrow> installed_profile list" where
  "composing_profiles s i external = profiles_applying_to i (charging_profiles_of s) @ external"

end
