(* ===== verification/Composite_Properties.thy ===== *)
theory Composite_Properties
  imports Composite_Schedule
begin

text \<open>
  Properties of the composition of charging profiles: the caps hold, the leading profile is
  chosen, and the composite schedule of a window says at every second what the profiles say at
  that second.
\<close>

section \<open>Caps and the leading profile\<close>

lemma f64_min_le: "f64_le m x \<Longrightarrow> f64_le (f64_min m y) x" "y \<noteq> NaN \<Longrightarrow> f64_le (f64_min m y) y"
  by (cases m; cases x; cases y; auto simp: f64_min_def f64_le_def f64_eq_def)+

definition capped_by :: "f64 \<Rightarrow> composing \<Rightarrow> bool" where
  "capped_by x a = (\<exists>m. cap a = Some m \<and> f64_le m x)"

lemma capped_by_step: "capped_by x a \<Longrightarrow> capped_by x (compose_profile ctx t p a)"
  by (auto simp: capped_by_def compose_profile_def Let_def f64_min_le split: option.splits)

lemma capped_by_fold: "capped_by x a \<Longrightarrow> capped_by x (fold (compose_profile ctx t) ps a)"
  by (induction ps arbitrary: a) (auto simp: capped_by_step)

lemma capped_by_member:
  assumes "p \<in> set ps" and "caps_the_result (profile_purpose (installed_of p))"
    and "contribution_of ctx t (installed_of p) = Some c" and "contribution_limit c \<noteq> NaN"
  shows "capped_by (contribution_limit c) (fold (compose_profile ctx t) ps a)"
  using assms(1)
proof (induction ps arbitrary: a)
  case (Cons q ps)
  show ?case
  proof (cases "p = q")
    case True
    have "f64_le (contribution_limit c) (contribution_limit c)"
      using assms(4) by (simp add: f64_le_def f64_eq_def)
    with True assms(2-4) have "capped_by (contribution_limit c) (compose_profile ctx t q a)"
      by (auto simp: capped_by_def compose_profile_def Let_def f64_min_le split: option.splits)
    then show ?thesis by (simp add: capped_by_fold)
  next
    case False
    with Cons show ?thesis by simp
  qed
qed simp

text \<open>A profile that competes for the selection at an instant, and its rank.\<close>

definition competes :: "composition_context \<Rightarrow> date_time \<Rightarrow> installed_profile \<Rightarrow> bool" where
  "competes ctx t p =
     (\<not> caps_the_result (profile_purpose (installed_of p)) \<and> \<not> adds_to_the_result (profile_purpose (installed_of p))
      \<and> contribution_of ctx t (installed_of p) \<noteq> None)"

definition widens :: "composition_context \<Rightarrow> date_time \<Rightarrow> installed_profile \<Rightarrow> bool" where
  "widens ctx t p =
     (adds_to_the_result (profile_purpose (installed_of p)) \<and> contribution_of ctx t (installed_of p) \<noteq> None)"

abbreviation rank_of :: "installed_profile \<Rightarrow> charging_profile_purpose \<times> u32" where
  "rank_of p \<equiv> (profile_purpose (installed_of p), stack_level (installed_of p))"

lemma outranks_trans: "outranks a b \<Longrightarrow> outranks b c \<Longrightarrow> outranks a c"
  by (auto simp: outranks_def)

lemma outranks_irrefl [simp]: "\<not> outranks a a"
  by (simp add: outranks_def)

lemma not_outranks_trans: "\<not> outranks b a \<Longrightarrow> outranks c a' \<Longrightarrow> a' = a \<Longrightarrow> \<not> outranks b c"
  by (auto simp: outranks_def)

definition selection_of :: "composition_context \<Rightarrow> date_time \<Rightarrow> installed_profile list \<Rightarrow> composing \<Rightarrow> bool" where
  "selection_of ctx t ps a =
     (case selected a of
        None \<Rightarrow> \<forall>p\<in>set ps. \<not> competes ctx t p
      | Some (purpose, level, c) \<Rightarrow>
          (\<exists>p\<in>set ps. competes ctx t p \<and> rank_of p = (purpose, level)
             \<and> contribution_of ctx t (installed_of p) = Some c)
          \<and> (\<forall>p\<in>set ps. competes ctx t p \<longrightarrow> \<not> outranks (rank_of p) (purpose, level)))"

lemma selection_step:
  assumes "selection_of ctx t ps a"
  shows "selection_of ctx t (ps @ [p]) (compose_profile ctx t p a)"
proof (cases "competes ctx t p")
  case False
  then have "selected (compose_profile ctx t p a) = selected a"
    by (auto simp: competes_def compose_profile_def Let_def split: option.splits)
  with assms False show ?thesis
    by (auto simp: selection_of_def split: option.splits)
next
  case True
  then obtain c where c: "contribution_of ctx t (installed_of p) = Some c"
    "\<not> caps_the_result (profile_purpose (installed_of p))" "\<not> adds_to_the_result (profile_purpose (installed_of p))"
    by (auto simp: competes_def)
  show ?thesis
  proof (cases "selected a")
    case None
    with c True assms show ?thesis
      by (auto simp: selection_of_def compose_profile_def Let_def is_none_or_def)
  next
    case (Some r)
    obtain purpose level d where r: "r = (purpose, level, d)" by (cases r)
    show ?thesis
    proof (cases "outranks (rank_of p) (purpose, level)")
      case True
      then have "selected (compose_profile ctx t p a) = Some (profile_purpose (installed_of p), stack_level (installed_of p), c)"
        using c Some r by (simp add: compose_profile_def Let_def is_none_or_def)
      moreover have "\<not> outranks (rank_of q) (rank_of p)" if "q \<in> set ps" "competes ctx t q" for q
        using assms Some r True that outranks_trans by (fastforce simp: selection_of_def)
      ultimately show ?thesis
        using \<open>competes ctx t p\<close> c by (auto simp: selection_of_def)
    next
      case False
      then have "selected (compose_profile ctx t p a) = selected a"
        using c Some r by (simp add: compose_profile_def Let_def is_none_or_def)
      with assms Some r False show ?thesis by (auto simp: selection_of_def)
    qed
  qed
qed

lemma selection_fold: "selection_of ctx t ps (fold (compose_profile ctx t) ps \<lparr>selected = None, cap = None, headroom = None\<rparr>)"
  by (induction ps rule: rev_induct) (auto simp: selection_step, simp add: selection_of_def)

lemma cap_None_fold:
  assumes "\<forall>p\<in>set ps. caps_the_result (profile_purpose (installed_of p)) \<longrightarrow> contribution_of ctx t (installed_of p) = None"
    and "cap a = None"
  shows "cap (fold (compose_profile ctx t) ps a) = None"
  using assms
  by (induction ps arbitrary: a) (auto simp: compose_profile_def Let_def split: option.splits)

lemma headroom_None_fold:
  assumes "\<forall>p\<in>set ps. \<not> widens ctx t p" and "headroom a = None"
  shows "headroom (fold (compose_profile ctx t) ps a) = None"
  using assms
proof (induction ps arbitrary: a)
  case (Cons p ps)
  then have "headroom (compose_profile ctx t p a) = None"
    by (auto simp: widens_def compose_profile_def Let_def split: option.splits)
  with Cons show ?case by simp
qed simp

section \<open>Whole seconds\<close>

text \<open>Instants without a fraction of a second, on which \<open>num_seconds\<close> does not round.\<close>

definition whole :: "date_time \<Rightarrow> bool" where
  "whole t = (1000000000 dvd t)"

lemma num_seconds_whole: "whole a \<Longrightarrow> whole b \<Longrightarrow> duration_seconds (num_seconds (b - a)) = b - a"
  by (auto simp: whole_def duration_seconds_def num_seconds_def dvd_def sgn_if)

lemma le_num_seconds: "whole a \<Longrightarrow> whole b \<Longrightarrow> n \<le> num_seconds (b - a) \<longleftrightarrow> a + duration_seconds n \<le> b"
  using num_seconds_whole [of a b] by (auto simp: duration_seconds_def)

lemma num_seconds_less: "whole a \<Longrightarrow> whole b \<Longrightarrow> num_seconds (b - a) < n \<longleftrightarrow> b < a + duration_seconds n"
  using le_num_seconds [of a b n] by auto

lemma whole_plus [simp]: "whole a \<Longrightarrow> whole (a + duration_seconds n)" "whole a \<Longrightarrow> whole (a + k * duration_seconds n)"
  by (auto simp: whole_def duration_seconds_def)

lemma duration_seconds_0 [simp]: "duration_seconds 0 = 0"
  by (simp add: duration_seconds_def)

lemma limit_at_cong:
  assumes "e < 0 \<longleftrightarrow> e' < 0" and "\<And>d. duration_secs s = Some d \<Longrightarrow> uint d \<le> e \<longleftrightarrow> uint d \<le> e'"
    and "\<And>p. p \<in> set (periods s) \<Longrightarrow> period_start p \<le> e \<longleftrightarrow> period_start p \<le> e'"
  shows "limit_at s e = limit_at s e'"
proof -
  have "List.find (\<lambda>p. period_start p \<le> e) (rev (periods s)) = List.find (\<lambda>p. period_start p \<le> e') (rev (periods s))"
    by (rule find_cong_set) (use assms(3) in auto)
  moreover have "is_some_and (duration_secs s) (\<lambda>d. uint d \<le> e) = is_some_and (duration_secs s) (\<lambda>d. uint d \<le> e')"
    using assms(2) by (cases "duration_secs s") auto
  ultimately show ?thesis using assms(1) by (simp add: limit_at_def)
qed

text \<open>Between two instants of a schedule its limit does not change.\<close>

lemma limit_at_between:
  assumes "whole anchor" "whole b" "whole t" "b \<le> t"
    and "\<And>x. x \<in> set (schedule_instants s anchor) \<Longrightarrow> \<not> (b < x \<and> x \<le> t)"
  shows "limit_at s (num_seconds (t - anchor)) = limit_at s (num_seconds (b - anchor))"
proof (rule limit_at_cong)
  have start: "anchor \<le> t \<longleftrightarrow> anchor \<le> b" using assms(5) [of anchor] assms(4) by (auto simp: schedule_instants_def)
  show "num_seconds (t - anchor) < 0 \<longleftrightarrow> num_seconds (b - anchor) < 0"
    using start assms(1-3) by (auto simp: num_seconds_less)
  show "uint d \<le> num_seconds (t - anchor) \<longleftrightarrow> uint d \<le> num_seconds (b - anchor)" if "duration_secs s = Some d" for d
    using assms(5) [of "anchor + duration_seconds (uint d)"] that assms(1-4)
    by (auto simp: schedule_instants_def le_num_seconds)
  show "period_start p \<le> num_seconds (t - anchor) \<longleftrightarrow> period_start p \<le> num_seconds (b - anchor)"
    if "p \<in> set (periods s)" for p
    using assms(5) [of "anchor + duration_seconds (period_start p)"] that assms(1-4)
    by (auto simp: schedule_instants_def le_num_seconds)
qed

section \<open>Where a profile may change\<close>

definition recurrence_of :: "charging_profile \<Rightarrow> recurrency_kind option" where
  "recurrence_of p = (if profile_kind p = RecurringKind then recurrency p else None)"

definition repetition :: "recurrency_kind option \<Rightarrow> date_time \<Rightarrow> nat \<Rightarrow> date_time" where
  "repetition kind anchor k =
     (case kind of None \<Rightarrow> anchor | Some r \<Rightarrow> anchor + int k * duration_seconds (period_secs r))"

definition may_change_at :: "composition_context \<Rightarrow> charging_profile \<Rightarrow> date_time \<Rightarrow> bool" where
  "may_change_at ctx p x =
     (valid_from p = Some x \<or> valid_to p = Some x
      \<or> (\<exists>s anchor k. schedule_for p ctx = Some s \<and> schedule_anchor p s ctx = Some anchor
           \<and> x \<in> set (schedule_instants s (repetition (recurrence_of p) anchor k))))"

definition whole_profile :: "charging_profile \<Rightarrow> bool" where
  "whole_profile p =
     (is_none_or (valid_from p) whole \<and> is_none_or (valid_to p) whole \<and> is_none_or (dyn_update_time p) whole
      \<and> list_all (\<lambda>s. is_none_or (start_schedule s) whole) (schedules p)
      \<and> check_dynamic_shape p = None)"

definition whole_context :: "composition_context \<Rightarrow> bool" where
  "whole_context ctx = (whole (ctx_now ctx) \<and> is_none_or (ctx_transaction_started_at ctx) whole)"

lemma schedule_for_member: "schedule_for p ctx = Some s \<Longrightarrow> s \<in> set (schedules p)"
  by (auto simp: schedule_for_def schedule_in_def find_Some_iff split: option.splits if_splits list.splits)

lemma whole_anchor:
  assumes "whole_context ctx" "whole_profile p" "schedule_for p ctx = Some s" "schedule_anchor p s ctx = Some anchor"
  shows "whole anchor"
  using assms schedule_for_member [OF assms(3)]
  by (auto simp: whole_context_def whole_profile_def schedule_anchor_def list_all_iff unwrap_or_def is_none_or_def
      split: charging_profile_kind.splits option.splits)

lemma elapsed_repetition:
  assumes "whole anchor" "whole u" "anchor \<le> u" "k = nat ((u - anchor) div duration_seconds (period_secs r))"
  shows "num_seconds (u - anchor) mod period_secs r = num_seconds (u - repetition (Some r) anchor k)"
proof -
  let ?P = "period_secs r"
  obtain n where n: "u = anchor + duration_seconds n" "0 \<le> n"
    using num_seconds_whole [OF assms(1,2)] assms(3) by (metis add.commute diff_add_cancel duration_seconds_def
        mult_le_cancel_right mult_zero_left diff_ge_0_iff_ge zero_less_numeral)
  have P: "0 < ?P" by (cases r) simp_all
  have k: "int k = n div ?P" using n P assms(4) by (simp add: duration_seconds_def pos_imp_zdiv_nonneg_iff)
  have secs: "num_seconds (duration_seconds m) = m" if "0 \<le> m" for m
    using that by (cases "m = 0") (simp_all add: num_seconds_def duration_seconds_def sgn_if)
  have "u - repetition (Some r) anchor k = duration_seconds (n mod ?P)"
    by (simp add: repetition_def n k duration_seconds_def minus_div_mult_eq_mod [symmetric] algebra_simps)
  moreover have "u - anchor = duration_seconds n" by (simp add: n)
  ultimately show ?thesis using n P by (simp add: secs)
qed

text \<open>The elapsed time of a profile is that into its current repetition.\<close>

lemma elapsed_between:
  assumes "whole anchor" "whole b" "whole t" "b \<le> t" and anchor: "schedule_anchor p s ctx = Some anchor"
    and quiet: "\<And>x k. x \<in> set (schedule_instants s (repetition (recurrence_of p) anchor k)) \<Longrightarrow> \<not> (b < x \<and> x \<le> t)"
  obtains e e' where "elapsed_into_schedule p s ctx t = Some e" and "elapsed_into_schedule p s ctx b = Some e'"
    and "limit_at s e = limit_at s e'"
proof (cases "recurrence_of p")
  case None
  then have "elapsed_into_schedule p s ctx u = Some (num_seconds (u - anchor))" for u
    using anchor by (auto simp: elapsed_into_schedule_def recurrence_of_def Let_def split: charging_profile_kind.splits option.splits if_splits)
  moreover have "limit_at s (num_seconds (t - anchor)) = limit_at s (num_seconds (b - anchor))"
    by (rule limit_at_between [OF assms(1-4)]) (use quiet None in \<open>auto simp: repetition_def\<close>)
  ultimately show ?thesis using that by blast
next
  case (Some r)
  let ?D = "duration_seconds (period_secs r)"
  have P: "0 < period_secs r" by (cases r) simp_all
  have elapsed: "elapsed_into_schedule p s ctx u
      = Some (if num_seconds (u - anchor) < 0 then num_seconds (u - anchor) else num_seconds (u - anchor) mod period_secs r)" for u
    using anchor Some P by (auto simp: elapsed_into_schedule_def recurrence_of_def Let_def split: if_splits)
  have start: "anchor \<le> t \<longleftrightarrow> anchor \<le> b"
    using quiet [of anchor 0] Some assms(4) by (auto simp: schedule_instants_def repetition_def)
  have sign: "num_seconds (u - anchor) < 0 \<longleftrightarrow> u < anchor" if "whole u" for u
    using num_seconds_less [OF assms(1) that, of 0] by simp
  show ?thesis
  proof (cases "anchor \<le> b")
    case False
    then have "num_seconds (t - anchor) < 0" "num_seconds (b - anchor) < 0" using start sign assms(2,3) by auto
    then show ?thesis using that [OF elapsed elapsed] by (simp add: limit_at_def)
  next
    case True
    define k where "k u = nat ((u - anchor) div ?D)" for u
    have k: "int (k u) = (u - anchor) div ?D" if "anchor \<le> u" for u
      using that by (simp add: k_def pos_imp_zdiv_nonneg_iff)
    have "k t = k b"
    proof (rule ccontr)
      assume "k t \<noteq> k b"
      moreover have "k b \<le> k t" unfolding k_def using assms(4) by (simp add: nat_mono zdiv_mono1)
      ultimately have later: "int (k b) + 1 \<le> int (k t)" by simp
      have "b - anchor < (b - anchor) div ?D * ?D + ?D"
        using pos_mod_bound [OF recurrence_pos [of r], of "b - anchor"] div_mult_mod_eq [of "b - anchor" ?D]
        by linarith
      then have "b - anchor < (int (k b) + 1) * ?D" by (simp add: k [OF True] distrib_right)
      also have "\<dots> \<le> int (k t) * ?D" using later recurrence_pos [of r] by (simp add: mult_right_mono)
      finally have "b < repetition (Some r) anchor (k t)" by (simp add: repetition_def)
      moreover have "anchor + (t - anchor) div ?D * ?D \<le> t"
        using pos_mod_sign [OF recurrence_pos [of r], of "t - anchor"] div_mult_mod_eq [of "t - anchor" ?D]
        by linarith
      then have "repetition (Some r) anchor (k t) \<le> t" using k [of t] start True by (simp add: repetition_def)
      ultimately show False
        using quiet [of "repetition (Some r) anchor (k t)" "k t"] Some by (simp add: schedule_instants_def)
    qed
    moreover have "num_seconds (u - anchor) mod period_secs r = num_seconds (u - repetition (Some r) anchor (k u))"
      if "whole u" "anchor \<le> u" for u
      by (rule elapsed_repetition [OF assms(1) that]) (simp add: k_def)
    moreover have "limit_at s (num_seconds (t - repetition (Some r) anchor (k b)))
        = limit_at s (num_seconds (b - repetition (Some r) anchor (k b)))"
    proof (rule limit_at_between [OF _ assms(2-4)])
      show "whole (repetition (Some r) anchor (k b))" using assms(1) by (simp add: repetition_def)
    qed (use quiet Some in auto)
    ultimately have "limit_at s (num_seconds (t - anchor) mod period_secs r) = limit_at s (num_seconds (b - anchor) mod period_secs r)"
      using assms(2,3) start True by simp
    then show ?thesis using that [OF elapsed elapsed] start True sign assms(2,3) by auto
  qed
qed

text \<open>A dynamic profile is stale only where its schedule has ended.\<close>

lemma stale_schedule_over:
  assumes "whole_context ctx" "whole_profile p" "whole u" "schedule_for p ctx = Some s"
    and "schedule_anchor p s ctx = Some anchor" "dynamic_updates_are_stale p u"
    and "elapsed_into_schedule p s ctx u = Some e"
  shows "limit_at s e = None"
proof -
  from assms(6) obtain up d s0 rest where dyn: "profile_kind p = DynamicKind" "dyn_update_time p = Some up"
    "schedules p = s0 # rest" "duration_secs s0 = Some d" "up + duration_seconds (uint d) < u"
    by (auto simp: dynamic_updates_are_stale_def is_some_and_def split: option.splits list.splits if_splits)
  have "rest = []" using assms(2) dyn by (auto simp: whole_profile_def check_dynamic_shape_def split: list.splits)
  then have s: "s = s0" using schedule_for_member [OF assms(4)] dyn by simp
  have "whole up" using assms(2) dyn by (simp add: whole_profile_def is_none_or_def)
  then have "uint d \<le> num_seconds (u - up)" using dyn(5) assms(3) by (simp add: le_num_seconds)
  moreover have "e = num_seconds (u - up)"
    using assms(7) dyn by (simp add: elapsed_into_schedule_def schedule_anchor_def unwrap_or_def)
  ultimately show ?thesis using dyn s by (simp add: limit_at_def is_some_and_def)
qed

lemma contribution_between:
  assumes "whole_context ctx" "whole_profile p" "whole b" "whole t" "b \<le> t"
    and quiet: "\<And>x. may_change_at ctx p x \<Longrightarrow> \<not> (b < x \<and> x \<le> t)"
  shows "contribution_of ctx t p = contribution_of ctx b p"
proof -
  have valid: "is_none_or (valid_from p) (\<lambda>f. f \<le> t) = is_none_or (valid_from p) (\<lambda>f. f \<le> b)"
    "is_none_or (valid_to p) (\<lambda>x. t < x) = is_none_or (valid_to p) (\<lambda>x. b < x)"
    using quiet assms(5) by (cases "valid_from p"; cases "valid_to p"; fastforce simp: may_change_at_def)+
  show ?thesis
  proof (cases "schedule_for p ctx")
    case None
    then show ?thesis by (simp add: contribution_of_def)
  next
    case (Some s)
    show ?thesis
    proof (cases "schedule_anchor p s ctx")
      case None
      then show ?thesis by (simp add: contribution_of_def Some elapsed_into_schedule_def)
    next
      case (Some anchor)
      note sched = \<open>schedule_for p ctx = Some s\<close>
      obtain e e' where e: "elapsed_into_schedule p s ctx t = Some e" "elapsed_into_schedule p s ctx b = Some e'"
        and limit: "limit_at s e = limit_at s e'"
        by (rule elapsed_between [OF whole_anchor [OF assms(1,2) sched Some] assms(3-5) Some])
          (use quiet sched Some in \<open>auto simp: may_change_at_def\<close>)
      have "dynamic_updates_are_stale p t \<or> dynamic_updates_are_stale p b \<Longrightarrow> limit_at s e = None"
        using stale_schedule_over [OF assms(1,2) _ sched Some] e assms(3,4) limit by metis
      then show ?thesis
        using valid limit by (auto simp: contribution_of_def profile_is_valid_at_def sched e)
    qed
  qed
qed

lemma composed_between:
  assumes "whole_context ctx" "\<And>p. p \<in> set ps \<Longrightarrow> whole_profile (installed_of p)" "whole b" "whole t" "b \<le> t"
    and "\<And>x p. p \<in> set ps \<Longrightarrow> may_change_at ctx (installed_of p) x \<Longrightarrow> \<not> (b < x \<and> x \<le> t)"
  shows "composed_limit_at ps ctx t = composed_limit_at ps ctx b"
proof -
  have "compose_profile ctx t p a = compose_profile ctx b p a" if "p \<in> set ps" for p a
    using contribution_between [OF assms(1) assms(2) [OF that] assms(3-5)] assms(6) that
    by (simp add: compose_profile_def)
  then have "fold (compose_profile ctx t) ps a = fold (compose_profile ctx b) ps a" for a
    by (intro fold_cong) auto
  then show ?thesis by (simp add: composed_limit_at_def)
qed

section \<open>The boundaries are complete\<close>

lemma boundary_loop_extends: "\<exists>ys. boundary_loop s kind now we anchor bs = bs @ ys"
proof (induction s kind now we anchor bs rule: boundary_loop.induct)
  case (1 s kind now we anchor bs)
  show ?case
  proof (cases "\<exists>k. kind = Some k \<and> anchor + duration_seconds (period_secs k) < we
      \<and> \<not> max_composition_boundaries
          < length (bs @ filter (\<lambda>t. now < t \<and> t < we) (schedule_instants s anchor))")
    case True
    then obtain k where k: "kind = Some k" "anchor + duration_seconds (period_secs k) < we"
      "\<not> max_composition_boundaries < length (bs @ filter (\<lambda>t. now < t \<and> t < we) (schedule_instants s anchor))"
      by blast
    from 1 [OF refl k] k show ?thesis by (subst boundary_loop.simps) auto
  next
    case False
    then show ?thesis by (subst boundary_loop.simps) (auto simp: Let_def split: option.splits)
  qed
qed

lemma boundary_loop_complete:
  assumes "length (boundary_loop s kind now we anchor bs) \<le> max_composition_boundaries"
    and "x \<in> set (schedule_instants s (repetition kind anchor k))" and "now < x" and "x < we"
  shows "x \<in> set (boundary_loop s kind now we anchor bs)"
  using assms
proof (induction s kind now we anchor bs arbitrary: k rule: boundary_loop.induct)
  case (1 s kind now we anchor bs)
  let ?bs = "bs @ filter (\<lambda>t. now < t \<and> t < we) (schedule_instants s anchor)"
  show ?case
  proof (cases "k = 0 \<or> kind = None")
    case True
    then have "x \<in> set ?bs" using 1(3-5) by (auto simp: repetition_def split: option.splits)
    moreover have "\<exists>ys. boundary_loop s kind now we anchor bs = ?bs @ ys"
      using boundary_loop_extends [of s kind now we _ ?bs]
      by (subst boundary_loop.simps) (auto simp: Let_def split: option.splits)
    ultimately show ?thesis by auto
  next
    case False
    then obtain r j where r: "kind = Some r" "k = Suc j" by (cases k) auto
    let ?D = "duration_seconds (period_secs r)"
    have D: "0 < ?D" by simp
    have rep: "repetition kind anchor k = repetition kind (anchor + ?D) j"
      by (simp add: r repetition_def algebra_simps)
    have "repetition kind anchor k \<le> x"
      using 1(3) by (auto simp: schedule_instants_def duration_seconds_def split: option.splits)
    moreover have "0 \<le> int j * ?D" using D by (simp add: less_imp_le)
    ultimately have within: "anchor + ?D < we" using 1(5) by (simp add: r repetition_def distrib_right)
    have short: "\<not> max_composition_boundaries < length ?bs"
      using 1(2) r within by (subst (asm) boundary_loop.simps) (auto simp: Let_def split: if_splits)
    then have step: "boundary_loop s kind now we anchor bs = boundary_loop s kind now we (anchor + ?D) ?bs"
      using r within by (subst boundary_loop.simps) (simp add: Let_def)
    from 1(1) [OF refl r(1) within short] 1(2-5) rep show ?thesis by (simp add: step)
  qed
qed

definition edges_of :: "composition_context \<Rightarrow> date_time \<Rightarrow> charging_profile \<Rightarrow> date_time list" where
  "edges_of ctx we p =
     (case valid_from p of None \<Rightarrow> [] | Some t \<Rightarrow> if ctx_now ctx < t \<and> t < we then [t] else [])
     @ (case valid_to p of None \<Rightarrow> [] | Some t \<Rightarrow> if ctx_now ctx < t \<and> t < we then [t] else [])"

lemma profile_boundaries_alt:
  "profile_boundaries ctx we p bs =
     (case schedule_for (installed_of p) ctx of
        None \<Rightarrow> bs @ edges_of ctx we (installed_of p)
      | Some s \<Rightarrow> (case schedule_anchor (installed_of p) s ctx of
           None \<Rightarrow> bs @ edges_of ctx we (installed_of p)
         | Some anchor \<Rightarrow>
             boundary_loop s (recurrence_of (installed_of p)) (ctx_now ctx) we anchor
               (bs @ edges_of ctx we (installed_of p))))"
  unfolding profile_boundaries_def edges_of_def recurrence_of_def Let_def by (rule refl)

lemma profile_boundaries_extends':
  "\<exists>ys. profile_boundaries ctx we p bs = bs @ edges_of ctx we (installed_of p) @ ys"
  using boundary_loop_extends [of _ "recurrence_of (installed_of p)" "ctx_now ctx" we _ "bs @ edges_of ctx we (installed_of p)"]
  by (auto simp: profile_boundaries_alt split: option.splits)

lemma profile_boundaries_extends: "\<exists>ys. profile_boundaries ctx we p bs = bs @ ys"
  using profile_boundaries_extends' by blast

lemma profile_boundaries_complete:
  assumes "length (profile_boundaries ctx we p bs) \<le> max_composition_boundaries"
    and "may_change_at ctx (installed_of p) x" and "ctx_now ctx < x" and "x < we"
  shows "x \<in> set (profile_boundaries ctx we p bs)"
proof -
  obtain ys where ys: "profile_boundaries ctx we p bs = bs @ edges_of ctx we (installed_of p) @ ys"
    using profile_boundaries_extends' by blast
  have "x \<in> set (edges_of ctx we (installed_of p))"
    if "valid_from (installed_of p) = Some x \<or> valid_to (installed_of p) = Some x"
    using that assms(3,4) by (auto simp: edges_of_def)
  with ys have "x \<in> set (profile_boundaries ctx we p bs)"
    if "valid_from (installed_of p) = Some x \<or> valid_to (installed_of p) = Some x"
    using that by auto
  with assms boundary_loop_complete [of _ "recurrence_of (installed_of p)" "ctx_now ctx" we _
      "bs @ edges_of ctx we (installed_of p)" x]
  show ?thesis by (auto simp: may_change_at_def profile_boundaries_alt)
qed

lemma fold_extends:
  assumes "\<And>p bs. \<exists>ys. f p bs = bs @ ys"
  shows "\<exists>ys. fold f ps bs = bs @ ys"
proof (induction ps arbitrary: bs)
  case (Cons p ps)
  obtain ys where "f p bs = bs @ ys" using assms by blast
  moreover obtain zs where "fold f ps (bs @ ys) = (bs @ ys) @ zs" using Cons by blast
  ultimately show ?case by simp
qed simp

lemma raw_boundaries_complete:
  assumes "length (raw_boundaries ps ctx we) \<le> max_composition_boundaries"
    and "p \<in> set ps" and "may_change_at ctx (installed_of p) x" and "ctx_now ctx < x" and "x < we"
  shows "x \<in> set (raw_boundaries ps ctx we)"
proof -
  have "x \<in> set (fold (profile_boundaries ctx we) ps bs)"
    if "length (fold (profile_boundaries ctx we) ps bs) \<le> max_composition_boundaries" for bs
    using that assms(2)
  proof (induction ps arbitrary: bs)
    case (Cons q ps)
    obtain ys where ys: "fold (profile_boundaries ctx we) ps (profile_boundaries ctx we q bs)
        = profile_boundaries ctx we q bs @ ys"
      using fold_extends [of "profile_boundaries ctx we" ps "profile_boundaries ctx we q bs"]
        profile_boundaries_extends by blast
    show ?case
    proof (cases "p = q")
      case True
      with ys Cons.prems profile_boundaries_complete [OF _ assms(3-5)] show ?thesis by simp
    next
      case False
      with Cons show ?thesis by simp
    qed
  qed simp
  with assms(1) show ?thesis by (simp add: raw_boundaries_def)
qed

section \<open>The loop over the boundaries\<close>

type_synonym limit_value = "f64 \<times> u8 option"

definition period_value :: "charging_schedule_period \<Rightarrow> limit_value" where
  "period_value p = (period_limit p, number_phases p)"

definition value_of :: "contribution \<Rightarrow> limit_value" where
  "value_of c = (contribution_limit c, contribution_phases c)"

definition lookup_period :: "charging_schedule_period list \<Rightarrow> int \<Rightarrow> limit_value option" where
  "lookup_period ps e = map_option period_value (List.find (\<lambda>p. period_start p \<le> e) (rev ps))"

lemma lookup_period_append:
  assumes "\<forall>z\<in>set zs. e < period_start z" and "ps \<noteq> []" and "period_start (last ps) \<le> e"
  shows "lookup_period (ps @ zs) e = Some (period_value (last ps))"
proof -
  have "List.find (\<lambda>p. period_start p \<le> e) (rev zs @ rest) = List.find (\<lambda>p. period_start p \<le> e) rest" for rest
    using assms(1) by (induction zs arbitrary: rest) (auto simp: not_le)
  moreover have "List.find (\<lambda>p. period_start p \<le> e) (rev ps) = Some (last ps)"
    using assms(2,3) by (cases ps rule: rev_cases) auto
  ultimately show ?thesis by (simp add: lookup_period_def)
qed

lemma add_period_last: "add_period st b c ps \<noteq> []" "period_value (last (add_period st b c ps)) = value_of c"
  by (auto simp: add_period_def period_value_def value_of_def f64_eq_def)

lemma secs_u32_whole:
  assumes "whole a" "whole b" "a \<le> b" "b < a + duration_seconds (2 ^ 32)"
  shows "uint (secs_u32 a b) = num_seconds (b - a)"
proof -
  have "0 \<le> num_seconds (b - a)" using le_num_seconds [OF assms(1,2), of 0] assms(3) by simp
  moreover have "num_seconds (b - a) < 2 ^ 32" using num_seconds_less [OF assms(1,2), of "2 ^ 32"] assms(4) by simp
  ultimately show ?thesis by (simp add: secs_u32_def uint_word_of_int take_bit_int_eq_self)
qed

text \<open>What the loop has built when the boundary \<open>b\<close> has been resolved.\<close>

definition built :: "date_time \<Rightarrow> date_time \<Rightarrow> charging_schedule_period list \<Rightarrow> bool" where
  "built st b ps = (ps \<noteq> [] \<and> (\<forall>p\<in>set ps. period_start p \<le> num_seconds (b - st)))"

text \<open>The instants the loop sees: ascending, whole, and within \<open>2 ^ 32\<close> seconds of the start.\<close>

definition proper_instants :: "date_time \<Rightarrow> date_time list \<Rightarrow> bool" where
  "proper_instants st bs =
     (whole st \<and> sorted_wrt (<) (st # bs) \<and> (\<forall>b\<in>set bs. whole b \<and> b < st + duration_seconds (2 ^ 32)))"

lemma num_seconds_mono: "whole st \<Longrightarrow> whole a \<Longrightarrow> whole b \<Longrightarrow> a < b \<Longrightarrow> num_seconds (a - st) < num_seconds (b - st)"
  using num_seconds_whole [of st a] num_seconds_whole [of st b] by (simp add: duration_seconds_def)

lemma built_add_period:
  assumes "built st a ps \<or> ps = []" "whole st" "whole a" "whole b" "st \<le> b" "a \<le> b" "b < st + duration_seconds (2 ^ 32)"
  shows "built st b (add_period st b c ps)"
proof -
  have "num_seconds (a - st) \<le> num_seconds (b - st)"
    using num_seconds_mono [OF assms(2,3,4)] assms(6) by (cases "a = b") auto
  then show ?thesis
    using assms(1) secs_u32_whole [OF assms(2,4,5,7)] by (auto simp: built_def add_period_def)
qed

lemma compose_loop_started:
  assumes "compose_loop f bs (Some st, ps, rate) = ((start', ps', rate'), ended)"
    and "built st a ps" and "st \<le> a" and "whole st" and "whole a" and "sorted_wrt (<) (a # bs)"
    and "\<And>b. b \<in> set bs \<Longrightarrow> whole b \<and> b < st + duration_seconds (2 ^ 32)"
  shows "start' = Some st
    \<and> (\<exists>zs. ps' = ps @ zs \<and> (\<forall>z\<in>set zs. num_seconds (a - st) < period_start z
          \<and> (\<exists>b\<in>set bs. period_start z = num_seconds (b - st))))
    \<and> (\<forall>b\<in>set bs. is_none_or ended (\<lambda>e. b < e) \<longrightarrow>
         (\<exists>c. f b = Some c \<and> lookup_period ps' (num_seconds (b - st)) = Some (value_of c)))
    \<and> (\<forall>e. ended = Some e \<longrightarrow> e \<in> set bs \<and> f e = None)"
  using assms
proof (induction bs arbitrary: a ps rate)
  case (Cons b bs)
  note b = Cons.prems(7) [of b, simplified]
  have ab: "a < b" "sorted_wrt (<) (b # bs)" using Cons.prems(6) by auto
  show ?case
  proof (cases "f b")
    case None
    with Cons.prems(1) have "start' = Some st" "ps' = ps" "ended = Some b" by auto
    with None ab show ?thesis by (auto simp: is_none_or_def)
  next
    case (Some c)
    let ?ps = "add_period st b c ps"
    have built: "built st b ?ps"
      by (rule built_add_period [of st a]) (use Cons.prems(2-5) b ab in auto)
    obtain rate1 where rest: "compose_loop f bs (Some st, ?ps, rate1) = ((start', ps', rate'), ended)"
      using Cons.prems(1) Some by (auto simp: unwrap_or_def Let_def split: option.splits)
    from Cons.IH [OF rest built _ Cons.prems(4) _ ab(2)] Cons.prems(3,7) ab b
    have ih: "start' = Some st"
      "\<exists>zs. ps' = ?ps @ zs \<and> (\<forall>z\<in>set zs. num_seconds (b - st) < period_start z
          \<and> (\<exists>b\<in>set bs. period_start z = num_seconds (b - st)))"
      "\<forall>b\<in>set bs. is_none_or ended (\<lambda>e. b < e) \<longrightarrow>
         (\<exists>c. f b = Some c \<and> lookup_period ps' (num_seconds (b - st)) = Some (value_of c))"
      "\<forall>e. ended = Some e \<longrightarrow> e \<in> set bs \<and> f e = None"
      by auto
    from ih(2) obtain zs where zs: "ps' = ?ps @ zs" "\<forall>z\<in>set zs. num_seconds (b - st) < period_start z
          \<and> (\<exists>b\<in>set bs. period_start z = num_seconds (b - st))" by blast
    have later: "num_seconds (a - st) < num_seconds (b - st)"
      using num_seconds_mono [OF Cons.prems(4,5)] b ab by simp
    have "lookup_period ps' (num_seconds (b - st)) = Some (value_of c)"
      using lookup_period_append [of zs "num_seconds (b - st)" ?ps] zs built add_period_last [of st b c ps]
      by (auto simp: built_def)
    moreover have "\<exists>ys. ?ps = ps @ ys \<and> (\<forall>z\<in>set ys. period_start z = num_seconds (b - st))"
      using secs_u32_whole [OF Cons.prems(4), of b] b ab Cons.prems(3) by (auto simp: add_period_def)
    then obtain ys where "?ps = ps @ ys" "\<forall>z\<in>set ys. period_start z = num_seconds (b - st)" by blast
    with zs later have "\<exists>zs. ps' = ps @ zs \<and> (\<forall>z\<in>set zs. num_seconds (a - st) < period_start z
          \<and> (\<exists>b\<in>set (b # bs). period_start z = num_seconds (b - st)))"
      by (intro exI [of _ "ys @ zs"]) fastforce
    ultimately show ?thesis using ih Some by auto
  qed
qed (auto simp: is_none_or_def)

text \<open>Before the first limited instant nothing is built.\<close>

lemma compose_loop_start:
  assumes "compose_loop f bs (None, [], rate) = ((start', ps', rate'), ended)"
  shows "(start' = None \<and> (\<forall>b\<in>set bs. f b = None)) \<or>
    (\<exists>before st c rest rate1. bs = before @ st # rest \<and> (\<forall>b\<in>set before. f b = None) \<and> f st = Some c
       \<and> compose_loop f rest (Some st, add_period st st c [], rate1) = ((start', ps', rate'), ended))"
  using assms
proof (induction bs)
  case (Cons b bs)
  show ?case
  proof (cases "f b")
    case None
    with Cons consider "start' = None" "\<forall>x\<in>set bs. f x = None"
      | before st c rest rate1 where "bs = before @ st # rest" "\<forall>x\<in>set before. f x = None" "f st = Some c"
        "compose_loop f rest (Some st, add_period st st c [], rate1) = ((start', ps', rate'), ended)"
      by auto
    then show ?thesis
    proof cases
      case 2
      with None have "b # bs = (b # before) @ st # rest" "\<forall>x\<in>set (b # before). f x = None" by auto
      with 2 show ?thesis by blast
    qed (use None in auto)
  next
    case (Some c)
    with Cons.prems obtain rate1 where
      "compose_loop f bs (Some b, add_period b b c [], rate1) = ((start', ps', rate'), ended)"
      by (auto simp: unwrap_or_def Let_def split: option.splits)
    with Some show ?thesis by (metis append_Nil empty_iff empty_set)
  qed
qed simp

text \<open>The last boundary up to an instant.\<close>

lemma last_boundary:
  assumes "x \<in> set bs" "x \<le> (t::int)"
  obtains b where "b \<in> set bs" "b \<le> t" "\<And>y. y \<in> set bs \<Longrightarrow> y \<le> t \<Longrightarrow> y \<le> b"
proof -
  let ?S = "{y \<in> set bs. y \<le> t}"
  have "finite ?S" "?S \<noteq> {}" using assms by auto
  with that [of "Max ?S"] Max_in [of ?S] Max_ge [of ?S] show ?thesis by blast
qed

text \<open>The periods built from the boundaries give at every instant what the resolution gives at
  the last boundary before it.\<close>

lemma compose_loop_values:
  assumes loop: "compose_loop f bs (None, [], None) = ((Some st, ps', rate'), ended)"
    and bs: "sorted_wrt (<) bs" "\<And>b. b \<in> set bs \<Longrightarrow> whole b"
    and span: "\<And>a b. a \<in> set bs \<Longrightarrow> b \<in> set bs \<Longrightarrow> b < a + duration_seconds (2 ^ 32)"
    and t: "whole t" "b \<in> set bs" "b \<le> t" "\<And>y. y \<in> set bs \<Longrightarrow> y \<le> t \<Longrightarrow> y \<le> b"
  shows "st \<in> set bs"
    and "t < st \<Longrightarrow> f b = None"
    and "st \<le> t \<Longrightarrow> is_none_or ended (\<lambda>e. t < e) \<Longrightarrow>
      f b \<noteq> None \<and> lookup_period ps' (num_seconds (t - st)) = map_option value_of (f b)"
    and "ended = Some e \<Longrightarrow> e \<in> set bs \<and> st \<le> e \<and> f e = None"
proof -
  from compose_loop_start [OF loop] obtain before st1 c rest rate1 where
    split: "bs = before @ st1 # rest" "\<forall>b\<in>set before. f b = None" "f st1 = Some c"
      "compose_loop f rest (Some st1, add_period st1 st1 c [], rate1) = ((Some st, ps', rate'), ended)"
    by auto
  have whole: "whole st1" "\<And>b. b \<in> set rest \<Longrightarrow> whole b" using bs(2) split(1) by auto
  have near: "\<And>b. b \<in> set rest \<Longrightarrow> b < st1 + duration_seconds (2 ^ 32)" using span [of st1] split(1) by auto
  have sorted: "sorted_wrt (<) (st1 # rest)" "\<And>b. b \<in> set before \<Longrightarrow> b < st1"
    using bs(1) split(1) by (auto simp: sorted_wrt_append)
  let ?first = "add_period st1 st1 c []"
  have first: "built st1 st1 ?first" by (rule built_add_period [of st1 st1]) (use whole in \<open>auto simp: duration_seconds_def\<close>)
  from compose_loop_started [OF split(4) first _ whole(1,1) sorted(1)] whole(2) near
  obtain zs where st: "st1 = st" and zs: "ps' = ?first @ zs" "\<forall>z\<in>set zs. num_seconds (st1 - st1) < period_start z
        \<and> (\<exists>b\<in>set rest. period_start z = num_seconds (b - st1))"
    and found: "\<forall>b\<in>set rest. is_none_or ended (\<lambda>e. b < e) \<longrightarrow>
         (\<exists>c. f b = Some c \<and> lookup_period ps' (num_seconds (b - st1)) = Some (value_of c))"
    and stop: "\<forall>e. ended = Some e \<longrightarrow> e \<in> set rest \<and> f e = None"
    by auto
  show "st \<in> set bs" using split st by simp
  show "e \<in> set bs \<and> st \<le> e \<and> f e = None" if "ended = Some e" using stop that split(1) sorted(1) st by auto
  show "f b = None" if "t < st"
    using that t(2,3) split(1,2) sorted st by auto
  show "f b \<noteq> None \<and> lookup_period ps' (num_seconds (t - st)) = map_option value_of (f b)"
    if late: "st \<le> t" and running: "is_none_or ended (\<lambda>e. t < e)"
  proof -
    have "st \<le> b" using t(4) [of st] late \<open>st \<in> set bs\<close> by simp
    have at_b: "f b \<noteq> None \<and> lookup_period ps' (num_seconds (b - st)) = map_option value_of (f b)"
    proof (cases "b = st")
      case True
      have "lookup_period ps' (num_seconds (st1 - st1)) = Some (period_value (last ?first))"
        using lookup_period_append [of zs "num_seconds (st1 - st1)" ?first] zs first by (auto simp: built_def)
      then show ?thesis using True st split(3) add_period_last [of st1 st1 c "[]"] by simp
    next
      case False
      then have "b \<in> set rest" using t(2) split(1) sorted(2) \<open>st \<le> b\<close> st by force
      moreover have "is_none_or ended (\<lambda>e. b < e)" using running t(3) by (cases ended) auto
      ultimately show ?thesis using found st by auto
    qed
    have "period_start p \<le> num_seconds (t - st) \<longleftrightarrow> period_start p \<le> num_seconds (b - st)" if "p \<in> set ps'" for p
    proof -
      obtain x where x: "x \<in> set bs" "period_start p = num_seconds (x - st)" "st \<le> x"
      proof (cases "p \<in> set zs")
        case True
        with zs st sorted split(1) that show ?thesis by (metis (no_types, lifting) in_set_conv_decomp less_imp_le list.set_intros(2)
              set_append UnCI sorted_wrt.simps(2))
      next
        case False
        with zs(1) \<open>p \<in> set ps'\<close> have "period_start p = num_seconds (st - st)"
          using secs_u32_whole [OF whole(1,1)] st by (auto simp: add_period_def duration_seconds_def)
        with that [of st] \<open>st \<in> set bs\<close> show ?thesis by simp
      qed
      have "whole st" "whole x" "whole b" using bs(2) x(1) \<open>st \<in> set bs\<close> t(2) by auto
      have le: "num_seconds (x - st) \<le> num_seconds (y - st) \<longleftrightarrow> x \<le> y" if "whole y" for y
        using le_num_seconds [OF \<open>whole st\<close> that] num_seconds_whole [OF \<open>whole st\<close> \<open>whole x\<close>] by simp
      show ?thesis using t(3) t(4) [OF x(1)] by (auto simp: x(2) le [OF t(1)] le [OF \<open>whole b\<close>])
    qed
    then have "lookup_period ps' (num_seconds (t - st)) = lookup_period ps' (num_seconds (b - st))"
      unfolding lookup_period_def by (intro arg_cong [of _ _ "map_option period_value"] find_cong_set) auto
    with at_b show ?thesis by simp
  qed
qed

section \<open>The composite schedule\<close>

lemma whole_instants:
  assumes "whole anchor" and "x \<in> set (schedule_instants s (repetition kind anchor k))"
  shows "whole x"
proof -
  have "whole (repetition kind anchor k)" using assms(1) by (auto simp: repetition_def split: option.splits)
  with assms(2) show ?thesis by (auto simp: schedule_instants_def split: option.splits)
qed

lemma boundary_loop_sound:
  assumes "x \<in> set (boundary_loop s kind now we anchor bs)" and "whole anchor"
  shows "x \<in> set bs \<or> now < x \<and> x < we \<and> whole x"
  using assms
proof (induction s kind now we anchor bs rule: boundary_loop.induct)
  case (1 s kind now we anchor bs)
  let ?bs = "bs @ filter (\<lambda>t. now < t \<and> t < we) (schedule_instants s anchor)"
  have here: "x \<in> set bs \<or> now < x \<and> x < we \<and> whole x" if "x \<in> set ?bs"
    using that whole_instants [OF 1(3), of x s None 0] by (auto simp: repetition_def)
  show ?case
  proof (cases "\<exists>k. kind = Some k \<and> anchor + duration_seconds (period_secs k) < we
      \<and> \<not> max_composition_boundaries < length ?bs")
    case True
    then obtain k where k: "kind = Some k" "anchor + duration_seconds (period_secs k) < we"
      "\<not> max_composition_boundaries < length ?bs" by blast
    then have "x \<in> set (boundary_loop s kind now we (anchor + duration_seconds (period_secs k)) ?bs)"
      using 1(2) by (subst (asm) boundary_loop.simps) (simp add: Let_def)
    from 1(1) [OF refl k this] 1(3) here show ?thesis by auto
  next
    case False
    then have "x \<in> set ?bs" using 1(2) by (subst (asm) boundary_loop.simps) (auto simp: Let_def split: option.splits if_splits)
    then show ?thesis by (rule here)
  qed
qed

lemma profile_boundaries_sound:
  assumes "x \<in> set (profile_boundaries ctx we p bs)" and "whole_context ctx" and "whole_profile (installed_of p)"
  shows "x \<in> set bs \<or> ctx_now ctx < x \<and> x < we \<and> whole x"
proof -
  have edges: "ctx_now ctx < y \<and> y < we \<and> whole y" if "y \<in> set (edges_of ctx we (installed_of p))" for y
    using that assms(3) by (auto simp: edges_of_def whole_profile_def is_none_or_def split: option.splits if_splits)
  show ?thesis
    using assms(1) edges boundary_loop_sound [of x] whole_anchor [OF assms(2,3)]
    by (fastforce simp: profile_boundaries_alt split: option.splits)
qed

lemma raw_boundaries_sound:
  assumes "x \<in> set (raw_boundaries ps ctx we)" "whole_context ctx" "\<And>p. p \<in> set ps \<Longrightarrow> whole_profile (installed_of p)"
  shows "x = ctx_now ctx \<or> ctx_now ctx < x \<and> x < we \<and> whole x"
proof -
  have "x \<in> set bs \<or> ctx_now ctx < x \<and> x < we \<and> whole x" if "x \<in> set (fold (profile_boundaries ctx we) ps bs)" for bs
    using that assms(3)
  proof (induction ps arbitrary: bs)
    case (Cons p ps)
    have "x \<in> set (profile_boundaries ctx we p bs) \<or> ctx_now ctx < x \<and> x < we \<and> whole x"
      by (rule Cons.IH) (use Cons.prems in auto)
    moreover have "whole_profile (installed_of p)" using Cons.prems(2) by simp
    ultimately show ?case using profile_boundaries_sound [OF _ assms(2)] by blast
  qed simp
  from this [of "[ctx_now ctx]"] assms(1) show ?thesis by (simp add: raw_boundaries_def)
qed

lemma raw_boundaries_now: "ctx_now ctx \<in> set (raw_boundaries ps ctx we)"
  using fold_extends [of "profile_boundaries ctx we" ps "[ctx_now ctx]"] profile_boundaries_extends
  unfolding raw_boundaries_def by fastforce

definition whole_profiles :: "installed_profile list \<Rightarrow> composition_context \<Rightarrow> bool" where
  "whole_profiles ps ctx = (whole_context ctx \<and> list_all (\<lambda>p. whole_profile (installed_of p)) ps)"

definition not_truncated :: "installed_profile list \<Rightarrow> composition_context \<Rightarrow> bool" where
  "not_truncated ps ctx = (length (raw_boundaries ps ctx (window_end_of ctx)) \<le> max_composition_boundaries)"

lemma strict_remdups_adj: "sorted xs \<Longrightarrow> sorted_wrt (<) (remdups_adj (xs::int list))"
  by (induction xs rule: remdups_adj.induct) auto

lemma composition_boundaries_complete:
  assumes "not_truncated ps ctx"
  shows "set (composition_boundaries ps ctx (window_end_of ctx)) = set (raw_boundaries ps ctx (window_end_of ctx))"
    and "sorted_wrt (<) (composition_boundaries ps ctx (window_end_of ctx))"
proof -
  let ?raw = "raw_boundaries ps ctx (window_end_of ctx)"
  have "length (remdups_adj (sort ?raw)) \<le> max_composition_boundaries"
    using remdups_adj_length [of "sort ?raw"] assms by (simp add: not_truncated_def)
  then have eq: "composition_boundaries ps ctx (window_end_of ctx) = remdups_adj (sort ?raw)"
    by (simp add: composition_boundaries_def)
  show "set (composition_boundaries ps ctx (window_end_of ctx)) = set ?raw" by (simp add: eq)
  show "sorted_wrt (<) (composition_boundaries ps ctx (window_end_of ctx))"
    by (simp add: eq strict_remdups_adj)
qed

lemma composite_agrees:
  assumes "compose ps ctx = Some cs" "whole_profiles ps ctx" "not_truncated ps ctx" "whole t"
  shows "ctx_now ctx \<le> t \<Longrightarrow> t < composite_start cs \<Longrightarrow> composed_limit_at ps ctx t = None"
    and "composite_start cs \<le> t \<Longrightarrow> t < composite_start cs + duration_seconds (uint (composite_duration_secs cs)) \<Longrightarrow>
      composed_limit_at ps ctx t \<noteq> None
      \<and> map_option period_value (composite_limit_at cs t) = map_option value_of (composed_limit_at ps ctx t)"
    and "ends_limit cs \<Longrightarrow>
      composed_limit_at ps ctx (composite_start cs + duration_seconds (uint (composite_duration_secs cs))) = None"
proof -
  let ?we = "window_end_of ctx"
  let ?bs = "composition_boundaries ps ctx ?we"
  let ?f = "composed_limit_at ps ctx"
  have ctx: "whole_context ctx" "\<And>p. p \<in> set ps \<Longrightarrow> whole_profile (installed_of p)"
    using assms(2) by (auto simp: whole_profiles_def list_all_iff)
  have now: "whole (ctx_now ctx)" using ctx(1) by (simp add: whole_context_def)
  note set_bs = composition_boundaries_complete(1) [OF assms(3)]
  have bs: "sorted_wrt (<) ?bs" by (rule composition_boundaries_complete(2) [OF assms(3)])
  have member: "x = ctx_now ctx \<or> ctx_now ctx < x \<and> x < ?we \<and> whole x" if "x \<in> set ?bs" for x
    using raw_boundaries_sound [OF _ ctx] that set_bs by blast
  have whole_bs: "whole x" "ctx_now ctx \<le> x" if "x \<in> set ?bs" for x using member [OF that] now by auto
  have we: "?we < ctx_now ctx + duration_seconds (2 ^ 32)" "ctx_now ctx \<le> ?we" "whole ?we"
    using now uint_bounded [of "ctx_duration_secs ctx"] by (simp_all add: window_end_of_def duration_seconds_def)
      (simp add: whole_def)
  have span: "b < a + duration_seconds (2 ^ 32)" if "a \<in> set ?bs" "b \<in> set ?bs" for a b
    using member [OF that(1)] member [OF that(2)] we(1,2) by auto
  have now_in: "ctx_now ctx \<in> set ?bs" using raw_boundaries_now set_bs by blast
  from assms(1) obtain periods rate ended where
    loop: "compose_loop ?f ?bs (None, [], None) = ((Some (composite_start cs), periods, rate), ended)"
    and cs: "composite_periods cs = periods" "ends_limit cs = (ended \<noteq> None)"
      "composite_duration_secs cs = secs_u32 (composite_start cs) (unwrap_or ended ?we)"
    by (auto simp: compose_def Let_def split: prod.splits option.splits)
  let ?st = "composite_start cs" and ?e = "unwrap_or ended ?we"
  have st: "?st \<in> set ?bs"
    by (rule compose_loop_values(1) [OF loop bs whole_bs(1) span now now_in]) auto
  have stop: "e \<in> set ?bs \<and> ?st \<le> e \<and> ?f e = None" if "ended = Some e" for e
    by (rule compose_loop_values(4) [OF loop bs whole_bs(1) span whole_bs(1) [OF st] st _ _ that]) auto
  have up_to: "x \<le> ?we" if "x \<in> set ?bs" for x using member [OF that] we(2) by auto
  have "?e \<le> ?we \<and> whole ?e \<and> ?st \<le> ?e"
  proof (cases ended)
    case None
    then show ?thesis using we(3) up_to [OF st] by (simp add: unwrap_or_def)
  next
    case (Some e)
    then show ?thesis using stop [OF Some] up_to whole_bs(1) by (simp add: unwrap_or_def)
  qed
  then have "?e \<le> ?we" "whole ?e" "?st \<le> ?e" by simp_all
  then have dur: "duration_seconds (uint (composite_duration_secs cs)) = ?e - ?st"
    using secs_u32_whole [OF whole_bs(1) [OF st], of ?e] num_seconds_whole [OF whole_bs(1) [OF st], of ?e]
      we(1) whole_bs(2) [OF st] by (simp add: cs(3))
  have stable: "?f t = ?f b" if b: "b \<in> set ?bs" "b \<le> t" "\<And>y. y \<in> set ?bs \<Longrightarrow> y \<le> t \<Longrightarrow> y \<le> b" and "t < ?we" for b
  proof (rule composed_between [OF ctx whole_bs(1) [OF b(1)] assms(4) b(2)])
    fix x p assume p: "p \<in> set ps" "may_change_at ctx (installed_of p) x"
    show "\<not> (b < x \<and> x \<le> t)"
    proof
      assume x: "b < x \<and> x \<le> t"
      then have "x \<in> set ?bs"
        using raw_boundaries_complete [OF _ p] assms(3) whole_bs(2) [OF b(1)] \<open>t < ?we\<close> set_bs
        by (auto simp: not_truncated_def)
      with b(3) x show False by force
    qed
  qed
  show "?f t = None" if "ctx_now ctx \<le> t" "t < ?st"
  proof (rule last_boundary [OF now_in that(1)])
    fix b assume b: "b \<in> set ?bs" "b \<le> t" "\<And>y. y \<in> set ?bs \<Longrightarrow> y \<le> t \<Longrightarrow> y \<le> b"
    have "?f b = None" by (rule compose_loop_values(2) [OF loop bs whole_bs(1) span assms(4) b that(2)])
    then show ?thesis using stable [OF b] that(2) \<open>?st \<le> ?e\<close> \<open>?e \<le> ?we\<close> by simp
  qed
  show "?f t \<noteq> None \<and> map_option period_value (composite_limit_at cs t) = map_option value_of (?f t)"
    if late: "?st \<le> t" and "t < ?st + duration_seconds (uint (composite_duration_secs cs))"
  proof (rule last_boundary [OF st late])
    fix b assume b: "b \<in> set ?bs" "b \<le> t" "\<And>y. y \<in> set ?bs \<Longrightarrow> y \<le> t \<Longrightarrow> y \<le> b"
    have before: "t < ?e" using that(2) dur by simp
    have "is_none_or ended (\<lambda>e. t < e)" using before by (cases ended) (simp_all add: unwrap_or_def)
    from compose_loop_values(3) [OF loop bs whole_bs(1) span assms(4) b late this]
    have "?f b \<noteq> None \<and> lookup_period periods (num_seconds (t - ?st)) = map_option value_of (?f b)" .
    moreover have "0 \<le> num_seconds (t - ?st)" "num_seconds (t - ?st) < uint (composite_duration_secs cs)"
      using late that(2) le_num_seconds [OF whole_bs(1) [OF st] assms(4), of 0]
        num_seconds_less [OF whole_bs(1) [OF st] assms(4)] by auto
    ultimately show ?thesis
      using stable [OF b] before \<open>?e \<le> ?we\<close>
      by (simp add: composite_limit_at_def lookup_period_def cs(1) Let_def)
  qed
  show "?f (?st + duration_seconds (uint (composite_duration_secs cs))) = None" if "ends_limit cs"
    using that stop cs(2) dur by (auto simp: unwrap_or_def)
qed

section \<open>Properties\<close>

text \<open>A profile in force from the epoch on, for the witnesses.\<close>

definition sample_profile :: "charging_profile_id \<Rightarrow> charging_profile_purpose \<Rightarrow> f64 \<Rightarrow> installed_profile" where
  "sample_profile i purpose limit =
     \<lparr>installed_scope = ScopeEvse 0,
      installed_of =
        \<lparr>profile_id = i, stack_level = 0, profile_purpose = purpose, profile_kind = AbsoluteKind, recurrency = None,
         valid_from = None, valid_to = Some (duration_seconds 50), profile_transaction_id = None,
         schedules = [\<lparr>schedule_id = 1, start_schedule = Some 0, duration_secs = None, rate_unit = Amps,
           min_charging_rate = None,
           periods = [\<lparr>start_period_secs = 0, period_limit = limit, number_phases = None\<rparr>,
                      \<lparr>start_period_secs = 20, period_limit = Fin 6, number_phases = Some 1\<rparr>]\<rparr>],
         dyn_update_interval_secs = None, dyn_update_time = None\<rparr>,
      installed_source = Cso\<rparr>"

definition sample_context :: composition_context where
  "sample_context =
     \<lparr>ctx_now = duration_seconds 10, ctx_transaction_id = Some 1, ctx_transaction_started_at = None,
      ctx_rate_unit = Amps, ctx_duration_secs = 60, ctx_supply = None, ctx_priority_charging = False\<rparr>"

text \<open>C29: the composed limit never exceeds an installation limit or an external constraint that
  is in force: unless local generation widens it at that instant, it is at most the limit of every
  capping profile that contributes.\<close>

theorem composed_limit_respects_caps:
  assumes "composed_limit_at ps ctx t = Some r" and "p \<in> set ps"
    and "caps_the_result (profile_purpose (installed_of p))"
    and "contribution_of ctx t (installed_of p) = Some c" and "contribution_limit c \<noteq> NaN"
    and "\<forall>q\<in>set ps. \<not> widens ctx t q"
  shows "f64_le (contribution_limit r) (contribution_limit c)"
proof -
  let ?a = "fold (compose_profile ctx t) ps \<lparr>selected = None, cap = None, headroom = None\<rparr>"
  obtain m where m: "cap ?a = Some m" "f64_le m (contribution_limit c)"
    using capped_by_member [OF assms(2-5), of "\<lparr>selected = None, cap = None, headroom = None\<rparr>"]
    by (auto simp: capped_by_def)
  then have "m \<noteq> NaN" by auto
  have "headroom ?a = None" by (rule headroom_None_fold [OF assms(6)]) simp
  then have "contribution_limit r = m \<or> (\<exists>x. contribution_limit r = f64_min x m)"
    using assms(1) m(1) by (auto simp: composed_limit_at_def Let_def split: option.splits prod.splits)
  then show ?thesis using m(2) f64_le_trans [OF f64_min_le(2) [OF \<open>m \<noteq> NaN\<close>] m(2)] by auto
qed

theorem composed_limit_respects_caps_witness:
  "\<exists>r. composed_limit_at [sample_profile 1 TxDefault (Fin 32), sample_profile 2 ChargePointMax (Fin 16)]
        sample_context (duration_seconds 10) = Some r \<and> f64_le (contribution_limit r) (Fin 16)"
proof -
  let ?ps = "[sample_profile 1 TxDefault (Fin 32), sample_profile 2 ChargePointMax (Fin 16)]"
  let ?c = "\<lparr>contribution_limit = Fin 16, contribution_phases = None, contribution_min_rate = None\<rparr>"
  have r: "composed_limit_at ?ps sample_context (duration_seconds 10) = Some ?c" by code_simp
  have c: "contribution_of sample_context (duration_seconds 10) (installed_of (sample_profile 2 ChargePointMax (Fin 16)))
      = Some ?c" by code_simp
  have "f64_le (contribution_limit ?c) (contribution_limit ?c)"
    by (rule composed_limit_respects_caps [OF r _ _ c])
      (simp_all add: sample_profile_def caps_the_result_def widens_def adds_to_the_result_def)
  with r show ?thesis by auto
qed

text \<open>C30: among the profiles that compete at an instant one of the highest purpose and, within
  it, of the highest stack level leads: it decides the number of phases, and the limit too where
  no cap and no local generation is in force.\<close>

theorem leading_profile_decides:
  assumes "composed_limit_at ps ctx t = Some r" and "q \<in> set ps" and "competes ctx t q"
  shows "\<exists>p c. p \<in> set ps \<and> competes ctx t p \<and> contribution_of ctx t (installed_of p) = Some c
    \<and> (\<forall>q\<in>set ps. competes ctx t q \<longrightarrow> \<not> outranks (rank_of q) (rank_of p))
    \<and> contribution_phases r = contribution_phases c
    \<and> ((\<forall>q\<in>set ps. competes ctx t q \<or> contribution_of ctx t (installed_of q) = None) \<longrightarrow> r = c)"
proof -
  let ?a = "fold (compose_profile ctx t) ps \<lparr>selected = None, cap = None, headroom = None\<rparr>"
  obtain purpose level c where sel: "selected ?a = Some (purpose, level, c)"
    using selection_fold [of ctx t ps] assms(2,3) by (auto simp: selection_of_def split: option.splits)
  with selection_fold [of ctx t ps] obtain p where
    p: "p \<in> set ps" "competes ctx t p" "rank_of p = (purpose, level)" "contribution_of ctx t (installed_of p) = Some c"
      "\<forall>q\<in>set ps. competes ctx t q \<longrightarrow> \<not> outranks (rank_of q) (purpose, level)"
    by (auto simp: selection_of_def)
  have "contribution_phases r = contribution_phases c"
    using assms(1) sel by (auto simp: composed_limit_at_def Let_def split: option.splits prod.splits)
  moreover have "r = c" if "\<forall>q\<in>set ps. competes ctx t q \<or> contribution_of ctx t (installed_of q) = None"
  proof -
    have "cap ?a = None" by (rule cap_None_fold) (use that in \<open>auto simp: competes_def\<close>)
    moreover have "headroom ?a = None" by (rule headroom_None_fold) (use that in \<open>auto simp: competes_def widens_def\<close>)
    ultimately show ?thesis using assms(1) sel by (simp add: composed_limit_at_def)
  qed
  ultimately show ?thesis using p by metis
qed

theorem leading_profile_decides_witness:
  "\<exists>p c. p \<in> set [sample_profile 1 TxDefault (Fin 32), sample_profile 2 TxPurpose (Fin 10)]
     \<and> contribution_of sample_context (duration_seconds 10) (installed_of p) = Some c
     \<and> \<not> outranks (TxPurpose, 0) (rank_of p)"
proof -
  let ?ps = "[sample_profile 1 TxDefault (Fin 32), sample_profile 2 TxPurpose (Fin 10)]"
  let ?q = "sample_profile 2 TxPurpose (Fin 10)"
  have r: "composed_limit_at ?ps sample_context (duration_seconds 10)
      = Some \<lparr>contribution_limit = Fin 10, contribution_phases = None, contribution_min_rate = None\<rparr>" by code_simp
  have q: "competes sample_context (duration_seconds 10) ?q" by code_simp
  have rank: "rank_of ?q = (TxPurpose, 0)" by (simp add: sample_profile_def)
  from leading_profile_decides [OF r, of ?q] q obtain p c where "p \<in> set ?ps"
    "contribution_of sample_context (duration_seconds 10) (installed_of p) = Some c"
    "\<forall>q\<in>set ?ps. competes sample_context (duration_seconds 10) q \<longrightarrow> \<not> outranks (rank_of q) (rank_of p)"
    by auto
  with q rank show ?thesis by (metis list.set_intros(1,2))
qed



section \<open>Fractions of a second\<close>

text \<open>An instant less than a second before a schedule starts counts as its first second, because
  the difference is truncated towards zero.\<close>

lemma schedule_starts_a_second_early:
  assumes "profile_kind p = AbsoluteKind" and "start_schedule s = Some anchor" and "0 < d" and "d < 1000000000"
  shows "elapsed_into_schedule p s ctx (anchor - d) = Some 0"
  using assms by (simp add: elapsed_into_schedule_def schedule_anchor_def unwrap_or_def num_seconds_def)

end
