(* ===== verification/Reservation_Invariant.thy ===== *)
theory Reservation_Invariant
  imports Publication
begin

text \<open>
  Invariants of one EVSE's connectors and reservations, lifted to every reachable state of the
  charge point, and the one that the reservation handlers rely on: a connector has a reservation
  exactly while it is \<open>Reserved\<close>.
\<close>

section \<open>After the event\<close>

text \<open>The passes that follow an event write the device model and may forget a pending reset; every
  other field is as the event left it.\<close>

lemma sync_variables_fields:
  "sync_variables s = s\<lparr>device_model_of := device_model_of (sync_variables s)\<rparr>"
  by (simp add: sync_variables_def sync_inventory_counters_def sync_network_configuration_variables_def
      sync_availability_variables_def Let_def)

lemma cp_apply_fields:
  assumes "cp_apply rfc ev s = Some (s', effects)"
  obtains s1 effects1 b m r where "apply_event rfc ev s = Some (s1, effects1, b)"
    and "s' = s1\<lparr>device_model_of := m, pending_reset_of := r\<rparr>" and "set effects1 \<subseteq> set effects"
proof -
  from assms obtain s1 effects1 b effects2 where
    event: "apply_event rfc ev s = Some (s1, effects1, b)" and
    reset: "check_pending_reset (sync_variables s1) = Some (s', effects2)" and
    effects: "effects = (if b then [StateChanged] else []) @ effects1 @ effects2"
    by (rule cp_applyE)
  define m where "m = device_model_of (sync_variables s1)"
  have sync: "sync_variables s1 = s1\<lparr>device_model_of := m\<rparr>" unfolding m_def by (rule sync_variables_fields)
  have "s' = sync_variables s1 \<or> s' = (sync_variables s1)\<lparr>pending_reset_of := None\<rparr>"
    using reset by (auto simp: check_pending_reset_def split: option.splits if_splits)
  then have "s' = s1\<lparr>device_model_of := m, pending_reset_of := pending_reset_of s'\<rparr>"
    unfolding sync by auto
  with that event effects show thesis by auto
qed

section \<open>Invariants of an EVSE\<close>

locale evse_invariant =
  fixes I :: "evse_state \<Rightarrow> bool"
  assumes I_step: "evse_step policy sl i c ev n e = (e', n', effs, out) \<Longrightarrow> c < length (connectors e) \<Longrightarrow> I e \<Longrightarrow> I e'"
    and I_same: "connectors e' = connectors e \<Longrightarrow> reservations e' = reservations e \<Longrightarrow> I e \<Longrightarrow> I e'"
begin

definition holds :: "charge_point_state \<Rightarrow> bool" where
  "holds s = list_all I (evses s)"

lemma holds_evses: "evses s' = evses s \<Longrightarrow> holds s \<Longrightarrow> holds s'"
  by (simp add: holds_def)

lemma holds_update_evse:
  "(\<And>e. connectors (f e) = connectors e) \<Longrightarrow> (\<And>e. reservations (f e) = reservations e) \<Longrightarrow> holds s
   \<Longrightarrow> holds (update_evse i f s)"
  by (auto simp: holds_def update_evse_def list_all_length nth_list_update intro: I_same)

lemma holds_connector_step:
  assumes "connector_step i c ev s = Some (s', effs, out)" and "holds s"
  shows "holds s'"
proof -
  from assms(1) obtain e e' effects1 out1 where
    st: "i < length (evses s)" "e = evses s ! i" "c < length (connectors e)" and
    step: "evse_step (connector_policy_of s) (string_variable ''TxCtrlr'' ''SupportedLimits'' s)
          i c ev (next_transaction_id s) e = (e', next_transaction_id s', effects1, out1)" and
    s': "evses s' = (evses s)[i := e']"
    by (rule connector_step_evse)
  have "I e'" using I_step [OF step st(3)] assms(2) st by (simp add: holds_def list_all_length)
  then show ?thesis using assms(2) st(1)
    by (auto simp: holds_def s' list_all_iff dest!: set_update_subset_insert [THEN subsetD])
qed

lemma reservations_update_slot [simp]: "reservations (update_slot c f e) = reservations e"
  by (simp add: update_slot_def split: option.splits)

lemma evse_apply_same [simp]:
  "connectors (fst (evse_apply ev e)) = connectors e" "reservations (fst (evse_apply ev e)) = reservations e"
  by (cases ev; simp add: evse_apply_def evse_set_status_def)+

end

sublocale evse_invariant \<subseteq> handler: handler_relation "\<lambda>_. True" "\<lambda>s _ s'. holds s \<longrightarrow> holds s'"
proof
  show "holds s \<longrightarrow> holds s'" if "connector_step i c ev s = Some (s', effects, out)" for i c ev s s' effects out
    using that holds_connector_step by blast
  show "holds s \<longrightarrow> holds s'" if "request_current_limit i c l s = (s', effects)" for i c l s s' effects
    using that by (auto simp: request_current_limit_def split: option.splits if_splits intro: holds_update_evse)
  show "holds s \<longrightarrow> holds s'" if "mark_limit_reached i c kind s = (s', effects)" for i c kind s s' effects
    using that by (auto simp: mark_limit_reached_def Let_def intro: holds_update_evse)
  show "holds s \<longrightarrow> holds (clear_limit_reached i c s)" for i c s
    by (auto simp: clear_limit_reached_def intro: holds_update_evse)
  show "holds s \<longrightarrow> holds s'" if "apply_to_evse i eev s = (s', b)" for i eev s s' b
  proof -
    have "s' = s \<or> s' = update_evse i (\<lambda>e. fst (evse_apply eev e)) s"
      using that by (auto simp: apply_to_evse_def update_evse_def dest!: vec_get_SomeD split: option.splits)
    then show ?thesis by (auto intro: holds_update_evse)
  qed
qed auto

context evse_invariant
begin

lemma holds_fields:
  assumes "holds s"
  shows "priority_charging_set t on locally s = (s', effs, b) \<Longrightarrow> holds s'"
    and "set_external_charging_limit target limit s = (s', effs, b) \<Longrightarrow> holds s'"
    and "clear_external_charging_limit target source lg s = (s', effs, b) \<Longrightarrow> holds s'"
    and "transactions_restored n xs s = (s', effs, b) \<Longrightarrow> holds s'"
  using assms
  by (auto simp: priority_charging_set_def set_external_charging_limit_def clear_external_charging_limit_def
      transactions_restored_def Let_def
      split: option.splits if_splits intro!: holds_update_evse intro: holds_evses [OF _ assms])

lemma holds_cascades:
  assumes "holds s"
  shows "station_fault detected s = (s', effs, b) \<Longrightarrow> holds s'"
    and "reset_requested target kind s = (s', effs, b) \<Longrightarrow> holds s'"
    and "restore_reservations rs s = (s', effs, b) \<Longrightarrow> holds s'"
    and "evse_event_applied i eev s = (s', effs, b) \<Longrightarrow> holds s'"
proof -
  have fields: "holds (s\<lparr>lifecycle := l\<rparr>)" "holds (s\<lparr>pending_reset_of := p\<rparr>)" for l p
    by (rule holds_evses [OF _ assms]; simp)+
  show "holds s'" if "station_fault detected s = (s', effs, b)"
  proof -
    from that obtain l b' where "cascade_evses [0 ..< length (evses s)] detected (s\<lparr>lifecycle := l\<rparr>) = (s', effs, b')"
      by (auto simp: station_fault_def cascade_charge_point_fault_def set_lifecycle_def Let_def split: prod.splits)
    from handler.cascade [OF this] fields(1) show ?thesis by simp
  qed
  show "holds s'" if "reset_requested target kind s = (s', effs, b)"
  proof (cases "kind = Immediate")
    case True
    with that obtain xs p b' where "apply_each xs (s\<lparr>pending_reset_of := p\<rparr>) = (s', effs, b')"
      by (auto simp: reset_requested_def Let_def split: prod.splits)
    from handler.each [OF this] fields(2) show ?thesis by simp
  next
    case False
    with that fields(2) show ?thesis by (auto simp: reset_requested_def Let_def)
  qed
  show "holds s'" if "restore_reservations rs s = (s', effs, b)"
    using handler.reservations [OF that] assms by simp
  show "holds s'" if "evse_event_applied i eev s = (s', effs, b)"
    using that assms handler.handler(1) handler.cascade_evse handler.Q_status
    by (cases eev) (auto simp: evse_event_applied_def split: prod.splits)
qed

lemma holds_event:
  assumes "apply_event rfc ev s = Some (s', effects, b)" and "holds s"
  shows "holds s'"
proof (cases "store_event ev")
  case True
  from store_event_evses [OF assms(1) this] assms(2) show ?thesis by (rule holds_evses)
next
  case False
  with assms(1) show ?thesis
    by (cases ev) (auto simp: store_event_def intro: holds_cascades [OF assms(2)] holds_fields [OF assms(2)])
qed

lemma holds_cp_apply:
  assumes "cp_apply rfc ev s = Some (s', effects)" and "holds s"
  shows "holds s'"
proof -
  from assms(1) obtain s1 effects1 b m r where "apply_event rfc ev s = Some (s1, effects1, b)"
    and s': "s' = s1\<lparr>device_model_of := m, pending_reset_of := r\<rparr>" by (rule cp_apply_fields)
  then have "holds s1" using assms(2) holds_event by blast
  then show ?thesis by (rule holds_evses [rotated]) (simp add: s')
qed

lemma reachable_holds:
  assumes "reachable rfc counts limits s" and "\<And>n. I (evse_new n)"
  shows "holds s"
  using assms(1)
proof induction
  case start
  show ?case using assms(2) by (simp add: holds_def cp_with_limits_def list_all_iff)
qed (rule holds_cp_apply)

end

section \<open>Reservations\<close>

text \<open>A connector is \<open>Reserved\<close> exactly while its slot holds a reservation.\<close>

definition reservations_match :: "evse_state \<Rightarrow> bool" where
  "reservations_match e = list_all2 (\<lambda>st r. (r \<noteq> None) = (st = Reserved)) (connectors e) (reservations e)"

lemma stages_reservations:
  "reservations (allowance_stage policy c ev e) = reservations e"
  "limit_set_stage sl c ev e = (e', b) \<Longrightarrow> reservations e' = reservations e"
  "elapsed_stage c ev e = (e', b) \<Longrightarrow> reservations e' = reservations e"
  "pending_stage c ev prev new e = (e', b, dispatch) \<Longrightarrow> reservations e' = reservations e"
  "transaction_stage i c ev prev new origin points n e = (e', n', effs) \<Longrightarrow> reservations e' = reservations e"
  "sample_stage c ev e = (e', b) \<Longrightarrow> reservations e' = reservations e"
  "current_limit_stage i c ev e = (e', b, effs) \<Longrightarrow> reservations e' = reservations e"
  "confirmed_limit_stage c ev e = (e', b) \<Longrightarrow> reservations e' = reservations e"
  "cost_stage c ev e = (e', b) \<Longrightarrow> reservations e' = reservations e"
  "tariff_stage c ev e = (e', b) \<Longrightarrow> reservations e' = reservations e"
  "running_cost_stage c ev e = (e', b) \<Longrightarrow> reservations e' = reservations e"
  by (auto simp: allowance_stage_def limit_set_stage_def elapsed_stage_def pending_stage_def set_pending_def
      transaction_stage_def clear_costs_def sample_stage_def current_limit_stage_def confirmed_limit_stage_def
      cost_stage_def tariff_stage_def running_cost_stage_def update_slot_def Let_def
      split: connector_event.splits if_splits option.splits prod.splits transaction_event_kind.splits)

text \<open>The slot of the connector after a step, from the states before and after it.\<close>

definition reservation_after ::
  "connector_event \<Rightarrow> connector_state \<Rightarrow> connector_state \<Rightarrow> reservation option \<Rightarrow> reservation option" where
  "reservation_after ev prev new slot =
     (if new = Reserved then (case ev of ReservedFor r \<Rightarrow> Some r | _ \<Rightarrow> slot)
      else if prev = Reserved then None else slot)"

lemma evse_step_reservations:
  assumes "evse_step policy sl i c ev n e = (e', n', effs, out)" and "c < length (connectors e)"
    and "length (reservations e) = length (connectors e)"
  shows "connectors e' = (connectors e)[c := fst (connector_next (connectors e ! c) ev policy)]"
    and "reservations e' = (reservations e)[c := reservation_after ev (connectors e ! c)
      (fst (connector_next (connectors e ! c) ev policy)) (reservations e ! c)]"
proof -
  let ?new = "fst (connector_next (connectors e ! c) ev policy)"
  note shape = evse_step_shape [OF assms(1)]
  have "connectors e' = (connectors e)[c := ?new] \<and> reservations e' = (reservations e)[c := reservation_after ev (connectors e ! c) ?new (reservations e ! c)]"
  proof (rule evse_stepE [OF assms(1)], goal_cases)
    case (1 new tr e1 re e3 limit_set e4 elapsed e5 pc dispatch e6 eff6 e7 sr e8 lc eff8 e10 con e11 cr e12 tar rcr)
    have new: "new = ?new"
      using 1(1) by (auto simp: connector_apply_def Let_def split: prod.splits)
    have "reservations e' = reservations e1"
      using stages_reservations(2) [OF 1(3)] stages_reservations(3) [OF 1(4)] stages_reservations(4) [OF 1(5)]
        stages_reservations(5) [OF 1(6)] stages_reservations(6) [OF 1(7)] stages_reservations(7) [OF 1(8)]
        stages_reservations(8) [OF 1(9)] stages_reservations(9) [OF 1(10)] stages_reservations(10) [OF 1(11)]
        stages_reservations(11) [OF 1(12)]
      by (simp add: stages_reservations(1))
    moreover have "reservations e1 = (reservations e)[c := reservation_after ev (connectors e ! c) new (reservations e ! c)]"
      using 1(2) assms(2,3)
      by (auto simp: reservation_stage_def reservation_after_def Let_def split: if_splits connector_event.splits prod.splits)
    ultimately show ?case using new shape by (simp add: same_shape_def)
  qed
  then show "connectors e' = (connectors e)[c := ?new]"
    and "reservations e' = (reservations e)[c := reservation_after ev (connectors e ! c) ?new (reservations e ! c)]"
    by simp_all
qed

lemma connector_next_reserved:
  "fst (connector_next st ev p) = Reserved \<Longrightarrow> st = Reserved \<or> (st = Available \<and> (\<exists>r. ev = ReservedFor r))"
  by (cases ev) (auto simp: energy_states_def reset_states_def split: if_splits)

lemma reservation_after_match:
  assumes "(slot \<noteq> None) = (st = Reserved)"
  shows "(reservation_after ev st (fst (connector_next st ev p)) slot \<noteq> None) = (fst (connector_next st ev p) = Reserved)"
proof (cases "fst (connector_next st ev p) = Reserved")
  case True
  have "\<exists>r. reservation_after ev st Reserved slot = Some r"
  proof (cases "\<exists>r. ev = ReservedFor r")
    case False
    then have "reservation_after ev st Reserved slot = slot"
      by (simp add: reservation_after_def split: connector_event.splits)
    moreover have "st = Reserved" using connector_next_reserved [OF True] False by auto
    ultimately show ?thesis using assms by simp
  qed (auto simp: reservation_after_def)
  with True show ?thesis by simp
qed (use assms in \<open>auto simp: reservation_after_def\<close>)

interpretation reservations: evse_invariant reservations_match
proof
  fix policy sl i c ev n e e' n' effs out
  assume step: "evse_step policy sl i c ev n e = (e', n', effs, out)" and "c < length (connectors e)"
    and inv: "reservations_match e"
  moreover have "length (reservations e) = length (connectors e)"
    using inv by (auto simp: reservations_match_def dest: list_all2_lengthD)
  ultimately show "reservations_match e'"
    using evse_step_reservations [OF step] reservation_after_match
    by (auto simp: reservations_match_def list_all2_conv_all_nth nth_list_update)
qed (simp add: reservations_match_def)

lemma reachable_reservations:
  "reachable rfc counts limits s \<Longrightarrow> list_all reservations_match (evses s)"
  using reservations.reachable_holds
  by (simp add: reservations.holds_def reservations_match_def evse_new_def list_all2_conv_all_nth)

end
