(* ===== verification/Offline_Queue.thy ===== *)
theory Offline_Queue
  imports Prelude
begin

text \<open>
  \<open>offline_queue.rs\<close> and \<open>replay_protection.rs\<close>: the bounded queue of reports that could not be
  delivered, and the bounded memory of completed commands.

  A flush peeks at the front message, awaits its transmission and pops the front only then, so
  other tasks run between the two.  The flush is therefore a machine: it is idle or awaits the
  answer to the message it took, and pushes may come at any time.  The registration gate is an
  argument (\<open>gate\<close>), as is the stamp an \<open>OfflineMark\<close> puts on a held message (\<open>mark\<close>).
\<close>

section \<open>The queue\<close>

datatype overflow_policy = DropOldest | DropNewest

record 'm offline_queue =
  pending :: "'m list"
  queue_capacity :: usize
  queue_policy :: overflow_policy
  flushing :: bool
  front_attempts :: u32

definition default_capacity :: usize where
  "default_capacity = 100"

definition queue_with_capacity :: "usize \<Rightarrow> 'm offline_queue" where
  "queue_with_capacity capacity =
     \<lparr>pending = [], queue_capacity = max capacity 1, queue_policy = DropOldest,
      flushing = False, front_attempts = 0\<rparr>"

definition queue_new :: "'m offline_queue" where
  "queue_new = queue_with_capacity default_capacity"

definition with_overflow_policy :: "overflow_policy \<Rightarrow> 'm offline_queue \<Rightarrow> 'm offline_queue" where
  "with_overflow_policy policy q = q\<lparr>queue_policy := policy\<rparr>"

definition mark_backlog_offline :: "('m \<Rightarrow> 'm) option \<Rightarrow> 'm offline_queue \<Rightarrow> 'm offline_queue" where
  "mark_backlog_offline mark q =
     (case mark of None \<Rightarrow> q | Some f \<Rightarrow> q\<lparr>pending := map f (pending q)\<rparr>)"

definition may_flush :: "(unit \<Rightarrow> bool) option \<Rightarrow> bool" where
  "may_flush gate = is_none_or gate (\<lambda>g. g ())"

text \<open>The message an overflow removes is handed back.\<close>

definition queue_push :: "'m \<Rightarrow> 'm offline_queue \<Rightarrow> 'm offline_queue \<times> 'm option" where
  "queue_push m q =
     (if queue_capacity q \<le> length (pending q)
      then (case queue_policy q of
              DropOldest \<Rightarrow>
                (q\<lparr>pending := tl (pending q) @ [m]\<rparr>,
                 (case pending q of [] \<Rightarrow> None | x # _ \<Rightarrow> Some x))
            | DropNewest \<Rightarrow> (q, Some m))
      else (q\<lparr>pending := pending q @ [m]\<rparr>, None))"

definition try_begin_flush :: "'m offline_queue \<Rightarrow> 'm offline_queue \<times> bool" where
  "try_begin_flush q = (q\<lparr>flushing := True\<rparr>, \<not> flushing q)"

definition end_flush :: "'m offline_queue \<Rightarrow> 'm offline_queue" where
  "end_flush q = q\<lparr>flushing := False\<rparr>"

definition record_failed_attempt :: "'m offline_queue \<Rightarrow> 'm offline_queue \<times> u32" where
  "record_failed_attempt q = (q\<lparr>front_attempts := front_attempts q + 1\<rparr>, front_attempts q + 1)"

definition reset_attempts :: "'m offline_queue \<Rightarrow> 'm offline_queue" where
  "reset_attempts q = q\<lparr>front_attempts := 0\<rparr>"

definition peek_front :: "'m offline_queue \<Rightarrow> 'm option" where
  "peek_front q = (case pending q of [] \<Rightarrow> None | m # _ \<Rightarrow> Some m)"

definition pop_front :: "'m offline_queue \<Rightarrow> 'm offline_queue" where
  "pop_front q = reset_attempts (q\<lparr>pending := tl (pending q)\<rparr>)"

fun restore_pushes :: "'m list \<Rightarrow> 'm offline_queue \<Rightarrow> 'm offline_queue \<times> 'm list" where
  "restore_pushes [] q = (q, [])"
| "restore_pushes (m # ms) q =
     (case queue_push m q of
        (q1, evicted) \<Rightarrow>
          (case restore_pushes ms q1 of (q2, dropped) \<Rightarrow> (q2, (case evicted of None \<Rightarrow> [] | Some x \<Rightarrow> [x]) @ dropped)))"

definition restore_backlog ::
  "('m \<Rightarrow> 'm) option \<Rightarrow> 'm list \<Rightarrow> 'm offline_queue \<Rightarrow> 'm offline_queue \<times> 'm list" where
  "restore_backlog mark ms q =
     (case restore_pushes ms q of (q1, dropped) \<Rightarrow> (mark_backlog_offline mark q1, dropped))"

section \<open>The flush\<close>

text \<open>The head of the loop: take the front message and await its transmission, or finish.\<close>

definition flush_next :: "'m offline_queue \<Rightarrow> 'm offline_queue \<times> 'm option" where
  "flush_next q =
     (case peek_front q of None \<Rightarrow> (end_flush q, None) | Some m \<Rightarrow> (q, Some m))"

definition flush_begin ::
  "(unit \<Rightarrow> bool) option \<Rightarrow> ('m \<Rightarrow> 'm) option \<Rightarrow> 'm offline_queue \<Rightarrow> 'm offline_queue \<times> 'm option" where
  "flush_begin gate mark q =
     (if \<not> may_flush gate then (mark_backlog_offline mark q, None)
      else case try_begin_flush q of
             (q1, begun) \<Rightarrow> if begun then flush_next q1 else (q1, None))"

text \<open>The rest of the loop body once the transmission has succeeded or failed.\<close>

definition flush_answer ::
  "u32 option \<Rightarrow> ('m \<Rightarrow> 'm) option \<Rightarrow> bool \<Rightarrow> 'm offline_queue \<Rightarrow> 'm offline_queue \<times> 'm option" where
  "flush_answer max_attempts mark ok q =
     (if ok then flush_next (pop_front q)
      else case record_failed_attempt (mark_backlog_offline mark q) of
             (q1, attempts) \<Rightarrow>
               (case max_attempts of
                  Some most \<Rightarrow> if most \<le> attempts then flush_next (pop_front q1) else (end_flush q1, None)
                | None \<Rightarrow> (end_flush q1, None)))"

text \<open>A flush on its own: \<open>answers\<close> are the outcomes of the transmissions, in order.  The result
  is the queue, the messages transmitted with their outcomes, and the message awaited where the
  answers ran out.\<close>

fun flush_loop ::
  "u32 option \<Rightarrow> ('m \<Rightarrow> 'm) option \<Rightarrow> bool list \<Rightarrow> 'm offline_queue \<times> 'm option
   \<Rightarrow> 'm offline_queue \<times> ('m \<times> bool) list \<times> 'm option" where
  "flush_loop max_attempts mark answers (q, None) = (q, [], None)"
| "flush_loop max_attempts mark [] (q, Some m) = (q, [], Some m)"
| "flush_loop max_attempts mark (ok # answers) (q, Some m) =
     (case flush_loop max_attempts mark answers (flush_answer max_attempts mark ok q) of
        (q1, sent, waiting) \<Rightarrow> (q1, (m, ok) # sent, waiting))"

definition flush_offline_queue_with_attempts ::
  "u32 option \<Rightarrow> (unit \<Rightarrow> bool) option \<Rightarrow> ('m \<Rightarrow> 'm) option \<Rightarrow> bool list \<Rightarrow> 'm offline_queue
   \<Rightarrow> 'm offline_queue \<times> ('m \<times> bool) list \<times> 'm option" where
  "flush_offline_queue_with_attempts max_attempts gate mark answers q =
     flush_loop max_attempts mark answers (flush_begin gate mark q)"

section \<open>The replay guard\<close>

record 'a replay_guard =
  seen :: "'a list"
  guard_capacity :: usize

definition default_replay_guard_capacity :: usize where
  "default_replay_guard_capacity = 16"

definition guard_with_capacity :: "usize \<Rightarrow> 'a replay_guard" where
  "guard_with_capacity capacity = \<lparr>seen = [], guard_capacity = max capacity 1\<rparr>"

definition guard_new :: "'a replay_guard" where
  "guard_new = guard_with_capacity default_replay_guard_capacity"

definition guard_contains :: "'a \<Rightarrow> 'a replay_guard \<Rightarrow> bool" where
  "guard_contains x g = list_ex (\<lambda>y. y = x) (seen g)"

definition guard_record :: "'a \<Rightarrow> 'a replay_guard \<Rightarrow> 'a replay_guard" where
  "guard_record x g =
     g\<lparr>seen := (if guard_capacity g \<le> length (seen g) then tl (seen g) else seen g) @ [x]\<rparr>"

section \<open>Interleaved delivery\<close>

text \<open>The queue with the tasks around it: messages arrive, flushes are started by several tasks,
  and the answer to the message under way comes in.  \<open>accepted_messages\<close> are the messages a push
  let in, \<open>handled\<close> those popped by the flush, in order, with whether they had been delivered, and
  \<open>transmitted\<close> every message handed to the connection.\<close>

datatype 'm queue_action = Push 'm | Flush bool | Answer bool

record 'm delivery =
  dqueue :: "'m offline_queue"
  awaited :: "'m option"
  accepted_messages :: "'m list"
  handled :: "('m \<times> bool) list"
  transmitted :: "('m \<times> bool) list"
  handed_back :: "'m list"

definition delivery_start :: "'m offline_queue \<Rightarrow> 'm delivery" where
  "delivery_start q =
     \<lparr>dqueue = q, awaited = None, accepted_messages = [], handled = [], transmitted = [], handed_back = []\<rparr>"

definition gives_up :: "u32 option \<Rightarrow> 'm offline_queue \<Rightarrow> bool" where
  "gives_up max_attempts q = is_some_and max_attempts (\<lambda>most. most \<le> front_attempts q + 1)"

fun delivery_step :: "u32 option \<Rightarrow> ('m \<Rightarrow> 'm) option \<Rightarrow> 'm queue_action \<Rightarrow> 'm delivery \<Rightarrow> 'm delivery" where
  "delivery_step most mark (Push m) d =
     (case queue_push m (dqueue d) of
        (q, back) \<Rightarrow>
          d\<lparr>dqueue := q, handed_back := handed_back d @ (case back of None \<Rightarrow> [] | Some x \<Rightarrow> [x]),
            accepted_messages := accepted_messages d
              @ (if back = Some m \<and> queue_policy (dqueue d) = DropNewest then [] else [m])\<rparr>)"
| "delivery_step most mark (Flush open_gate) d =
     (case flush_begin (Some (\<lambda>_. open_gate)) mark (dqueue d) of
        (q, taken) \<Rightarrow> d\<lparr>dqueue := q, awaited := (if awaited d = None then taken else awaited d)\<rparr>)"
| "delivery_step most mark (Answer ok) d =
     (case awaited d of
        None \<Rightarrow> d
      | Some m \<Rightarrow>
          (case flush_answer most mark ok (dqueue d) of
             (q, taken) \<Rightarrow>
               d\<lparr>dqueue := q, awaited := taken, transmitted := transmitted d @ [(m, ok)],
                 handled := handled d
                   @ (if ok \<or> gives_up most (dqueue d) then [(m, ok)] else [])\<rparr>))"

definition delivery_run ::
  "u32 option \<Rightarrow> ('m \<Rightarrow> 'm) option \<Rightarrow> 'm queue_action list \<Rightarrow> 'm delivery \<Rightarrow> 'm delivery" where
  "delivery_run most mark xs d = fold (delivery_step most mark) xs d"

section \<open>The queue stays within its capacity\<close>

definition queue_inv :: "'m offline_queue \<Rightarrow> bool" where
  "queue_inv q = (length (pending q) \<le> queue_capacity q \<and> 1 \<le> queue_capacity q)"

lemma queue_inv_init [simp]: "queue_inv (queue_with_capacity n)"
  by (simp add: queue_inv_def queue_with_capacity_def)

lemma queue_parts [simp]:
  "pending (end_flush q) = pending q" "queue_capacity (end_flush q) = queue_capacity q"
  "queue_policy (end_flush q) = queue_policy q" "flushing (end_flush q) = False"
  "pending (pop_front q) = tl (pending q)" "queue_capacity (pop_front q) = queue_capacity q"
  "queue_policy (pop_front q) = queue_policy q" "flushing (pop_front q) = flushing q"
  "queue_capacity (mark_backlog_offline mark q) = queue_capacity q"
  "queue_policy (mark_backlog_offline mark q) = queue_policy q"
  "flushing (mark_backlog_offline mark q) = flushing q"
  "length (pending (mark_backlog_offline mark q)) = length (pending q)"
  "front_attempts (mark_backlog_offline mark q) = front_attempts q"
  by (simp_all add: end_flush_def pop_front_def reset_attempts_def mark_backlog_offline_def split: option.splits)

lemma queue_push_frame:
  assumes "queue_push m q = (q', back)"
  shows "queue_capacity q' = queue_capacity q" "queue_policy q' = queue_policy q" "flushing q' = flushing q"
  using assms by (auto simp: queue_push_def split: if_splits overflow_policy.splits)

lemma queue_inv_push: "queue_inv q \<Longrightarrow> queue_push m q = (q', back) \<Longrightarrow> queue_inv q'"
  by (auto simp: queue_inv_def queue_push_def split: if_splits overflow_policy.splits)

text \<open>What a flush does to the queue: it drops its front or leaves its length.\<close>

lemma flush_begin_frame:
  assumes "flush_begin gate mark q = (q', taken)"
  shows "queue_capacity q' = queue_capacity q" "queue_policy q' = queue_policy q"
    "pending q' = pending q \<or> q' = mark_backlog_offline mark q"
    "flushing q \<Longrightarrow> flushing q' \<and> taken = None"
    "\<not> flushing q \<Longrightarrow> flushing q' \<longleftrightarrow> taken \<noteq> None"
    "taken \<noteq> None \<Longrightarrow> pending q' = pending q \<and> taken = peek_front q"
  using assms
  by (auto simp: flush_begin_def try_begin_flush_def flush_next_def peek_front_def end_flush_def
      split: if_splits option.splits list.splits)

lemma flush_answer_frame:
  assumes "flush_answer most mark ok q = (q', taken)"
  shows "queue_capacity q' = queue_capacity q" "queue_policy q' = queue_policy q"
    "taken \<noteq> None \<Longrightarrow> taken = peek_front q'"
    "flushing q \<Longrightarrow> flushing q' \<longleftrightarrow> taken \<noteq> None"
    "pending q' = (let p = (if ok then pending q else pending (mark_backlog_offline mark q))
       in if ok \<or> gives_up most q then tl p else p)"
  using assms
  by (auto simp: flush_answer_def record_failed_attempt_def gives_up_def Let_def flush_next_def peek_front_def
      split: if_splits option.splits list.splits)

lemma delivery_inv:
  assumes "queue_inv (dqueue d)"
  shows "queue_inv (dqueue (delivery_run most mark xs d))"
  using assms
proof (induction xs arbitrary: d)
  case (Cons x xs)
  have "queue_inv (dqueue (delivery_step most mark x d))"
  proof (cases x)
    case (Push m)
    then show ?thesis using Cons.prems queue_inv_push by (auto split: prod.splits)
  next
    case (Flush g)
    obtain q taken where f: "flush_begin (Some (\<lambda>_. g)) mark (dqueue d) = (q, taken)" by (metis surj_pair)
    have "length (pending q) = length (pending (dqueue d))" using flush_begin_frame(3) [OF f] by auto
    with Flush Cons.prems f flush_begin_frame(1) [OF f] show ?thesis by (simp add: queue_inv_def)
  next
    case (Answer ok)
    obtain q taken where f: "flush_answer most mark ok (dqueue d) = (q, taken)" by (metis surj_pair)
    have "length (pending q) \<le> length (pending (dqueue d))"
      using flush_answer_frame(5) [OF f] by (auto simp: Let_def)
    with Answer Cons.prems f flush_answer_frame(1) [OF f] show ?thesis
      by (cases "awaited d") (simp_all add: queue_inv_def)
  qed
  with Cons.IH show ?case by (simp add: delivery_run_def)
qed (simp add: delivery_run_def)

section \<open>Order and completeness\<close>

text \<open>With the policy that drops new messages, everything accepted is handled once and in order.
  \<open>key\<close> is what the offline mark does not change of a message.\<close>

definition in_order :: "('m \<Rightarrow> 'k) \<Rightarrow> 'm delivery \<Rightarrow> bool" where
  "in_order key d =
     (map key (map fst (handled d)) @ map key (pending (dqueue d)) = map key (accepted_messages d)
      \<and> queue_policy (dqueue d) = DropNewest
      \<and> (flushing (dqueue d) \<longleftrightarrow> awaited d \<noteq> None)
      \<and> (\<forall>m. awaited d = Some m \<longrightarrow> (\<exists>m' rest. pending (dqueue d) = m' # rest \<and> key m' = key m))
      \<and> filter snd (handled d) = filter snd (transmitted d))"

definition keeps_key :: "('m \<Rightarrow> 'm) option \<Rightarrow> ('m \<Rightarrow> 'k) \<Rightarrow> bool" where
  "keeps_key mark key = (\<forall>f m. mark = Some f \<longrightarrow> key (f m) = key m)"

lemma map_key_mark:
  "keeps_key mark key \<Longrightarrow> map key (pending (mark_backlog_offline mark q)) = map key (pending q)"
  by (auto simp: mark_backlog_offline_def keeps_key_def split: option.splits)

lemma peek_front_eq: "peek_front q = Some m \<longleftrightarrow> (\<exists>rest. pending q = m # rest)"
  by (auto simp: peek_front_def split: list.splits)

lemma map_key_ConsE:
  assumes "map key xs = map key ys" and "ys = y # rest"
  obtains x xs' where "xs = x # xs'" and "key x = key y"
  using assms by (cases xs) auto

lemma in_order_push:
  assumes "in_order key d"
  shows "in_order key (delivery_step most mark (Push m) d)"
  using assms by (auto simp: in_order_def queue_push_def split: if_splits)

lemma in_order_flush:
  assumes keeps: "keeps_key mark key" and "in_order key d"
  shows "in_order key (delivery_step most mark (Flush g) d)"
proof -
  obtain q taken where f: "flush_begin (Some (\<lambda>_. g)) mark (dqueue d) = (q, taken)" by (metis surj_pair)
  note frame = flush_begin_frame [OF f]
  have keys: "map key (pending q) = map key (pending (dqueue d))"
    using frame(3) map_key_mark [OF keeps] by auto
  have "\<exists>m' rest. pending q = m' # rest \<and> key m' = key m"
    if "(if awaited d = None then taken else awaited d) = Some m" for m
  proof (cases "awaited d")
    case None
    with that frame(6) have "peek_front (dqueue d) = Some m" "pending q = pending (dqueue d)" by auto
    then show ?thesis by (auto simp: peek_front_eq)
  next
    case (Some a)
    with that assms(2) obtain m' rest where "pending (dqueue d) = m' # rest" "key m' = key m"
      by (auto simp: in_order_def)
    with map_key_ConsE [OF keys] show ?thesis by metis
  qed
  moreover have "flushing q \<longleftrightarrow> (if awaited d = None then taken else awaited d) \<noteq> None"
    using frame(4,5) assms(2) by (auto simp: in_order_def)
  ultimately show ?thesis
    using assms(2) f frame(2) keys by (auto simp: in_order_def)
qed

lemma in_order_answer:
  assumes keeps: "keeps_key mark key" and "in_order key d"
  shows "in_order key (delivery_step most mark (Answer ok) d)"
proof (cases "awaited d")
  case None
  with assms(2) show ?thesis by simp
next
  case (Some m)
  obtain q taken where f: "flush_answer most mark ok (dqueue d) = (q, taken)" by (metis surj_pair)
  note frame = flush_answer_frame [OF f]
  from assms(2) Some obtain m' rest where front: "pending (dqueue d) = m' # rest" "key m' = key m"
    by (auto simp: in_order_def)
  have "flushing (dqueue d)" using assms(2) Some by (simp add: in_order_def)
  define p where "p = (if ok then pending (dqueue d) else pending (mark_backlog_offline mark (dqueue d)))"
  have p: "map key p = map key (m' # rest)"
    unfolding p_def using map_key_mark [OF keeps] front by auto
  have q: "pending q = (if ok \<or> gives_up most (dqueue d) then tl p else p)"
    using frame(5) by (simp add: p_def Let_def)
  have "map key (pending q) = (if ok \<or> gives_up most (dqueue d) then map key rest else map key (m' # rest))"
    using p by (auto simp: q map_tl)
  moreover have "\<exists>n rest. pending q = n # rest \<and> key n = key x" if "taken = Some x" for x
    using peek_front_eq [of q x] frame(3) that by auto
  ultimately show ?thesis
    using assms(2) Some f frame(2) frame(4) [OF \<open>flushing (dqueue d)\<close>] front
    by (auto simp: in_order_def)
qed

lemma in_order_run:
  assumes "keeps_key mark key" and "in_order key d"
  shows "in_order key (delivery_run most mark xs d)"
  using assms(2)
proof (induction xs arbitrary: d)
  case (Cons x xs)
  have "in_order key (delivery_step most mark x d)"
    using in_order_push [OF Cons.prems] in_order_flush [OF assms(1) Cons.prems]
      in_order_answer [OF assms(1) Cons.prems] by (cases x) blast+
  with Cons.IH show ?case by (simp add: delivery_run_def)
qed (simp add: delivery_run_def)

lemma in_order_start:
  "in_order key (delivery_start (with_overflow_policy DropNewest (queue_with_capacity n)))"
  by (simp add: in_order_def delivery_start_def with_overflow_policy_def queue_with_capacity_def)

section \<open>The replay guard\<close>

lemma guard_seen:
  "seen (fold guard_record xs (guard_with_capacity n)) = drop (length xs - max n 1) xs
   \<and> guard_capacity (fold guard_record xs (guard_with_capacity n)) = max n 1"
proof (induction xs rule: rev_induct)
  case (snoc x xs)
  let ?g = "fold guard_record xs (guard_with_capacity n)"
  have step: "seen (guard_record x g) = drop (length (xs @ [x]) - k) (xs @ [x])
      \<and> guard_capacity (guard_record x g) = k"
    if "seen g = drop (length xs - k) xs" "guard_capacity g = k" "1 \<le> k" for g k
    using that by (cases "k \<le> length xs") (auto simp: guard_record_def Suc_diff_le tl_drop simp flip: drop_Suc)
  show ?case using step [of ?g "max n 1"] snoc by simp
qed (simp add: guard_with_capacity_def)

section \<open>Properties\<close>



text \<open>C32: a flush that may run and whose transmissions succeed sends the whole backlog, each
  message once and in order, leaves the queue empty and lets the next flush begin.\<close>

theorem flush_delivers_the_backlog:
  assumes "may_flush gate" and "\<not> flushing q"
  shows "flush_offline_queue_with_attempts most gate mark (replicate (length (pending q)) True) q
    = (q\<lparr>flushing := False, pending := [], front_attempts := (if pending q = [] then front_attempts q else 0)\<rparr>,
       map (\<lambda>m. (m, True)) (pending q), None)"
proof -
  have loop: "flush_loop most mark (replicate (length p) True) (flush_next (q\<lparr>flushing := True, pending := p, front_attempts := k\<rparr>))
    = (q\<lparr>flushing := False, pending := [], front_attempts := (if p = [] then k else 0)\<rparr>, map (\<lambda>m. (m, True)) p, None)" for p k
  proof (induction p arbitrary: k)
    case Nil
    then show ?case by (simp add: flush_next_def peek_front_def end_flush_def)
  next
    case (Cons m p)
    have "flush_answer most mark True (q\<lparr>flushing := True, pending := m # p, front_attempts := k\<rparr>)
        = flush_next (q\<lparr>flushing := True, pending := p, front_attempts := 0\<rparr>)"
      by (simp add: flush_answer_def pop_front_def reset_attempts_def)
    with Cons.IH [of 0] show ?case by (simp add: flush_next_def [of "q\<lparr>flushing := _, pending := m # p, front_attempts := _\<rparr>"] peek_front_def)
  qed
  have "flush_begin gate mark q = flush_next (q\<lparr>flushing := True, pending := pending q, front_attempts := front_attempts q\<rparr>)"
    using assms by (simp add: flush_begin_def try_begin_flush_def)
  with loop [of "pending q" "front_attempts q"] show ?thesis
    by (simp add: flush_offline_queue_with_attempts_def)
qed

theorem flush_delivers_the_backlog_witness:
  "flush_offline_queue_with_attempts None None None [True, True]
     (fst (queue_push 8 (fst (queue_push (7::nat) queue_new))))
   = (queue_new, [(7, True), (8, True)], None)"
proof -
  let ?q = "fst (queue_push 8 (fst (queue_push (7::nat) queue_new)))"
  have q: "pending ?q = [7, 8]" "\<not> flushing ?q" "?q\<lparr>flushing := False, pending := [], front_attempts := 0\<rparr> = queue_new"
    by code_simp+
  have "may_flush None" by (simp add: may_flush_def)
  from flush_delivers_the_backlog [OF this q(2), of None None] q show ?thesis by (simp add: numeral_2_eq_2)
qed

text \<open>C95: the replay guard knows exactly the last signatures it recorded, as many as its
  capacity.\<close>

theorem guard_remembers_the_latest:
  "guard_contains x (fold guard_record xs (guard_with_capacity n)) \<longleftrightarrow> x \<in> set (drop (length xs - max n 1) xs)"
  by (simp add: guard_contains_def list_ex_iff guard_seen)

section \<open>What evicting the front does to a flush\<close>

text \<open>With the policy that evicts the oldest message, a message pushed while the front is under
  way evicts it, and the flush then pops the message behind it, which was never transmitted and
  is not handed back to the caller either.\<close>

lemma eviction_during_transmission_loses_a_message:
  "let d = delivery_run None None [Push 1, Push 2, Flush True, Push 3, Answer True]
        (delivery_start (queue_with_capacity 2))
   in 2 \<in> set (accepted_messages d) \<and> 2 \<notin> fst ` set (transmitted d) \<and> 2 \<notin> set (handed_back d)
      \<and> 2 \<notin> set (pending (dqueue d)) \<and> awaited d = Some (3::nat)"
  by code_simp

text \<open>The attempts at an evicted front count against the message that takes its place: here the
  second message is given up after a single attempt although two are allowed.\<close>

lemma eviction_keeps_the_attempts:
  "transmitted (delivery_run (Some 2) None [Push (1::nat), Flush True, Answer False, Push 2, Flush True, Answer False]
      (delivery_start (queue_with_capacity 1))) = [(1, False), (2::nat, False)]
   \<and> pending (dqueue (delivery_run (Some 2) None [Push (1::nat), Flush True, Answer False, Push 2, Flush True, Answer False]
      (delivery_start (queue_with_capacity 1)))) = []"
  by code_simp

end
