(* ===== verification/Requests.thy ===== *)
theory Requests
  imports Charge_Point Offline_Queue Composite_Schedule Pricing
begin

text \<open>
  The handlers of CSMS requests (\<open>refusal.rs\<close>, \<open>reset.rs\<close>, \<open>reservation.rs\<close>,
  \<open>remote_control.rs\<close>, \<open>availability.rs\<close>, \<open>cost.rs\<close>, \<open>tariff.rs\<close>, \<open>authorization.rs\<close>,
  \<open>smart_charging/handlers.rs\<close>).  A handler reads the actor's snapshot, decides, and sends
  events, each of which it awaits; it is modelled as the answer and the events, a function of the
  snapshot.  Where the answer depends on the state after the events it is a second function.  The
  send itself cannot fail in the model; log output and the hook that records a boot reason are
  left out.
\<close>

type_synonym 'o decision = "'o \<times> charge_point_event list"

abbreviation on_connector :: "usize \<Rightarrow> usize \<Rightarrow> connector_event \<Rightarrow> charge_point_event" where
  "on_connector i c ev \<equiv> OnEvse i (OnConnector c ev)"

section \<open>Refusals\<close>

datatype refusal_shape = CallResultStatus | CallError

record refusal_gate =
  gate_message :: string
  gate_capability :: "capabilities \<Rightarrow> bool"
  gate_shape :: refusal_shape

definition refusal_gates :: "refusal_gate list" where
  "refusal_gates =
     [\<lparr>gate_message = ''ReserveNow'', gate_capability = cap_reservation, gate_shape = CallResultStatus\<rparr>,
      \<lparr>gate_message = ''CancelReservation'', gate_capability = cap_reservation, gate_shape = CallResultStatus\<rparr>,
      \<lparr>gate_message = ''SendLocalList'', gate_capability = cap_local_auth_list, gate_shape = CallResultStatus\<rparr>,
      \<lparr>gate_message = ''GetLocalListVersion'', gate_capability = cap_local_auth_list, gate_shape = CallError\<rparr>,
      \<lparr>gate_message = ''CostUpdated'', gate_capability = cap_tariff_and_cost, gate_shape = CallError\<rparr>,
      \<lparr>gate_message = ''SetChargingProfile'', gate_capability = cap_smart_charging, gate_shape = CallResultStatus\<rparr>,
      \<lparr>gate_message = ''ClearChargingProfile'', gate_capability = cap_smart_charging, gate_shape = CallResultStatus\<rparr>,
      \<lparr>gate_message = ''GetCompositeSchedule'', gate_capability = cap_smart_charging, gate_shape = CallResultStatus\<rparr>,
      \<lparr>gate_message = ''GetChargingProfiles'', gate_capability = cap_smart_charging, gate_shape = CallResultStatus\<rparr>,
      \<lparr>gate_message = ''InstallCertificate'', gate_capability = cap_certificate_management, gate_shape = CallResultStatus\<rparr>,
      \<lparr>gate_message = ''DeleteCertificate'', gate_capability = cap_certificate_management, gate_shape = CallResultStatus\<rparr>,
      \<lparr>gate_message = ''GetInstalledCertificateIds'', gate_capability = cap_certificate_management, gate_shape = CallResultStatus\<rparr>,
      \<lparr>gate_message = ''UpdateFirmware'', gate_capability = cap_firmware_management, gate_shape = CallResultStatus\<rparr>,
      \<lparr>gate_message = ''GetLog'', gate_capability = cap_diagnostics, gate_shape = CallResultStatus\<rparr>,
      \<lparr>gate_message = ''UpdateDynamicSchedule'', gate_capability = cap_smart_charging, gate_shape = CallResultStatus\<rparr>,
      \<lparr>gate_message = ''UsePriorityCharging'', gate_capability = cap_smart_charging, gate_shape = CallResultStatus\<rparr>,
      \<lparr>gate_message = ''SetDefaultTariff'', gate_capability = cap_tariff_and_cost, gate_shape = CallResultStatus\<rparr>,
      \<lparr>gate_message = ''ChangeTransactionTariff'', gate_capability = cap_tariff_and_cost, gate_shape = CallResultStatus\<rparr>,
      \<lparr>gate_message = ''ClearTariffs'', gate_capability = cap_tariff_and_cost, gate_shape = CallError\<rparr>,
      \<lparr>gate_message = ''GetTariffs'', gate_capability = cap_tariff_and_cost, gate_shape = CallResultStatus\<rparr>,
      \<lparr>gate_message = ''SetDisplayMessage'', gate_capability = has_display, gate_shape = CallResultStatus\<rparr>,
      \<lparr>gate_message = ''ClearDisplayMessage'', gate_capability = has_display, gate_shape = CallResultStatus\<rparr>,
      \<lparr>gate_message = ''PublishFirmware'', gate_capability = cap_firmware_publishing, gate_shape = CallResultStatus\<rparr>,
      \<lparr>gate_message = ''UnpublishFirmware'', gate_capability = cap_firmware_publishing, gate_shape = CallResultStatus\<rparr>,
      \<lparr>gate_message = ''OpenPeriodicEventStream'', gate_capability = cap_periodic_event_stream, gate_shape = CallResultStatus\<rparr>,
      \<lparr>gate_message = ''AdjustPeriodicEventStream'', gate_capability = cap_periodic_event_stream, gate_shape = CallResultStatus\<rparr>,
      \<lparr>gate_message = ''ClosePeriodicEventStream'', gate_capability = cap_periodic_event_stream, gate_shape = CallError\<rparr>,
      \<lparr>gate_message = ''GetPeriodicEventStream'', gate_capability = cap_periodic_event_stream, gate_shape = CallError\<rparr>,
      \<lparr>gate_message = ''RequestBatterySwap'', gate_capability = cap_battery_swap, gate_shape = CallResultStatus\<rparr>,
      \<lparr>gate_message = ''GetDERControl'', gate_capability = cap_der_control, gate_shape = CallResultStatus\<rparr>,
      \<lparr>gate_message = ''SetDERControl'', gate_capability = cap_der_control, gate_shape = CallResultStatus\<rparr>,
      \<lparr>gate_message = ''ClearDERControl'', gate_capability = cap_der_control, gate_shape = CallResultStatus\<rparr>,
      \<lparr>gate_message = ''AFRRSignal'', gate_capability = cap_der_control, gate_shape = CallResultStatus\<rparr>,
      \<lparr>gate_message = ''NotifyAllowedEnergyTransfer'', gate_capability = cap_der_control, gate_shape = CallResultStatus\<rparr>,
      \<lparr>gate_message = ''CertificateSigned'', gate_capability = cap_certificate_management, gate_shape = CallResultStatus\<rparr>,
      \<lparr>gate_message = ''GetCertificateStatus'', gate_capability = cap_ocsp_checking, gate_shape = CallResultStatus\<rparr>,
      \<lparr>gate_message = ''GetCertificateChainStatus'', gate_capability = cap_ocsp_checking, gate_shape = CallResultStatus\<rparr>]"

definition gate :: "string \<Rightarrow> refusal_gate option" where
  "gate message = List.find (\<lambda>g. gate_message g = message) refusal_gates"

definition capability_present :: "capabilities \<Rightarrow> string \<Rightarrow> bool" where
  "capability_present caps message = is_none_or (gate message) (\<lambda>g. gate_capability g caps)"

section \<open>Configuration variables\<close>

text \<open>\<open>str::parse\<close> at the unsigned types: as the signed ones, but without a minus sign.\<close>

definition parse_unsigned :: "int \<Rightarrow> string \<Rightarrow> int option" where
  "parse_unsigned most s =
     (case s of [] \<Rightarrow> None | c # _ \<Rightarrow> if c = CHR ''-'' then None else parse_int 0 most s)"

definition parse_u32 :: "string \<Rightarrow> u32 option" where
  "parse_u32 s = map_option word_of_int (parse_unsigned (2 ^ 32 - 1) s)"

definition u32_variable :: "string \<Rightarrow> string \<Rightarrow> string option \<Rightarrow> charge_point_state \<Rightarrow> u32 option" where
  "u32_variable c v instance_name s =
     Option.bind (dm_actual (device_model_of s) (Component c None None) (Variable v instance_name)) parse_u32"

definition ev_connection_timeout_secs :: "charge_point_state \<Rightarrow> u32" where
  "ev_connection_timeout_secs s = unwrap_or (u32_variable ''TxCtrlr'' ''EVConnectionTimeOut'' None s) 0"

definition message_attempts :: "charge_point_state \<Rightarrow> u32 option" where
  "message_attempts s =
     opt_filter (\<lambda>n. n \<noteq> 0) (u32_variable ''OCPPCommCtrlr'' ''MessageAttempts'' (Some ''TransactionEvent'') s)"

definition message_attempt_interval_secs :: "charge_point_state \<Rightarrow> u32 \<Rightarrow> u32" where
  "message_attempt_interval_secs s fallback =
     unwrap_or (opt_filter (\<lambda>n. n \<noteq> 0)
       (u32_variable ''OCPPCommCtrlr'' ''MessageAttemptInterval'' (Some ''TransactionEvent'') s)) fallback"

text \<open>2024-01-01T00:00:00Z, in nanoseconds since the epoch.\<close>

definition unsynchronized_before :: date_time where
  "unsynchronized_before = 1704067200 * 1000000000"

definition is_synchronized :: "date_time \<Rightarrow> bool" where
  "is_synchronized now = (unsynchronized_before \<le> now)"

section \<open>Reset\<close>

datatype reset_outcome = ResetAccepted | ResetRejected | ResetScheduled

definition target_exists :: "charge_point_state \<Rightarrow> reset_target \<Rightarrow> bool" where
  "target_exists s target =
     (case target of TargetChargePoint \<Rightarrow> True | TargetEvse i \<Rightarrow> vec_get (evses s) i \<noteq> None)"

text \<open>The \<open>Debug\<close> form of a kind and a target.\<close>

definition debug_kind :: "reset_kind \<Rightarrow> string" where
  "debug_kind kind = (case kind of Immediate \<Rightarrow> ''Immediate'' | OnIdle \<Rightarrow> ''OnIdle'')"

definition debug_target :: "reset_target \<Rightarrow> string" where
  "debug_target target =
     (case target of
        TargetChargePoint \<Rightarrow> ''ChargePoint''
      | TargetEvse i \<Rightarrow> ''Evse { evse_id: '' @ nat_to_string i @ '' }'')"

definition handle_reset :: "reset_target \<Rightarrow> reset_kind \<Rightarrow> charge_point_state \<Rightarrow> reset_outcome decision" where
  "handle_reset target kind s =
     (if \<not> target_exists s target then (ResetRejected, [])
      else (case kind of Immediate \<Rightarrow> ResetAccepted | OnIdle \<Rightarrow> ResetScheduled,
            [SecurityEventOccurred
               \<lparr>security_event_kind = ResetOrReboot,
                tech_info = Some (debug_kind kind @ '' reset requested by the CSMS for '' @ debug_target target)\<rparr>,
             ResetRequested target kind]))"

section \<open>Reservations\<close>

datatype reserve_now_outcome =
  ReserveAccepted | ReserveFaulted | ReserveOccupied | ReserveRejected | ReserveUnavailable

definition connectors_of :: "usize \<times> evse_state \<Rightarrow> (usize \<times> usize \<times> connector_state) list" where
  "connectors_of = (\<lambda>(i, e). map (\<lambda>(c, st). (i, c, st)) (enumerate 0 (connectors e)))"

definition considered_connectors ::
  "charge_point_state \<Rightarrow> usize option \<Rightarrow> (usize \<times> usize \<times> connector_state) list option" where
  "considered_connectors s evse =
     (case evse of
        Some i \<Rightarrow> map_option (\<lambda>e. connectors_of (i, e)) (vec_get (evses s) i)
      | None \<Rightarrow> Some (concat (map connectors_of (enumerate 0 (evses s)))))"

definition unavailable_outcome :: "(usize \<times> usize \<times> connector_state) list \<Rightarrow> reserve_now_outcome" where
  "unavailable_outcome considered =
     (if list_ex (\<lambda>(_, _, st). st \<in> {Faulted, FaultedSafe}) considered then ReserveFaulted
      else if list_ex (\<lambda>(_, _, st). st = Unavailable) considered then ReserveUnavailable
      else ReserveOccupied)"

definition handle_reserve_now ::
  "usize option \<Rightarrow> reservation \<Rightarrow> charge_point_state \<Rightarrow> reserve_now_outcome decision" where
  "handle_reserve_now evse r s =
     (if \<not> capability_present (capabilities_of s) ''ReserveNow'' then (ReserveRejected, [])
      else case considered_connectors s evse of
        None \<Rightarrow> (ReserveRejected, [])
      | Some considered \<Rightarrow>
          if considered = [] then (ReserveRejected, [])
          else (case List.find (\<lambda>(_, _, st). st = Available) considered of
                  None \<Rightarrow> (unavailable_outcome considered, [])
                | Some (i, c, _) \<Rightarrow> (ReserveAccepted, [on_connector i c (ReservedFor r)])))"

datatype cancel_reservation_outcome = CancelAccepted | CancelRejected

text \<open>\<open>find_map\<close> over the EVSEs with \<open>position\<close> in each.\<close>

fun find_slot :: "('a \<Rightarrow> bool) \<Rightarrow> (usize \<times> 'a option list) list \<Rightarrow> (usize \<times> usize) option" where
  "find_slot P [] = None"
| "find_slot P ((i, slots) # rest) =
     (case position (\<lambda>slot. is_some_and slot P) slots of
        Some c \<Rightarrow> Some (i, c)
      | None \<Rightarrow> find_slot P rest)"

definition find_reservation :: "charge_point_state \<Rightarrow> reservation_id \<Rightarrow> (usize \<times> usize) option" where
  "find_reservation s i =
     find_slot (\<lambda>r. reservation_id_of r = i) (map (\<lambda>(e, evse). (e, reservations evse)) (enumerate 0 (evses s)))"

definition handle_cancel_reservation ::
  "reservation_id \<Rightarrow> charge_point_state \<Rightarrow> cancel_reservation_outcome decision" where
  "handle_cancel_reservation i s =
     (if \<not> capability_present (capabilities_of s) ''CancelReservation'' then (CancelRejected, [])
      else case find_reservation s i of
        None \<Rightarrow> (CancelRejected, [])
      | Some (e, c) \<Rightarrow> (CancelAccepted, [on_connector e c ReservationCancelled]))"

definition expired_reservations :: "charge_point_state \<Rightarrow> date_time \<Rightarrow> (usize \<times> usize) list" where
  "expired_reservations s now =
     concat (map (\<lambda>(i, e).
       List.map_filter (\<lambda>(c, slot).
         if is_some_and slot (\<lambda>r. is_some_and (reservation_expires_at r) (\<lambda>expiry. expiry \<le> now))
         then Some (i, c) else None) (enumerate 0 (reservations e))) (enumerate 0 (evses s)))"

text \<open>One sweep of \<open>run_reservation_expiry\<close>.\<close>

definition reservation_expiry_sweep :: "date_time \<Rightarrow> charge_point_state \<Rightarrow> charge_point_event list" where
  "reservation_expiry_sweep now s =
     (if \<not> is_synchronized now then []
      else map (\<lambda>(i, c). on_connector i c ReservationExpired) (expired_reservations s now))"

section \<open>Remote control\<close>

datatype unlock_outcome = Unlocked | UnlockFailed | OngoingAuthorizedTransaction | UnknownConnector

text \<open>The answer at once, or \<open>None\<close> where the handler sends the request and awaits the result.\<close>

definition handle_unlock_request ::
  "usize \<Rightarrow> usize \<Rightarrow> charge_point_state \<Rightarrow> unlock_outcome option decision" where
  "handle_unlock_request i c s =
     (case connector_at s i c of
        None \<Rightarrow> (Some UnknownConnector, [])
      | Some st \<Rightarrow>
          if st \<in> {Authorizing, Starting, Charging, Stopping} then (Some OngoingAuthorizedTransaction, [])
          else if st = Locked then (None, [on_connector i c RemoteUnlockRequested])
          else (Some UnlockFailed, []))"

text \<open>What the handler answers when it sees the connector in a state; \<open>None\<close>: it waits on.\<close>

definition unlock_answer :: "connector_state \<Rightarrow> unlock_outcome option" where
  "unlock_answer st =
     (if st = Available then Some Unlocked
      else if st \<in> {Faulted, FaultedSafe} then Some UnlockFailed else None)"

fun unlock_wait :: "connector_state list \<Rightarrow> unlock_outcome option" where
  "unlock_wait [] = None"
| "unlock_wait (st # states) = (case unlock_answer st of Some answer \<Rightarrow> Some answer | None \<Rightarrow> unlock_wait states)"

datatype start_outcome =
  StartAccepted transaction_id | AcceptedPendingCable | AcceptedPendingAuthorization | StartRejected

definition reservation_admits :: "reservation \<Rightarrow> id_token \<Rightarrow> id_token option \<Rightarrow> bool" where
  "reservation_admits r tok grp =
     (token_value (reservation_token r) = token_value tok
      \<or> (case (reservation_group_token r, grp) of
           (Some reserved_for, Some presented) \<Rightarrow> token_value reserved_for = token_value presented
         | _ \<Rightarrow> False))"

text \<open>\<open>None\<close>: one of the parallel vectors is too short and the index panics.\<close>

definition can_start_here ::
  "evse_state \<Rightarrow> usize \<Rightarrow> id_token \<Rightarrow> id_token option \<Rightarrow> bool option" where
  "can_start_here e c tok grp =
     (if evse_status_of e \<noteq> EvseAvailable then Some False
      else case vec_get (connectors e) c of
        None \<Rightarrow> None
      | Some st \<Rightarrow>
          if st \<notin> {Available, Locked, Reserved} then Some False
          else (case vec_get (transactions e) c of
                  None \<Rightarrow> None
                | Some (Some _) \<Rightarrow> Some False
                | Some None \<Rightarrow>
                    map_option (\<lambda>slot. is_none_or slot (\<lambda>r. reservation_admits r tok grp))
                      (vec_get (reservations e) c)))"

text \<open>The two loops of \<open>find_start_target\<close>, over the addresses they visit, with the first free
  and the first reserved connector found so far.\<close>

fun start_scan ::
  "charge_point_state \<Rightarrow> id_token \<Rightarrow> id_token option \<Rightarrow> (usize \<times> usize) list
   \<Rightarrow> (usize \<times> usize \<times> bool) option \<Rightarrow> (usize \<times> usize \<times> bool) option
   \<Rightarrow> (usize \<times> usize \<times> bool) option option" where
  "start_scan s tok grp [] reserved_waiting waiting = Some (opt_or reserved_waiting waiting)"
| "start_scan s tok grp ((i, c) # rest) reserved_waiting waiting =
     (case can_start_here (evses s ! i) c tok grp of
        None \<Rightarrow> None
      | Some False \<Rightarrow> start_scan s tok grp rest reserved_waiting waiting
      | Some True \<Rightarrow>
          (let st = connectors (evses s ! i) ! c
           in if st = Locked then Some (Some (i, c, True))
              else if st = Reserved \<and> reserved_waiting = None
              then start_scan s tok grp rest (Some (i, c, False)) waiting
              else if st = Available \<and> waiting = None
              then start_scan s tok grp rest reserved_waiting (Some (i, c, False))
              else start_scan s tok grp rest reserved_waiting waiting))"

definition start_addresses :: "charge_point_state \<Rightarrow> usize option \<Rightarrow> (usize \<times> usize) list" where
  "start_addresses s evse =
     concat (map (\<lambda>i. case vec_get (evses s) i of
                        None \<Rightarrow> []
                      | Some e \<Rightarrow> map (\<lambda>c. (i, c)) [0 ..< length (connectors e)])
       (case evse of Some i \<Rightarrow> [i] | None \<Rightarrow> [0 ..< length (evses s)]))"

definition find_start_target ::
  "charge_point_state \<Rightarrow> usize option \<Rightarrow> id_token \<Rightarrow> id_token option \<Rightarrow> (usize \<times> usize \<times> bool) option option" where
  "find_start_target s evse tok grp = start_scan s tok grp (start_addresses s evse) None None"

text \<open>The target and the event of an accepted start; the inner \<open>None\<close> is a rejection.\<close>

definition start_decision ::
  "usize option \<Rightarrow> id_token \<Rightarrow> id_token option \<Rightarrow> i64 option \<Rightarrow> charge_point_state
   \<Rightarrow> ((usize \<times> usize \<times> bool) \<times> charge_point_event) option option" where
  "start_decision evse tok grp remote_start_id s =
     (if \<not> may_send_requests s then Some None
      else if is_some_and evse (\<lambda>i. vec_get (evses s) i = None) then Some None
      else map_option (map_option (\<lambda>(i, c, latched).
             ((i, c, latched),
              if latched then on_connector i c (RemoteStartRequested tok remote_start_id)
              else on_connector i c (RemoteStartPending
                     \<lparr>pending_id_token = tok, pending_remote_start_id = remote_start_id\<rparr>))))
             (find_start_target s evse tok grp))"

text \<open>The answer to a start, from the target and the state after its event.\<close>

definition start_answer :: "usize \<times> usize \<times> bool \<Rightarrow> charge_point_state \<Rightarrow> start_outcome" where
  "start_answer target s =
     (case target of
        (i, c, latched) \<Rightarrow>
          if \<not> latched then AcceptedPendingCable
          else (case transaction_at s i c of
                  Some t \<Rightarrow> StartAccepted (tx_id t)
                | None \<Rightarrow>
                    if connector_at s i c = Some Authorizing then AcceptedPendingAuthorization
                    else AcceptedPendingCable))"

definition handle_request_start_transaction ::
  "(date_time \<Rightarrow> string) \<Rightarrow> usize option \<Rightarrow> id_token \<Rightarrow> id_token option \<Rightarrow> i64 option \<Rightarrow> charge_point_state
   \<Rightarrow> (start_outcome \<times> charge_point_state \<times> charge_point_effect list) option" where
  "handle_request_start_transaction rfc evse tok grp remote_start_id s =
     (case start_decision evse tok grp remote_start_id s of
        None \<Rightarrow> None
      | Some None \<Rightarrow> Some (StartRejected, s, [])
      | Some (Some (target, ev)) \<Rightarrow>
          map_option (\<lambda>(s', effects). (start_answer target s', s', effects)) (cp_apply rfc ev s))"

datatype stop_outcome = StopAccepted | StopRejected

definition find_transaction :: "charge_point_state \<Rightarrow> transaction_id \<Rightarrow> (usize \<times> usize) option" where
  "find_transaction s i =
     find_slot (\<lambda>t. tx_id t = i) (map (\<lambda>(e, evse). (e, transactions evse)) (enumerate 0 (evses s)))"

definition handle_request_stop_transaction ::
  "transaction_id \<Rightarrow> charge_point_state \<Rightarrow> stop_outcome decision" where
  "handle_request_stop_transaction t s =
     (if \<not> may_send_requests s then (StopRejected, [])
      else case find_transaction s t of
        None \<Rightarrow> (StopRejected, [])
      | Some (i, c) \<Rightarrow>
          if connector_at s i c \<noteq> Some Charging then (StopRejected, [])
          else (StopAccepted, [on_connector i c (ChargingStopped Remote)]))"

definition handle_request_stop_transaction_with_replay_guard ::
  "transaction_id \<Rightarrow> charge_point_state \<Rightarrow> transaction_id replay_guard
   \<Rightarrow> stop_outcome decision \<times> transaction_id replay_guard" where
  "handle_request_stop_transaction_with_replay_guard t s g =
     (case handle_request_stop_transaction t s of
        (StopAccepted, evs) \<Rightarrow> ((StopAccepted, evs), guard_record t g)
      | (StopRejected, evs) \<Rightarrow>
          ((StopRejected,
            evs @ (if guard_contains t g
                   then [SecurityEventOccurred
                      \<lparr>security_event_kind = AttemptedReplayAttacks,
                       tech_info = Some (''RequestStopTransaction repeated for already-stopped transaction ''
                         @ nat_to_string (unat t))\<rparr>]
                   else [])), g))"

definition held_starts_awaiting_a_cable :: "charge_point_state \<Rightarrow> (usize \<times> usize) list" where
  "held_starts_awaiting_a_cable s =
     concat (map (\<lambda>(i, e).
       List.map_filter (\<lambda>(c, slot).
         if slot \<noteq> None \<and> vec_get (connectors e) c \<noteq> Some Authorizing then Some (i, c) else None)
         (enumerate 0 (pending_remote_starts e))) (enumerate 0 (evses s)))"

text \<open>\<open>MonotonicInstant::duration_since(..).as_secs()\<close>: ticks are nanoseconds.\<close>

definition elapsed_secs :: "monotonic_instant \<Rightarrow> monotonic_instant \<Rightarrow> int" where
  "elapsed_secs now since = (uint now - min (uint now) (uint since)) div 1000000000"

text \<open>One sweep of \<open>run_pending_remote_start_timeouts\<close>; \<open>first_seen\<close> is a map of addresses.\<close>

fun release_held ::
  "monotonic_instant \<Rightarrow> u32 \<Rightarrow> (usize \<times> usize) list \<Rightarrow> ((usize \<times> usize) \<rightharpoonup> monotonic_instant)
   \<Rightarrow> ((usize \<times> usize) \<rightharpoonup> monotonic_instant) \<times> charge_point_event list" where
  "release_held now timeout [] first_seen = (first_seen, [])"
| "release_held now timeout (address # rest) first_seen =
     (let since = unwrap_or (first_seen address) now
      in if elapsed_secs now since < uint timeout
         then release_held now timeout rest (first_seen(address \<mapsto> since))
         else (case release_held now timeout rest (first_seen(address := None)) of
                 (seen', evs) \<Rightarrow>
                   (seen', on_connector (fst address) (snd address) RemoteStartPendingCleared # evs)))"

definition pending_start_sweep ::
  "monotonic_instant \<Rightarrow> charge_point_state \<Rightarrow> ((usize \<times> usize) \<rightharpoonup> monotonic_instant)
   \<Rightarrow> ((usize \<times> usize) \<rightharpoonup> monotonic_instant) \<times> charge_point_event list" where
  "pending_start_sweep now s first_seen =
     (let timeout = ev_connection_timeout_secs s;
          held = held_starts_awaiting_a_cable s;
          kept = (\<lambda>a. if a \<in> set held then first_seen a else None)
      in if timeout = 0 then (kept, []) else release_held now timeout held kept)"

section \<open>Availability\<close>

datatype availability_target =
  AvailabilityChargePoint | AvailabilityEvse usize | AvailabilityConnector usize usize

datatype change_availability_outcome = AvailabilityAccepted | AvailabilityRejected

definition availability_event :: "bool \<Rightarrow> charge_point_event" where
  "availability_event available = (if available then SetAvailable else SetUnavailable)"

definition evse_availability_event :: "bool \<Rightarrow> evse_event" where
  "evse_availability_event available = (if available then EvseSetAvailable else EvseSetUnavailable)"

definition connector_availability_event :: "bool \<Rightarrow> connector_event" where
  "connector_availability_event available = (if available then ConnectorSetAvailable else ConnectorSetUnavailable)"

definition handle_change_availability_request ::
  "availability_target \<Rightarrow> bool \<Rightarrow> charge_point_state \<Rightarrow> change_availability_outcome decision" where
  "handle_change_availability_request target available s =
     (case target of
        AvailabilityChargePoint \<Rightarrow> (AvailabilityAccepted, [availability_event available])
      | AvailabilityEvse i \<Rightarrow>
          if vec_get (evses s) i = None then (AvailabilityRejected, [])
          else (AvailabilityAccepted, [OnEvse i (evse_availability_event available)])
      | AvailabilityConnector i c \<Rightarrow>
          if connector_at s i c = None then (AvailabilityRejected, [])
          else (AvailabilityAccepted, [on_connector i c (connector_availability_event available)]))"

definition all_connector_statuses :: "charge_point_state \<Rightarrow> connector_status_changed list" where
  "all_connector_statuses s =
     map (\<lambda>(i, c, st). \<lparr>status_evse = i, status_connector = c, status_of = availability_status st,
                        status_connector_state = st\<rparr>)
       (concat (map connectors_of (enumerate 0 (evses s))))"

text \<open>The statuses a triggered notification reports, or \<open>None\<close> where the target does not exist.\<close>

definition trigger_status_notification ::
  "availability_target \<Rightarrow> charge_point_state \<Rightarrow> (usize \<times> usize \<times> connector_status \<times> connector_state) list option" where
  "trigger_status_notification target s =
     (let report = map (\<lambda>(i, c, st). (i, c, availability_status st, st))
      in case target of
           AvailabilityChargePoint \<Rightarrow> Some (report (concat (map connectors_of (enumerate 0 (evses s)))))
         | AvailabilityEvse i \<Rightarrow> map_option (\<lambda>e. report (connectors_of (i, e))) (vec_get (evses s) i)
         | AvailabilityConnector i c \<Rightarrow> map_option (\<lambda>st. report [(i, c, st)]) (connector_at s i c))"

definition outage_needs_full_resynchronisation :: "u64 \<Rightarrow> u64 \<Rightarrow> bool" where
  "outage_needs_full_resynchronisation offline_for threshold = (threshold < offline_for)"

text \<open>\<open>DedupedStatusNotifier\<close>: whether a status is handed to the inner notifier, and the statuses
  last sent when its answer is \<open>ok\<close>.\<close>

definition deduped_notify_status ::
  "usize \<times> usize \<Rightarrow> connector_status \<Rightarrow> bool \<Rightarrow> ((usize \<times> usize) \<rightharpoonup> connector_status)
   \<Rightarrow> ((usize \<times> usize) \<rightharpoonup> connector_status) \<times> bool" where
  "deduped_notify_status address status ok last_sent =
     (if last_sent address = Some status then (last_sent, False)
      else (if ok then last_sent(address \<mapsto> status) else last_sent, True))"

end
