(* ===== verification/Reservation_Properties.thy ===== *)
theory Reservation_Properties
  imports Reservation_Invariant Requests Charging_Session
begin

text \<open>
  What the reservation requests do to the charge point: an accepted \<open>ReserveNow\<close> reserves a free
  connector and nothing else, \<open>CancelReservation\<close> undoes it, and the expiry sweep frees exactly the
  connectors whose reservation has run out.
\<close>

section \<open>Addresses\<close>

definition reservation_at :: "charge_point_state \<Rightarrow> usize \<Rightarrow> usize \<Rightarrow> reservation option" where
  "reservation_at s i c = (case vec_get (evses s) i of None \<Rightarrow> None | Some e \<Rightarrow> vec_slot (reservations e) c)"

lemma position_SomeD: "position P xs = Some i \<Longrightarrow> i < length xs \<and> P (xs ! i)"
  by (induction xs arbitrary: i) (auto split: if_splits option.splits)

lemma position_None: "position P xs = None \<longleftrightarrow> (\<forall>x \<in> set xs. \<not> P x)"
  by (induction xs) (auto split: option.splits)

lemma find_slot_SomeD:
  assumes "find_slot P (map (\<lambda>(i, e). (i, f e)) (enumerate n es)) = Some (i, c)"
  shows "n \<le> i \<and> i < n + length es \<and> is_some_and (vec_slot (f (es ! (i - n))) c) P"
  using assms
proof (induction es arbitrary: n)
  case (Cons e es)
  show ?case
  proof (cases "position (\<lambda>slot. is_some_and slot P) (f e)")
    case None
    with Cons.prems have "find_slot P (map (\<lambda>(i, e). (i, f e)) (enumerate (Suc n) es)) = Some (i, c)"
      by simp
    from Cons.IH [OF this] show ?thesis by (auto simp: nth_Cons' Suc_diff_Suc)
  next
    case (Some d)
    with Cons.prems position_SomeD [OF Some] show ?thesis by (auto simp: vec_slot_def)
  qed
qed simp

lemma find_slot_None:
  "find_slot P xs = None \<longleftrightarrow> (\<forall>(i, slots) \<in> set xs. \<forall>slot \<in> set slots. \<not> is_some_and slot P)"
proof (induction P xs rule: find_slot.induct)
  case (2 P i slots rest)
  then show ?case
    using position_None [of "\<lambda>slot. is_some_and slot P" slots] by (auto split: option.splits)
qed simp

lemma find_reservation_SomeD:
  "find_reservation s n = Some (i, c) \<Longrightarrow> \<exists>r. reservation_at s i c = Some r \<and> reservation_id_of r = n"
  using find_slot_SomeD [of "\<lambda>r. reservation_id_of r = n" reservations 0 "evses s" i c]
  by (cases "vec_slot (reservations (evses s ! i)) c") (auto simp: find_reservation_def reservation_at_def)

lemma find_slot_at_None:
  assumes "find_slot P (map (\<lambda>(i, e). (i, f e)) (enumerate 0 es)) = None" and "i < length es"
    and "vec_slot (f (es ! i)) c = Some x"
  shows "\<not> P x"
proof -
  from assms(3) have "Some x \<in> set (f (es ! i))"
    by (auto simp: vec_slot_def vec_get_def in_set_conv_nth split: option.splits if_splits)
  moreover have "(i, es ! i) \<in> set (enumerate 0 es)" using assms(2) by (simp add: in_set_enumerate_eq)
  ultimately show ?thesis using assms(1) unfolding find_slot_None by fastforce
qed

lemma find_reservation_None:
  assumes "find_reservation s n = None" and "reservation_at s i c = Some r"
  shows "reservation_id_of r \<noteq> n"
  using find_slot_at_None [OF assms(1) [unfolded find_reservation_def], of i c r] assms(2)
  by (auto simp: reservation_at_def vec_get_def split: option.splits if_splits)

section \<open>A connector event at the charge point\<close>

lemma cp_apply_evses:
  assumes "cp_apply rfc (on_connector i c ev) s = Some (s', effects)" and "event_rank ev = 0"
    and "connector_at s i c \<noteq> None"
  obtains e e' n' effects1 out where "i < length (evses s)" and "e = evses s ! i" and "c < length (connectors e)"
    and "evse_step (connector_policy_of s) (string_variable ''TxCtrlr'' ''SupportedLimits'' s)
          i c ev (next_transaction_id s) e = (e', n', effects1, out)"
    and "evses s' = (evses s)[i := e']" and "set effects1 \<subseteq> set effects"
    and "capabilities_of s' = capabilities_of s"
proof -
  from assms(1) obtain s1 effects1 b m p where
    event: "apply_event rfc (on_connector i c ev) s = Some (s1, effects1, b)" and
    s': "s' = s1\<lparr>device_model_of := m, pending_reset_of := p\<rparr>" and eff: "set effects1 \<subseteq> set effects"
    by (rule cp_apply_fields)
  from event have "apply_connector_event i c ev s = (s1, effects1, b)" by (simp add: evse_event_applied_def)
  moreover obtain r where "connector_step i c ev s = Some r"
    using assms(3) connector_step_None [of i c ev s] by (cases "connector_step i c ev s") auto
  ultimately obtain out where step: "connector_step i c ev s = Some (s1, effects1, out)"
    using assms(2) by (auto simp: apply_connector_event_plain split: prod.splits)
  show thesis
  proof (rule connector_stepE [OF step])
    fix e e1 next1 effects3 out1 lock_changed lock_effects
    assume st: "i < length (evses s)" "e = evses s ! i" "c < length (connectors e)"
      and evse: "evse_step (connector_policy_of s) (string_variable ''TxCtrlr'' ''SupportedLimits'' s)
          i c ev (next_transaction_id s) e = (e1, next1, effects3, out1)"
      and lock: "lock_problem_stage i c ev (connectors e1 ! c)
          (s\<lparr>evses := (evses s)[i := e1], next_transaction_id := next1\<rparr>) = (s1, lock_changed, lock_effects)"
      and eff3: "effects1 = effects3 @ lock_effects"
    have "capabilities_of s1 = capabilities_of s" "evses s1 = (evses s)[i := e1]"
      using lock
      by (auto simp: lock_problem_stage_def set_plug_retention_lock_problem_def Let_def split: if_splits prod.splits)
    then show thesis by (intro that [OF st evse]) (use s' eff eff3 in auto)
  qed
qed

text \<open>What an event without further calls does to the reservations.\<close>

lemma cp_apply_reservations:
  assumes applied: "cp_apply rfc (on_connector i c ev) s = Some (s', effects)" and "event_rank ev = 0"
    and old: "connector_at s i c = Some st" and inv: "list_all reservations_match (evses s)"
  shows "connector_at s' j d = (if (j, d) = (i, c)
      then Some (fst (connector_next st ev (connector_policy_of s))) else connector_at s j d)"
    and "reservation_at s' j d = (if (j, d) = (i, c)
      then reservation_after ev st (fst (connector_next st ev (connector_policy_of s))) (reservation_at s i c)
      else reservation_at s j d)"
    and "capabilities_of s' = capabilities_of s"
    and "list_all reservations_match (evses s')"
proof -
  from applied assms(2) obtain e e' n' effects1 out where
    st: "i < length (evses s)" "e = evses s ! i" "c < length (connectors e)" and
    step: "evse_step (connector_policy_of s) (string_variable ''TxCtrlr'' ''SupportedLimits'' s)
          i c ev (next_transaction_id s) e = (e', n', effects1, out)" and
    s': "evses s' = (evses s)[i := e']" and caps: "capabilities_of s' = capabilities_of s"
    by (rule cp_apply_evses) (use old in simp)
  have "list_all2 (\<lambda>st r. (r \<noteq> None) = (st = Reserved)) (connectors e) (reservations e)"
    using inv st by (simp add: list_all_length reservations_match_def)
  then have len: "length (reservations e) = length (connectors e)" by (auto dest: list_all2_lengthD)
  note parts = evse_step_reservations [OF step st(3) len]
  have "st = connectors e ! c" using old st by (simp add: connector_at_def)
  with parts st len show "connector_at s' j d = (if (j, d) = (i, c)
      then Some (fst (connector_next st ev (connector_policy_of s))) else connector_at s j d)"
    and "reservation_at s' j d = (if (j, d) = (i, c)
      then reservation_after ev st (fst (connector_next st ev (connector_policy_of s))) (reservation_at s i c)
      else reservation_at s j d)"
    by (auto simp: connector_at_def reservation_at_def vec_get_def vec_slot_def s' nth_list_update)
  show "capabilities_of s' = capabilities_of s" by (rule caps)
  show "list_all reservations_match (evses s')"
    using reservations.holds_cp_apply [OF applied] inv by (simp add: reservations.holds_def)
qed

lemma reserved_iff:
  assumes "list_all reservations_match (evses s)"
  shows "(\<exists>r. reservation_at s i c = Some r) \<longleftrightarrow> connector_at s i c = Some Reserved"
  using assms
  by (auto simp: reservation_at_def connector_at_def vec_get_def vec_slot_def list_all_length
      reservations_match_def list_all2_conv_all_nth split: option.splits if_splits)

section \<open>Reserving and cancelling\<close>

lemma considered_at:
  assumes "considered_connectors s evse = Some xs" and "(i, c, st) \<in> set xs"
  shows "connector_at s i c = Some st"
proof -
  have "connector_at s j c = Some st" if "(i, c, st) \<in> set (connectors_of (j, evses s ! j))" and "j < length (evses s)" for j
    using that by (auto simp: connectors_of_def connector_at_def in_set_enumerate_eq)
  moreover have "i = j" if "(i, c, st) \<in> set (connectors_of (j, e))" for j e
    using that by (auto simp: connectors_of_def)
  ultimately show ?thesis
    using assms by (fastforce simp: considered_connectors_def in_set_enumerate_eq vec_get_def split: option.splits if_splits)
qed

lemma reserve_acceptedD:
  assumes "handle_reserve_now evse r s = (ReserveAccepted, evs)"
  obtains i c where "connector_at s i c = Some Available" and "evs = [on_connector i c (ReservedFor r)]"
    and "capability_present (capabilities_of s) ''ReserveNow''"
proof -
  have "unavailable_outcome xs \<noteq> ReserveAccepted" for xs by (simp add: unavailable_outcome_def)
  with assms obtain xs i c st where "considered_connectors s evse = Some xs"
    "List.find (\<lambda>(_, _, st). st = Available) xs = Some (i, c, st)" "evs = [on_connector i c (ReservedFor r)]"
    "capability_present (capabilities_of s) ''ReserveNow''"
    by (auto simp: handle_reserve_now_def split: if_splits option.splits)
  with that considered_at show thesis by (fastforce simp: find_Some_iff in_set_conv_nth)
qed

lemma reservation_capability: "capability_present caps ''CancelReservation'' = capability_present caps ''ReserveNow''"
  by (simp add: capability_present_def gate_def refusal_gates_def)

text \<open>C25: \<open>ReserveNow\<close> and \<open>CancelReservation\<close> are inverse.  In any reachable state an accepted
  reservation under a fresh id takes one free connector to \<open>Reserved\<close> for that reservation and
  leaves every other connector and reservation alone; cancelling it is then accepted and gives back
  the connectors and reservations there were.\<close>

theorem reserve_then_cancel:
  assumes "reachable rfc counts limits s" and "find_reservation s (reservation_id_of r) = None"
    and "handle_reserve_now evse r s = (ReserveAccepted, evs)" and "cp_run rfc evs s = Some (s1, effects1)"
  shows "(\<exists>i c. connector_at s i c = Some Available
      \<and> connector_at s1 = (connector_at s)(i := (connector_at s i)(c := Some Reserved))
      \<and> reservation_at s1 = (reservation_at s)(i := (reservation_at s i)(c := Some r)))
    \<and> (\<exists>evs1 s2 effects2. handle_cancel_reservation (reservation_id_of r) s1 = (CancelAccepted, evs1)
      \<and> cp_run rfc evs1 s1 = Some (s2, effects2)
      \<and> connector_at s2 = connector_at s \<and> reservation_at s2 = reservation_at s)"
proof -
  have inv: "list_all reservations_match (evses s)" using assms(1) by (rule reachable_reservations)
  from assms(3) obtain i c where free: "connector_at s i c = Some Available"
    and evs: "evs = [on_connector i c (ReservedFor r)]" and caps: "capability_present (capabilities_of s) ''ReserveNow''"
    by (rule reserve_acceptedD)
  have apply1: "cp_apply rfc (on_connector i c (ReservedFor r)) s = Some (s1, effects1)"
    using assms(4) evs by (auto split: option.splits)
  note r1 = cp_apply_reservations [OF apply1 _ free inv]
  have c1: "connector_at s1 = (connector_at s)(i := (connector_at s i)(c := Some Reserved))"
    using r1(1) by (simp add: fun_eq_iff)
  have s1: "reservation_at s1 = (reservation_at s)(i := (reservation_at s i)(c := Some r))"
    using r1(2) by (simp add: fun_eq_iff reservation_after_def)
  have none: "reservation_at s i c = None" using reserved_iff [OF inv, of i c] free by auto
  have "find_reservation s1 (reservation_id_of r) \<noteq> None"
    by (rule notI) (use find_reservation_None [of s1 "reservation_id_of r" i c r] in \<open>simp add: s1\<close>)
  then obtain j d where found: "find_reservation s1 (reservation_id_of r) = Some (j, d)"
    by (metis not_None_eq surj_pair)
  have "(j, d) = (i, c)"
    using find_reservation_SomeD [OF found] find_reservation_None [OF assms(2), of j d] by (auto simp: s1 split: if_splits)
  with found have cancel: "handle_cancel_reservation (reservation_id_of r) s1 = (CancelAccepted, [on_connector i c ReservationCancelled])"
    using caps r1(3) by (simp add: handle_cancel_reservation_def reservation_capability)
  obtain s2 effects2 where apply2: "cp_apply rfc (on_connector i c ReservationCancelled) s1 = Some (s2, effects2)"
    using reachable_total [OF reachable.step [OF assms(1) apply1]] by blast
  have "connector_at s1 i c = Some Reserved" by (simp add: c1)
  note r2 = cp_apply_reservations [OF apply2 _ this r1(4)]
  have "connector_at s2 = connector_at s" using r2(1) free by (auto simp: fun_eq_iff c1)
  moreover have "reservation_at s2 = reservation_at s"
    using r2(2) none by (auto simp: fun_eq_iff s1 reservation_after_def)
  moreover have "cp_run rfc [on_connector i c ReservationCancelled] s1 = Some (s2, effects2)" using apply2 by simp
  ultimately show ?thesis using free c1 s1 cancel by blast
qed

section \<open>Expiry\<close>

definition expired_at :: "date_time \<Rightarrow> reservation \<Rightarrow> bool" where
  "expired_at now r = is_some_and (reservation_expires_at r) (\<lambda>expiry. expiry \<le> now)"

lemma expired_reservations_iff:
  "(i, c) \<in> set (expired_reservations s now) \<longleftrightarrow> is_some_and (reservation_at s i c) (expired_at now)"
proof -
  have "(i, c) \<in> set (expired_reservations s now) \<longleftrightarrow>
      (\<exists>e. (i, e) \<in> set (enumerate 0 (evses s))
         \<and> (\<exists>slot. (c, slot) \<in> set (enumerate 0 (reservations e)) \<and> is_some_and slot (expired_at now)))"
    by (force simp: expired_reservations_def List.map_filter_def expired_at_def [abs_def] split: if_splits)
  then show ?thesis
    by (auto simp: in_set_enumerate_eq reservation_at_def vec_slot_def vec_get_def)
qed

lemma expiry_run:
  assumes "cp_run rfc (map (\<lambda>(i, c). on_connector i c ReservationExpired) xs) s = Some (s', effects)"
    and "list_all reservations_match (evses s)" and "\<And>i c. (i, c) \<in> set xs \<Longrightarrow> connector_at s i c \<noteq> None"
  shows "connector_at s' j d = (if (j, d) \<in> set xs \<and> connector_at s j d = Some Reserved
      then Some Available else connector_at s j d)"
    and "reservation_at s' j d = (if (j, d) \<in> set xs then None else reservation_at s j d)"
proof -
  have "connector_at s' j d = (if (j, d) \<in> set xs \<and> connector_at s j d = Some Reserved
      then Some Available else connector_at s j d)
    \<and> reservation_at s' j d = (if (j, d) \<in> set xs then None else reservation_at s j d)"
    using assms
  proof (induction xs arbitrary: s effects)
    case (Cons x xs)
    obtain i c where x: "x = (i, c)" by fastforce
    from Cons.prems(1) obtain s1 effects1 effects2 where
      first: "cp_apply rfc (on_connector i c ReservationExpired) s = Some (s1, effects1)" and
      rest: "cp_run rfc (map (\<lambda>(i, c). on_connector i c ReservationExpired) xs) s1 = Some (s', effects2)"
      by (auto simp: x split: option.splits)
    obtain st where st: "connector_at s i c = Some st" using Cons.prems(3) [of i c] by (auto simp: x)
    note r = cp_apply_reservations [OF first _ st Cons.prems(2)]
    have "connector_at s1 k b \<noteq> None" if "(k, b) \<in> set xs" for k b using Cons.prems(3) [of k b] that r(1) [of k b] by auto
    from Cons.IH [OF rest r(4) this] show ?case
      using r(1,2) st reserved_iff [OF Cons.prems(2), of i c] by (auto simp: x reservation_after_def)
  qed simp
  then show "connector_at s' j d = (if (j, d) \<in> set xs \<and> connector_at s j d = Some Reserved
      then Some Available else connector_at s j d)"
    and "reservation_at s' j d = (if (j, d) \<in> set xs then None else reservation_at s j d)" by simp_all
qed

text \<open>C24: in any reachable state a sweep with a synchronized clock frees exactly the connectors
  whose reservation has expired: they become available, and every other connector and reservation
  stays as it is; afterwards nothing is left to expire.\<close>

theorem expiry_sweep_frees_the_expired:
  assumes "reachable rfc counts limits s" and "is_synchronized now"
  shows "\<exists>s' effects. cp_run rfc (reservation_expiry_sweep now s) s = Some (s', effects)
    \<and> (\<forall>i c. connector_at s' i c =
          (if is_some_and (reservation_at s i c) (expired_at now) then Some Available else connector_at s i c))
    \<and> (\<forall>i c. reservation_at s' i c = opt_filter (\<lambda>r. \<not> expired_at now r) (reservation_at s i c))
    \<and> reservation_expiry_sweep now s' = []"
proof -
  let ?xs = "expired_reservations s now"
  have inv: "list_all reservations_match (evses s)" using assms(1) by (rule reachable_reservations)
  obtain s' effects where run: "cp_run rfc (reservation_expiry_sweep now s) s = Some (s', effects)"
    using reachable_run_total [OF assms(1)] by blast
  have reserved: "connector_at s i c = Some Reserved" if "(i, c) \<in> set ?xs" for i c
    using that reserved_iff [OF inv, of i c] by (cases "reservation_at s i c") (auto simp: expired_reservations_iff)
  have step: "connector_at s' i c = (if (i, c) \<in> set ?xs \<and> connector_at s i c = Some Reserved then Some Available else connector_at s i c)"
    "reservation_at s' i c = (if (i, c) \<in> set ?xs then None else reservation_at s i c)" for i c
    using expiry_run [of rfc ?xs s s' effects i c] run inv reserved assms(2)
    by (auto simp: reservation_expiry_sweep_def)
  have "reservation_at s' i c = opt_filter (\<lambda>r. \<not> expired_at now r) (reservation_at s i c)" for i c
    by (cases "reservation_at s i c") (auto simp: step(2) expired_reservations_iff)
  moreover from this have "(i, c) \<notin> set (expired_reservations s' now)" for i c
    by (cases "reservation_at s i c") (auto simp: expired_reservations_iff)
  then have "reservation_expiry_sweep now s' = []"
    by (metis (no_types, lifting) list.map_disc_iff list.set_sel(1) reservation_expiry_sweep_def surj_pair)
  moreover have "connector_at s' i c =
          (if is_some_and (reservation_at s i c) (expired_at now) then Some Available else connector_at s i c)" for i c
    using step(1) [of i c] reserved [of i c] by (simp add: expired_reservations_iff)
  ultimately show ?thesis using run by blast
qed

section \<open>Witnesses\<close>

text \<open>A station with one connector that has declared the reservation capability.\<close>

definition reservation_demo :: "reservation" where
  "reservation_demo =
     \<lparr>reservation_id_of = 7, reservation_token = \<lparr>token_value = ''TAG1'', token_kind = ISO14443\<rparr>,
      reservation_group_token = None, reservation_expires_at = Some (1704067201 * 1000000000)\<rparr>"

lemma reservable_station:
  obtains s where "reachable (\<lambda>_. []) [1] default_state_limits s"
    and "capability_present (capabilities_of s) ''ReserveNow''"
    and "evses s = [evse_new 1]"
proof -
  let ?caps = "default_capabilities\<lparr>cap_reservation := True\<rparr>"
  let ?s = "cp_with_limits [1] default_state_limits"
  obtain s effects where step: "cp_apply (\<lambda>_. []) (CapabilitiesDeclared ?caps) ?s = Some (s, effects)"
    using reachable_total [OF reachable.start] by blast
  then obtain m r where "s = ?s\<lparr>capabilities_of := ?caps, device_model_of := m, pending_reset_of := r\<rparr>"
    by (auto elim: cp_apply_fields)
  then have "capabilities_of s = ?caps" "evses s = [evse_new 1]" by (simp_all add: cp_with_limits_def)
  then show thesis
    by (intro that [OF reachable.step [OF reachable.start step]])
      (simp_all add: capability_present_def gate_def refusal_gates_def)
qed

lemma reserved_station:
  obtains s s1 effects where "reachable (\<lambda>_. []) [1] default_state_limits s"
    and "find_reservation s 7 = None"
    and "handle_reserve_now None reservation_demo s = (ReserveAccepted, [on_connector 0 0 (ReservedFor reservation_demo)])"
    and "cp_run (\<lambda>_. []) [on_connector 0 0 (ReservedFor reservation_demo)] s = Some (s1, effects)"
    and "reachable (\<lambda>_. []) [1] default_state_limits s1"
    and "reservation_at s1 0 0 = Some reservation_demo"
proof -
  obtain s where s: "reachable (\<lambda>_. []) [1] default_state_limits s"
    "capability_present (capabilities_of s) ''ReserveNow''" "evses s = [evse_new 1]"
    by (rule reservable_station)
  obtain s1 effects where run: "cp_apply (\<lambda>_. []) (on_connector 0 0 (ReservedFor reservation_demo)) s = Some (s1, effects)"
    using reachable_total [OF s(1)] by blast
  have "connector_at s 0 0 = Some Available" using s(3) by (simp add: connector_at_def evse_new_def)
  from cp_apply_reservations(2) [OF run _ this reachable_reservations [OF s(1)], of 0 0]
  have "reservation_at s1 0 0 = Some reservation_demo" by (simp add: reservation_after_def)
  moreover have "find_reservation s 7 = None" using s(3) by (simp add: find_reservation_def evse_new_def)
  moreover have "handle_reserve_now None reservation_demo s = (ReserveAccepted, [on_connector 0 0 (ReservedFor reservation_demo)])"
    using s(2,3) by (simp add: handle_reserve_now_def considered_connectors_def connectors_of_def evse_new_def)
  ultimately show thesis using that s(1) run reachable.step [OF s(1) run] by simp
qed

theorem reserve_then_cancel_witness:
  "\<exists>s s1 s2 effects1 effects2 evs. reachable (\<lambda>_. []) [1] default_state_limits s
    \<and> cp_run (\<lambda>_. []) [on_connector 0 0 (ReservedFor reservation_demo)] s = Some (s1, effects1)
    \<and> handle_cancel_reservation 7 s1 = (CancelAccepted, evs)
    \<and> cp_run (\<lambda>_. []) evs s1 = Some (s2, effects2) \<and> connector_at s2 = connector_at s"
proof (rule reserved_station)
  fix s s1 effects
  assume s: "reachable (\<lambda>_. []) [1] default_state_limits s" "find_reservation s 7 = None"
    "handle_reserve_now None reservation_demo s = (ReserveAccepted, [on_connector 0 0 (ReservedFor reservation_demo)])"
    "cp_run (\<lambda>_. []) [on_connector 0 0 (ReservedFor reservation_demo)] s = Some (s1, effects)"
  have "reservation_id_of reservation_demo = 7" by (simp add: reservation_demo_def)
  with reserve_then_cancel [OF s(1) _ s(3) s(4)] s(2) show ?thesis using s(1,4) by fastforce
qed

theorem expiry_sweep_frees_the_expired_witness:
  "\<exists>s s' effects. reachable (\<lambda>_. []) [1] default_state_limits s
    \<and> reservation_at s 0 0 = Some reservation_demo
    \<and> cp_run (\<lambda>_. []) (reservation_expiry_sweep (1704067202 * 1000000000) s) s = Some (s', effects)
    \<and> connector_at s' 0 0 = Some Available"
proof (rule reserved_station)
  fix s s1 effects
  assume s1: "reachable (\<lambda>_. []) [1] default_state_limits s1" "reservation_at s1 0 0 = Some reservation_demo"
  have "is_synchronized (1704067202 * 1000000000)" by (simp add: is_synchronized_def unsynchronized_before_def)
  moreover have "expired_at (1704067202 * 1000000000) reservation_demo" by (simp add: expired_at_def reservation_demo_def)
  ultimately show ?thesis
    using expiry_sweep_frees_the_expired [OF s1(1), of "1704067202 * 1000000000"] s1 by fastforce
qed

end
