(* ===== verification/Session_Transactions.thy ===== *)
theory Session_Transactions
  imports Charging_Session Availability_Sync
begin

text \<open>
  Energy is billed: under one configuration of the start point, the events of a session leave an
  open transaction on the connector.  Where the start point does not occur again within a session,
  they need not.
\<close>

section \<open>The configuration\<close>

text \<open>A variable of a component of the station itself, and the ones the state machine never writes.\<close>

abbreviation config :: "charge_point_state \<Rightarrow> string \<Rightarrow> string \<Rightarrow> string option" where
  "config s c v \<equiv> dm_actual (device_model_of s) (Component c None None) (Variable v None)"

definition configured :: "string \<Rightarrow> string \<Rightarrow> bool" where
  "configured c v =
     (c \<noteq> network_configuration_component \<and> v \<notin> {availability_state_variable, ''DisplayMessages'', ''Entries''})"

definition same_config :: "charge_point_state \<Rightarrow> charge_point_state \<Rightarrow> bool" where
  "same_config s s' = (\<forall>c v. configured c v \<longrightarrow> config s' c v = config s c v)"

lemma same_config_refl [simp]: "same_config s s"
  by (simp add: same_config_def)

lemma same_config_trans: "same_config s s1 \<Longrightarrow> same_config s1 s2 \<Longrightarrow> same_config s s2"
  by (simp add: same_config_def)

lemma same_config_device_model: "device_model_of s' = device_model_of s \<Longrightarrow> same_config s s'"
  by (simp add: same_config_def)

lemma sync_config: "same_config s (sync_variables s)"
proof -
  have "dm_actual (fold (write_availability s) as m) c (Variable v None) = dm_actual m c (Variable v None)"
    if "v \<noteq> availability_state_variable" for as m c v
    using that by (induction as arbitrary: m) (auto simp: write_availability_def dm_actual_write)
  then show ?thesis
    by (auto simp: same_config_def configured_def sync_variables_def sync_counters_other sync_network_other
        sync_availability_writes)
qed

lemma lock_problem_config: "lock_problem_stage i c ev new s = (s', b, effs) \<Longrightarrow> same_config s s'"
  by (auto simp: same_config_def lock_problem_stage_def set_plug_retention_lock_problem_def plug_lock_component_def
      dm_actual_set_attribute_value Let_def split: if_splits prod.splits)

lemma device_model_update_evse [simp]: "device_model_of (update_evse i f s) = device_model_of s"
  by (simp add: update_evse_def)

interpretation config_handler: handler_relation "\<lambda>_. True" "\<lambda>s _ s'. same_config s s'"
proof
  show "same_config s s'"
    if step: "connector_step i c ev s = Some (s', effects, out)" for i c ev s s' effects out
  proof (rule connector_stepE [OF step])
    fix e e1 next1 effects1 out1 lock_changed lock_effects
    assume "lock_problem_stage i c ev (connectors e1 ! c)
          (s\<lparr>evses := (evses s)[i := e1], next_transaction_id := next1\<rparr>) = (s', lock_changed, lock_effects)"
    from lock_problem_config [OF this] show "same_config s s'" by (simp add: same_config_def)
  qed
  show "same_config s s'"
    if "request_current_limit i c l s = (s', effects)" for i c l s s' effects
    using that by (auto simp: request_current_limit_def intro!: same_config_device_model split: option.splits if_splits)
  show "same_config s s'"
    if "mark_limit_reached i c kind s = (s', effects)" for i c kind s s' effects
    using that by (auto simp: mark_limit_reached_def Let_def intro!: same_config_device_model)
  show "same_config s (clear_limit_reached i c s)" for i c s
    by (simp add: clear_limit_reached_def same_config_device_model)
  show "same_config s s'"
    if "apply_to_evse i eev s = (s', b)" for i eev s s' b
    using that by (auto simp: apply_to_evse_def intro!: same_config_device_model split: option.splits)
qed (auto intro: same_config_trans)

lemma cp_apply_same_config:
  assumes "cp_apply rfc ev s = Some (s', effects)"
    and "\<And>s1 effects1 b. apply_event rfc ev s = Some (s1, effects1, b) \<Longrightarrow> same_config s s1"
  shows "same_config s s'"
proof -
  from assms(1) obtain s1 effects1 b effects2 where
    event: "apply_event rfc ev s = Some (s1, effects1, b)" and
    reset: "check_pending_reset (sync_variables s1) = Some (s', effects2)"
    by (rule cp_applyE)
  have "device_model_of s' = device_model_of (sync_variables s1)"
    using reset by (auto simp: check_pending_reset_def split: option.splits if_splits)
  then have "same_config (sync_variables s1) s'" by (rule same_config_device_model)
  with sync_config [of s1] assms(2) [OF event] show ?thesis by (meson same_config_trans)
qed

lemma cp_apply_connector_config:
  assumes "cp_apply rfc (OnEvse i (OnConnector c ev)) s = Some (s', effects)"
  shows "same_config s s'"
  using assms
  by (rule cp_apply_same_config) (auto simp: evse_event_applied_def intro: config_handler.handler(1))

lemma start_point_same:
  "same_config s s' \<Longrightarrow> tx_start_point_of (connector_policy_of s') = tx_start_point_of (connector_policy_of s)"
  by (simp add: same_config_def configured_def connector_policy_of_def string_variable_def device_model_names)

section \<open>When a step leaves a transaction open\<close>

lemma other_stages_open:
  "(vec_slot (transactions (allowance_stage policy c ev e)) c = None) = (vec_slot (transactions e) c = None)"
  "limit_set_stage sl c ev e = (e', b) \<Longrightarrow> (vec_slot (transactions e') c = None) = (vec_slot (transactions e) c = None)"
  "elapsed_stage c ev e = (e', b) \<Longrightarrow> (vec_slot (transactions e') c = None) = (vec_slot (transactions e) c = None)"
  "current_limit_stage i c ev e = (e', b, effs) \<Longrightarrow> (vec_slot (transactions e') c = None) = (vec_slot (transactions e) c = None)"
  by (auto simp: allowance_stage_def limit_set_stage_def elapsed_stage_def current_limit_stage_def
      vec_slot_update_slot Let_def
      split: connector_event.splits if_splits option.splits prod.splits)

lemma transaction_stage_open:
  assumes "transaction_stage i c ev prev new origin points n e = (e', n', effs)"
    and "c < length (transactions e)" and "\<not> ends_transaction prev new (points_stop points)" and "new \<noteq> Faulted"
    and "vec_slot (transactions e) c \<noteq> None \<or> starts_transaction prev new (points_start points)"
  shows "vec_slot (transactions e') c \<noteq> None"
proof -
  have "fst (advance_transaction slot n prev new (event_stop_reason ev) origin points) \<noteq> None"
    if "slot \<noteq> None \<or> starts_transaction prev new (points_start points)" for slot
    using that assms(3,4)
    by (auto simp: advance_transaction_def update_transaction_def record_stop_reason_def Let_def
        split: option.splits if_splits)
  then have opened: "fst (advance_transaction (transactions e ! c) n prev new (event_stop_reason ev) origin points) \<noteq> None"
    using assms(2,5) by (auto simp: vec_slot_def)
  obtain slot1 next1 happened where
    adv: "advance_transaction (transactions e ! c) n prev new (event_stop_reason ev) origin points = (slot1, next1, happened)"
    by (metis prod_cases3)
  have "vec_slot (transactions e') c
      = (case event_sample ev of None \<Rightarrow> slot1 | Some sample \<Rightarrow> fst (apply_meter_sample slot1 sample))"
  proof -
    have "transactions (case happened of Some (Started, _) \<Rightarrow> clear_costs c x | Some (Ended, _) \<Rightarrow> clear_costs c x | _ \<Rightarrow> x)
        = transactions x" for x
      by (simp add: clear_costs_def split: option.splits prod.splits transaction_event_kind.splits)
    then show ?thesis
      using assms(1,2) by (cases "event_sample ev") (auto simp: transaction_stage_def adv Let_def vec_slot_def split: prod.splits)
  qed
  moreover have "fst (apply_meter_sample slot1 sample) \<noteq> None" for sample
    using opened adv by (auto simp: apply_meter_sample_def Let_def)
  ultimately show ?thesis using opened adv by (cases "event_sample ev") simp_all
qed

lemma evse_step_open:
  assumes "evse_step policy sl i c ev n e = (e', n', effs, out)" and "evse_wf e" and "c < length (connectors e)"
    and "new = fst (connector_next (connectors e ! c) ev policy)"
    and "\<not> ends_transaction (connectors e ! c) new (tx_stop_point_of policy)" and "new \<noteq> Faulted"
    and "vec_slot (transactions e) c \<noteq> None \<or> starts_transaction (connectors e ! c) new (tx_start_point_of policy)"
  shows "vec_slot (transactions e') c \<noteq> None"
proof (rule evse_stepE [OF assms(1)], goal_cases)
  case (1 new' tr e1 re e3 limit_set e4 elapsed e5 pc dispatch e6 eff6 e7 sr e8 lc eff8 e10 con e11 cr e12 tar rcr)
  have new: "new' = new"
    using 1(1) assms(4) by (auto simp: connector_apply_def Let_def split: prod.splits)
  have first: "transactions e1 = transactions e" using frameD(2) [OF conjunct1 [OF reservation_stage_frame [OF 1(2)]]] by simp
  have shape: "same_shape (e\<lparr>connectors := (connectors e)[c := new']\<rparr>) e5"
    using frameD(1) [OF conjunct1 [OF reservation_stage_frame [OF 1(2)]]] allowance_stage_shape
      limit_set_stage_shape [OF 1(3)] elapsed_stage_shape [OF 1(4)] frameD(1) [OF pending_stage_frame [OF 1(5)]]
    by (meson same_shape_trans)
  have same: "(vec_slot (transactions e5) c = None) = (vec_slot (transactions e) c = None)"
    using other_stages_open(1) [of policy c ev e1] other_stages_open(2) [OF 1(3)] other_stages_open(3) [OF 1(4)]
      frameD(2) [OF pending_stage_frame [OF 1(5)]] first by simp
  have "vec_slot (transactions e6) c \<noteq> None"
    by (rule transaction_stage_open [OF 1(6)])
      (use assms shape same new in \<open>auto simp: same_shape_def evse_wf_def Let_def\<close>)
  then have "vec_slot (transactions e8) c \<noteq> None"
    using frameD(2) [OF sample_stage_frame [OF 1(7)]] other_stages_open(4) [OF 1(8)] by simp
  then show ?case
    using frameD(2) [OF confirmed_limit_stage_frame [OF 1(9)]] frameD(2) [OF cost_stage_frame [OF 1(10)]]
      frameD(2) [OF tariff_stage_frame [OF 1(11)]] frameD(2) [OF running_cost_stage_frame [OF 1(12)]] by simp
qed

lemma connector_step_open:
  assumes "connector_step i c ev s = Some (s', effects, out)" and "cp_wf s" and "connector_at s i c = Some st"
    and "new = fst (connector_next st ev (connector_policy_of s))"
    and "\<not> ends_transaction st new (tx_stop_point_of (connector_policy_of s))" and "new \<noteq> Faulted"
    and "transaction_at s i c \<noteq> None \<or> starts_transaction st new (tx_start_point_of (connector_policy_of s))"
  shows "transaction_at s' i c \<noteq> None"
proof -
  from assms(1) obtain e e' effects1 out1 where
    st: "i < length (evses s)" "e = evses s ! i" "c < length (connectors e)" and
    step: "evse_step (connector_policy_of s) (string_variable ''TxCtrlr'' ''SupportedLimits'' s)
          i c ev (next_transaction_id s) e = (e', next_transaction_id s', effects1, out1)" and
    s': "evses s' = (evses s)[i := e']"
    by (rule connector_step_evse)
  have "connectors e ! c = st" using assms(3) st by (simp add: connector_at_def)
  moreover have "evse_wf e" using assms(2) st by (simp add: cp_wf_def list_all_length)
  moreover have "transaction_at s i c = vec_slot (transactions e) c" "transaction_at s' i c = vec_slot (transactions e') c"
    using st s' by (simp_all add: transaction_at_def)
  ultimately show ?thesis
    using evse_step_open [OF step _ st(3), of new] assms(4-7) by simp
qed

section \<open>A session opens a transaction\<close>

text \<open>The states before a start point has passed.\<close>

fun before_start :: "tx_start_point \<Rightarrow> connector_state list" where
  "before_start StartEVConnected = [Available, Reserved, Connected]"
| "before_start StartAuthorized = [Available, Reserved, Connected, Locked, Authorizing]"
| "before_start StartPowerPathClosed = [Available, Reserved, Connected, Locked, Authorizing, Starting]"

definition billed :: "tx_start_point \<Rightarrow> connector_state \<Rightarrow> transaction option \<Rightarrow> bool" where
  "billed sp st slot = (slot \<noteq> None \<or> st \<in> set (before_start sp))"

definition session_event :: "connector_event \<Rightarrow> bool" where
  "session_event ev =
     (ev \<in> {CableConnected, LockConfirmed, ContactorClosed} \<or> (\<exists>t. ev = IdTokenPresented t)
      \<or> (\<exists>t. ev = ChargingAuthorized t) \<or> (\<exists>t i. ev = RemoteStartRequested t i))"

definition session_states :: "connector_state list" where
  "session_states = [Available, Reserved, Connected, Locked, Authorizing, Starting, Charging]"

definition session_moves :: "(connector_state \<times> connector_state) list" where
  "session_moves =
     [(Available, Connected), (Reserved, Connected), (Connected, Locked), (Locked, Authorizing), (Locked, Starting),
      (Authorizing, Starting), (Starting, Charging)]"

lemma session_next:
  assumes "session_event ev" and "st \<in> set session_states"
  shows "fst (connector_next st ev p) = st \<or> (st, fst (connector_next st ev p)) \<in> set session_moves"
proof -
  consider "ev = CableConnected" | "ev = LockConfirmed" | "ev = ContactorClosed" | t where "ev = IdTokenPresented t"
    | t where "ev = ChargingAuthorized t" | t i where "ev = RemoteStartRequested t i"
    using assms(1) by (auto simp: session_event_def)
  then show ?thesis
    using assms(2) by cases (auto simp: session_states_def session_moves_def)
qed

lemma session_moves:
  assumes "new = st \<or> (st, new) \<in> set session_moves" and "st \<in> set session_states"
  shows "new \<in> set session_states" and "\<not> ends_transaction st new stop" and "new \<noteq> Faulted"
    and "st \<in> set (before_start sp) \<Longrightarrow> new \<in> set (before_start sp) \<or> starts_transaction st new sp"
proof -
  show "new \<in> set session_states" and "new \<noteq> Faulted"
    using assms by (auto simp: session_moves_def session_states_def)
  show "\<not> ends_transaction st new stop"
    using assms by (cases stop) (auto simp: session_moves_def session_states_def)
  show "st \<in> set (before_start sp) \<Longrightarrow> new \<in> set (before_start sp) \<or> starts_transaction st new sp"
    using assms(1) by (cases sp) (auto simp: session_moves_def)
qed

lemmas session_transition = session_moves [OF session_next]

lemma connector_step_billed:
  assumes "connector_step i c ev s = Some (s', effects, out)" and "cp_wf s" and "connector_at s i c = Some st"
    and "session_event ev" and "st \<in> set session_states"
    and "billed (tx_start_point_of (connector_policy_of s)) st (transaction_at s i c)"
  shows "billed (tx_start_point_of (connector_policy_of s)) (fst (connector_next st ev (connector_policy_of s)))
      (transaction_at s' i c)"
proof -
  let ?p = "connector_policy_of s"
  let ?new = "fst (connector_next st ev ?p)"
  note move = session_transition [OF assms(4,5) assms(5), where p = ?p]
  show ?thesis
    using connector_step_open [OF assms(1-3) refl move(2) move(3)] move(4) [of "tx_start_point_of ?p"] assms(6)
    unfolding billed_def by blast
qed

text \<open>A session event at the charge point, the start it may dispatch included.\<close>

definition billed_at :: "tx_start_point \<Rightarrow> charge_point_state \<Rightarrow> usize \<Rightarrow> usize \<Rightarrow> bool" where
  "billed_at sp s i c =
     (tx_start_point_of (connector_policy_of s) = sp \<and> cp_wf s
      \<and> (\<exists>st \<in> set session_states. connector_at s i c = Some st \<and> billed sp st (transaction_at s i c)))"

lemma connector_step_billed_at:
  assumes "connector_step i c ev s = Some (s', effects, out)" and "session_event ev" and "billed_at sp s i c"
  shows "billed_at sp s' i c"
proof -
  from assms(3) obtain st where st: "connector_at s i c = Some st" "st \<in> set session_states"
    "billed sp st (transaction_at s i c)" and wf: "cp_wf s" and sp: "tx_start_point_of (connector_policy_of s) = sp"
    by (auto simp: billed_at_def)
  have "connector_at s' i c = Some (fst (connector_next st ev (connector_policy_of s)))"
    using connector_step_connector [OF assms(1)] st(1) by auto
  moreover have "cp_wf s'" using micro_wf [OF micro.connector [OF assms(1), of "\<lambda>_. True"]] wf by blast
  moreover have "tx_start_point_of (connector_policy_of s') = sp"
    using start_point_same [OF config_handler.Q_step [OF assms(1)]] sp by simp
  ultimately show ?thesis
    using connector_step_billed [OF assms(1) wf st(1) assms(2) st(2)] st(3) session_transition(1) [OF assms(2) st(2) st(2)] sp
    by (auto simp: billed_at_def)
qed

lemma apply_connector_event_billed:
  assumes "apply_connector_event i c ev s = (s', effects, b)" and "session_event ev" and "billed_at sp s i c"
  shows "billed_at sp s' i c"
proof (cases "connector_step i c ev s")
  case None
  with assms show ?thesis by (simp add: apply_connector_event.simps)
next
  case (Some r)
  then obtain s1 effects1 out where step: "connector_step i c ev s = Some (s1, effects1, out)" by (metis prod_cases3)
  have first: "billed_at sp s1 i c" by (rule connector_step_billed_at [OF step assms(2,3)])
  have "\<not> allowance_spent i c ev s1" and "\<not> limit_relevant ev" and "\<not> out_cost_recorded out"
    using connector_step_cost_recorded [OF step] assms(2)
    by (auto simp: session_event_def allowance_spent_def event_sample_def limit_relevant_def)
  then have handled: "(s', effects, b) = (case out_dispatch out of
       None \<Rightarrow> (s1, effects1, out_changed out)
     | Some p \<Rightarrow> (case apply_connector_event i c
           (RemoteStartRequested (pending_id_token p) (pending_remote_start_id p)) s1 of
         (s3, effects3, _) \<Rightarrow> (s3, effects1 @ effects3, True)))"
    using assms(1) step by (auto simp: apply_connector_event.simps [of i c ev] split: option.splits prod.splits)
  show ?thesis
  proof (cases "out_dispatch out")
    case None
    with handled first show ?thesis by simp
  next
    case (Some p)
    let ?ev = "RemoteStartRequested (pending_id_token p) (pending_remote_start_id p)"
    from Some handled obtain effects3 b3 where second: "apply_connector_event i c ?ev s1 = (s', effects3, b3)"
      by (auto split: prod.splits)
    show ?thesis
    proof (cases "connector_step i c ?ev s1")
      case None
      with second first show ?thesis by (simp add: apply_connector_event_plain)
    next
      case (Some r)
      with second obtain out2 where "connector_step i c ?ev s1 = Some (s', effects3, out2)"
        by (auto simp: apply_connector_event_plain split: prod.splits)
      then show ?thesis by (rule connector_step_billed_at [OF _ _ first]) (simp add: session_event_def)
    qed
  qed
qed

lemma cp_apply_billed:
  assumes "cp_apply rfc (OnEvse i (OnConnector c ev)) s = Some (s', effects)" and "session_event ev"
    and "billed_at sp s i c"
  shows "billed_at sp s' i c"
proof -
  from assms(1) obtain s1 effects1 b effects2 where
    event: "apply_event rfc (OnEvse i (OnConnector c ev)) s = Some (s1, effects1, b)" and
    reset: "check_pending_reset (sync_variables s1) = Some (s', effects2)"
    by (rule cp_applyE)
  have "billed_at sp s1 i c"
    using event apply_connector_event_billed [OF _ assms(2,3)] by (auto simp: evse_event_applied_def)
  moreover have "evses s' = evses s1"
    using reset by (auto simp: check_pending_reset_def frame_simps split: option.splits if_splits)
  moreover have "tx_start_point_of (connector_policy_of s') = sp"
    using start_point_same [OF cp_apply_connector_config [OF assms(1)]] assms(3) by (simp add: billed_at_def)
  ultimately show ?thesis by (simp add: billed_at_def connector_at_def transaction_at_def cp_wf_def)
qed

lemma session_start_billed:
  assumes "cp_run rfc (session_start i c t) s = Some (s', effects)" and "cp_wf s"
    and "connector_at s i c \<in> {Some Available, Some Reserved}"
  shows "transaction_at s' i c \<noteq> None"
proof -
  let ?sp = "tx_start_point_of (connector_policy_of s)"
  from assms(1) [unfolded session_start_def] obtain s1 s2 s3 s4 f1 f2 f3 f4 f5 where
    e: "cp_apply rfc (OnEvse i (OnConnector c CableConnected)) s = Some (s1, f1)"
      "cp_apply rfc (OnEvse i (OnConnector c LockConfirmed)) s1 = Some (s2, f2)"
      "cp_apply rfc (OnEvse i (OnConnector c (IdTokenPresented t))) s2 = Some (s3, f3)"
      "cp_apply rfc (OnEvse i (OnConnector c (ChargingAuthorized t))) s3 = Some (s4, f4)"
      "cp_apply rfc (OnEvse i (OnConnector c ContactorClosed)) s4 = Some (s', f5)"
    by (elim cp_run_Cons_Some) auto
  have "billed_at ?sp s i c"
    using assms(2,3) by (cases ?sp) (auto simp: billed_at_def session_states_def billed_def)
  then have "billed_at ?sp s' i c"
    by (intro cp_apply_billed [OF e(5)] cp_apply_billed [OF e(4)] cp_apply_billed [OF e(3)]
        cp_apply_billed [OF e(2)] cp_apply_billed [OF e(1)]) (simp_all add: session_event_def)
  moreover have "connector_at s' i c = Some Charging" by (rule session_start_charges [OF assms(1,3)])
  ultimately show ?thesis by (cases ?sp) (auto simp: billed_at_def billed_def)
qed

text \<open>C5: energy is never delivered outside a transaction in an ordinary session.  From any
  reachable state whose connector is free, the events of a session bring it to \<open>Charging\<close> with a
  transaction open, whatever the configured start point is and whether or not a remote start was
  waiting for the cable.\<close>

theorem session_is_billed:
  assumes "reachable rfc counts limits s" and "connector_at s i c \<in> {Some Available, Some Reserved}"
  shows "\<exists>s' effects x. cp_run rfc (session_start i c t) s = Some (s', effects)
    \<and> connector_at s' i c = Some Charging \<and> transaction_at s' i c = Some x"
proof -
  obtain s' effects where run: "cp_run rfc (session_start i c t) s = Some (s', effects)"
    using reachable_run_total [OF assms(1)] by blast
  have "cp_wf s" using reachable_wf [OF assms(1)] by simp
  with session_start_billed [OF run _ assms(2)] session_start_charges [OF run assms(2)] run show ?thesis by auto
qed

theorem session_is_billed_witness:
  "\<exists>s' effects x. cp_run (\<lambda>_. []) (session_start 0 0 \<lparr>token_value = ''TAG1'', token_kind = ISO14443\<rparr>)
      (cp_with_limits [1] default_state_limits) = Some (s', effects)
    \<and> connector_at s' 0 0 = Some Charging \<and> transaction_at s' 0 0 = Some x"
  by (rule session_is_billed [OF reachable.start]) (simp add: fresh_connector_at)

section \<open>Where it is not\<close>

text \<open>
  With the start point \<open>EVConnected\<close> a transaction starts when the cable is latched.  On a station
  that keeps the cable latched when the EV side is unplugged the connector returns from
  \<open>StoppingLocked\<close> to \<open>Locked\<close> without a transaction, and the next identifier charges without one.
\<close>

lemma relatched_session_is_not_billed:
  assumes "tx_start_point_of p = StartEVConnected" and "tx_stop_point_of p = StopPowerPathClosed"
  shows "map (\<lambda>ev. fst (connector_next (fst ev) (snd ev) p))
      [(StoppingLocked, ContactorOpened), (Locked, IdTokenPresented t), (Authorizing, ChargingAuthorized t),
       (Starting, ContactorClosed)] = [Locked, Authorizing, Starting, Charging]
    \<and> (\<forall>x n r1 r2 r3 r4 o1 o2 o3 o4.
        let points = \<lparr>points_start = tx_start_point_of p, points_stop = tx_stop_point_of p\<rparr>;
            a = fst (advance_transaction (Some x) n StoppingLocked Locked r1 o1 points);
            b = fst (advance_transaction a n Locked Authorizing r2 o2 points);
            d = fst (advance_transaction b n Authorizing Starting r3 o3 points)
        in fst (advance_transaction d n Starting Charging r4 o4 points) = None)"
  using assms by (simp add: advance_transaction_def update_transaction_def record_stop_reason_def Let_def)

end
