(* ===== verification/Remote_Control_Properties.thy ===== *)
theory Remote_Control_Properties
  imports Reservation_Properties Session_Transactions
begin

text \<open>
  Remote start and stop.  The two loops of \<open>find_start_target\<close> pick a connector by a rule stated
  without them, never panic on a well-formed state, and never give away a connector that is
  reserved for someone else; an accepted stop opens the contactor of the transaction's connector.
\<close>

section \<open>The choice of a connector\<close>

definition startable :: "charge_point_state \<Rightarrow> id_token \<Rightarrow> id_token option \<Rightarrow> usize \<times> usize \<Rightarrow> bool" where
  "startable s tok grp = (\<lambda>(i, c).
     is_some_and (vec_get (evses s) i) (\<lambda>e. evse_status_of e = EvseAvailable)
     \<and> transaction_at s i c = None
     \<and> is_none_or (reservation_at s i c) (\<lambda>r. reservation_admits r tok grp))"

definition first_startable ::
  "connector_state \<Rightarrow> charge_point_state \<Rightarrow> id_token \<Rightarrow> id_token option \<Rightarrow> (usize \<times> usize) list \<Rightarrow> (usize \<times> usize) option" where
  "first_startable st s tok grp = List.find (\<lambda>(i, c). startable s tok grp (i, c) \<and> connector_at s i c = Some st)"

text \<open>The reference: a latched cable first, then a connector reserved for the identifier, then a free one.\<close>

definition start_choice ::
  "charge_point_state \<Rightarrow> usize option \<Rightarrow> id_token \<Rightarrow> id_token option \<Rightarrow> (usize \<times> usize \<times> bool) option" where
  "start_choice s evse tok grp =
     (let as = start_addresses s evse
      in case first_startable Locked s tok grp as of
           Some (i, c) \<Rightarrow> Some (i, c, True)
         | None \<Rightarrow>
             map_option (\<lambda>(i, c). (i, c, False))
               (opt_or (first_startable Reserved s tok grp as) (first_startable Available s tok grp as)))"

lemma can_start_here_iff:
  assumes "cp_wf s" and "connector_at s i c = Some st"
  shows "can_start_here (evses s ! i) c tok grp
    = Some (startable s tok grp (i, c) \<and> st \<in> {Available, Locked, Reserved})"
proof -
  from assms(2) have i: "i < length (evses s)" and c: "c < length (connectors (evses s ! i))"
    and st: "connectors (evses s ! i) ! c = st"
    by (auto simp: connector_at_def vec_get_def split: if_splits)
  have "evse_wf (evses s ! i)" using assms(1) i by (simp add: cp_wf_def list_all_length)
  then have "c < length (transactions (evses s ! i))" "c < length (reservations (evses s ! i))"
    using c by (simp_all add: evse_wf_def Let_def)
  with i c st show ?thesis
    by (auto simp: can_start_here_def startable_def transaction_at_def reservation_at_def vec_slot_def
        split: option.splits)
qed

lemma start_scan_eq:
  assumes "cp_wf s" and "\<And>i c. (i, c) \<in> set as \<Longrightarrow> connector_at s i c \<noteq> None"
  shows "start_scan s tok grp as rw w =
    Some (case first_startable Locked s tok grp as of
            Some (i, c) \<Rightarrow> Some (i, c, True)
          | None \<Rightarrow>
              opt_or (opt_or rw (map_option (\<lambda>(i, c). (i, c, False)) (first_startable Reserved s tok grp as)))
                (opt_or w (map_option (\<lambda>(i, c). (i, c, False)) (first_startable Available s tok grp as))))"
  using assms(2)
proof (induction as arbitrary: rw w)
  case (Cons a as)
  obtain i c where a: "a = (i, c)" by fastforce
  obtain st where st: "connector_at s i c = Some st" using Cons.prems [of i c] by (auto simp: a)
  then have nth: "connectors (evses s ! i) ! c = st" by (auto simp: connector_at_def vec_get_def split: if_splits)
  note IH = Cons.IH [OF Cons.prems]
  show ?case
    using can_start_here_iff [OF assms(1) st, of tok grp] st nth
    by (cases "startable s tok grp (i, c)"; cases st; cases rw; cases w)
      (simp_all add: a IH first_startable_def opt_or_def split: option.splits)
qed (simp add: first_startable_def opt_or_def split: option.splits)

lemma start_addresses_valid: "(i, c) \<in> set (start_addresses s evse) \<Longrightarrow> connector_at s i c \<noteq> None"
  by (auto simp: start_addresses_def connector_at_def split: option.splits)

lemma find_start_target_eq: "cp_wf s \<Longrightarrow> find_start_target s evse tok grp = Some (start_choice s evse tok grp)"
  by (simp add: find_start_target_def start_scan_eq start_addresses_valid start_choice_def Let_def opt_or_def
      split: option.splits)

lemma first_startableD:
  "first_startable st s tok grp as = Some (i, c) \<Longrightarrow> startable s tok grp (i, c) \<and> connector_at s i c = Some st"
  by (auto simp: first_startable_def find_Some_iff)

lemma start_choiceD:
  assumes "start_choice s evse tok grp = Some (i, c, latched)"
  shows "startable s tok grp (i, c)
    \<and> (if latched then connector_at s i c = Some Locked else connector_at s i c \<in> {Some Reserved, Some Available})"
  using assms
  by (auto simp: start_choice_def Let_def opt_or_def split: option.splits dest: first_startableD)

section \<open>A start that waits for its cable\<close>

definition pending_start_at :: "charge_point_state \<Rightarrow> usize \<Rightarrow> usize \<Rightarrow> pending_remote_start option" where
  "pending_start_at s i c =
     (case vec_get (evses s) i of None \<Rightarrow> None | Some e \<Rightarrow> vec_slot (pending_remote_starts e) c)"

lemma later_stages_pending:
  "transaction_stage i c ev prev new origin points n e = (e', n', effs) \<Longrightarrow> pending_remote_starts e' = pending_remote_starts e"
  "sample_stage c ev e = (e', b) \<Longrightarrow> pending_remote_starts e' = pending_remote_starts e"
  "current_limit_stage i c ev e = (e', b, effs) \<Longrightarrow> pending_remote_starts e' = pending_remote_starts e"
  "confirmed_limit_stage c ev e = (e', b) \<Longrightarrow> pending_remote_starts e' = pending_remote_starts e"
  "cost_stage c ev e = (e', b) \<Longrightarrow> pending_remote_starts e' = pending_remote_starts e"
  "tariff_stage c ev e = (e', b) \<Longrightarrow> pending_remote_starts e' = pending_remote_starts e"
  "running_cost_stage c ev e = (e', b) \<Longrightarrow> pending_remote_starts e' = pending_remote_starts e"
  by (auto simp: transaction_stage_def clear_costs_def sample_stage_def current_limit_stage_def
      confirmed_limit_stage_def cost_stage_def tariff_stage_def running_cost_stage_def update_slot_def Let_def
      split: connector_event.splits if_splits option.splits prod.splits transaction_event_kind.splits)

lemma evse_step_holds_start:
  assumes "evse_step policy sl i c (RemoteStartPending p) n e = (e', n', effs, out)"
    and "evse_wf e" and "c < length (connectors e)"
  shows "vec_slot (pending_remote_starts e') c = Some p"
proof (rule evse_stepE [OF assms(1)], goal_cases)
  case (1 new tr e1 re e3 limit_set e4 elapsed e5 pc dispatch e6 eff6 e7 sr e8 lc eff8 e10 con e11 cr e12 tar rcr)
  have "same_shape (e\<lparr>connectors := (connectors e)[c := new]\<rparr>) e4"
    using frameD(1) [OF conjunct1 [OF reservation_stage_frame [OF 1(2)]]] allowance_stage_shape
      limit_set_stage_shape [OF 1(3)] elapsed_stage_shape [OF 1(4)]
    by (meson same_shape_trans)
  then have "c < length (pending_remote_starts e4)"
    using assms(2,3) by (auto simp: same_shape_def evse_wf_def Let_def)
  with 1(5) have "vec_slot (pending_remote_starts e5) c = Some p"
    by (auto simp: pending_stage_def pending_remote_start_change_def set_pending_def vec_slot_def)
  moreover have "pending_remote_starts e' = pending_remote_starts e5"
    using later_stages_pending(1) [OF 1(6)] later_stages_pending(2) [OF 1(7)] later_stages_pending(3) [OF 1(8)]
      later_stages_pending(4) [OF 1(9)] later_stages_pending(5) [OF 1(10)] later_stages_pending(6) [OF 1(11)]
      later_stages_pending(7) [OF 1(12)]
    by simp
  ultimately show ?case by simp
qed

lemma cp_apply_holds_start:
  assumes "cp_apply rfc (on_connector i c (RemoteStartPending p)) s = Some (s', effects)" and "cp_wf s"
    and "connector_at s i c \<noteq> None"
  shows "pending_start_at s' i c = Some p"
proof -
  from assms(1,3) obtain e e' n' effects1 out where
    st: "i < length (evses s)" "e = evses s ! i" "c < length (connectors e)" and
    step: "evse_step (connector_policy_of s) (string_variable ''TxCtrlr'' ''SupportedLimits'' s)
          i c (RemoteStartPending p) (next_transaction_id s) e = (e', n', effects1, out)" and
    s': "evses s' = (evses s)[i := e']"
    by (auto elim: cp_apply_evses)
  have "evse_wf e" using assms(2) st by (simp add: cp_wf_def list_all_length)
  from evse_step_holds_start [OF step this st(3)] st(1) show ?thesis by (simp add: pending_start_at_def s')
qed

section \<open>Remote start\<close>



lemma start_decision_cases:
  assumes "cp_wf s"
  obtains (rejected) "start_decision evse tok grp rid s = Some None"
  | (latched) i c where "start_decision evse tok grp rid s
        = Some (Some ((i, c, True), on_connector i c (RemoteStartRequested tok rid)))"
      "startable s tok grp (i, c)" "connector_at s i c = Some Locked"
  | (waiting) i c where "start_decision evse tok grp rid s
        = Some (Some ((i, c, False), on_connector i c (RemoteStartPending
            \<lparr>pending_id_token = tok, pending_remote_start_id = rid\<rparr>)))"
      "startable s tok grp (i, c)" "connector_at s i c \<in> {Some Reserved, Some Available}"
proof (cases "start_choice s evse tok grp")
  case None
  then show thesis using rejected find_start_target_eq [OF assms] by (simp add: start_decision_def)
next
  case (Some x)
  obtain i c b where x: "x = (i, c, b)" by (cases x)
  show thesis
  proof (cases "\<not> may_send_requests s \<or> is_some_and evse (\<lambda>i. vec_get (evses s) i = None)")
    case True
    then show thesis using rejected by (auto simp: start_decision_def)
  next
    case False
    then show thesis
      using start_choiceD [of s evse tok grp i c b] Some x latched waiting find_start_target_eq [OF assms]
      by (cases b) (auto simp: start_decision_def)
  qed
qed


section \<open>Remote stop\<close>

lemma find_transaction_SomeD:
  "find_transaction s n = Some (i, c) \<Longrightarrow> \<exists>t. transaction_at s i c = Some t \<and> tx_id t = n"
  using find_slot_SomeD [of "\<lambda>t. tx_id t = n" transactions 0 "evses s" i c]
  by (cases "vec_slot (transactions (evses s ! i)) c") (auto simp: find_transaction_def transaction_at_def)

text \<open>C23: an accepted \<open>RequestStopTransaction\<close> opens the contactor of the connector on which the
  named transaction charges, takes it to \<open>Stopping\<close>, and touches no other connector.\<close>

theorem remote_stop_opens_the_contactor:
  assumes "reachable rfc counts limits s" and "handle_request_stop_transaction t s = (StopAccepted, evs)"
  shows "\<exists>i c x s' effects. transaction_at s i c = Some x \<and> tx_id x = t \<and> connector_at s i c = Some Charging
    \<and> cp_run rfc evs s = Some (s', effects)
    \<and> connector_at s' = (connector_at s)(i := (connector_at s i)(c := Some Stopping))
    \<and> (\<forall>j d. contactor_commands j d effects = (if (j, d) = (i, c) then [False] else []))"
proof -
  from assms(2) obtain i c where found: "find_transaction s t = Some (i, c)"
    and charging: "connector_at s i c = Some Charging" and evs: "evs = [on_connector i c (ChargingStopped Remote)]"
    by (auto simp: handle_request_stop_transaction_def split: if_splits option.splits)
  obtain s' effects where run: "cp_apply rfc (on_connector i c (ChargingStopped Remote)) s = Some (s', effects)"
    using reachable_total [OF assms(1)] by blast
  from run obtain s1 effects1 b where
    event: "apply_event rfc (on_connector i c (ChargingStopped Remote)) s = Some (s1, effects1, b)"
    by (rule cp_applyE)
  then have plain: "apply_connector_event i c (ChargingStopped Remote) s = (s1, effects1, b)"
    by (simp add: evse_event_applied_def)
  have "connector_at s' j d = ((connector_at s)(i := (connector_at s i)(c := Some Stopping))) j d" for j d
    using plain_event(1) [OF plain, of j d] cp_apply_connectors(1) [OF run event, of j d] charging
    by (simp add: energy_states_def)
  then have "connector_at s' = (connector_at s)(i := (connector_at s i)(c := Some Stopping))" by blast
  moreover have "contactor_commands j d effects = (if (j, d) = (i, c) then [False] else [])" for j d
    using plain_event(2) [OF plain, of j d] cp_apply_connectors(2) [OF run event, of j d] charging
    by (simp add: energy_states_def)
  moreover have "cp_run rfc evs s = Some (s', effects)" using run evs by simp
  ultimately show ?thesis using find_transaction_SomeD [OF found] charging by blast
qed

section \<open>Witnesses\<close>

lemma registered:
  assumes "reachable rfc counts limits s"
  obtains s' where "reachable rfc counts limits s'" and "evses s' = evses s" and "may_send_requests s'"
proof -
  obtain s' effects where step: "cp_apply rfc (RegistrationStatusReceived RegAccepted) s = Some (s', effects)"
    using reachable_total [OF assms] by blast
  then have "evses s' = evses s" "registration s' = Some RegAccepted"
    by (auto elim!: cp_apply_fields simp: registration_received_def set_lifecycle_def Let_def)
  then show thesis using that [of s'] reachable.step [OF assms step] by (simp add: may_send_requests_def)
qed


theorem remote_stop_opens_the_contactor_witness:
  "\<exists>s t evs s' effects. reachable (\<lambda>_. []) [1] default_state_limits s
    \<and> handle_request_stop_transaction t s = (StopAccepted, evs)
    \<and> cp_run (\<lambda>_. []) evs s = Some (s', effects) \<and> contactor_commands 0 0 effects = [False]"
proof -
  let ?t = "\<lparr>token_value = ''TAG1'', token_kind = ISO14443\<rparr>"
  let ?fresh = "cp_with_limits [1] default_state_limits"
  have fresh: "reachable (\<lambda>_. []) [1] default_state_limits ?fresh" by (rule reachable.start)
  obtain s1 effects1 where run: "cp_run (\<lambda>_. []) (session_start 0 0 ?t) ?fresh = Some (s1, effects1)"
    using reachable_run_total [OF fresh] by blast
  have free: "connector_at ?fresh 0 0 \<in> {Some Available, Some Reserved}" by (simp add: fresh_connector_at)
  obtain x where x: "transaction_at s1 0 0 = Some x"
    using session_start_billed [OF run _ free] reachable_wf [OF fresh] by auto
  obtain s where s: "reachable (\<lambda>_. []) [1] default_state_limits s" "evses s = evses s1" "may_send_requests s"
    by (rule registered [OF reachable_run [OF fresh run]])
  have here: "connector_at s 0 0 = Some Charging" "transaction_at s 0 0 = Some x"
    using session_start_charges [OF run free] x s(2) by (simp_all add: connector_at_def transaction_at_def)
  have topology: "(i, c) = (0, 0)" if "connector_at s i c \<noteq> None" for i c
    using that reachable_wf [OF s(1)]
    by (auto simp: connector_counts_def connector_at_def vec_get_def map_eq_Cons_conv split: if_splits)
  have "find_transaction s (tx_id x) \<noteq> None"
    by (rule notI) (use find_slot_at_None [of "\<lambda>t. tx_id t = tx_id x" transactions "evses s" 0 0 x] here(2) in
        \<open>auto simp: find_transaction_def transaction_at_def vec_get_def split: if_splits\<close>)
  then obtain i c where found: "find_transaction s (tx_id x) = Some (i, c)" by (metis not_None_eq surj_pair)
  from find_transaction_SomeD [OF found] have "connector_at s i c \<noteq> None"
    using reachable_wf [OF s(1)]
    by (auto simp: transaction_at_def connector_at_def vec_slot_def vec_get_def cp_wf_def evse_wf_def Let_def
        list_all_length split: if_splits option.splits)
  with topology have "(i, c) = (0, 0)" by blast
  then have handled: "handle_request_stop_transaction (tx_id x) s = (StopAccepted, [on_connector 0 0 (ChargingStopped Remote)])"
    using found here(1) s(3) by (simp add: handle_request_stop_transaction_def)
  from remote_stop_opens_the_contactor [OF s(1) handled] obtain j d s' effects where
    "connector_at s j d = Some Charging" "cp_run (\<lambda>_. []) [on_connector 0 0 (ChargingStopped Remote)] s = Some (s', effects)"
    "contactor_commands j d effects = [False]" by auto
  moreover from this topology [of j d] have "j = 0" "d = 0" by simp_all
  ultimately show ?thesis using handled s(1) by blast
qed

end
