(* ===== verification/Charging_Requests.thy ===== *)
theory Charging_Requests
  imports Requests
begin

text \<open>
  \<open>cost.rs\<close>, \<open>tariff.rs\<close>, \<open>smart_charging/handlers.rs\<close> and
  \<open>smart_charging/projection.rs\<close>: the requests that price or limit a transaction, and the loop
  that turns the installed profiles into a current limit per connector.
\<close>

section \<open>Cost updates\<close>

datatype cost_update_outcome = CostApplied | UnknownTransaction

definition handle_cost_updated ::
  "transaction_id \<Rightarrow> f64 \<Rightarrow> charge_point_state \<Rightarrow> cost_update_outcome decision" where
  "handle_cost_updated t cost s =
     (case find_transaction s t of
        None \<Rightarrow> (UnknownTransaction, [])
      | Some (i, c) \<Rightarrow> (CostApplied, [on_connector i c (CostUpdated cost)]))"

section \<open>Tariffs\<close>

definition tariff_variable :: "charge_point_state \<Rightarrow> string \<Rightarrow> string option" where
  "tariff_variable s v =
     dm_actual (device_model_of s) (Component ''TariffCostCtrlr'' None None) (Variable v (Some ''Tariff''))"

definition max_tariff_price_elements :: usize where
  "max_tariff_price_elements = 16"

text \<open>\<open>str::parse\<close> at \<open>usize\<close> (64 bits) and at \<open>bool\<close>.\<close>

definition parse_usize :: "string \<Rightarrow> usize option" where
  "parse_usize v = map_option nat (parse_unsigned (2 ^ 64 - 1) v)"

definition parse_bool :: "string \<Rightarrow> bool option" where
  "parse_bool v = (if v = ''true'' then Some True else if v = ''false'' then Some False else None)"

definition max_price_elements :: "charge_point_state \<Rightarrow> usize" where
  "max_price_elements s =
     unwrap_or (Option.bind (tariff_variable s ''MaxElements'') parse_usize) max_tariff_price_elements"

definition conditions_supported :: "charge_point_state \<Rightarrow> bool" where
  "conditions_supported s =
     unwrap_or (Option.bind (tariff_variable s ''ConditionsSupported'') parse_bool) True"

datatype set_default_tariff_outcome =
    DefaultTariffAccepted | DefaultTariffDuplicateId | DefaultTariffTooManyElements
  | DefaultTariffConditionNotSupported | DefaultTariffUnknownEvse | DefaultTariffRejected

definition handle_set_default_tariff ::
  "tariff_scope \<Rightarrow> tariff \<Rightarrow> charge_point_state \<Rightarrow> set_default_tariff_outcome decision" where
  "handle_set_default_tariff scope t s =
     (if \<not> capability_present (capabilities_of s) ''SetDefaultTariff'' then (DefaultTariffRejected, [])
      else if (case scope of TariffEvse i \<Rightarrow> length (evses s) \<le> i | TariffChargePoint \<Rightarrow> False)
      then (DefaultTariffUnknownEvse, [])
      else if max_price_elements s < max_prices_per_dimension t then (DefaultTariffTooManyElements, [])
      else if has_conditions t \<and> \<not> conditions_supported s then (DefaultTariffConditionNotSupported, [])
      else case tariff_set_default scope t (tariffs_of s) of
        Inr _ \<Rightarrow> (DefaultTariffAccepted, [DefaultTariffSet scope t])
      | Inl DuplicateTariffId \<Rightarrow> (DefaultTariffDuplicateId, [])
      | Inl TooManyTariffs \<Rightarrow> (DefaultTariffTooManyElements, []))"

datatype change_tariff_outcome =
    ChangeTariffAccepted | ChangeTariffTxNotFound | ChangeTariffTooManyElements
  | ChangeTariffConditionNotSupported | ChangeTariffNoCurrencyChange | ChangeTariffRejected

definition active_currency :: "charge_point_state \<Rightarrow> usize \<Rightarrow> usize \<Rightarrow> string option" where
  "active_currency s i c =
     (case Option.bind (vec_get (evses s) i) (\<lambda>e. Option.bind (vec_get (transaction_tariffs e) c) id) of
        Some t \<Rightarrow> Some (tariff_currency t)
      | None \<Rightarrow>
          (case rev (tariff_selected_by_evse (Some i) (tariffs_of s)) of
             [] \<Rightarrow> None
           | installed # _ \<Rightarrow> Some (tariff_currency (tariff_of installed))))"

definition handle_change_transaction_tariff ::
  "transaction_id \<Rightarrow> tariff \<Rightarrow> charge_point_state \<Rightarrow> change_tariff_outcome decision" where
  "handle_change_transaction_tariff tx t s =
     (if \<not> capability_present (capabilities_of s) ''ChangeTransactionTariff'' then (ChangeTariffRejected, [])
      else case find_transaction s tx of
        None \<Rightarrow> (ChangeTariffTxNotFound, [])
      | Some (i, c) \<Rightarrow>
          if max_price_elements s < max_prices_per_dimension t then (ChangeTariffTooManyElements, [])
          else if has_conditions t \<and> \<not> conditions_supported s then (ChangeTariffConditionNotSupported, [])
          else if is_some_and (active_currency s i c) (\<lambda>cur. cur \<noteq> tariff_currency t)
          then (ChangeTariffNoCurrencyChange, [])
          else (ChangeTariffAccepted, [on_connector i c (TariffAssigned t)]))"

datatype tariff_clear_status = TariffClearAccepted | TariffClearNoTariff

record tariff_clear_outcome =
  cleared_tariff_id :: "tariff_id option"
  tariff_clear_status_of :: tariff_clear_status

definition clear_one_tariff ::
  "tariff_scope option \<Rightarrow> charge_point_state \<Rightarrow> tariff_id \<Rightarrow> tariff_clear_outcome \<times> charge_point_event list" where
  "clear_one_tariff scope s i =
     (let criteria = \<lparr>clear_scope = scope, clear_id = Some i\<rparr>;
          found = (tariff_matching criteria (tariffs_of s) \<noteq> [])
      in (\<lparr>cleared_tariff_id = Some i,
           tariff_clear_status_of = (if found then TariffClearAccepted else TariffClearNoTariff)\<rparr>,
          if found then [TariffsCleared criteria] else []))"

definition handle_clear_tariffs ::
  "tariff_scope option \<Rightarrow> tariff_id list option \<Rightarrow> charge_point_state \<Rightarrow> tariff_clear_outcome list decision" where
  "handle_clear_tariffs scope ids s =
     (if is_some_and ids (\<lambda>xs. xs \<noteq> [])
      then let rs = map (clear_one_tariff scope s) (the ids) in (map fst rs, concat (map snd rs))
      else let criteria = \<lparr>clear_scope = scope, clear_id = None\<rparr>;
               matched = map (\<lambda>x. tariff_id_of (tariff_of x)) (tariff_matching criteria (tariffs_of s))
           in if matched = []
              then ([\<lparr>cleared_tariff_id = None, tariff_clear_status_of = TariffClearNoTariff\<rparr>], [])
              else (map (\<lambda>i. \<lparr>cleared_tariff_id = Some i, tariff_clear_status_of = TariffClearAccepted\<rparr>) matched,
                    [TariffsCleared criteria]))"

datatype tariff_kind = DefaultTariff | DriverTariff

record tariff_report =
  report_tariff_id :: tariff_id
  report_kind :: tariff_kind
  report_evse_ids :: "usize list"
  report_id_tokens :: "id_token list"
  report_valid_from :: "date_time option"

datatype get_tariffs_outcome = TariffsReported "tariff_report list" | NoTariffInstalled | GetTariffsRejected

definition default_tariff_reports :: "charge_point_state \<Rightarrow> usize option \<Rightarrow> tariff_report list" where
  "default_tariff_reports s evse =
     map (\<lambda>x. \<lparr>report_tariff_id = tariff_id_of (tariff_of x), report_kind = DefaultTariff,
               report_evse_ids =
                 (case tariff_scope_of x of
                    TariffChargePoint \<Rightarrow> (case evse of Some i \<Rightarrow> [i] | None \<Rightarrow> [0 ..< length (evses s)])
                  | TariffEvse i \<Rightarrow> [i]),
               report_id_tokens = [], report_valid_from = tariff_valid_from (tariff_of x)\<rparr>)
       (tariff_selected_by_evse evse (tariffs_of s))"

definition driver_tariff_reports :: "charge_point_state \<Rightarrow> usize option \<Rightarrow> tariff_report list" where
  "driver_tariff_reports s evse =
     concat (map (\<lambda>(i, e).
       if is_some_and evse (\<lambda>target. target \<noteq> i) then []
       else List.map_filter (\<lambda>(c, slot).
         map_option (\<lambda>t. \<lparr>report_tariff_id = tariff_id_of t, report_kind = DriverTariff, report_evse_ids = [i],
            report_id_tokens =
              (case Option.bind (Option.bind (vec_get (transactions e) c) id) tx_id_token of
                 None \<Rightarrow> [] | Some tok \<Rightarrow> [tok]),
            report_valid_from = tariff_valid_from t\<rparr>) slot)
         (enumerate 0 (transaction_tariffs e))) (enumerate 0 (evses s)))"

definition handle_get_tariffs :: "usize option \<Rightarrow> charge_point_state \<Rightarrow> get_tariffs_outcome" where
  "handle_get_tariffs evse s =
     (if \<not> capability_present (capabilities_of s) ''GetTariffs'' then GetTariffsRejected
      else let reports = default_tariff_reports s evse @ driver_tariff_reports s evse
           in if reports = [] then NoTariffInstalled else TariffsReported reports)"

text \<open>The outer \<open>None\<close> of an EVSE or a connector that does not exist is the \<open>?\<close> of the code.\<close>

definition effective_tariff ::
  "charge_point_state \<Rightarrow> usize \<Rightarrow> usize \<Rightarrow> date_time \<Rightarrow> tariff option" where
  "effective_tariff s i c now =
     (case Option.bind (vec_get (evses s) i) (\<lambda>e. vec_get (transaction_tariffs e) c) of
        None \<Rightarrow> None
      | Some (Some driver) \<Rightarrow> Some driver
      | Some None \<Rightarrow> tariff_effective_at i now (tariffs_of s))"

definition pricing_context_of :: "transaction \<Rightarrow> date_time \<Rightarrow> pricing_context" where
  "pricing_context_of t now =
     (let sample = tx_last_meter_sample t
      in (pricing_context_new now)
           \<lparr>pc_energy_mwh := (case sample of None \<Rightarrow> 0 | Some x \<Rightarrow> saturate_i64 (energy_wh x * 1000)),
            pc_power_mw := map_option (\<lambda>w. saturate_i64 (w * 1000)) (Option.bind sample power_w),
            pc_current_ma := Option.bind sample current_ma,
            pc_charging := (tx_charging_state t = TxCharging)\<rparr>)"

definition advance_running_cost ::
  "usize \<Rightarrow> usize \<Rightarrow> date_time \<Rightarrow> transaction \<Rightarrow> charge_point_state
   \<Rightarrow> (transaction_cost \<times> tariff) option decision" where
  "advance_running_cost i c now tx s =
     (case effective_tariff s i c now of
        None \<Rightarrow> (None, [])
      | Some t \<Rightarrow>
          (case Option.bind (vec_get (evses s) i) (\<lambda>e. vec_get (running_cost e) c) of
             None \<Rightarrow> (None, [])
           | Some existing \<Rightarrow>
               let ctx = pricing_context_of tx now;
                   cost = (case existing of None \<Rightarrow> tc_start t ctx None | Some x \<Rightarrow> tc_advance t ctx x)
               in (Some (cost, t),
                   [on_connector i c
                      (RunningCostAdvanced cost
                         (money_to_decimal (cost_incl_tax (totals_total (tc_totals t cost)))))])))"

section \<open>Charging profiles\<close>

record profile_refusal =
  refusal_explanation :: string
  refusal_reason_code :: "string option"

datatype set_profile_outcome = ProfileAccepted | ProfileRejected profile_refusal

definition rejection_reason :: "profile_rejection \<Rightarrow> profile_refusal" where
  "rejection_reason r =
     (case r of
        InvalidDynamicSchedule _ \<Rightarrow>
          \<lparr>refusal_explanation = ''a Dynamic profile must carry exactly one single-period schedule'',
           refusal_reason_code = Some ''InvalidSchedule''\<rparr>
      | DynUpdateIntervalOnNonDynamicProfile \<Rightarrow>
          \<lparr>refusal_explanation = ''dynUpdateInterval only applies to a Dynamic profile'',
           refusal_reason_code = Some ''InvalidProfile''\<rparr>
      | TooManyProfiles \<Rightarrow>
          \<lparr>refusal_explanation = ''the charge point cannot hold another profile'', refusal_reason_code = None\<rparr>
      | NoSchedule \<Rightarrow>
          \<lparr>refusal_explanation = ''a profile with no schedule could never produce a limit'',
           refusal_reason_code = None\<rparr>
      | ScopeNotAllowedForPurpose _ \<Rightarrow>
          \<lparr>refusal_explanation = ''this profile's purpose cannot be installed at that scope'',
           refusal_reason_code = None\<rparr>)"

text \<open>What the handler fills in before it tries the profile: \<open>get_or_insert\<close>.\<close>

definition stamp_profile :: "date_time \<Rightarrow> charging_profile \<Rightarrow> charging_profile" where
  "stamp_profile installed_at p =
     (let stamp = (\<lambda>x. Some (unwrap_or x installed_at));
          p1 = p\<lparr>schedules := map (\<lambda>sc. sc\<lparr>start_schedule := stamp (start_schedule sc)\<rparr>) (schedules p)\<rparr>
      in if profile_kind p = DynamicKind then p1\<lparr>dyn_update_time := stamp (dyn_update_time p1)\<rparr> else p1)"

definition handle_set_charging_profile ::
  "charging_profile_scope \<Rightarrow> charging_profile \<Rightarrow> date_time \<Rightarrow> charge_point_state \<Rightarrow> set_profile_outcome decision" where
  "handle_set_charging_profile scope p installed_at s =
     (if \<not> capability_present (capabilities_of s) ''SetChargingProfile''
      then (ProfileRejected \<lparr>refusal_explanation = ''smart charging is not available'', refusal_reason_code = None\<rparr>, [])
      else if (case scope of ScopeEvse i \<Rightarrow> length (evses s) \<le> i | ScopeChargePoint \<Rightarrow> False)
      then (ProfileRejected \<lparr>refusal_explanation = ''no such EVSE'', refusal_reason_code = None\<rparr>, [])
      else let p' = stamp_profile installed_at p
           in case profile_install scope p' (charging_profiles_of s) of
                Inl r \<Rightarrow> (ProfileRejected (rejection_reason r), [])
              | Inr _ \<Rightarrow> (ProfileAccepted, [ChargingProfileSet scope p']))"

datatype clear_profile_outcome = ClearProfileAccepted | ClearProfileUnknown

definition handle_clear_charging_profile ::
  "profile_criteria \<Rightarrow> charge_point_state \<Rightarrow> clear_profile_outcome decision" where
  "handle_clear_charging_profile criteria s =
     (if \<not> capability_present (capabilities_of s) ''ClearChargingProfile'' then (ClearProfileUnknown, [])
      else if profiles_matching criteria (charging_profiles_of s) = [] then (ClearProfileUnknown, [])
      else (ClearProfileAccepted, [ChargingProfilesCleared criteria]))"

definition handle_get_charging_profiles ::
  "profile_query \<Rightarrow> charge_point_state \<Rightarrow> installed_profile list" where
  "handle_get_charging_profiles q s =
     (if \<not> capability_present (capabilities_of s) ''GetChargingProfiles'' then []
      else profiles_selected_by q (charging_profiles_of s)
           @ filter (profile_query_matches q) (reportable_external_limits s))"

datatype priority_charging_outcome = PriorityAccepted | PriorityNoProfile | PriorityRejected

text \<open>The first EVSE that runs the transaction.\<close>

definition evse_running :: "charge_point_state \<Rightarrow> transaction_id \<Rightarrow> usize option" where
  "evse_running s t =
     position (\<lambda>e. list_ex (\<lambda>x. tx_id x = t) (flatten_options (transactions e))) (evses s)"

definition handle_use_priority_charging ::
  "transaction_id \<Rightarrow> bool \<Rightarrow> charge_point_state \<Rightarrow> priority_charging_outcome decision" where
  "handle_use_priority_charging t activate s =
     (if \<not> capability_present (capabilities_of s) ''UsePriorityCharging'' then (PriorityRejected, [])
      else case evse_running s t of
        None \<Rightarrow> (PriorityRejected, [])
      | Some i \<Rightarrow>
          if activate
             \<and> \<not> list_ex (\<lambda>x. profile_purpose (installed_of x) = PriorityCharging)
                  (profiles_applying_to i (charging_profiles_of s))
          then (PriorityNoProfile, [])
          else (PriorityAccepted, [PriorityChargingSet t activate False]))"

datatype update_dynamic_outcome = DynamicUpdateAccepted | DynamicUpdateRejected

definition handle_update_dynamic_schedule ::
  "charging_profile_id \<Rightarrow> f64 option \<Rightarrow> date_time \<Rightarrow> charge_point_state \<Rightarrow> update_dynamic_outcome decision" where
  "handle_update_dynamic_schedule i limit updated_at s =
     (if \<not> capability_present (capabilities_of s) ''UpdateDynamicSchedule'' then (DynamicUpdateRejected, [])
      else if \<not> list_ex (\<lambda>x. profile_id (installed_of x) = i \<and> profile_kind (installed_of x) = DynamicKind)
                 (profiles (charging_profiles_of s))
      then (DynamicUpdateRejected, [])
      else (DynamicUpdateAccepted, [DynamicScheduleUpdated i limit updated_at]))"

section \<open>Profile reports\<close>

definition charging_profile_report_chunk_size :: usize where
  "charging_profile_report_chunk_size = 4"

record profile_report_chunk =
  chunk_scope :: charging_profile_scope
  chunk_source :: charging_limit_source
  chunk_tbc :: bool
  chunk_profiles :: "installed_profile list"

type_synonym profile_group = "charging_profile_scope \<times> charging_limit_source \<times> installed_profile list"

fun add_to_group :: "installed_profile \<Rightarrow> profile_group list \<Rightarrow> profile_group list" where
  "add_to_group p [] = [(installed_scope p, installed_source p, [p])]"
| "add_to_group p ((scope, source, members) # rest) =
     (if scope = installed_scope p \<and> source = installed_source p then (scope, source, members @ [p]) # rest
      else (scope, source, members) # add_to_group p rest)"

text \<open>\<open>slice::chunks\<close>.\<close>

function chunks :: "nat \<Rightarrow> 'a list \<Rightarrow> 'a list list" where
  "chunks n xs = (if xs = [] \<or> n = 0 then [] else take n xs # chunks n (drop n xs))"
  by pat_completeness auto
termination
  by (relation "measure (\<lambda>(n, xs). length xs)") auto

declare chunks.simps [simp del]

definition chunk_charging_profile_report :: "installed_profile list \<Rightarrow> profile_report_chunk list" where
  "chunk_charging_profile_report ps =
     (let chunked =
        concat (map (\<lambda>(scope, source, members).
          map (\<lambda>c. \<lparr>chunk_scope = scope, chunk_source = source, chunk_tbc = True, chunk_profiles = c\<rparr>)
            (chunks charging_profile_report_chunk_size members))
          (fold add_to_group ps []))
      in update_last (\<lambda>c. c\<lparr>chunk_tbc := False\<rparr>) chunked)"

section \<open>The projection onto the connectors\<close>

definition lookahead_secs :: u32 where
  "lookahead_secs = 24 * 60 * 60"

definition max_sleep_secs :: int where
  "max_sleep_secs = 15 * 60"

record charging_limit_projection =
  projection_supply :: "supply_characteristics option"
  transaction_starts :: "(usize \<times> usize \<times> transaction_id \<times> date_time) list"
  seen_external_limits :: "(usize \<times> installed_profile list) list"

definition projection_new :: charging_limit_projection where
  "projection_new = \<lparr>projection_supply = None, transaction_starts = [], seen_external_limits = []\<rparr>"

definition projection_with_supply :: "supply_characteristics \<Rightarrow> charging_limit_projection" where
  "projection_with_supply sc = projection_new\<lparr>projection_supply := Some sc\<rparr>"

definition note_transaction ::
  "usize \<Rightarrow> usize \<Rightarrow> transaction_id \<Rightarrow> date_time \<Rightarrow> charging_limit_projection
   \<Rightarrow> charging_limit_projection \<times> date_time" where
  "note_transaction i c t now p =
     (case List.find (\<lambda>(i', c', t', _). i' = i \<and> c' = c \<and> t' = t) (transaction_starts p) of
        Some (_, _, _, started) \<Rightarrow> (p, started)
      | None \<Rightarrow>
          (p\<lparr>transaction_starts :=
              filter (\<lambda>(i', c', _). \<not> (i' = i \<and> c' = c)) (transaction_starts p) @ [(i, c, t, now)]\<rparr>, now))"

definition forget_transaction :: "usize \<Rightarrow> usize \<Rightarrow> charging_limit_projection \<Rightarrow> charging_limit_projection" where
  "forget_transaction i c p =
     p\<lparr>transaction_starts := filter (\<lambda>(i', c', _). \<not> (i' = i \<and> c' = c)) (transaction_starts p)\<rparr>"

text \<open>\<open>PartialEq\<close> on a list of profiles: a number that is NaN is unequal to itself.\<close>

definition profile_has_nan :: "installed_profile \<Rightarrow> bool" where
  "profile_has_nan x =
     list_ex (\<lambda>sc. min_charging_rate sc = Some NaN \<or> list_ex (\<lambda>q. period_limit q = NaN) (periods sc))
       (schedules (installed_of x))"

definition same_profiles :: "installed_profile list \<Rightarrow> installed_profile list \<Rightarrow> bool" where
  "same_profiles xs ys = (xs = ys \<and> \<not> list_ex profile_has_nan xs)"

definition external_limits_changed ::
  "usize \<Rightarrow> installed_profile list \<Rightarrow> charging_limit_projection \<Rightarrow> charging_limit_projection \<times> bool" where
  "external_limits_changed i external p =
     (case List.find (\<lambda>(i', _). i' = i) (seen_external_limits p) of
        Some (_, old) \<Rightarrow>
          if same_profiles old external then (p, False)
          else (p\<lparr>seen_external_limits :=
                   update_first (\<lambda>(i', _). i' = i) (\<lambda>(i', _). (i', external)) (seen_external_limits p)\<rparr>, True)
      | None \<Rightarrow> (p\<lparr>seen_external_limits := seen_external_limits p @ [(i, external)]\<rparr>, False))"

definition connector_composition_context ::
  "charge_point_state \<Rightarrow> usize \<Rightarrow> usize \<Rightarrow> date_time \<Rightarrow> u32 \<Rightarrow> charging_limit_projection
   \<Rightarrow> charging_limit_projection \<times> composition_context" where
  "connector_composition_context s i c now duration p =
     (let tx = transaction_at s i c;
          (p', started) =
            (case tx of
               Some t \<Rightarrow> (case note_transaction i c (tx_id t) now p of (p', x) \<Rightarrow> (p', Some x))
             | None \<Rightarrow> (forget_transaction i c p, None))
      in (p', \<lparr>ctx_now = now, ctx_transaction_id = map_option tx_id tx, ctx_transaction_started_at = started,
               ctx_rate_unit = Amps, ctx_duration_secs = duration, ctx_supply = projection_supply p,
               ctx_priority_charging = is_some_and tx tx_priority_charging\<rparr>))"

datatype composite_outcome = CompositeAccepted "composite_schedule option" | CompositeRejected

definition handle_get_composite_schedule ::
  "usize \<Rightarrow> u32 \<Rightarrow> charging_rate_unit \<Rightarrow> date_time \<Rightarrow> charge_point_state \<Rightarrow> charging_limit_projection
   \<Rightarrow> charging_limit_projection \<times> composite_outcome" where
  "handle_get_composite_schedule i duration unit now s p =
     (if \<not> capability_present (capabilities_of s) ''GetCompositeSchedule'' then (p, CompositeRejected)
      else case vec_get (evses s) i of
        None \<Rightarrow> (p, CompositeRejected)
      | Some e \<Rightarrow>
          if connectors e = [] then (p, CompositeRejected)
          else (case connector_composition_context s i 0 now duration p of
                  (p', ctx) \<Rightarrow>
                    (p', CompositeAccepted
                       (compose (composing_profiles s i (external_charging_limits s i))
                          (ctx\<lparr>ctx_rate_unit := unit\<rparr>)))))"

text \<open>One connector of \<open>evaluate_all\<close>, then one EVSE; the loops collect the events and the earliest
  next change.\<close>

type_synonym evaluation = "charging_limit_projection \<times> date_time option \<times> charge_point_event list"

definition evaluate_connector ::
  "charge_point_state \<Rightarrow> date_time \<Rightarrow> usize \<Rightarrow> installed_profile list \<Rightarrow> bool \<Rightarrow> usize
   \<Rightarrow> evaluation \<Rightarrow> evaluation" where
  "evaluate_connector s now i external externally_caused c =
     (\<lambda>(p, next_change, evs).
       case connector_composition_context s i c now lookahead_secs p of
         (p', ctx) \<Rightarrow>
           let ps = composing_profiles s i external;
               change = Option.bind (compose ps ctx) (\<lambda>composed. composite_next_change_after composed now)
           in (p',
               case change of
                 None \<Rightarrow> next_change
               | Some x \<Rightarrow> Some (case next_change of None \<Rightarrow> x | Some current \<Rightarrow> min current x),
               evs @ [on_connector i c (CurrentLimitComputed (current_limit_ma ps ctx) externally_caused)]))"

definition evaluate_evse :: "charge_point_state \<Rightarrow> date_time \<Rightarrow> usize \<times> evse_state \<Rightarrow> evaluation \<Rightarrow> evaluation" where
  "evaluate_evse s now =
     (\<lambda>(i, e) (p, next_change, evs).
       let external = external_charging_limits s i
       in case external_limits_changed i external p of
            (p', caused) \<Rightarrow>
              fold (evaluate_connector s now i external caused) [0 ..< length (connectors e)] (p', next_change, evs))"

definition evaluate_all :: "charge_point_state \<Rightarrow> date_time \<Rightarrow> charging_limit_projection \<Rightarrow> evaluation" where
  "evaluate_all s now p = fold (evaluate_evse s now) (enumerate 0 (evses s)) (p, None, [])"

text \<open>How long \<open>run_charging_limit_schedule\<close> sleeps after an evaluation.\<close>

definition sleep_secs :: "date_time option \<Rightarrow> date_time \<Rightarrow> int" where
  "sleep_secs next_change now =
     (case next_change of
        None \<Rightarrow> max_sleep_secs
      | Some change \<Rightarrow> max 1 (min max_sleep_secs (num_seconds (change - now))))"

end
