(* ===== verification/Projection_Properties.thy ===== *)
theory Projection_Properties
  imports Charging_Requests
begin

text \<open>
  The projection of the charging profiles onto the connectors: the loops of \<open>evaluate_all\<close>, which
  thread one record through every connector, compute for each connector what it would get alone.
\<close>

definition start_lookup ::
  "charging_limit_projection \<Rightarrow> usize \<Rightarrow> usize \<Rightarrow> transaction_id \<Rightarrow> (usize \<times> usize \<times> transaction_id \<times> date_time) option" where
  "start_lookup p i c t = List.find (\<lambda>(i', c', t', _). i' = i \<and> c' = c \<and> t' = t) (transaction_starts p)"

definition limits_lookup :: "charging_limit_projection \<Rightarrow> usize \<Rightarrow> (usize \<times> installed_profile list) option" where
  "limits_lookup p i = List.find (\<lambda>(i', _). i' = i) (seen_external_limits p)"

text \<open>The context of a connector depends on its own entry only, and touches no other.\<close>

lemma context_cong:
  assumes "projection_supply p' = projection_supply p" and "\<And>t. start_lookup p' i c t = start_lookup p i c t"
  shows "snd (connector_composition_context s i c now d p') = snd (connector_composition_context s i c now d p)"
  using assms
  by (auto simp: connector_composition_context_def note_transaction_def start_lookup_def Let_def
      split: option.splits prod.splits)

lemma starts_other:
  assumes "(i', c') \<noteq> (i, c)"
  shows "List.find (\<lambda>(a, b, u, _). a = i' \<and> b = c' \<and> u = t) (filter (\<lambda>(a, b, _). \<not> (a = i \<and> b = c)) xs)
      = List.find (\<lambda>(a, b, u, _). a = i' \<and> b = c' \<and> u = t) xs"
    and "List.find (\<lambda>(a, b, u, _). a = i' \<and> b = c' \<and> u = t) (filter (\<lambda>(a, b, _). \<not> (a = i \<and> b = c)) xs @ [(i, c, x)])
      = List.find (\<lambda>(a, b, u, _). a = i' \<and> b = c' \<and> u = t) xs"
  using assms by (induction xs) auto

lemma limits_other:
  assumes "i' \<noteq> i"
  shows "List.find (\<lambda>(a, _). a = i') (update_first (\<lambda>(a, _). a = i) (\<lambda>(a, _). (a, x)) xs) = List.find (\<lambda>(a, _). a = i') xs"
    and "List.find (\<lambda>(a, _). a = i') (xs @ [(i, x)]) = List.find (\<lambda>(a, _). a = i') xs"
  using assms by (induction xs) auto

lemma note_frame:
  assumes "note_transaction i c u now p = (p', started)"
  shows "projection_supply p' = projection_supply p \<and> seen_external_limits p' = seen_external_limits p
    \<and> ((i', c') \<noteq> (i, c) \<longrightarrow> start_lookup p' i' c' t = start_lookup p i' c' t)"
proof (cases "List.find (\<lambda>(i', c', t', _). i' = i \<and> c' = c \<and> t' = u) (transaction_starts p)")
  case None
  with assms have "p' = p\<lparr>transaction_starts :=
      filter (\<lambda>(i', c', _). \<not> (i' = i \<and> c' = c)) (transaction_starts p) @ [(i, c, u, now)]\<rparr>"
    by (auto simp: note_transaction_def)
  then show ?thesis
    using starts_other(2) [of i' c' i c t "transaction_starts p" "(u, now)"] by (auto simp: start_lookup_def)
next
  case (Some x)
  obtain a b u' d where "x = (a, b, u', d)" by (metis prod_cases4)
  with Some assms have "p' = p" by (simp add: note_transaction_def)
  then show ?thesis by simp
qed

lemma context_frame:
  assumes "connector_composition_context s i c now d p = (p', ctx)"
  shows "projection_supply p' = projection_supply p" and "seen_external_limits p' = seen_external_limits p"
    and "(i', c') \<noteq> (i, c) \<Longrightarrow> start_lookup p' i' c' t = start_lookup p i' c' t"
proof -
  have "projection_supply p' = projection_supply p \<and> seen_external_limits p' = seen_external_limits p
    \<and> ((i', c') \<noteq> (i, c) \<longrightarrow> start_lookup p' i' c' t = start_lookup p i' c' t)"
  proof (cases "transaction_at s i c")
    case None
    with assms have "p' = forget_transaction i c p" by (simp add: connector_composition_context_def Let_def)
    then show ?thesis
      using starts_other(1) [of i' c' i c t "transaction_starts p"] by (auto simp: forget_transaction_def start_lookup_def)
  next
    case (Some x)
    obtain p1 started where noted: "note_transaction i c (tx_id x) now p = (p1, started)" by fastforce
    with noted Some assms have "p' = p1" by (simp add: connector_composition_context_def Let_def)
    with note_frame [OF noted] show ?thesis by simp
  qed
  then show "projection_supply p' = projection_supply p" and "seen_external_limits p' = seen_external_limits p"
    and "(i', c') \<noteq> (i, c) \<Longrightarrow> start_lookup p' i' c' t = start_lookup p i' c' t" by auto
qed

lemma limits_frame:
  assumes "external_limits_changed i external p = (p', caused)"
  shows "projection_supply p' = projection_supply p" and "transaction_starts p' = transaction_starts p"
    and "i' \<noteq> i \<Longrightarrow> limits_lookup p' i' = limits_lookup p i'"
proof -
  have "projection_supply p' = projection_supply p \<and> transaction_starts p' = transaction_starts p
    \<and> (i' \<noteq> i \<longrightarrow> limits_lookup p' i' = limits_lookup p i')"
  proof (cases "List.find (\<lambda>(i', _). i' = i) (seen_external_limits p)")
    case None
    with assms have "p' = p\<lparr>seen_external_limits := seen_external_limits p @ [(i, external)]\<rparr>"
      by (simp add: external_limits_changed_def)
    then show ?thesis
      using limits_other(2) [of i' i "seen_external_limits p" external] by (auto simp: limits_lookup_def)
  next
    case (Some x)
    obtain a old where "x = (a, old)" by fastforce
    with Some assms have "p' = p \<or> p' = p\<lparr>seen_external_limits :=
        update_first (\<lambda>(i', _). i' = i) (\<lambda>(i', _). (i', external)) (seen_external_limits p)\<rparr>"
      by (auto simp: external_limits_changed_def split: if_splits)
    then show ?thesis
      using limits_other(1) [of i' i external "seen_external_limits p"] by (auto simp: limits_lookup_def)
  qed
  then show "projection_supply p' = projection_supply p" and "transaction_starts p' = transaction_starts p"
    and "i' \<noteq> i \<Longrightarrow> limits_lookup p' i' = limits_lookup p i'" by auto
qed

lemma changed_cong:
  "limits_lookup p' i = limits_lookup p i \<Longrightarrow>
   snd (external_limits_changed i external p') = snd (external_limits_changed i external p)"
  by (auto simp: external_limits_changed_def limits_lookup_def split: option.splits)

section \<open>The reference\<close>

text \<open>What one connector gets when it is evaluated alone, from the projection as it stands.\<close>

definition connector_context :: "charge_point_state \<Rightarrow> date_time \<Rightarrow> charging_limit_projection \<Rightarrow> usize \<times> usize \<Rightarrow> composition_context" where
  "connector_context s now p = (\<lambda>(i, c). snd (connector_composition_context s i c now lookahead_secs p))"

definition limit_event :: "charge_point_state \<Rightarrow> date_time \<Rightarrow> charging_limit_projection \<Rightarrow> usize \<times> usize \<Rightarrow> charge_point_event" where
  "limit_event s now p = (\<lambda>(i, c).
     let external = external_charging_limits s i
     in on_connector i c (CurrentLimitComputed
          (current_limit_ma (composing_profiles s i external) (connector_context s now p (i, c)))
          (snd (external_limits_changed i external p))))"

definition limit_change :: "charge_point_state \<Rightarrow> date_time \<Rightarrow> charging_limit_projection \<Rightarrow> usize \<times> usize \<Rightarrow> date_time option" where
  "limit_change s now p = (\<lambda>(i, c).
     Option.bind (compose (composing_profiles s i (external_charging_limits s i)) (connector_context s now p (i, c)))
       (\<lambda>composed. composite_next_change_after composed now))"

definition earliest :: "date_time list \<Rightarrow> date_time option" where
  "earliest xs = (if xs = [] then None else Some (Min (set xs)))"

definition connector_addresses :: "charge_point_state \<Rightarrow> (usize \<times> usize) list" where
  "connector_addresses s =
     concat (map (\<lambda>(i, e). map (Pair i) [0 ..< length (connectors e)]) (enumerate 0 (evses s)))"

definition sooner :: "date_time option \<Rightarrow> date_time option \<Rightarrow> date_time option" where
  "sooner a b = (case b of None \<Rightarrow> a | Some x \<Rightarrow> Some (case a of None \<Rightarrow> x | Some y \<Rightarrow> min y x))"

lemma sooner_earliest: "sooner (earliest xs) b = earliest (xs @ (case b of None \<Rightarrow> [] | Some x \<Rightarrow> [x]))"
  by (auto simp: sooner_def earliest_def min.commute split: option.splits)

lemma fold_sooner: "fold (\<lambda>a nc. sooner nc (f a)) as None = earliest (List.map_filter f as)"
proof (induction as rule: rev_induct)
  case (snoc a as)
  then show ?case
    by (cases "f a") (simp_all add: sooner_earliest List.map_filter_def)
qed (simp add: earliest_def List.map_filter_def)

section \<open>The loops\<close>

text \<open>Two projections that agree outside a set of EVSEs.\<close>

definition agree_off :: "usize set \<Rightarrow> charging_limit_projection \<Rightarrow> charging_limit_projection \<Rightarrow> bool" where
  "agree_off I p p' =
     (projection_supply p' = projection_supply p
      \<and> (\<forall>i c t. i \<notin> I \<longrightarrow> start_lookup p' i c t = start_lookup p i c t)
      \<and> (\<forall>i. i \<notin> I \<longrightarrow> limits_lookup p' i = limits_lookup p i))"

lemma evaluate_connector_eq:
  assumes "projection_supply p = projection_supply p0" and "\<And>t. start_lookup p i c t = start_lookup p0 i c t"
    and "caused = snd (external_limits_changed i (external_charging_limits s i) p0)"
  shows "evaluate_connector s now i (external_charging_limits s i) caused c (p, nc, evs)
    = (fst (connector_composition_context s i c now lookahead_secs p),
       sooner nc (limit_change s now p0 (i, c)), evs @ [limit_event s now p0 (i, c)])"
  using context_cong [OF assms(1,2), of s now lookahead_secs] assms(3)
  by (auto simp: evaluate_connector_def sooner_def limit_change_def limit_event_def connector_context_def Let_def
      split: prod.splits option.splits)

lemma evaluate_connectors_eq:
  assumes "distinct cs" and "projection_supply p = projection_supply p0"
    and "\<And>c t. c \<in> set cs \<Longrightarrow> start_lookup p i c t = start_lookup p0 i c t"
    and "caused = snd (external_limits_changed i (external_charging_limits s i) p0)"
  shows "\<exists>p'. fold (evaluate_connector s now i (external_charging_limits s i) caused) cs (p, nc, evs)
      = (p', fold (\<lambda>a nc. sooner nc (limit_change s now p0 a)) (map (Pair i) cs) nc,
         evs @ map (limit_event s now p0) (map (Pair i) cs))
    \<and> projection_supply p' = projection_supply p \<and> seen_external_limits p' = seen_external_limits p
    \<and> (\<forall>j d t. j \<noteq> i \<longrightarrow> start_lookup p' j d t = start_lookup p j d t)"
  using assms(1-3)
proof (induction cs arbitrary: p nc evs)
  case (Cons c cs)
  obtain p1 ctx where ctx: "connector_composition_context s i c now lookahead_secs p = (p1, ctx)" by fastforce
  note frame = context_frame [OF ctx]
  have "start_lookup p1 i d t = start_lookup p0 i d t" if "d \<in> set cs" for d t
    using frame(3) [of i d t] that Cons.prems(1,3) by auto
  then show ?case
    using Cons.IH [of p1 "sooner nc (limit_change s now p0 (i, c))" "evs @ [limit_event s now p0 (i, c)]"]
      Cons.prems frame evaluate_connector_eq [OF Cons.prems(2) Cons.prems(3) assms(4), of c now nc evs]
    by (auto simp: ctx)
qed simp

lemma evaluate_evse_eq:
  assumes "agree_off I p0 p" and "i \<notin> I"
  shows "\<exists>p'. evaluate_evse s now (i, e) (p, nc, evs)
      = (p', fold (\<lambda>a nc. sooner nc (limit_change s now p0 a)) (map (Pair i) [0 ..< length (connectors e)]) nc,
         evs @ map (limit_event s now p0) (map (Pair i) [0 ..< length (connectors e)]))
    \<and> agree_off (insert i I) p0 p'"
proof -
  let ?external = "external_charging_limits s i"
  obtain p1 caused where changed: "external_limits_changed i ?external p = (p1, caused)" by fastforce
  note frame = limits_frame [OF changed]
  have "limits_lookup p i = limits_lookup p0 i" using assms by (simp add: agree_off_def)
  from changed_cong [OF this, of ?external] changed
  have caused: "caused = snd (external_limits_changed i ?external p0)" by simp
  have same_supply: "projection_supply p1 = projection_supply p0" using frame(1) assms(1) by (simp add: agree_off_def)
  have starts: "start_lookup p1 j d t = start_lookup p j d t" for j d t
    using frame(2) by (simp add: start_lookup_def)
  have "start_lookup p1 i d t = start_lookup p0 i d t" for d t
    using starts assms by (simp add: agree_off_def)
  from evaluate_connectors_eq [where cs = "[0 ..< length (connectors e)]" and now = now and nc = nc and evs = evs,
      OF distinct_upt same_supply this caused]
  obtain p' where run: "fold (evaluate_connector s now i ?external caused) [0 ..< length (connectors e)] (p1, nc, evs)
      = (p', fold (\<lambda>a nc. sooner nc (limit_change s now p0 a)) (map (Pair i) [0 ..< length (connectors e)]) nc,
         evs @ map (limit_event s now p0) (map (Pair i) [0 ..< length (connectors e)]))"
    and p': "projection_supply p' = projection_supply p1" "seen_external_limits p' = seen_external_limits p1"
      "\<forall>j d t. j \<noteq> i \<longrightarrow> start_lookup p' j d t = start_lookup p1 j d t" by blast
  have "limits_lookup p' j = limits_lookup p j" if "j \<noteq> i" for j
    using p'(2) frame(3) [OF that] by (simp add: limits_lookup_def)
  with p' same_supply starts assms(1) have "agree_off (insert i I) p0 p'" by (auto simp: agree_off_def)
  with run changed show ?thesis by (auto simp: evaluate_evse_def Let_def)
qed

lemma evaluate_evses_eq:
  assumes "agree_off I p0 p" and "distinct (map fst xs)" and "set (map fst xs) \<inter> I = {}"
  shows "\<exists>p'. fold (evaluate_evse s now) xs (p, nc, evs)
      = (let as = concat (map (\<lambda>(i, e). map (Pair i) [0 ..< length (connectors e)]) xs)
         in (p', fold (\<lambda>a nc. sooner nc (limit_change s now p0 a)) as nc, evs @ map (limit_event s now p0) as))"
  using assms
proof (induction xs arbitrary: I p nc evs)
  case (Cons x xs)
  obtain i e where x: "x = (i, e)" by fastforce
  have "i \<notin> I" using Cons.prems(3) by (simp add: x)
  from evaluate_evse_eq [OF Cons.prems(1) this, of s now e nc evs]
  obtain p1 where one: "evaluate_evse s now x (p, nc, evs)
      = (p1, fold (\<lambda>a nc. sooner nc (limit_change s now p0 a)) (map (Pair i) [0 ..< length (connectors e)]) nc,
         evs @ map (limit_event s now p0) (map (Pair i) [0 ..< length (connectors e)]))"
    and agree: "agree_off (insert i I) p0 p1" unfolding x by blast
  have "distinct (map fst xs)" and "set (map fst xs) \<inter> insert i I = {}" using Cons.prems(2,3) by (auto simp: x)
  from Cons.IH [OF agree this,
      of "fold (\<lambda>a nc. sooner nc (limit_change s now p0 a)) (map (Pair i) [0 ..< length (connectors e)]) nc"
        "evs @ map (limit_event s now p0) (map (Pair i) [0 ..< length (connectors e)])"]
  show ?case
    unfolding fold.simps comp_def one by (simp add: x Let_def)
qed simp

text \<open>C30: one evaluation of the charging limits sends every connector its own limit, once and in
  order: the limit that the profiles of its EVSE impose on the transaction it runs, computed from the
  state and the projection as they were before the loop, with the mark whether the external limits
  of its EVSE changed; the next evaluation is due at the earliest change of any connector, at least
  a second and at most fifteen minutes away.\<close>

theorem evaluation_is_per_connector:
  "\<exists>p'. evaluate_all s now p
     = (p', earliest (List.map_filter (limit_change s now p) (connector_addresses s)),
        map (limit_event s now p) (connector_addresses s))
   \<and> (\<forall>change later. 1 \<le> sleep_secs change later \<and> sleep_secs change later \<le> 900)"
proof -
  have "agree_off {} p p" by (simp add: agree_off_def)
  moreover have "distinct (map fst (enumerate 0 (evses s)))" by simp
  ultimately obtain p' where "evaluate_all s now p
      = (p', fold (\<lambda>a nc. sooner nc (limit_change s now p a)) (connector_addresses s) None,
         map (limit_event s now p) (connector_addresses s))"
    using evaluate_evses_eq [of "{}" p p "enumerate 0 (evses s)" s now None "[]"]
    by (auto simp: evaluate_all_def connector_addresses_def Let_def)
  moreover have "\<forall>change later. 1 \<le> sleep_secs change later \<and> sleep_secs change later \<le> 900"
    by (auto simp: sleep_secs_def max_sleep_secs_def split: option.splits)
  ultimately show ?thesis by (auto simp: fold_sooner)
qed

end
