(* ===== verification/Authorization_Decisions.thy ===== *)
theory Authorization_Decisions
  imports Charging_Requests
begin

text \<open>
  \<open>authorization.rs\<close>: whether a presented identifier may charge.  The CSMS is a parameter: its
  answer to \<open>Authorize\<close>, or \<open>None\<close> where the call fails.  The call takes time, so a decision reads
  the state twice: \<open>before\<close> it and \<open>after\<close> it.
\<close>

text \<open>The \<open>boolean_variable\<close> of this module reads a variable as the state machine's does
  (\<open>Charge_Point_State\<close>).\<close>

definition cache_life_time_secs :: "charge_point_state \<Rightarrow> u32 option" where
  "cache_life_time_secs s = opt_filter (\<lambda>n. n \<noteq> 0) (u32_variable ''AuthCacheCtrlr'' ''LifeTime'' None s)"

definition listed :: "charge_point_state \<Rightarrow> id_token \<Rightarrow> local_list_entry option" where
  "listed s tok =
     List.find (\<lambda>e. token_value (entry_token e) = token_value tok)
       (list_entries (local_authorization_list_of s))"

definition offline_decision :: "charge_point_state \<Rightarrow> id_token \<Rightarrow> date_time option \<Rightarrow> authorization_status" where
  "offline_decision s tok now =
     (if \<not> boolean_variable ''AuthCtrlr'' ''LocalAuthorizeOffline'' True s then AuthRejected
      else case listed s tok of
        Some e \<Rightarrow> entry_status e
      | None \<Rightarrow>
          if \<not> boolean_variable ''AuthCacheCtrlr'' ''Enabled'' True s then AuthRejected
          else (case cache_lookup (authorization_cache_of s) tok now (cache_life_time_secs s) of
                  Some e \<Rightarrow> cached_status e
                | None \<Rightarrow>
                    if boolean_variable ''AuthCtrlr'' ''OfflineTxForUnknownIdEnabled'' False s
                    then AuthAccepted else AuthRejected))"

definition remote_authorization_disabled :: "charge_point_state \<Rightarrow> bool" where
  "remote_authorization_disabled s = boolean_variable ''AuthCtrlr'' ''DisableRemoteAuthorization'' False s"

definition local_only_decision :: "charge_point_state \<Rightarrow> id_token \<Rightarrow> date_time option \<Rightarrow> authorization_status" where
  "local_only_decision s tok now =
     (case listed s tok of
        Some e \<Rightarrow> entry_status e
      | None \<Rightarrow>
          if \<not> boolean_variable ''AuthCacheCtrlr'' ''Enabled'' True s then AuthRejected
          else (case cache_lookup (authorization_cache_of s) tok now (cache_life_time_secs s) of
                  Some e \<Rightarrow> cached_status e
                | None \<Rightarrow> AuthRejected))"

datatype contract_certificate_status =
    ContractAccepted | SignatureError | CertificateExpired | CertificateRevoked
  | NoCertificateAvailable | CertChainError | ContractCancelled

record contract_authorization =
  contract_token_status :: authorization_status
  contract_certificate_status_of :: "contract_certificate_status option"

definition contract_accepted :: "contract_authorization \<Rightarrow> bool" where
  "contract_accepted a =
     (contract_token_status a = AuthAccepted
      \<and> is_none_or (contract_certificate_status_of a) (\<lambda>st. st = ContractAccepted))"

record authorizer =
  ask_token :: "id_token \<Rightarrow> authorization_status option"
  ask_contract :: "id_token \<Rightarrow> contract_certificate \<Rightarrow> contract_authorization option"

text \<open>\<open>Authorizer::authorize_contract\<close> where an implementation does not override it.\<close>

definition default_authorize_contract :: "id_token \<Rightarrow> contract_certificate \<Rightarrow> contract_authorization option" where
  "default_authorize_contract tok contract =
     Some \<lparr>contract_token_status = AuthRejected, contract_certificate_status_of = None\<rparr>"

definition cache_decision :: "id_token \<Rightarrow> authorization_status \<Rightarrow> date_time option \<Rightarrow> charge_point_event" where
  "cache_decision tok status now = AuthorizationCached tok status now"

definition plain_decision ::
  "authorizer \<Rightarrow> id_token \<Rightarrow> date_time option \<Rightarrow> charge_point_state \<Rightarrow> charge_point_state
   \<Rightarrow> authorization_status decision" where
  "plain_decision csms tok now before after =
     (if remote_authorization_disabled before then (local_only_decision before tok now, [])
      else case ask_token csms tok of
        Some status \<Rightarrow> (status, [cache_decision tok status now])
      | None \<Rightarrow> (offline_decision after tok now, []))"

definition withhold_chain_unless_allowed ::
  "charge_point_state \<Rightarrow> contract_certificate \<Rightarrow> contract_certificate" where
  "withhold_chain_unless_allowed s contract =
     (if chain_pem contract \<noteq> None
         \<and> \<not> boolean_variable ''ISO15118Ctrlr'' ''CentralContractValidationAllowed'' False s
      then contract\<lparr>chain_pem := None\<rparr> else contract)"

definition contract_decision ::
  "authorizer \<Rightarrow> id_token \<Rightarrow> contract_certificate \<Rightarrow> date_time option \<Rightarrow> charge_point_state
   \<Rightarrow> authorization_status decision" where
  "contract_decision csms tok contract now before =
     (if remote_authorization_disabled before then (AuthRejected, [])
      else case ask_contract csms tok (withhold_chain_unless_allowed before contract) of
        Some a \<Rightarrow>
          (let status = (if contract_accepted a then AuthAccepted else AuthRejected)
           in (status, [cache_decision tok status now]))
      | None \<Rightarrow> (AuthRejected, []))"

text \<open>One turn of \<open>run_authorization_requests\<close>.\<close>

definition answer_authorization_request ::
  "authorizer \<Rightarrow> date_time \<Rightarrow> authorization_requested \<Rightarrow> charge_point_state \<Rightarrow> charge_point_state
   \<Rightarrow> charge_point_event list" where
  "answer_authorization_request csms clock requested before after =
     (let now = (if is_synchronized clock then Some clock else None);
          (status, cached) =
            (case auth_contract requested of
               Some contract \<Rightarrow> contract_decision csms (auth_token requested) contract now before
             | None \<Rightarrow> plain_decision csms (auth_token requested) now before after)
      in cached @ [on_connector (auth_evse requested) (auth_connector requested)
           (case status of
              AuthAccepted \<Rightarrow> ChargingAuthorized (auth_token requested)
            | AuthRejected \<Rightarrow> AuthorizationDenied)])"

datatype clear_cache_outcome = ClearCacheAccepted | ClearCacheRejected

definition handle_clear_cache :: "charge_point_state \<Rightarrow> clear_cache_outcome decision" where
  "handle_clear_cache s =
     (if \<not> boolean_variable ''AuthCacheCtrlr'' ''Enabled'' True s then (ClearCacheRejected, [])
      else (ClearCacheAccepted, [AuthorizationCacheCleared]))"

end
