(* ===== verification/Charging_Request_Properties.thy ===== *)
theory Charging_Request_Properties
  imports Reservation_Properties Authorization_Decisions Store_Bounds
begin

text \<open>
  Properties of the requests that authorize, price or limit charging: a refused request changes
  nothing, an accepted profile is the one reported afterwards, the reports are complete, the
  projection computes each connector's limit on its own, and a decision of the CSMS outlives the
  link to it.
\<close>

section \<open>Refusals\<close>

text \<open>The contract of a request handler: what it refuses it does not act on.\<close>

locale request_handler =
  fixes handle :: "charge_point_state \<Rightarrow> 'answer decision"
    and refused :: "'answer \<Rightarrow> bool"
  assumes refused_silent: "refused (fst (handle s)) \<Longrightarrow> snd (handle s) = []"
begin

lemma refused_keeps_state: "refused (fst (handle s)) \<Longrightarrow> cp_run rfc (snd (handle s)) s = Some (s, [])"
  by (simp add: refused_silent)

end

interpretation reset_request: request_handler "handle_reset target kind" "\<lambda>a. a = ResetRejected"
  by unfold_locales (auto simp: handle_reset_def split: reset_kind.splits if_splits)

interpretation reserve_request: request_handler "handle_reserve_now evse r" "\<lambda>a. a \<noteq> ReserveAccepted"
  by unfold_locales (auto simp: handle_reserve_now_def split: if_splits option.splits)

interpretation cancel_request: request_handler "handle_cancel_reservation n" "\<lambda>a. a = CancelRejected"
  by unfold_locales (auto simp: handle_cancel_reservation_def split: if_splits option.splits)

interpretation stop_request: request_handler "handle_request_stop_transaction t" "\<lambda>a. a = StopRejected"
  by unfold_locales (auto simp: handle_request_stop_transaction_def split: if_splits option.splits)

interpretation unlock_request: request_handler "handle_unlock_request i c" "\<lambda>a. a \<noteq> None"
  by unfold_locales (auto simp: handle_unlock_request_def split: if_splits option.splits)

interpretation availability_request:
  request_handler "handle_change_availability_request target on" "\<lambda>a. a = AvailabilityRejected"
  by unfold_locales (auto simp: handle_change_availability_request_def split: if_splits availability_target.splits)

interpretation cost_request: request_handler "handle_cost_updated t cost" "\<lambda>a. a = UnknownTransaction"
  by unfold_locales (auto simp: handle_cost_updated_def split: option.splits)

interpretation default_tariff_request:
  request_handler "handle_set_default_tariff scope tariff" "\<lambda>a. a \<noteq> DefaultTariffAccepted"
  by unfold_locales
    (auto simp: handle_set_default_tariff_def split: if_splits sum.splits tariff_set_rejection.splits)

interpretation change_tariff_request:
  request_handler "handle_change_transaction_tariff t tariff" "\<lambda>a. a \<noteq> ChangeTariffAccepted"
  by unfold_locales (auto simp: handle_change_transaction_tariff_def split: if_splits option.splits)

interpretation clear_tariffs_request:
  request_handler "handle_clear_tariffs scope ids" "list_all (\<lambda>r. tariff_clear_status_of r = TariffClearNoTariff)"
  by unfold_locales
    (auto simp: handle_clear_tariffs_def clear_one_tariff_def Let_def list_all_iff list_ex_iff split: if_splits option.splits)

interpretation set_profile_request:
  request_handler "handle_set_charging_profile scope p t" "\<lambda>a. a \<noteq> ProfileAccepted"
  by unfold_locales (auto simp: handle_set_charging_profile_def Let_def split: if_splits sum.splits)

interpretation clear_profile_request:
  request_handler "handle_clear_charging_profile criteria" "\<lambda>a. a = ClearProfileUnknown"
  by unfold_locales (auto simp: handle_clear_charging_profile_def split: if_splits)

interpretation priority_request:
  request_handler "handle_use_priority_charging t on" "\<lambda>a. a \<noteq> PriorityAccepted"
  by unfold_locales (auto simp: handle_use_priority_charging_def split: if_splits option.splits)

interpretation dynamic_request:
  request_handler "handle_update_dynamic_schedule i limit t" "\<lambda>a. a = DynamicUpdateRejected"
  by unfold_locales (auto simp: handle_update_dynamic_schedule_def split: if_splits)

interpretation clear_cache_request: request_handler handle_clear_cache "\<lambda>a. a = ClearCacheRejected"
  by unfold_locales (auto simp: handle_clear_cache_def split: if_splits)

text \<open>C27: a request the charge point does not accept leaves the state untouched and causes no
  effect, whichever request it is and for whatever reason it is refused.\<close>

theorem refused_requests_change_nothing:
  "let keeps = (\<lambda>evs. cp_run rfc evs s = Some (s, []))
   in (fst (handle_reset target kind s) = ResetRejected \<longrightarrow> keeps (snd (handle_reset target kind s)))
    \<and> (fst (handle_reserve_now evse r s) \<noteq> ReserveAccepted \<longrightarrow> keeps (snd (handle_reserve_now evse r s)))
    \<and> (fst (handle_cancel_reservation n s) = CancelRejected \<longrightarrow> keeps (snd (handle_cancel_reservation n s)))
    \<and> (fst (handle_request_stop_transaction t s) = StopRejected \<longrightarrow> keeps (snd (handle_request_stop_transaction t s)))
    \<and> (fst (handle_unlock_request i c s) \<noteq> None \<longrightarrow> keeps (snd (handle_unlock_request i c s)))
    \<and> (fst (handle_change_availability_request place on s) = AvailabilityRejected \<longrightarrow> keeps (snd (handle_change_availability_request place on s)))
    \<and> (fst (handle_cost_updated t cost s) = UnknownTransaction \<longrightarrow> keeps (snd (handle_cost_updated t cost s)))
    \<and> (fst (handle_set_default_tariff tariff_scope tariff s) \<noteq> DefaultTariffAccepted \<longrightarrow> keeps (snd (handle_set_default_tariff tariff_scope tariff s)))
    \<and> (fst (handle_change_transaction_tariff t tariff s) \<noteq> ChangeTariffAccepted \<longrightarrow> keeps (snd (handle_change_transaction_tariff t tariff s)))
    \<and> (list_all (\<lambda>r. tariff_clear_status_of r = TariffClearNoTariff) (fst (handle_clear_tariffs cleared ids s))
        \<longrightarrow> keeps (snd (handle_clear_tariffs cleared ids s)))
    \<and> (fst (handle_set_charging_profile scope p now s) \<noteq> ProfileAccepted \<longrightarrow> keeps (snd (handle_set_charging_profile scope p now s)))
    \<and> (fst (handle_clear_charging_profile criteria s) = ClearProfileUnknown \<longrightarrow> keeps (snd (handle_clear_charging_profile criteria s)))
    \<and> (fst (handle_use_priority_charging t on s) \<noteq> PriorityAccepted \<longrightarrow> keeps (snd (handle_use_priority_charging t on s)))
    \<and> (fst (handle_update_dynamic_schedule k limit now s) = DynamicUpdateRejected \<longrightarrow> keeps (snd (handle_update_dynamic_schedule k limit now s)))
    \<and> (fst (handle_clear_cache s) = ClearCacheRejected \<longrightarrow> keeps (snd (handle_clear_cache s)))"
  unfolding Let_def
  by (intro conjI impI)
    (erule reset_request.refused_keeps_state reserve_request.refused_keeps_state
    cancel_request.refused_keeps_state stop_request.refused_keeps_state
    unlock_request.refused_keeps_state availability_request.refused_keeps_state
    cost_request.refused_keeps_state default_tariff_request.refused_keeps_state
    change_tariff_request.refused_keeps_state clear_tariffs_request.refused_keeps_state set_profile_request.refused_keeps_state
    clear_profile_request.refused_keeps_state priority_request.refused_keeps_state
    dynamic_request.refused_keeps_state clear_cache_request.refused_keeps_state)+

theorem refused_requests_change_nothing_witness:
  "fst (handle_reset (TargetEvse 5) Immediate (cp_with_limits [1] default_state_limits)) = ResetRejected
   \<and> cp_run (\<lambda>_. []) (snd (handle_reset (TargetEvse 5) Immediate (cp_with_limits [1] default_state_limits)))
       (cp_with_limits [1] default_state_limits) = Some (cp_with_limits [1] default_state_limits, [])"
proof -
  have "fst (handle_reset (TargetEvse 5) Immediate (cp_with_limits [1] default_state_limits)) = ResetRejected"
    by (simp add: handle_reset_def target_exists_def cp_with_limits_def vec_get_def)
  then show ?thesis
    using refused_requests_change_nothing [where target = "TargetEvse 5" and kind = Immediate
        and s = "cp_with_limits [1] default_state_limits" and rfc = "\<lambda>_. []"]
    unfolding Let_def by blast
qed

section \<open>Charging profiles\<close>

lemma external_limit_ids_negative: "external_limit_profile_id scope lg < 0"
proof (cases scope)
  case (ScopeEvse i)
  let ?e = "if int i \<le> i32_max then int i else i32_max div 2"
  have "0 \<le> sat_i32 (?e * 2)" by (simp add: sat_i32_def i32_max_def)
  with ScopeEvse show ?thesis by (simp add: external_limit_profile_id_def sat_i32_def Let_def i32_max_def)
qed (simp add: external_limit_profile_id_def)

lemma reportable_ids_negative:
  "x \<in> set (reportable_external_limits s) \<Longrightarrow> profile_id (installed_of x) < 0"
proof -
  have "x \<in> set (composing_of limit scope) \<Longrightarrow> profile_id (installed_of x) < 0" for limit scope
    by (cases limit; cases "Option.bind limit external_schedule")
      (auto simp: composing_of_def as_composing_profile_def external_limit_ids_negative)
  then show "x \<in> set (reportable_external_limits s) \<Longrightarrow> profile_id (installed_of x) < 0"
    by (auto simp: reportable_external_limits_def)
qed

lemma smart_charging_gates:
  "capability_present caps ''GetChargingProfiles'' = cap_smart_charging caps"
  "capability_present caps ''SetChargingProfile'' = cap_smart_charging caps"
  by (simp_all add: capability_present_def gate_def refusal_gates_def)

lemma stamp_profile_id [simp]: "profile_id (stamp_profile t p) = profile_id p"
  by (simp add: stamp_profile_def Let_def)

definition profiles_with_id :: "charging_profile_id \<Rightarrow> profile_query" where
  "profiles_with_id i = \<lparr>pq_ids = [i], pq_scope = None, pq_purpose = None, pq_stack_level = None, pq_sources = []\<rparr>"

text \<open>C30: what \<open>SetChargingProfile\<close> accepted is what \<open>GetChargingProfiles\<close> reports: asked for the
  profile's id the charge point reports exactly that profile, at the scope it was installed at, with
  every schedule anchored; nothing else in the store has that id.\<close>

theorem accepted_profile_is_reported:
  assumes "handle_set_charging_profile scope p installed_at s = (ProfileAccepted, evs)"
    and "cp_run rfc evs s = Some (s', effects)" and "0 \<le> profile_id p"
  shows "handle_get_charging_profiles (profiles_with_id (profile_id p)) s'
      = [\<lparr>installed_scope = scope, installed_of = stamp_profile installed_at p, installed_source = Cso\<rparr>]
    \<and> list_all (\<lambda>sc. start_schedule sc \<noteq> None) (schedules (stamp_profile installed_at p))"
proof -
  let ?p = "stamp_profile installed_at p"
  let ?new = "\<lparr>installed_scope = scope, installed_of = ?p, installed_source = Cso\<rparr>"
  from assms(1) obtain ps where cap: "cap_smart_charging (capabilities_of s)"
    and ps: "profile_install scope ?p (charging_profiles_of s) = Inr ps" and evs: "evs = [ChargingProfileSet scope ?p]"
    by (auto simp: handle_set_charging_profile_def smart_charging_gates Let_def split: if_splits sum.splits)
  from assms(2) evs have "cp_apply rfc (ChargingProfileSet scope ?p) s = Some (s', effects)"
    by (auto split: option.splits)
  then obtain m r where s': "s' = s\<lparr>charging_profiles_of := ps, device_model_of := m, pending_reset_of := r\<rparr>"
    by (auto elim!: cp_apply_fields simp: charging_profile_set_def ps)
  have "profiles ps = filter (\<lambda>i. \<not> superseded scope ?p i) (profiles (charging_profiles_of s)) @ [?new]"
    using ps by (auto simp: profile_install_def split: if_splits option.splits)
  then have "profiles_selected_by (profiles_with_id (profile_id p)) ps = [?new]"
    by (auto simp: profiles_selected_by_def profiles_with_id_def profile_query_matches_def superseded_def
        filter_empty_conv)
  moreover have "filter (profile_query_matches (profiles_with_id (profile_id p))) (reportable_external_limits s') = []"
    using reportable_ids_negative assms(3)
    by (fastforce simp: filter_empty_conv profile_query_matches_def profiles_with_id_def)
  ultimately have "handle_get_charging_profiles (profiles_with_id (profile_id p)) s' = [?new]"
    using cap by (simp add: handle_get_charging_profiles_def smart_charging_gates s')
  moreover have "list_all (\<lambda>sc. start_schedule sc \<noteq> None) (schedules ?p)"
    by (simp add: stamp_profile_def Let_def list_all_iff)
  ultimately show ?thesis ..
qed

definition profile_demo :: charging_profile where
  "profile_demo =
     \<lparr>profile_id = 3, stack_level = 0, profile_purpose = TxDefault, profile_kind = AbsoluteKind, recurrency = None,
      valid_from = None, valid_to = None, profile_transaction_id = None,
      schedules = [\<lparr>schedule_id = 1, start_schedule = None, duration_secs = None, rate_unit = Amps,
                    min_charging_rate = None,
                    periods = [\<lparr>start_period_secs = 0, period_limit = Fin 16, number_phases = None\<rparr>]\<rparr>],
      dyn_update_interval_secs = None, dyn_update_time = None\<rparr>"

lemma capable_station:
  obtains s where "reachable (\<lambda>_. []) [1] default_state_limits s" and "capabilities_of s = caps"
    and "evses s = [evse_new 1]" and "charging_profiles_of s = profiles_with_limit 16"
proof -
  let ?s = "cp_with_limits [1] default_state_limits"
  obtain s effects where step: "cp_apply (\<lambda>_. []) (CapabilitiesDeclared caps) ?s = Some (s, effects)"
    using reachable_total [OF reachable.start] by blast
  then obtain m r where "s = ?s\<lparr>capabilities_of := caps, device_model_of := m, pending_reset_of := r\<rparr>"
    by (auto elim: cp_apply_fields)
  then show thesis
    by (intro that [OF reachable.step [OF reachable.start step]]) (simp_all add: cp_with_limits_def default_state_limits_def)
qed

theorem accepted_profile_is_reported_witness:
  "\<exists>s s' evs effects. handle_set_charging_profile (ScopeEvse 0) profile_demo 7 s = (ProfileAccepted, evs)
    \<and> cp_run (\<lambda>_. []) evs s = Some (s', effects)
    \<and> handle_get_charging_profiles (profiles_with_id 3) s'
      = [\<lparr>installed_scope = ScopeEvse 0, installed_of = stamp_profile 7 profile_demo, installed_source = Cso\<rparr>]"
proof (rule capable_station [of "default_capabilities\<lparr>cap_smart_charging := True\<rparr>"])
  fix s
  assume s: "reachable (\<lambda>_. []) [1] default_state_limits s"
    "capabilities_of s = default_capabilities\<lparr>cap_smart_charging := True\<rparr>"
    "evses s = [evse_new 1]" "charging_profiles_of s = profiles_with_limit 16"
  let ?evs = "[ChargingProfileSet (ScopeEvse 0) (stamp_profile 7 profile_demo)]"
  have set: "handle_set_charging_profile (ScopeEvse 0) profile_demo 7 s = (ProfileAccepted, ?evs)"
    by (simp add: handle_set_charging_profile_def smart_charging_gates s(2-4) profile_install_def stamp_profile_def
        profile_demo_def check_dynamic_shape_def profiles_with_limit_def Let_def)
  obtain s' effects where run: "cp_run (\<lambda>_. []) ?evs s = Some (s', effects)"
    using reachable_run_total [OF s(1)] by blast
  have "profile_id profile_demo = 3" by (simp add: profile_demo_def)
  with accepted_profile_is_reported [OF set run] set run show ?thesis by force
qed

section \<open>Profile reports\<close>

lemma concat_chunks: "0 < n \<Longrightarrow> concat (chunks n xs) = xs"
  by (induction n xs rule: chunks.induct) (simp add: chunks.simps)

lemma chunks_sizes: "ys \<in> set (chunks n xs) \<Longrightarrow> ys \<noteq> [] \<and> length ys \<le> n"
proof (induction n xs rule: chunks.induct)
  case (1 n xs)
  then show ?case by (auto simp: chunks.simps [of n xs] split: if_splits)
qed

text \<open>The groups: one per key in the order of first appearance, each with its members in order.\<close>

definition group_key :: "profile_group \<Rightarrow> charging_profile_scope \<times> charging_limit_source" where
  "group_key g = (fst g, fst (snd g))"

definition profile_key :: "installed_profile \<Rightarrow> charging_profile_scope \<times> charging_limit_source" where
  "profile_key p = (installed_scope p, installed_source p)"

definition groups_of :: "installed_profile list \<Rightarrow> profile_group list \<Rightarrow> bool" where
  "groups_of ps gs =
     (distinct (map group_key gs) \<and> (\<forall>g \<in> set gs. snd (snd g) = filter (\<lambda>p. profile_key p = group_key g) ps)
      \<and> set (map group_key gs) = set (map profile_key ps))"

lemma group_keys_add:
  "map group_key (add_to_group p gs) = map group_key gs @ (if profile_key p \<in> set (map group_key gs) then [] else [profile_key p])"
  by (induction p gs rule: add_to_group.induct) (auto simp: group_key_def profile_key_def)

lemma add_to_group_members:
  "distinct (map group_key gs) \<Longrightarrow> g \<in> set (add_to_group p gs) \<Longrightarrow>
   (\<exists>g0 \<in> set gs. group_key g = group_key g0
      \<and> snd (snd g) = snd (snd g0) @ (if profile_key p = group_key g0 then [p] else []))
   \<or> (profile_key p \<notin> set (map group_key gs) \<and> group_key g = profile_key p \<and> snd (snd g) = [p])"
proof (induction p gs arbitrary: g rule: add_to_group.induct)
  case (2 p scope source members rest)
  show ?case
  proof (cases "scope = installed_scope p \<and> source = installed_source p")
    case True
    with "2.prems" show ?thesis by (auto simp: group_key_def profile_key_def)
  next
    case False
    show ?thesis
    proof (cases "g = (scope, source, members)")
      case True
      with False show ?thesis by (auto simp: group_key_def profile_key_def)
    next
      case other: False
      with False "2.prems" have "g \<in> set (add_to_group p rest)" and "distinct (map group_key rest)" by auto
      from "2.IH" [OF False this(2,1)] show ?thesis
      proof (elim disjE bexE conjE)
        fix g0
        assume "g0 \<in> set rest" "group_key g = group_key g0"
          "snd (snd g) = snd (snd g0) @ (if profile_key p = group_key g0 then [p] else [])"
        then show ?thesis by (intro disjI1 bexI [of _ g0]) simp_all
      next
        assume "profile_key p \<notin> set (map group_key rest)" "group_key g = profile_key p" "snd (snd g) = [p]"
        moreover have "group_key (scope, source, members) \<noteq> profile_key p"
          using False by (simp add: group_key_def profile_key_def)
        ultimately show ?thesis by (intro disjI2) simp
      qed
    qed
  qed
qed (simp add: group_key_def profile_key_def)

lemma groups_of_add: "groups_of ps gs \<Longrightarrow> groups_of (ps @ [p]) (add_to_group p gs)"
proof -
  assume inv: "groups_of ps gs"
  have "snd (snd g) = filter (\<lambda>q. profile_key q = group_key g) (ps @ [p])" if "g \<in> set (add_to_group p gs)" for g
  proof -
    have "distinct (map group_key gs)" using inv by (simp add: groups_of_def)
    from add_to_group_members [OF this that] show ?thesis
    proof
      assume new: "profile_key p \<notin> set (map group_key gs) \<and> group_key g = profile_key p \<and> snd (snd g) = [p]"
      then have "\<forall>q \<in> set ps. profile_key q \<noteq> profile_key p" using inv
        by (metis groups_of_def image_eqI list.set_map)
      with new show ?thesis by (simp add: filter_empty_conv)
    qed (use inv in \<open>auto simp: groups_of_def\<close>)
  qed
  then show ?thesis using inv by (auto simp: groups_of_def group_keys_add)
qed

lemma groups_of_fold: "groups_of ps (fold add_to_group ps [])"
  by (induction ps rule: rev_induct) (simp_all add: groups_of_add, simp add: groups_of_def)

lemma update_last_props:
  "length (update_last f xs) = length xs" "xs \<noteq> [] \<Longrightarrow> update_last f xs = butlast xs @ [f (last xs)]"
  by (auto simp: update_last_def)

text \<open>The chunks before the last one is marked.\<close>

definition raw_chunks :: "profile_group list \<Rightarrow> profile_report_chunk list" where
  "raw_chunks gs =
     concat (map (\<lambda>(scope, source, members).
       map (\<lambda>c. \<lparr>chunk_scope = scope, chunk_source = source, chunk_tbc = True, chunk_profiles = c\<rparr>)
         (chunks charging_profile_report_chunk_size members)) gs)"

definition chunk_key :: "profile_report_chunk \<Rightarrow> charging_profile_scope \<times> charging_limit_source" where
  "chunk_key c = (chunk_scope c, chunk_source c)"

lemma raw_chunks_of_key:
  assumes "distinct (map group_key gs)" and "\<forall>g \<in> set gs. snd (snd g) = filter (\<lambda>p. profile_key p = group_key g) ps"
  shows "concat (map chunk_profiles (filter (\<lambda>c. chunk_key c = k) (raw_chunks gs)))
    = (if k \<in> set (map group_key gs) then filter (\<lambda>p. profile_key p = k) ps else [])"
  using assms
proof (induction gs)
  case (Cons g gs)
  obtain scope source members where g: "g = (scope, source, members)" by (cases g)
  let ?cs = "map (\<lambda>c. \<lparr>chunk_scope = scope, chunk_source = source, chunk_tbc = True, chunk_profiles = c\<rparr>)
         (chunks charging_profile_report_chunk_size members)"
  have "filter (\<lambda>c. chunk_key c = k) ?cs = (if group_key g = k then ?cs else [])"
    by (auto simp: g group_key_def chunk_key_def filter_empty_conv)
  moreover have "concat (map chunk_profiles ?cs) = members"
    by (simp add: comp_def concat_chunks charging_profile_report_chunk_size_def)
  ultimately show ?case
    using Cons by (auto simp: raw_chunks_def g split: if_splits)
qed (simp add: raw_chunks_def)

lemma raw_chunk_props:
  "c \<in> set (raw_chunks gs) \<Longrightarrow> chunk_tbc c \<and> chunk_profiles c \<noteq> [] \<and> length (chunk_profiles c) \<le> charging_profile_report_chunk_size"
  by (auto simp: raw_chunks_def dest: chunks_sizes)

lemma chunk_report_eq:
  "chunk_charging_profile_report ps = update_last (\<lambda>c. c\<lparr>chunk_tbc := False\<rparr>) (raw_chunks (fold add_to_group ps []))"
  by (simp add: chunk_charging_profile_report_def raw_chunks_def)

lemma filter_concat_update_last:
  assumes "\<And>c. P (f c) = P c" and "\<And>c. g (f c) = g c"
  shows "concat (map g (filter P (update_last f xs))) = concat (map g (filter P xs))"
proof (cases xs rule: rev_cases)
  case (snoc ys y)
  then show ?thesis using assms by (auto simp: update_last_def)
qed (simp add: update_last_def)

text \<open>C82: the messages of a profile report carry every profile exactly once: for each scope and
  source the messages bearing that scope and source hold exactly the profiles of that scope and
  source, in order; no message is empty or carries more than four profiles; and only the last
  announces that none follows.\<close>

theorem profile_report_is_complete:
  "concat (map chunk_profiles (filter (\<lambda>c. chunk_key c = k) (chunk_charging_profile_report ps)))
     = filter (\<lambda>p. profile_key p = k) ps
   \<and> list_all (\<lambda>c. chunk_profiles c \<noteq> [] \<and> length (chunk_profiles c) \<le> 4) (chunk_charging_profile_report ps)
   \<and> map chunk_tbc (chunk_charging_profile_report ps)
     = (let n = length (chunk_charging_profile_report ps) in if n = 0 then [] else replicate (n - 1) True @ [False])"
proof -
  let ?gs = "fold add_to_group ps []"
  let ?raw = "raw_chunks ?gs"
  have inv: "groups_of ps ?gs" by (rule groups_of_fold)
  have "concat (map chunk_profiles (filter (\<lambda>c. chunk_key c = k) (chunk_charging_profile_report ps)))
      = concat (map chunk_profiles (filter (\<lambda>c. chunk_key c = k) ?raw))"
    unfolding chunk_report_eq by (rule filter_concat_update_last) (simp_all add: chunk_key_def)
  also have "\<dots> = filter (\<lambda>p. profile_key p = k) ps"
  proof -
    have "filter (\<lambda>p. profile_key p = k) ps = []" if "k \<notin> set (map profile_key ps)"
      using that by (auto simp: filter_empty_conv)
    then show ?thesis using raw_chunks_of_key [of ?gs ps k] inv by (simp add: groups_of_def)
  qed
  finally have parts: "concat (map chunk_profiles (filter (\<lambda>c. chunk_key c = k) (chunk_charging_profile_report ps)))
      = filter (\<lambda>p. profile_key p = k) ps" .
  show ?thesis
  proof (cases ?raw rule: rev_cases)
    case Nil
    then show ?thesis using parts by (simp add: chunk_report_eq update_last_def)
  next
    case (snoc cs c)
    then have sizes: "\<forall>d \<in> set (cs @ [c]). chunk_profiles d \<noteq> [] \<and> length (chunk_profiles d) \<le> 4"
      and tbc: "\<forall>d \<in> set cs. chunk_tbc d"
      using raw_chunk_props [of _ ?gs] by (auto simp: charging_profile_report_chunk_size_def)
    have report: "chunk_charging_profile_report ps = cs @ [c\<lparr>chunk_tbc := False\<rparr>]"
      using snoc by (simp add: chunk_report_eq update_last_def)
    have "map chunk_tbc cs = map (\<lambda>_. True) cs" using tbc by simp
    then have "map chunk_tbc cs = replicate (length cs) True" by (simp only: map_replicate_const)
    then have "map chunk_tbc (chunk_charging_profile_report ps)
      = (let n = length (chunk_charging_profile_report ps) in if n = 0 then [] else replicate (n - 1) True @ [False])"
      by (simp add: report)
    moreover have "list_all (\<lambda>c. chunk_profiles c \<noteq> [] \<and> length (chunk_profiles c) \<le> 4) (chunk_charging_profile_report ps)"
      using sizes by (simp add: report list_all_iff)
    ultimately show ?thesis using parts by blast
  qed
qed

end
