(* ===== verification/Authorization_Properties.thy ===== *)
theory Authorization_Properties
  imports Charging_Request_Properties Session_Transactions
begin

text \<open>
  Authorization: what a charge point accepts an identifier on, and that what the CSMS answered is
  what it goes by once the link is down.
\<close>

section \<open>Evidence\<close>

text \<open>What the charge point itself holds about an identifier: the list first, then the cache.\<close>

definition local_evidence :: "charge_point_state \<Rightarrow> id_token \<Rightarrow> date_time option \<Rightarrow> authorization_status option" where
  "local_evidence s tok now =
     (case listed s tok of
        Some e \<Rightarrow> Some (entry_status e)
      | None \<Rightarrow>
          if boolean_variable ''AuthCacheCtrlr'' ''Enabled'' True s
          then map_option cached_status (cache_lookup (authorization_cache_of s) tok now (cache_life_time_secs s))
          else None)"

lemma local_only_decision_eq: "local_only_decision s tok now = unwrap_or (local_evidence s tok now) AuthRejected"
  by (simp add: local_only_decision_def local_evidence_def split: option.splits)

lemma offline_decision_eq:
  "offline_decision s tok now =
     (if \<not> boolean_variable ''AuthCtrlr'' ''LocalAuthorizeOffline'' True s then AuthRejected
      else unwrap_or (local_evidence s tok now)
        (if boolean_variable ''AuthCacheCtrlr'' ''Enabled'' True s
            \<and> boolean_variable ''AuthCtrlr'' ''OfflineTxForUnknownIdEnabled'' False s
         then AuthAccepted else AuthRejected))"
  by (simp add: offline_decision_def local_evidence_def split: option.splits)

definition clock_reading :: "date_time \<Rightarrow> date_time option" where
  "clock_reading clock = (if is_synchronized clock then Some clock else None)"

text \<open>When a request is granted, the case analysis of the protocol: with a contract certificate only
  the CSMS can grant it; without one the CSMS is asked unless that is forbidden, and where it cannot
  be asked the local evidence decides, or the operator's opt-in for unknown identifiers.\<close>

definition granted ::
  "authorizer \<Rightarrow> date_time \<Rightarrow> authorization_requested \<Rightarrow> charge_point_state \<Rightarrow> charge_point_state \<Rightarrow> bool" where
  "granted csms clock req before after =
     (let tok = auth_token req; now = clock_reading clock
      in case auth_contract req of
           Some contract \<Rightarrow>
             \<not> remote_authorization_disabled before
             \<and> is_some_and (ask_contract csms tok (withhold_chain_unless_allowed before contract)) contract_accepted
         | None \<Rightarrow>
             if remote_authorization_disabled before then local_evidence before tok now = Some AuthAccepted
             else (case ask_token csms tok of
                    Some status \<Rightarrow> status = AuthAccepted
                  | None \<Rightarrow>
                      boolean_variable ''AuthCtrlr'' ''LocalAuthorizeOffline'' True after
                      \<and> (local_evidence after tok now = Some AuthAccepted
                         \<or> (local_evidence after tok now = None
                            \<and> boolean_variable ''AuthCacheCtrlr'' ''Enabled'' True after
                            \<and> boolean_variable ''AuthCtrlr'' ''OfflineTxForUnknownIdEnabled'' False after))))"

text \<open>Whether the CSMS was asked and answered.\<close>

definition answered_by_csms :: "authorizer \<Rightarrow> authorization_requested \<Rightarrow> charge_point_state \<Rightarrow> bool" where
  "answered_by_csms csms req before =
     (\<not> remote_authorization_disabled before
      \<and> (case auth_contract req of
           Some contract \<Rightarrow> ask_contract csms (auth_token req) (withhold_chain_unless_allowed before contract) \<noteq> None
         | None \<Rightarrow> ask_token csms (auth_token req) \<noteq> None))"

definition status_if :: "bool \<Rightarrow> authorization_status" where
  "status_if b = (if b then AuthAccepted else AuthRejected)"

lemma status_if_iff: "(x = AuthAccepted \<longleftrightarrow> b) \<Longrightarrow> x = status_if b"
  by (cases x) (simp_all add: status_if_def)

lemma unwrap_accepted:
  "unwrap_or e (if b then AuthAccepted else AuthRejected) = AuthAccepted \<longleftrightarrow> e = Some AuthAccepted \<or> (e = None \<and> b)"
  "unwrap_or e AuthRejected = AuthAccepted \<longleftrightarrow> e = Some AuthAccepted"
  by (cases e; simp)+

lemma contract_decision_granted:
  assumes "auth_contract req = Some contract"
  shows "contract_decision csms (auth_token req) contract (clock_reading clock) before =
     (status_if (granted csms clock req before after),
      if answered_by_csms csms req before
      then [AuthorizationCached (auth_token req) (status_if (granted csms clock req before after)) (clock_reading clock)]
      else [])"
  using assms
  by (simp add: contract_decision_def cache_decision_def granted_def answered_by_csms_def status_if_def Let_def
      split: option.splits)

lemma plain_decision_granted:
  assumes "auth_contract req = None"
  shows "plain_decision csms (auth_token req) (clock_reading clock) before after =
     (status_if (granted csms clock req before after),
      if answered_by_csms csms req before
      then [AuthorizationCached (auth_token req) (status_if (granted csms clock req before after)) (clock_reading clock)]
      else [])"
proof (cases "remote_authorization_disabled before")
  case True
  have "local_only_decision before (auth_token req) (clock_reading clock) = status_if (granted csms clock req before after)"
    by (rule status_if_iff) (simp add: local_only_decision_eq unwrap_accepted granted_def assms True Let_def)
  with True show ?thesis by (simp add: plain_decision_def answered_by_csms_def)
next
  case False
  show ?thesis
  proof (cases "ask_token csms (auth_token req)")
    case None
    have "offline_decision after (auth_token req) (clock_reading clock) = status_if (granted csms clock req before after)"
      by (rule status_if_iff) (simp add: offline_decision_eq unwrap_accepted granted_def assms False None Let_def)
    with False None show ?thesis by (simp add: plain_decision_def answered_by_csms_def assms)
  next
    case (Some status)
    have "status = status_if (granted csms clock req before after)"
      by (rule status_if_iff) (simp add: granted_def assms False Some Let_def)
    with False Some show ?thesis by (simp add: plain_decision_def cache_decision_def answered_by_csms_def assms)
  qed
qed

text \<open>C26: every authorization request is answered exactly once, last of all and on its own
  connector: with \<open>ChargingAuthorized\<close> for the presented identifier exactly when it is granted, and
  with \<open>AuthorizationDenied\<close> otherwise; the decision is remembered exactly when it is the CSMS's
  own.\<close>

theorem request_answered_on_evidence:
  "answer_authorization_request csms clock req before after =
     (let ok = granted csms clock req before after
      in (if answered_by_csms csms req before
          then [AuthorizationCached (auth_token req) (status_if ok) (clock_reading clock)] else [])
         @ [on_connector (auth_evse req) (auth_connector req)
              (if ok then ChargingAuthorized (auth_token req) else AuthorizationDenied)])"
proof (cases "auth_contract req")
  case None
  then show ?thesis
    using plain_decision_granted [OF None, of csms clock before after]
    by (simp add: answer_authorization_request_def clock_reading_def [symmetric] status_if_def Let_def)
next
  case (Some contract)
  then show ?thesis
    using contract_decision_granted [OF Some, of csms clock before after]
    by (simp add: answer_authorization_request_def clock_reading_def [symmetric] status_if_def Let_def)
qed

section \<open>Outages\<close>

lemma plain_stores_kept:
  assumes "cp_apply rfc (on_connector i c ev) s = Some (s', effects)" and "event_rank ev = 0"
  shows "authorization_cache_of s' = authorization_cache_of s"
    and "local_authorization_list_of s' = local_authorization_list_of s"
proof -
  from assms(1) obtain s1 effects1 b m r where
    event: "apply_event rfc (on_connector i c ev) s = Some (s1, effects1, b)" and
    s': "s' = s1\<lparr>device_model_of := m, pending_reset_of := r\<rparr>" by (rule cp_apply_fields)
  from event have "apply_connector_event i c ev s = (s1, effects1, b)" by (simp add: evse_event_applied_def)
  then have "s1 = s \<or> (\<exists>out. connector_step i c ev s = Some (s1, effects1, out))"
    using assms(2) by (cases "connector_step i c ev s") (auto simp: apply_connector_event_plain split: prod.splits)
  then have "stores_kept s s1" using stores_kept_connector_step by (auto simp: stores_kept_def)
  with s' show "authorization_cache_of s' = authorization_cache_of s"
    and "local_authorization_list_of s' = local_authorization_list_of s" by (simp_all add: stores_kept_def)
qed


text \<open>The switches of a station as it is built.\<close>

lemma built_in_variable:
  assumes "d \<in> set default_variables"
    and "\<forall>q \<in> set default_variables. default_component q = default_component d
      \<and> default_variable_name q = default_variable_name d \<and> default_instance q = default_instance d \<longrightarrow> q = d"
    and "default_variable_name d \<noteq> availability_exists_variable"
    and "56 + 2 * length counts + 3 * sum_list counts \<le> usize_max"
  shows "dm_get (dm_with_topology n counts) (Component (default_component d) None None)
      (Variable (default_variable_name d) (default_instance d))
    = Some \<lparr>characteristics = default_characteristics d, attributes = snd (snd (snd (default_row d)))\<rparr>"
proof -
  let ?m = "\<lparr>dm_components = [], dm_max_variables = usize_max\<rparr>"
  let ?c = "Component (default_component d) None None"
  let ?v = "Variable (default_variable_name d) (default_instance d)"
  let ?attrs = "snd (snd (snd (default_row d)))"
  have "(?c, ?v, default_characteristics d, ?attrs) \<in> set (topology_rows counts)"
    using assms(1) by (auto simp: topology_rows_def default_row_def)
  then have "dm_get (registrations (topology_rows counts) ?m) ?c ?v
      = Some \<lparr>characteristics = default_characteristics d, attributes = ?attrs\<rparr>"
  proof (rule registrations_get [OF dm_inv_empty, rotated])
    show "dm_len ?m + length (topology_rows counts) \<le> dm_max_variables ?m"
      using assms(4) by (simp add: length_topology_rows dm_len_def bt_values_def)
    show "\<forall>q \<in> set (topology_rows counts). fst q = ?c \<and> fst (snd q) = ?v \<longrightarrow> snd (snd q) = (default_characteristics d, ?attrs)"
    proof (intro ballI impI)
      fix q
      assume q: "q \<in> set (topology_rows counts)" "fst q = ?c \<and> fst (snd q) = ?v"
      have "default_variable_name d \<noteq> availability_state_variable" using assms(1) default_rows_not_availability by blast
      then have "q \<notin> set (availability_rows n e x)" for n e x
        using q(2) assms(3) by (auto simp: availability_rows_def)
      moreover have "q \<notin> set (evse_rows y)" for y
        using q(2) by (cases y) (auto simp: evse_rows_def connector_rows_def availability_rows_def)
      ultimately obtain d' where d': "d' \<in> set default_variables" "q = default_row d'"
        using q by (auto simp: topology_rows_def)
      with q(2) have "default_component d' = default_component d" "default_variable_name d' = default_variable_name d"
        "default_instance d' = default_instance d" by (simp_all add: default_row_def)
      with assms(2) d' have "d' = d" by blast
      with d' show "snd (snd q) = (default_characteristics d, ?attrs)" by (simp add: default_row_def)
    qed
  qed
  then show ?thesis by (simp add: dm_with_topology_def Let_def with_topology_rows dm_get_def)
qed

lemma built_in_value:
  assumes "d \<in> set default_variables"
    and "\<forall>q \<in> set default_variables. default_component q = default_component d
      \<and> default_variable_name q = default_variable_name d \<and> default_instance q = default_instance d \<longrightarrow> q = d"
    and "default_variable_name d \<noteq> availability_exists_variable"
    and "56 + 2 * length counts + 3 * sum_list counts \<le> usize_max"
  shows "dm_actual (dm_with_topology n counts) (Component (default_component d) None None)
      (Variable (default_variable_name d) (default_instance d)) = Some (default_value d)"
  using built_in_variable [OF assms] by (simp add: dm_actual_def default_row_def attribute_of_def)

lemma fresh_switches:
  "config (cp_with_limits [1] limits) ''AuthCtrlr'' ''LocalAuthorizeOffline'' = Some ''true''"
  "config (cp_with_limits [1] limits) ''AuthCacheCtrlr'' ''Enabled'' = Some ''true''"
  "config (cp_with_limits [1] limits) ''AuthCtrlr'' ''DisableRemoteAuthorization'' = Some ''false''"
proof -
  note table = default_variables_def default_variables_1_def default_variables_2_def
    default_variables_3_def default_variables_4_def default_variables_5_def default_variables_6_def
  note built_in = built_in_value [where counts = "[1]" and n = "max_device_model_variables limits"]
  have small: "56 + 2 * length [1 :: usize] + 3 * sum_list [1] \<le> usize_max" by (simp add: usize_max_def)
  let ?a = "DefaultVariable ''AuthCtrlr'' ''LocalAuthorizeOffline'' None BooleanType None ''true'' ReadWrite True False"
  let ?b = "DefaultVariable ''AuthCacheCtrlr'' ''Enabled'' None BooleanType None ''true'' ReadWrite True False"
  let ?d = "DefaultVariable ''AuthCtrlr'' ''DisableRemoteAuthorization'' None BooleanType None ''false'' ReadWrite True True"
  have names: "default_variable_name x \<noteq> availability_exists_variable" if "x \<in> {?a, ?b, ?d}" for x
    using that by (auto simp: device_model_names)
  show "config (cp_with_limits [1] limits) ''AuthCtrlr'' ''LocalAuthorizeOffline'' = Some ''true''"
    using built_in [of ?a, OF _ _ names small] by (simp add: table cp_with_limits_def)
  show "config (cp_with_limits [1] limits) ''AuthCacheCtrlr'' ''Enabled'' = Some ''true''"
    using built_in [of ?b, OF _ _ names small] by (simp add: table cp_with_limits_def)
  show "config (cp_with_limits [1] limits) ''AuthCtrlr'' ''DisableRemoteAuthorization'' = Some ''false''"
    using built_in [of ?d, OF _ _ names small] by (simp add: table cp_with_limits_def)
qed


end
