(* ===== verification/Storage.thy ===== *)
theory Storage
  imports Prelude
begin

text \<open>
  Durable storage, \<open>src/hardware/storage.rs\<close>: the interface a binding implements, the two stores
  of the crate, and \<open>AtomicStorage\<close>, which keeps every key in two slots so that a write cut short
  by a loss of power is never read back.  A store is a record of operations on its state; an
  operation that fails returns the error of the store.
\<close>

unbundle bit_operations_syntax

type_synonym bytes = "u8 list"

record ('s, 'e) storage =
  storage_get :: "string \<Rightarrow> 's \<Rightarrow> 'e + bytes option"
  storage_set :: "string \<Rightarrow> bytes \<Rightarrow> 's \<Rightarrow> 's \<times> 'e option"
  storage_remove :: "string \<Rightarrow> 's \<Rightarrow> 's \<times> 'e option"

definition no_storage :: "(unit, 'e) storage" where
  "no_storage =
     \<lparr>storage_get = (\<lambda>_ _. Inr None), storage_set = (\<lambda>_ _ s. (s, None)), storage_remove = (\<lambda>_ s. (s, None))\<rparr>"

definition in_memory_storage :: "(string \<rightharpoonup> bytes, 'e) storage" where
  "in_memory_storage =
     \<lparr>storage_get = (\<lambda>k m. Inr (m k)), storage_set = (\<lambda>k v m. (m(k \<mapsto> v), None)),
      storage_remove = (\<lambda>k m. (m(k := None), None))\<rparr>"

text \<open>The encoding of the values stored, \<open>serde\<close> in the program; encoding may fail.\<close>

record 'r codec =
  encode :: "'r \<Rightarrow> bytes option"
  decode :: "bytes \<Rightarrow> 'r option"

section \<open>Records\<close>

text \<open>\<open>to_le_bytes\<close> and \<open>from_le_bytes\<close>, at \<open>n\<close> bytes.\<close>

primrec to_le_bytes :: "nat \<Rightarrow> 'a::len word \<Rightarrow> bytes" where
  "to_le_bytes 0 x = []"
| "to_le_bytes (Suc n) x = ucast x # to_le_bytes n (drop_bit 8 x)"

primrec from_le_bytes :: "bytes \<Rightarrow> 'a::len word" where
  "from_le_bytes [] = 0"
| "from_le_bytes (b # bs) = ucast b OR push_bit 8 (from_le_bytes bs)"

definition crc32_bit :: "u32 \<Rightarrow> u32" where
  "crc32_bit crc = (let mask = 0 - (crc AND 1) in drop_bit 1 crc XOR (0xEDB88320 AND mask))"

definition crc32 :: "bytes \<Rightarrow> u32" where
  "crc32 data = NOT (fold (\<lambda>byte crc. (crc32_bit ^^ 8) (crc XOR ucast byte)) data 0xFFFFFFFF)"

definition record_kind_value :: u8 where "record_kind_value = 1"
definition record_kind_tombstone :: u8 where "record_kind_tombstone = 0"
definition record_header_len :: usize where "record_header_len = 21"
definition record_magic :: bytes where "record_magic = [0x4F, 0x43, 0x50, 0x41]"

record decoded_record =
  record_seq :: u64
  record_kind :: u8
  record_payload :: bytes

text \<open>The length is cast to \<open>u32\<close>.\<close>

definition encode_record :: "u64 \<Rightarrow> u8 \<Rightarrow> bytes \<Rightarrow> bytes" where
  "encode_record seq kind payload =
     record_magic @ to_le_bytes 8 seq @ [kind] @ to_le_bytes 4 (of_nat (length payload) :: u32)
       @ to_le_bytes 4 (crc32 payload) @ payload"

definition decode_record :: "bytes \<Rightarrow> decoded_record option" where
  "decode_record bs =
     (if length bs < record_header_len then None
      else if take 4 bs \<noteq> record_magic then None
      else let seq = from_le_bytes (take 8 (drop 4 bs));
               kind = bs ! 12;
               len = unat (from_le_bytes (take 4 (drop 13 bs)) :: u32);
               crc = from_le_bytes (take 4 (drop 17 bs)) :: u32;
               payload = drop record_header_len bs
           in if kind \<noteq> record_kind_value \<and> kind \<noteq> record_kind_tombstone then None
              else if length bs \<noteq> record_header_len + len then None
              else if crc32 payload \<noteq> crc then None
              else Some \<lparr>record_seq = seq, record_kind = kind, record_payload = payload\<rparr>)"

definition seq_is_later :: "u64 \<Rightarrow> u64 \<Rightarrow> bool" where
  "seq_is_later candidate than = (let delta = candidate - than in delta \<noteq> 0 \<and> delta < (2 ^ 64 - 1) div 2)"

section \<open>Two slots per key\<close>

datatype slot = SlotA | SlotB

fun slot_suffix :: "slot \<Rightarrow> char" where
  "slot_suffix SlotA = CHR ''a''"
| "slot_suffix SlotB = CHR ''b''"

fun slot_other :: "slot \<Rightarrow> slot" where
  "slot_other SlotA = SlotB"
| "slot_other SlotB = SlotA"

definition slot_key :: "string \<Rightarrow> slot \<Rightarrow> string" where
  "slot_key key slot = key @ ''.'' @ [slot_suffix slot]"

definition slot_record :: "'e + bytes option \<Rightarrow> decoded_record option" where
  "slot_record raw = (case raw of Inr (Some bs) \<Rightarrow> decode_record bs | _ \<Rightarrow> None)"

text \<open>The answer where neither slot holds a record: the first error there was.\<close>

definition no_record :: "'e + bytes option \<Rightarrow> 'e + bytes option \<Rightarrow> 'e + 'b option" where
  "no_record a b =
     (case a of Inl e \<Rightarrow> Inl e | Inr _ \<Rightarrow> (case b of Inl e \<Rightarrow> Inl e | Inr _ \<Rightarrow> Inr None))"

definition read_slots :: "('s, 'e) storage \<Rightarrow> string \<Rightarrow> 's \<Rightarrow> 'e + (slot \<times> u64) option" where
  "read_slots st key s =
     (let a = storage_get st (slot_key key SlotA) s;
          b = storage_get st (slot_key key SlotB) s
      in case (slot_record a, slot_record b) of
           (Some ra, Some rb) \<Rightarrow>
             Inr (Some (if seq_is_later (record_seq rb) (record_seq ra) then (SlotB, record_seq rb) else (SlotA, record_seq ra)))
         | (Some ra, None) \<Rightarrow> Inr (Some (SlotA, record_seq ra))
         | (None, Some rb) \<Rightarrow> Inr (Some (SlotB, record_seq rb))
         | (None, None) \<Rightarrow> no_record a b)"

definition write_record :: "('s, 'e) storage \<Rightarrow> string \<Rightarrow> u8 \<Rightarrow> bytes \<Rightarrow> 's \<Rightarrow> 's \<times> 'e option" where
  "write_record st key kind payload s =
     (case read_slots st key s of
        Inl e \<Rightarrow> (s, Some e)
      | Inr current \<Rightarrow>
          (let (target, next_seq) = (case current of Some (winner, seq) \<Rightarrow> (slot_other winner, seq + 1) | None \<Rightarrow> (SlotA, 0))
           in storage_set st (slot_key key target) (encode_record next_seq kind payload) s))"

definition atomic_get :: "('s, 'e) storage \<Rightarrow> string \<Rightarrow> 's \<Rightarrow> 'e + bytes option" where
  "atomic_get st key s =
     (let a = storage_get st (slot_key key SlotA) s;
          b = storage_get st (slot_key key SlotB) s;
          winner =
            (case (slot_record a, slot_record b) of
               (Some ra, Some rb) \<Rightarrow> Some (if seq_is_later (record_seq rb) (record_seq ra) then rb else ra)
             | (Some ra, None) \<Rightarrow> Some ra
             | (None, Some rb) \<Rightarrow> Some rb
             | (None, None) \<Rightarrow> None)
      in case winner of
           Some r \<Rightarrow> Inr (if record_kind r = record_kind_value then Some (record_payload r) else None)
         | None \<Rightarrow> no_record a b)"

definition atomic_storage :: "('s, 'e) storage \<Rightarrow> ('s, 'e) storage" where
  "atomic_storage st =
     \<lparr>storage_get = atomic_get st,
      storage_set = (\<lambda>key v. write_record st key record_kind_value v),
      storage_remove = (\<lambda>key. write_record st key record_kind_tombstone [])\<rparr>"

section \<open>A record is read back, and no part of one is\<close>

lemma length_to_le_bytes [simp]: "length (to_le_bytes n x) = n"
  by (induction n arbitrary: x) simp_all

lemma from_to_le_bytes: "from_le_bytes (to_le_bytes n x) = take_bit (8 * n) (x :: 'a::len word)"
proof (induction n arbitrary: x)
  case (Suc n)
  show ?case
    by (rule bit_word_eqI) (auto simp: Suc bit_simps)
qed simp

lemma le_bytes_roundtrip [simp]:
  "from_le_bytes (to_le_bytes 8 (x :: u64)) = x" "from_le_bytes (to_le_bytes 4 (y :: u32)) = y"
  by (simp_all add: from_to_le_bytes take_bit_word_eq_self)

lemma length_encode_record [simp]: "length (encode_record seq kind payload) = record_header_len + length payload"
  by (simp add: encode_record_def record_magic_def record_header_len_def)

lemma encode_fields:
  fixes n :: nat and seq :: u64 and kind :: u8 and payload :: bytes
  defines "bs \<equiv> take n (encode_record seq kind payload)"
  assumes "record_header_len \<le> n"
  shows "take 4 bs = record_magic" "take 8 (drop 4 bs) = to_le_bytes 8 seq" "bs ! 12 = kind"
    "take 4 (drop 13 bs) = to_le_bytes 4 (of_nat (length payload) :: u32)"
    "take 4 (drop 17 bs) = to_le_bytes 4 (crc32 payload)"
    "drop record_header_len bs = take (n - record_header_len) payload"
  using assms(2)
  by (simp_all add: bs_def encode_record_def record_magic_def record_header_len_def take_Cons' drop_Cons'
      nth_append nth_Cons' drop_take)

lemma decode_encode:
  assumes "length payload < 2 ^ 32" and "kind \<in> {record_kind_value, record_kind_tombstone}"
  shows "decode_record (encode_record seq kind payload)
    = Some \<lparr>record_seq = seq, record_kind = kind, record_payload = payload\<rparr>"
proof -
  have "unat (of_nat (length payload) :: u32) = length payload"
    using assms(1) by (simp add: unat_of_nat)
  then show ?thesis
    using assms(2) encode_fields [of "record_header_len + length payload" seq kind payload]
    by (auto simp: decode_record_def Let_def)
qed

text \<open>A record cut short is never taken for one.\<close>

lemma decode_truncated:
  assumes "length payload < 2 ^ 32" and "n < record_header_len + length payload"
  shows "decode_record (take n (encode_record seq kind payload)) = None"
proof (cases "n < record_header_len")
  case False
  have "unat (of_nat (length payload) :: u32) = length payload"
    using assms(1) by (simp add: unat_of_nat)
  with False assms(2) encode_fields [of n seq kind payload] show ?thesis
    by (auto simp: decode_record_def Let_def)
qed (simp add: decode_record_def)

end
