(* ===== verification/Storage_Contract.thy ===== *)
theory Storage_Contract
  imports Storage
begin

text \<open>
  What the crate expects of a store, as a contract: reads return the contents, a write that
  succeeds is a map update, and one that fails touches no other key.  A \<open>crash_safe_storage\<close>
  moreover leaves the old value or the new one behind.  \<open>AtomicStorage\<close> makes a store of the
  second kind out of one of the first whose failed writes leave no complete record.
\<close>

locale kv_storage =
  fixes st :: "('s, 'e) storage"
    and contents :: "'s \<Rightarrow> string \<Rightarrow> bytes option"
    and inv :: "'s \<Rightarrow> bool"
    and fits :: "bytes \<Rightarrow> bool"
  assumes get: "inv s \<Longrightarrow> storage_get st k s = Inr (contents s k)"
    and set: "inv s \<Longrightarrow> fits v \<Longrightarrow> storage_set st k v s = (s', r) \<Longrightarrow>
      inv s' \<and> (\<forall>j. j \<noteq> k \<longrightarrow> contents s' j = contents s j) \<and> (r = None \<longrightarrow> contents s' k = Some v)"
    and remove: "inv s \<Longrightarrow> storage_remove st k s = (s', r) \<Longrightarrow>
      inv s' \<and> (\<forall>j. j \<noteq> k \<longrightarrow> contents s' j = contents s j) \<and> (r = None \<longrightarrow> contents s' k = None)"

locale crash_safe_storage = kv_storage +
  assumes set_cut: "inv s \<Longrightarrow> fits v \<Longrightarrow> storage_set st k v s = (s', Some e) \<Longrightarrow>
      contents s' k \<in> {contents s k, Some v}"
    and remove_cut: "inv s \<Longrightarrow> storage_remove st k s = (s', Some e) \<Longrightarrow> contents s' k \<in> {contents s k, None}"

text \<open>A medium whose interrupted writes leave what was there, or something that is no record.\<close>

locale torn_medium = kv_storage st contents inv "\<lambda>_. True"
  for st :: "('s, 'e) storage" and contents :: "'s \<Rightarrow> string \<Rightarrow> bytes option" and inv :: "'s \<Rightarrow> bool" +
  assumes torn: "inv s \<Longrightarrow> length payload < 2 ^ 32 \<Longrightarrow>
      storage_set st k (encode_record seq kind payload) s = (s', Some e) \<Longrightarrow>
      contents s' k \<in> {contents s k, Some (encode_record seq kind payload)}
      \<or> Option.bind (contents s' k) decode_record = None"

text \<open>A store none of whose writes fail.\<close>

locale durable_storage = kv_storage +
  assumes set_ok: "inv s \<Longrightarrow> fits v \<Longrightarrow> storage_set st k v s = (s', r) \<Longrightarrow> r = None"
    and remove_ok: "inv s \<Longrightarrow> storage_remove st k s = (s', r) \<Longrightarrow> r = None"

locale durable_medium = torn_medium +
  assumes medium_set_ok: "inv s \<Longrightarrow> snd (storage_set st k v s) = None"

section \<open>Encodings\<close>

text \<open>What serde promises of a record it can represent.\<close>

definition codec_ok :: "'r codec \<Rightarrow> (bytes \<Rightarrow> bool) \<Rightarrow> 'r \<Rightarrow> bool" where
  "codec_ok codec fits r = is_some_and (encode codec r) (\<lambda>bs. fits bs \<and> decode codec bs = Some r)"

text \<open>An encoding of the records of a table by their place in it.\<close>

definition table_codec :: "'r list \<Rightarrow> 'r codec" where
  "table_codec rs =
     \<lparr>encode = (\<lambda>r. map_option (\<lambda>n. replicate n 0) (List.find (\<lambda>n. rs ! n = r) [0 ..< length rs])),
      decode = (\<lambda>bs. vec_get rs (length bs))\<rparr>"

lemma table_codec_ok: "r \<in> set rs \<Longrightarrow> codec_ok (table_codec rs) (\<lambda>_. True) r"
proof -
  assume "r \<in> set rs"
  then obtain k where "k < length rs" "rs ! k = r" by (metis in_set_conv_nth)
  then have "List.find (\<lambda>n. rs ! n = r) [0 ..< length rs] \<noteq> None" by (auto simp: find_None_iff)
  then obtain n where n: "List.find (\<lambda>n. rs ! n = r) [0 ..< length rs] = Some n" by blast
  then have "n < length rs" "rs ! n = r" by (auto simp: find_Some_iff)
  with n show ?thesis by (simp add: codec_ok_def table_codec_def)
qed

section \<open>The record that counts\<close>

definition record_in :: "(string \<Rightarrow> bytes option) \<Rightarrow> string \<Rightarrow> slot \<Rightarrow> decoded_record option" where
  "record_in m key slot = Option.bind (m (slot_key key slot)) decode_record"

definition winner :: "(string \<Rightarrow> bytes option) \<Rightarrow> string \<Rightarrow> (slot \<times> decoded_record) option" where
  "winner m key =
     (case (record_in m key SlotA, record_in m key SlotB) of
        (Some a, Some b) \<Rightarrow> Some (if seq_is_later (record_seq b) (record_seq a) then (SlotB, b) else (SlotA, a))
      | (Some a, None) \<Rightarrow> Some (SlotA, a)
      | (None, Some b) \<Rightarrow> Some (SlotB, b)
      | (None, None) \<Rightarrow> None)"

definition value_of_record :: "decoded_record \<Rightarrow> bytes option" where
  "value_of_record r = (if record_kind r = record_kind_value then Some (record_payload r) else None)"

definition atomic_contents :: "(string \<Rightarrow> bytes option) \<Rightarrow> string \<Rightarrow> bytes option" where
  "atomic_contents m key = Option.bind (map_option snd (winner m key)) value_of_record"

text \<open>Two records of a key are consecutive, so that one of them is the later.\<close>

definition slots_consistent :: "(string \<Rightarrow> bytes option) \<Rightarrow> bool" where
  "slots_consistent m =
     (\<forall>key a b. record_in m key SlotA = Some a \<longrightarrow> record_in m key SlotB = Some b \<longrightarrow>
        record_seq b = record_seq a + 1 \<or> record_seq a = record_seq b + 1)"

definition write_target :: "(string \<Rightarrow> bytes option) \<Rightarrow> string \<Rightarrow> slot \<times> u64" where
  "write_target m key =
     (case winner m key of None \<Rightarrow> (SlotA, 0) | Some (slot, r) \<Rightarrow> (slot_other slot, record_seq r + 1))"

lemma slot_key_inject [simp]: "slot_key k a = slot_key j b \<longleftrightarrow> k = j \<and> a = b"
  by (cases a; cases b) (auto simp: slot_key_def)

lemma slot_other_simps [simp]: "slot_other s \<noteq> s" "s \<noteq> slot_other s" "slot_other (slot_other s) = s"
  by (cases s; simp)+

lemma seq_is_later_next [simp]: "seq_is_later (n + 1) n" "\<not> seq_is_later n (n + 1)"
  by (simp_all add: seq_is_later_def Let_def)

lemma empty_consistent [simp]: "slots_consistent Map.empty"
  by (simp add: slots_consistent_def record_in_def)

lemma record_in_other:
  "\<forall>j. j \<noteq> slot_key key target \<longrightarrow> m' j = m j \<Longrightarrow> (k, slot) \<noteq> (key, target) \<Longrightarrow> record_in m' k slot = record_in m k slot"
  by (auto simp: record_in_def)

lemma atomic_contents_cong:
  "(\<And>slot. record_in m' key slot = record_in m key slot) \<Longrightarrow> atomic_contents m' key = atomic_contents m key"
  by (simp add: atomic_contents_def winner_def)

lemma winner_cases:
  assumes "slots_consistent m"
  obtains (none) "winner m key = None" "\<And>slot. record_in m key slot = None"
  | (some) slot r where "winner m key = Some (slot, r)" "record_in m key slot = Some r"
      "record_in m key (slot_other slot) = None
       \<or> (\<exists>r'. record_in m key (slot_other slot) = Some r' \<and> record_seq r = record_seq r' + 1)"
proof -
  note seq = assms [unfolded slots_consistent_def, rule_format, of key]
  have none: "record_in m key slot = None" if "record_in m key SlotA = None" "record_in m key SlotB = None" for slot
    using that by (cases slot) simp_all
  show ?thesis
  proof (cases "record_in m key SlotA")
    case None
    with that none show ?thesis by (cases "record_in m key SlotB") (auto simp: winner_def)
  next
    case (Some a)
    show ?thesis
    proof (cases "record_in m key SlotB")
      case None
      with Some that(2) [of SlotA a] show ?thesis by (simp add: winner_def)
    next
      case b: (Some b)
      from seq [OF Some b] show ?thesis
        using Some b that(2) [of SlotA a] that(2) [of SlotB b] by (auto simp: winner_def)
    qed
  qed
qed

text \<open>A write to the slot that does not count: it is complete, or it has not happened.\<close>

lemma slot_write:
  assumes cons: "slots_consistent m" and target: "write_target m key = (target, seq)"
    and same: "\<forall>j. j \<noteq> slot_key key target \<longrightarrow> m' j = m j"
    and here: "record_in m' key target \<in> {record_in m key target, None, Some r}" and "record_seq r = seq"
  shows "slots_consistent m'"
    and "k \<noteq> key \<Longrightarrow> atomic_contents m' k = atomic_contents m k"
    and "record_in m' key target = Some r \<Longrightarrow> atomic_contents m' key = value_of_record r"
    and "record_in m' key target \<noteq> Some r \<Longrightarrow> atomic_contents m' key = atomic_contents m key"
proof -
  note other = record_in_other [OF same]
  show "k \<noteq> key \<Longrightarrow> atomic_contents m' k = atomic_contents m k"
    by (rule atomic_contents_cong) (simp add: other)
  have away: "record_in m' key (slot_other target) = record_in m key (slot_other target)" by (simp add: other)
  have old: "record_in m' key target \<in> {record_in m key target, None}
      \<longrightarrow> winner m' key = winner m key" and
    new: "record_in m' key target = Some r \<longrightarrow> winner m' key = Some (target, r)" and
    seqs: "\<And>a b. record_in m' key SlotA = Some a \<Longrightarrow> record_in m' key SlotB = Some b \<Longrightarrow>
      record_seq b = record_seq a + 1 \<or> record_seq a = record_seq b + 1"
  proof -
    show "record_in m' key target \<in> {record_in m key target, None} \<longrightarrow> winner m' key = winner m key"
      using cons
    proof (cases rule: winner_cases [where key = key])
      case none
      with away show ?thesis by (cases target) (auto simp: winner_def)
    next
      case (some slot r)
      with target have t: "target = slot_other slot" by (simp add: write_target_def)
      from some away show ?thesis by (cases slot) (auto simp: t winner_def)
    qed
    show "record_in m' key target = Some r \<longrightarrow> winner m' key = Some (target, r)"
      using cons
    proof (cases rule: winner_cases [where key = key])
      case none
      with away show ?thesis by (cases target) (auto simp: winner_def)
    next
      case (some slot r0)
      with target have t: "target = slot_other slot" "seq = record_seq r0 + 1" by (simp_all add: write_target_def)
      from some(2) away show ?thesis
        by (cases slot) (auto simp: t \<open>record_seq r = seq\<close> winner_def)
    qed
    show "record_seq b = record_seq a + 1 \<or> record_seq a = record_seq b + 1"
      if "record_in m' key SlotA = Some a" "record_in m' key SlotB = Some b" for a b
      using cons
    proof (cases rule: winner_cases [where key = key])
      case none
      with away that show ?thesis by (cases target) auto
    next
      case (some slot r0)
      with target have t: "target = slot_other slot" "seq = record_seq r0 + 1" by (simp_all add: write_target_def)
      from some(2,3) away here that show ?thesis
        by (cases slot) (auto simp: t \<open>record_seq r = seq\<close>)
    qed
  qed
  show "slots_consistent m'"
    unfolding slots_consistent_def
  proof (intro allI impI)
    fix k a b
    assume "record_in m' k SlotA = Some a" "record_in m' k SlotB = Some b"
    then show "record_seq b = record_seq a + 1 \<or> record_seq a = record_seq b + 1"
      using seqs cons by (cases "k = key") (auto simp: slots_consistent_def other)
  qed
  show "record_in m' key target = Some r \<Longrightarrow> atomic_contents m' key = value_of_record r"
    using new by (simp add: atomic_contents_def)
  show "record_in m' key target \<noteq> Some r \<Longrightarrow> atomic_contents m' key = atomic_contents m key"
    using old here by (auto simp: atomic_contents_def)
qed

section \<open>AtomicStorage keeps the contract\<close>

lemma slot_record_Inr [simp]: "slot_record (Inr x) = Option.bind x decode_record"
  by (cases x) (simp_all add: slot_record_def)

lemma no_record_Inr [simp]: "no_record (Inr x) (Inr y) = Inr None"
  by (simp add: no_record_def)

context kv_storage
begin

lemma read_slots_eq:
  "inv s \<Longrightarrow> read_slots st key s = Inr (map_option (\<lambda>(slot, r). (slot, record_seq r)) (winner (contents s) key))"
  by (auto simp: read_slots_def Let_def get winner_def record_in_def split: option.splits)

lemma atomic_get_eq: "inv s \<Longrightarrow> atomic_get st key s = Inr (atomic_contents (contents s) key)"
  by (auto simp: atomic_get_def Let_def get winner_def record_in_def atomic_contents_def value_of_record_def
      split: option.splits)

lemma write_record_eq:
  "inv s \<Longrightarrow> write_record st key kind payload s =
     (let (target, seq) = write_target (contents s) key
      in storage_set st (slot_key key target) (encode_record seq kind payload) s)"
  by (auto simp: write_record_def read_slots_eq write_target_def split: option.splits)

end

context torn_medium
begin

lemma write_record_contract:
  assumes inv: "inv s" and cons: "slots_consistent (contents s)"
    and run: "write_record st key kind payload s = (s', r)"
    and fits: "length payload < 2 ^ 32" and kind: "kind \<in> {record_kind_value, record_kind_tombstone}"
  defines "v \<equiv> (if kind = record_kind_value then Some payload else None)"
  shows "inv s' \<and> slots_consistent (contents s')"
    and "k \<noteq> key \<Longrightarrow> atomic_contents (contents s') k = atomic_contents (contents s) k"
    and "r = None \<Longrightarrow> atomic_contents (contents s') key = v"
    and "atomic_contents (contents s') key \<in> {atomic_contents (contents s) key, v}"
proof -
  obtain target seq where t: "write_target (contents s) key = (target, seq)" by (metis surj_pair)
  let ?r = "\<lparr>record_seq = seq, record_kind = kind, record_payload = payload\<rparr>"
  let ?bs = "encode_record seq kind payload"
  have decode: "decode_record ?bs = Some ?r" by (rule decode_encode [OF fits kind])
  have set_eq: "storage_set st (slot_key key target) ?bs s = (s', r)"
    using run t by (simp add: write_record_eq [OF inv])
  from set [OF inv TrueI set_eq] have inv': "inv s'"
    and same: "\<forall>j. j \<noteq> slot_key key target \<longrightarrow> contents s' j = contents s j"
    and stored: "r = None \<longrightarrow> record_in (contents s') key target = Some ?r"
    by (auto simp: record_in_def decode)
  have here: "record_in (contents s') key target \<in> {record_in (contents s) key target, None, Some ?r}"
  proof (cases r)
    case (Some e)
    with set_eq have failed: "storage_set st (slot_key key target) ?bs s = (s', Some e)" by simp
    from torn [OF inv fits failed]
    have "contents s' (slot_key key target) \<in> {contents s (slot_key key target), Some ?bs}
        \<or> Option.bind (contents s' (slot_key key target)) decode_record = None" .
    then show ?thesis by (auto simp: record_in_def decode)
  qed (use stored in simp)
  note w = slot_write [OF cons t same here, simplified]
  have v: "value_of_record ?r = v" by (simp add: value_of_record_def v_def)
  show "inv s' \<and> slots_consistent (contents s')" using inv' w(1) by simp
  show "k \<noteq> key \<Longrightarrow> atomic_contents (contents s') k = atomic_contents (contents s) k" by (rule w(2))
  show "r = None \<Longrightarrow> atomic_contents (contents s') key = v" using w(3) stored v by simp
  show "atomic_contents (contents s') key \<in> {atomic_contents (contents s) key, v}"
    using w(3,4) v by (cases "record_in (contents s') key target = Some ?r") auto
qed

end

sublocale torn_medium \<subseteq> atomic: crash_safe_storage "atomic_storage st" "\<lambda>s. atomic_contents (contents s)"
  "\<lambda>s. inv s \<and> slots_consistent (contents s)" "\<lambda>v. length v < 2 ^ 32"
proof
  show "storage_get (atomic_storage st) k s = Inr (atomic_contents (contents s) k)"
    if "inv s \<and> slots_consistent (contents s)" for s k
    using that by (simp add: atomic_storage_def atomic_get_eq)
next
  fix s s' :: 's and k v r
  assume "inv s \<and> slots_consistent (contents s)" "length v < 2 ^ 32" "storage_set (atomic_storage st) k v s = (s', r)"
  then show "(inv s' \<and> slots_consistent (contents s'))
      \<and> (\<forall>j. j \<noteq> k \<longrightarrow> atomic_contents (contents s') j = atomic_contents (contents s) j)
      \<and> (r = None \<longrightarrow> atomic_contents (contents s') k = Some v)"
    using write_record_contract [of s k record_kind_value v s' r] by (auto simp: atomic_storage_def)
next
  fix s s' :: 's and k r
  assume "inv s \<and> slots_consistent (contents s)" "storage_remove (atomic_storage st) k s = (s', r)"
  then show "(inv s' \<and> slots_consistent (contents s'))
      \<and> (\<forall>j. j \<noteq> k \<longrightarrow> atomic_contents (contents s') j = atomic_contents (contents s) j)
      \<and> (r = None \<longrightarrow> atomic_contents (contents s') k = None)"
    using write_record_contract [of s k record_kind_tombstone "[]" s' r]
    by (auto simp: atomic_storage_def record_kind_value_def record_kind_tombstone_def)
next
  fix s s' :: 's and k v e
  assume "inv s \<and> slots_consistent (contents s)" "length v < 2 ^ 32" "storage_set (atomic_storage st) k v s = (s', Some e)"
  then show "atomic_contents (contents s') k \<in> {atomic_contents (contents s) k, Some v}"
    using write_record_contract(4) [of s k record_kind_value v s' "Some e"] by (auto simp: atomic_storage_def)
next
  fix s s' :: 's and k e
  assume "inv s \<and> slots_consistent (contents s)" "storage_remove (atomic_storage st) k s = (s', Some e)"
  then show "atomic_contents (contents s') k \<in> {atomic_contents (contents s) k, None}"
    using write_record_contract(4) [of s k record_kind_tombstone "[]" s' "Some e"]
    by (auto simp: atomic_storage_def record_kind_value_def record_kind_tombstone_def)
qed

sublocale durable_medium \<subseteq> atomic_durable: durable_storage "atomic_storage st" "\<lambda>s. atomic_contents (contents s)"
  "\<lambda>s. inv s \<and> slots_consistent (contents s)" "\<lambda>v. length v < 2 ^ 32"
proof
  have "snd (write_record st key kind payload s) = None" if "inv s" for s key kind payload
    using that by (simp add: write_record_eq medium_set_ok split: prod.splits)
  then show "r = None"
    if "inv s \<and> slots_consistent (contents s)" "storage_set (atomic_storage st) k v s = (s', r)" for s s' k v r
    using that by (metis atomic_storage_def snd_conv storage.select_convs(2))
  show "r = None"
    if "inv s \<and> slots_consistent (contents s)" "storage_remove (atomic_storage st) k s = (s', r)" for s s' k r
    using that \<open>\<And>s payload key kind. inv s \<Longrightarrow> snd (write_record st key kind payload s) = None\<close>
    by (metis atomic_storage_def snd_conv storage.select_convs(3))
qed

section \<open>The stores\<close>

interpretation in_memory: crash_safe_storage in_memory_storage id "\<lambda>_. True" "\<lambda>_. True"
  by unfold_locales (auto simp: in_memory_storage_def)

text \<open>A medium that loses power: the write under way is complete, stops after some bytes, or leaves
  bytes that are no record.\<close>

datatype power = PowerStays | PowerLostAfter nat | PowerLostGarbled bytes

definition flash_storage :: "power \<Rightarrow> (string \<rightharpoonup> bytes, unit) storage" where
  "flash_storage p =
     \<lparr>storage_get = (\<lambda>k m. Inr (m k)),
      storage_set = (\<lambda>k v m.
        case p of
          PowerStays \<Rightarrow> (m(k \<mapsto> v), None)
        | PowerLostAfter n \<Rightarrow> (m(k \<mapsto> take n v), if n < length v then Some () else None)
        | PowerLostGarbled g \<Rightarrow> (m(k \<mapsto> g), Some ())),
      storage_remove = (\<lambda>k m. (m(k := None), None))\<rparr>"

definition power_ok :: "power \<Rightarrow> bool" where
  "power_ok p = (case p of PowerLostGarbled g \<Rightarrow> decode_record g = None | _ \<Rightarrow> True)"

lemma flash_torn_medium:
  assumes "power_ok p"
  shows "torn_medium (flash_storage p) id (\<lambda>_. True)"
proof
  show "storage_get (flash_storage p) k s = Inr (id s k)" for s k by (simp add: flash_storage_def)
  show "True \<and> (\<forall>j. j \<noteq> k \<longrightarrow> id s' j = id s j) \<and> (r = None \<longrightarrow> id s' k = Some v)"
    if "storage_set (flash_storage p) k v s = (s', r)" for s s' k v r
    using that by (auto simp: flash_storage_def split: power.splits if_splits)
  show "True \<and> (\<forall>j. j \<noteq> k \<longrightarrow> id s' j = id s j) \<and> (r = None \<longrightarrow> id s' k = None)"
    if "storage_remove (flash_storage p) k s = (s', r)" for s s' k r
    using that by (auto simp: flash_storage_def)
  show "id s' k \<in> {id s k, Some (encode_record seq kind payload)} \<or> Option.bind (id s' k) decode_record = None"
    if "storage_set (flash_storage p) k (encode_record seq kind payload) s = (s', Some e)" "length payload < 2 ^ 32"
    for s s' k seq kind payload e
    using that assms by (auto simp: flash_storage_def power_ok_def decode_truncated split: power.splits if_splits)
qed

interpretation in_memory_medium: durable_medium in_memory_storage id "\<lambda>_. True"
  by unfold_locales (auto simp: in_memory_storage_def)

section \<open>Power cuts\<close>

text \<open>Operations on \<open>AtomicStorage\<close>, each with what happens to the power while it runs, and what the
  caller may rely on: the operations that reported success.\<close>

datatype storage_op = SetOp string bytes | RemoveOp string

fun op_run :: "('s, 'e) storage \<Rightarrow> storage_op \<Rightarrow> 's \<Rightarrow> 's \<times> 'e option" where
  "op_run st (SetOp k v) s = storage_set st k v s"
| "op_run st (RemoveOp k) s = storage_remove st k s"

fun op_effect :: "storage_op \<Rightarrow> (string \<rightharpoonup> bytes) \<Rightarrow> (string \<rightharpoonup> bytes)" where
  "op_effect (SetOp k v) m = m(k \<mapsto> v)"
| "op_effect (RemoveOp k) m = m(k := None)"

fun op_fits :: "storage_op \<Rightarrow> bool" where
  "op_fits (SetOp k v) = (length v < 2 ^ 32)"
| "op_fits (RemoveOp k) = True"

fun powered_run :: "(storage_op \<times> power) list \<Rightarrow> (string \<rightharpoonup> bytes) \<Rightarrow> (string \<rightharpoonup> bytes) \<times> storage_op list" where
  "powered_run [] m = (m, [])"
| "powered_run ((op, p) # ops) m =
     (case op_run (atomic_storage (flash_storage p)) op m of
        (m', r) \<Rightarrow> (case powered_run ops m' of (m'', ok) \<Rightarrow> (m'', if r = None then op # ok else ok)))"

lemma flash_failed_write:
  assumes p: "power_ok p" and cons: "slots_consistent m" and fits: "length payload < 2 ^ 32"
    and run: "write_record (flash_storage p) key kind payload m = (m', Some e)"
  shows "atomic_contents m' key = atomic_contents m key"
proof -
  obtain target seq where t: "write_target m key = (target, seq)" by (metis surj_pair)
  let ?r = "\<lparr>record_seq = seq, record_kind = kind, record_payload = payload\<rparr>"
  have failed: "storage_set (flash_storage p) (slot_key key target) (encode_record seq kind payload) m = (m', Some e)"
    using run t torn_medium.axioms(1) [OF flash_torn_medium [OF p]]
    by (simp add: kv_storage.write_record_eq [where contents = id])
  then have none: "record_in m' key target = None" and same: "\<forall>j. j \<noteq> slot_key key target \<longrightarrow> m' j = m j"
    using p fits by (auto simp: flash_storage_def power_ok_def record_in_def decode_truncated split: power.splits if_splits)
  show ?thesis
    using slot_write(4) [OF cons t same, of ?r] none by simp
qed

lemma flash_op:
  assumes "op_fits op" and p: "power_ok p" and cons: "slots_consistent m"
    and run: "op_run (atomic_storage (flash_storage p)) op m = (m', r)"
  shows "slots_consistent m' \<and> atomic_contents m' = (if r = None then op_effect op (atomic_contents m) else atomic_contents m)"
proof -
  obtain key kind payload where op: "write_record (flash_storage p) key kind payload m = (m', r)"
    "length payload < 2 ^ 32" "kind \<in> {record_kind_value, record_kind_tombstone}"
    "op_effect op = (\<lambda>x. x(key := if kind = record_kind_value then Some payload else None))"
  proof (cases op)
    case (SetOp k v)
    with run assms(1) show ?thesis by (intro that [of k record_kind_value v]) (auto simp: atomic_storage_def)
  next
    case (RemoveOp k)
    with run show ?thesis
      by (intro that [of k record_kind_tombstone "[]"])
        (auto simp: atomic_storage_def record_kind_value_def record_kind_tombstone_def)
  qed
  have contract: "slots_consistent m'" "\<And>k. k \<noteq> key \<Longrightarrow> atomic_contents m' k = atomic_contents m k"
    "r = None \<Longrightarrow> atomic_contents m' key = (if kind = record_kind_value then Some payload else None)"
    using torn_medium.write_record_contract [OF flash_torn_medium [OF p] TrueI, of m key kind payload m' r]
      op(1-3) cons by simp_all
  show ?thesis
  proof (cases r)
    case (Some e)
    then have "atomic_contents m' key = atomic_contents m key"
      using flash_failed_write [OF p cons op(2)] op(1) by simp
    with contract(2) have "atomic_contents m' k = atomic_contents m k" for k by (cases "k = key") simp_all
    with contract(1) Some show ?thesis by (simp add: fun_eq_iff)
  qed (use contract op(4) in auto)
qed

lemma powered_run_contents:
  assumes "list_all (\<lambda>(op, p). op_fits op \<and> power_ok p) ops" and "powered_run ops m = (m', ok)"
    and "slots_consistent m"
  shows "slots_consistent m' \<and> atomic_contents m' = fold op_effect ok (atomic_contents m)"
  using assms
proof (induction ops arbitrary: m ok)
  case (Cons x ops)
  obtain op p where x: "x = (op, p)" by force
  obtain m1 r where step: "op_run (atomic_storage (flash_storage p)) op m = (m1, r)" by force
  then obtain oks where rest: "powered_run ops m1 = (m', oks)" and ok: "ok = (if r = None then op # oks else oks)"
    using Cons.prems(2) by (auto simp: x split: prod.splits)
  have "op_fits op" "power_ok p" using Cons.prems(1) by (simp_all add: x)
  note here = flash_op [OF this Cons.prems(3) step]
  with Cons.IH [OF _ rest] Cons.prems(1) show ?case by (auto simp: ok)
qed simp

text \<open>An operation reports success exactly where the power held until its last byte.\<close>

fun completes :: "storage_op \<Rightarrow> power \<Rightarrow> bool" where
  "completes op PowerStays = True"
| "completes op (PowerLostAfter n) = (record_header_len + (case op of SetOp k v \<Rightarrow> length v | RemoveOp k \<Rightarrow> 0) \<le> n)"
| "completes op (PowerLostGarbled g) = False"

lemma flash_write_result:
  "snd (write_record (flash_storage p) key kind payload m) = (if completes (SetOp key payload) p then None else Some ())"
proof -
  obtain target seq where t: "write_target m key = (target, seq)" by (metis surj_pair)
  have "kv_storage (flash_storage p) id (\<lambda>_. True) (\<lambda>_. True)"
    by unfold_locales (auto simp: flash_storage_def split: power.splits if_splits)
  from kv_storage.write_record_eq [OF this TrueI, of key kind payload m]
  have "write_record (flash_storage p) key kind payload m
      = storage_set (flash_storage p) (slot_key key target) (encode_record seq kind payload) m"
    by (simp add: t)
  then show ?thesis by (cases p) (simp_all add: flash_storage_def)
qed

lemma powered_run_ok: "snd (powered_run ops m) = map fst (filter (\<lambda>(op, p). completes op p) ops)"
proof (induction ops arbitrary: m)
  case (Cons x ops)
  obtain op p where x: "x = (op, p)" by force
  have "snd (op_run (atomic_storage (flash_storage p)) op m) = (if completes op p then None else Some ())"
    by (cases op; cases p) (simp_all add: atomic_storage_def flash_write_result)
  moreover obtain m1 r where "op_run (atomic_storage (flash_storage p)) op m = (m1, r)" by force
  moreover obtain m2 oks where "powered_run ops m1 = (m2, oks)" by force
  ultimately show ?case using Cons [of m1] by (auto simp: x)
qed simp



end
