(* ===== verification/Persistence.thy ===== *)
theory Persistence
  imports Storage_Contract Requests
begin

text \<open>
  Durable transactions, \<open>src/persistence.rs\<close>: the write policy, the store of transaction records
  and of the id counter, one turn of the loop that persists transaction events, and the recovery at
  boot.  The encoding of a record is that of serde and a parameter: a pair of functions that may
  fail.
\<close>

section \<open>Records and the write policy\<close>

definition schema_version :: u32 where
  "schema_version = 1"

definition default_meter_write_threshold_wh :: i64 where
  "default_meter_write_threshold_wh = 100"

record persisted_transaction =
  persisted_schema_version :: u32
  persisted_evse :: usize
  persisted_connector :: usize
  persisted_tx :: transaction
  persisted_started_at :: "date_time option"
  persisted_meter_start :: "meter_sample option"

datatype persistence_decision = PersistWrite | PersistSkip | PersistClear

text \<open>\<open>(a - b).abs() >= threshold\<close> on \<open>i64\<close>.\<close>

definition moved_by :: "i64 \<Rightarrow> meter_sample \<Rightarrow> meter_sample \<Rightarrow> bool" where
  "moved_by threshold sample persisted =
     (threshold \<le> wrap_i64 \<bar>wrap_i64 (energy_wh sample - energy_wh persisted)\<bar>)"

definition persistence_decision_of ::
  "persisted_transaction option \<Rightarrow> transaction_event \<Rightarrow> i64 \<Rightarrow> persistence_decision" where
  "persistence_decision_of previous occurred threshold =
     (case tev_kind occurred of
        Ended \<Rightarrow> PersistClear
      | Started \<Rightarrow> PersistWrite
      | Updated ChargingStateChanged \<Rightarrow> PersistWrite
      | Updated MeterValuePeriodic \<Rightarrow>
          (case tx_last_meter_sample (tev_transaction occurred) of
             None \<Rightarrow> PersistSkip
           | Some sample \<Rightarrow>
               (case previous of
                  None \<Rightarrow> PersistWrite
                | Some p \<Rightarrow>
                    (case tx_last_meter_sample (persisted_tx p) of
                       None \<Rightarrow> PersistWrite
                     | Some persisted \<Rightarrow> if moved_by threshold sample persisted then PersistWrite else PersistSkip)))
      | Updated _ \<Rightarrow> PersistSkip)"

definition next_record ::
  "persisted_transaction option \<Rightarrow> transaction_event \<Rightarrow> date_time \<Rightarrow> persisted_transaction" where
  "next_record previous occurred now =
     \<lparr>persisted_schema_version = schema_version,
      persisted_evse = tev_evse occurred,
      persisted_connector = tev_connector occurred,
      persisted_tx = tev_transaction occurred,
      persisted_started_at =
        (if tev_kind occurred = Started then (if is_synchronized now then Some now else None)
         else Option.bind previous persisted_started_at),
      persisted_meter_start =
        opt_or (Option.bind previous persisted_meter_start) (tx_last_meter_sample (tev_transaction occurred))\<rparr>"

section \<open>The transaction store\<close>

definition ascii_bytes :: "string \<Rightarrow> bytes" where
  "ascii_bytes s = map of_char s"

definition key_prefix :: string where
  "key_prefix = ''ocpp-cp/txn''"

definition transaction_key :: "usize \<Rightarrow> usize \<Rightarrow> string" where
  "transaction_key i c = key_prefix @ ''/'' @ nat_to_string i @ ''/'' @ nat_to_string c"

definition counter_key :: string where
  "counter_key = key_prefix @ ''/next-id''"

text \<open>The flag tells whether the write reached storage.\<close>

definition save_record ::
  "persisted_transaction codec \<Rightarrow> ('s, 'e) storage \<Rightarrow> persisted_transaction \<Rightarrow> 's \<Rightarrow> 's \<times> bool" where
  "save_record codec st r s =
     (case encode codec r of
        None \<Rightarrow> (s, False)
      | Some encoded \<Rightarrow>
          (case storage_set st (transaction_key (persisted_evse r) (persisted_connector r)) encoded s of
             (s', failed) \<Rightarrow> (s', failed = None)))"

definition clear_record :: "('s, 'e) storage \<Rightarrow> usize \<Rightarrow> usize \<Rightarrow> 's \<Rightarrow> 's" where
  "clear_record st i c s = fst (storage_remove st (transaction_key i c) s)"

definition load_record ::
  "persisted_transaction codec \<Rightarrow> ('s, 'e) storage \<Rightarrow> usize \<Rightarrow> usize \<Rightarrow> 's \<Rightarrow> persisted_transaction option" where
  "load_record codec st i c s =
     (case storage_get st (transaction_key i c) s of
        Inr (Some encoded) \<Rightarrow> opt_filter (\<lambda>r. persisted_schema_version r = schema_version) (decode codec encoded)
      | _ \<Rightarrow> None)"

definition load_all ::
  "persisted_transaction codec \<Rightarrow> ('s, 'e) storage \<Rightarrow> usize list \<Rightarrow> 's \<Rightarrow> persisted_transaction list" where
  "load_all codec st counts s =
     List.map_filter (\<lambda>(i, c). load_record codec st i c s)
       (concat (map (\<lambda>(i, n). map (Pair i) [0 ..< n]) (enumerate 0 counts)))"

definition save_next_transaction_id :: "('s, 'e) storage \<Rightarrow> u64 \<Rightarrow> 's \<Rightarrow> 's" where
  "save_next_transaction_id st n s = fst (storage_set st counter_key (ascii_bytes (nat_to_string (unat n))) s)"

text \<open>\<open>str::from_utf8\<close> and \<open>str::parse\<close> at \<open>u64\<close>: bytes that are not digits parse to no number.\<close>

definition parse_u64_bytes :: "bytes \<Rightarrow> u64 option" where
  "parse_u64_bytes bs = map_option word_of_int (parse_unsigned (2 ^ 64 - 1) (map (\<lambda>b. char_of (unat b)) bs))"

definition load_next_transaction_id :: "('s, 'e) storage \<Rightarrow> 's \<Rightarrow> u64" where
  "load_next_transaction_id st s =
     (case storage_get st counter_key s of
        Inr (Some encoded) \<Rightarrow> unwrap_or (parse_u64_bytes encoded) 0
      | _ \<Rightarrow> 0)"

section \<open>The persistence loop\<close>

text \<open>The last record written per connector, as the loop remembers it.\<close>

type_synonym shadow = "((usize \<times> usize) \<times> persisted_transaction) list"

definition shadow_of :: "usize \<times> usize \<Rightarrow> shadow \<Rightarrow> persisted_transaction option" where
  "shadow_of address shadow = map_option snd (List.find (\<lambda>x. fst x = address) shadow)"

definition shadow_retain :: "usize \<times> usize \<Rightarrow> shadow \<Rightarrow> shadow" where
  "shadow_retain address shadow = filter (\<lambda>x. fst x \<noteq> address) shadow"

definition persist_event ::
  "persisted_transaction codec \<Rightarrow> ('s, 'e) storage \<Rightarrow> i64 \<Rightarrow> date_time \<Rightarrow> transaction_event
   \<Rightarrow> shadow \<times> 's \<Rightarrow> shadow \<times> 's" where
  "persist_event codec st threshold now occurred = (\<lambda>(shadow, s).
     let address = (tev_evse occurred, tev_connector occurred);
         previous = shadow_of address shadow
     in case persistence_decision_of previous occurred threshold of
          PersistSkip \<Rightarrow> (shadow, s)
        | PersistClear \<Rightarrow> (shadow_retain address shadow, clear_record st (fst address) (snd address) s)
        | PersistWrite \<Rightarrow>
            (let r = next_record previous occurred now;
                 s1 = (if tev_kind occurred = Started then save_next_transaction_id st (tx_id (persisted_tx r) + 1) s else s)
             in case save_record codec st r s1 of
                  (s2, ok) \<Rightarrow> (if ok then shadow_retain address shadow @ [(address, r)] else shadow, s2)))"

text \<open>The loop, with the clock reading at each event.\<close>

definition persist_run ::
  "persisted_transaction codec \<Rightarrow> ('s, 'e) storage \<Rightarrow> i64 \<Rightarrow> (date_time \<times> transaction_event) list
   \<Rightarrow> shadow \<times> 's \<Rightarrow> shadow \<times> 's" where
  "persist_run codec st threshold xs = fold (\<lambda>(now, x). persist_event codec st threshold now x) xs"

section \<open>Recovery\<close>

text \<open>The event sent to the state machine, and the store after the records have been cleared.\<close>

definition restore_transactions ::
  "persisted_transaction codec \<Rightarrow> ('s, 'e) storage \<Rightarrow> charge_point_state \<Rightarrow> 's \<Rightarrow> charge_point_event \<times> 's" where
  "restore_transactions codec st cp s =
     (let records = load_all codec st (map (\<lambda>e. length (connectors e)) (evses cp)) s
      in (PersistedTransactionsRestored (load_next_transaction_id st s)
            (map (\<lambda>r. \<lparr>recovered_tx_evse = persisted_evse r, recovered_tx_connector = persisted_connector r,
                       recovered_tx = persisted_tx r\<rparr>) records),
          fold (\<lambda>r. clear_record st (persisted_evse r) (persisted_connector r)) records s))"

section \<open>Keys and the counter\<close>

lemma digit_char_no_slash [simp]: "n < 10 \<Longrightarrow> digit_char n \<noteq> CHR ''/''"
  by (auto simp: digit_char_def dest!: arg_cong [where f = "of_char :: char \<Rightarrow> nat"])

lemma nat_to_string_digits: "set (nat_to_string n) \<subseteq> digit_char ` {..<10}"
proof (induction n rule: nat_to_string.induct)
  case (1 n)
  then show ?case by (subst nat_to_string.simps) auto
qed

lemma nat_to_string_no_slash: "CHR ''/'' \<notin> set (nat_to_string n)"
  using nat_to_string_digits [of n] by (auto dest: digit_char_no_slash [symmetric])

lemma append_slash_inject:
  assumes "CHR ''/'' \<notin> set a" and "CHR ''/'' \<notin> set b"
  shows "a @ ''/'' @ x = b @ ''/'' @ y \<longleftrightarrow> a = b \<and> x = y"
  using assms
proof (induction a arbitrary: b)
  case Nil
  then show ?case by (cases b) auto
next
  case (Cons c a)
  then show ?case by (cases b) auto
qed

lemma transaction_key_inject [simp]: "transaction_key i c = transaction_key j d \<longleftrightarrow> i = j \<and> c = d"
  using append_slash_inject [OF nat_to_string_no_slash nat_to_string_no_slash, of i "nat_to_string c" j "nat_to_string d"]
  by (simp add: transaction_key_def)

lemma transaction_key_not_counter [simp]: "transaction_key i c \<noteq> counter_key" "counter_key \<noteq> transaction_key i c"
proof -
  have "CHR ''/'' \<in> set (nat_to_string i @ ''/'' @ nat_to_string c)" by simp
  moreover have "CHR ''/'' \<notin> set ''next-id''" by simp
  ultimately have "nat_to_string i @ ''/'' @ nat_to_string c \<noteq> ''next-id''" by metis
  then show "transaction_key i c \<noteq> counter_key" "counter_key \<noteq> transaction_key i c"
    by (auto simp: transaction_key_def counter_key_def)
qed

lemma ascii_roundtrip: "map (\<lambda>b. char_of (unat b)) (ascii_bytes s) = s"
proof -
  have "char_of (unat (of_char c :: u8)) = c" for c
  proof -
    have "unat (of_nat (of_char c) :: u8) = of_char c" by (simp add: unat_of_nat)
    then have "unat (of_char c :: u8) = of_char c" by (simp only: of_nat_of_char)
    then show ?thesis by simp
  qed
  then show ?thesis by (simp add: ascii_bytes_def comp_def)
qed

lemma parse_unsigned_nat_to_string:
  assumes "int n \<le> most"
  shows "parse_unsigned most (nat_to_string n) = Some (int n)"
proof -
  obtain c cs where c: "nat_to_string n = c # cs" by (metis nat_to_string_nonempty neq_Nil_conv)
  then have "c \<in> digit_char ` {..<10}" using nat_to_string_digits [of n] by auto
  then have "c \<noteq> CHR ''-''" "c \<noteq> CHR ''+''"
    by (auto simp: digit_char_def dest!: arg_cong [where f = "of_char :: char \<Rightarrow> nat"])
  then show ?thesis
    using assms parse_digits_nat_to_string [of n] by (simp add: parse_unsigned_def parse_int_def c)
qed

lemma parse_u64_counter [simp]: "parse_u64_bytes (ascii_bytes (nat_to_string (unat n))) = Some n"
proof -
  have "int (unat n) \<le> 2 ^ 64 - 1" using uint_lt2p [of n] by simp
  then show ?thesis by (simp add: parse_u64_bytes_def ascii_roundtrip parse_unsigned_nat_to_string)
qed

end
