(* ===== verification/Persistence_Properties.thy ===== *)
theory Persistence_Properties
  imports Persistence Reservation_Properties Session_Transactions
begin

text \<open>
  What the persistence of transactions guarantees: the records mirror the transactions of the state
  machine up to the threshold of the write policy, and a boot after a loss of power closes every one
  of them out.
\<close>

section \<open>Numbers as text\<close>

lemma length_nat_to_string: "n < 10 ^ Suc k \<Longrightarrow> length (nat_to_string n) \<le> Suc k"
proof (induction k arbitrary: n)
  case 0
  then show ?case by (subst nat_to_string.simps) simp
next
  case (Suc k)
  then have "n div 10 < 10 ^ Suc k" by (simp add: div_less_iff_less_mult)
  from Suc.IH [OF this] show ?case by (subst nat_to_string.simps) simp
qed

lemma counter_fits: "length (ascii_bytes (nat_to_string (unat (n :: u64)))) < 2 ^ 32"
proof -
  have "unat n < 2 ^ LENGTH(64)" by (rule unsigned_less)
  also have "\<dots> \<le> 10 ^ Suc 19" by simp
  finally have "unat n < 10 ^ Suc 19" .
  then have "length (nat_to_string (unat n)) \<le> Suc 19" by (rule length_nat_to_string)
  then show ?thesis by (simp add: ascii_bytes_def)
qed

section \<open>The store\<close>

context kv_storage
begin

lemma load_record_eq:
  "inv s \<Longrightarrow> load_record codec st i c s =
     Option.bind (contents s (transaction_key i c))
       (\<lambda>bs. opt_filter (\<lambda>r. persisted_schema_version r = schema_version) (decode codec bs))"
  by (simp add: load_record_def get split: option.splits)

lemma load_next_transaction_id_eq:
  "inv s \<Longrightarrow> load_next_transaction_id st s =
     (case contents s counter_key of None \<Rightarrow> 0 | Some bs \<Rightarrow> unwrap_or (parse_u64_bytes bs) 0)"
  by (simp add: load_next_transaction_id_def get split: option.splits)

end

context durable_storage
begin

lemma set_stores:
  assumes "inv s" and "fits v" and "storage_set st k v s = (s', r)"
  shows "r = None \<and> inv s' \<and> contents s' = (contents s)(k \<mapsto> v)"
proof -
  have "r = None" by (rule set_ok [OF assms])
  with set [OF assms] show ?thesis by (auto simp: fun_eq_iff)
qed

lemma clear_record_contract:
  assumes "inv s"
  shows "inv (clear_record st i c s) \<and> contents (clear_record st i c s) = (contents s)(transaction_key i c := None)"
proof -
  obtain s' r where s': "storage_remove st (transaction_key i c) s = (s', r)" by force
  have "r = None" by (rule remove_ok [OF assms s'])
  with remove [OF assms s'] show ?thesis by (auto simp: clear_record_def s' fun_eq_iff)
qed

lemma save_record_contract:
  assumes "inv s" and "codec_ok codec fits r" and "persisted_schema_version r = schema_version"
    and "save_record codec st r s = (s', ok)"
  shows "ok \<and> inv s' \<and> load_next_transaction_id st s' = load_next_transaction_id st s
    \<and> load_record codec st i c s' =
        (if (i, c) = (persisted_evse r, persisted_connector r) then Some r else load_record codec st i c s)"
proof -
  obtain bs where bs: "encode codec r = Some bs" "fits bs" "decode codec bs = Some r"
    using assms(2) by (auto simp: codec_ok_def is_some_and_def split: option.splits)
  obtain s1 e where stored: "storage_set st (transaction_key (persisted_evse r) (persisted_connector r)) bs s = (s1, e)" by force
  with assms(4) bs(1) have s1: "s' = s1" "ok = (e = None)" by (auto simp: save_record_def)
  from set_stores [OF assms(1) bs(2) stored] show ?thesis
    using assms(1,3) bs(3) by (auto simp: s1 load_record_eq load_next_transaction_id_eq)
qed

lemma save_counter_contract:
  assumes "inv s" and "fits (ascii_bytes (nat_to_string (unat n)))"
  shows "inv (save_next_transaction_id st n s) \<and> load_next_transaction_id st (save_next_transaction_id st n s) = n
    \<and> load_record codec st i c (save_next_transaction_id st n s) = load_record codec st i c s"
proof -
  obtain s1 e where stored: "storage_set st counter_key (ascii_bytes (nat_to_string (unat n))) s = (s1, e)" by force
  from set_stores [OF assms stored] show ?thesis
    using assms(1) by (simp add: save_next_transaction_id_def stored load_record_eq load_next_transaction_id_eq)
qed

end

section \<open>One turn of the loop\<close>

definition near :: "i64 \<Rightarrow> meter_sample option \<Rightarrow> meter_sample option \<Rightarrow> bool" where
  "near threshold reading persisted =
     (case (reading, persisted) of
        (None, None) \<Rightarrow> True
      | (Some a, Some b) \<Rightarrow> a = b \<or> \<not> moved_by threshold a b
      | _ \<Rightarrow> False)"

text \<open>The record of a connector for what a reader of its transaction events knows.\<close>

definition record_for :: "i64 \<Rightarrow> usize \<times> usize \<Rightarrow> session \<Rightarrow> persisted_transaction option \<Rightarrow> bool" where
  "record_for threshold a session p =
     (case session of
        None \<Rightarrow> p = None
      | Some (i, n, m) \<Rightarrow>
          is_some_and p (\<lambda>r. (persisted_evse r, persisted_connector r) = a \<and> tx_id (persisted_tx r) = i
            \<and> near threshold m (tx_last_meter_sample (persisted_tx r))))"

definition mirrors ::
  "persisted_transaction codec \<Rightarrow> ('s, 'e) storage \<Rightarrow> i64 \<Rightarrow> (usize \<times> usize \<Rightarrow> session) \<Rightarrow> shadow \<times> 's \<Rightarrow> bool" where
  "mirrors codec st threshold sessions = (\<lambda>(shadow, s). \<forall>a.
     load_record codec st (fst a) (snd a) s = shadow_of a shadow
     \<and> record_for threshold a (sessions a) (shadow_of a shadow))"

lemma mirrorsD:
  "mirrors codec st threshold sessions (shadow, s) \<Longrightarrow>
   load_record codec st (fst a) (snd a) s = shadow_of a shadow \<and> record_for threshold a (sessions a) (shadow_of a shadow)"
  by (simp add: mirrors_def del: split_paired_All)

lemma mirrors_update:
  assumes mir: "mirrors codec st threshold sessions (shadow, s)"
    and sh: "\<And>b. shadow_of b shadow' = (if b = a then p else shadow_of b shadow)"
    and ld: "\<And>b. load_record codec st (fst b) (snd b) s' = (if b = a then p else load_record codec st (fst b) (snd b) s)"
    and here: "record_for threshold a sess p"
  shows "mirrors codec st threshold (sessions(a := sess)) (shadow', s')"
proof -
  have "load_record codec st (fst b) (snd b) s' = shadow_of b shadow'
      \<and> record_for threshold b ((sessions(a := sess)) b) (shadow_of b shadow')" for b
    using mirrorsD [OF mir, of b] sh [of b] ld [of b] here by (cases "b = a") simp_all
  then show ?thesis by (simp add: mirrors_def del: split_paired_All)
qed

definition event_address :: "transaction_event \<Rightarrow> usize \<times> usize" where
  "event_address x = (tev_evse x, tev_connector x)"

definition counter_after :: "transaction_event \<Rightarrow> u64 \<Rightarrow> u64" where
  "counter_after x n = (if tev_kind x = Started then tx_id (tev_transaction x) + 1 else n)"

lemma shadow_of_retain: "shadow_of a (shadow_retain b sh) = (if a = b then None else shadow_of a sh)"
  by (induction sh) (auto simp: shadow_of_def shadow_retain_def)

lemma shadow_of_push: "shadow_of a (sh @ [(b, r)]) = (case shadow_of a sh of None \<Rightarrow> if a = b then Some r else None | Some x \<Rightarrow> Some x)"
  by (induction sh) (auto simp: shadow_of_def)

text \<open>The policy keeps the record near the reading.\<close>

lemma policy_keeps_near:
  assumes "record_for threshold a sess p" and "session_step sess (tev_kind x, tev_transaction x) = Some sess'"
  shows "case persistence_decision_of p x threshold of
      PersistClear \<Rightarrow> sess' = None
    | PersistWrite \<Rightarrow> \<exists>n. sess' = Some (tx_id (tev_transaction x), n, tx_last_meter_sample (tev_transaction x))
    | PersistSkip \<Rightarrow> record_for threshold a sess' p \<and> tev_kind x \<noteq> Started"
proof (cases sess)
  case None
  with assms(2) show ?thesis
    by (cases "tev_kind x") (auto simp: persistence_decision_of_def split: if_splits)
next
  case (Some y)
  obtain i n m where y: "sess = Some (i, n, m)" using Some by (cases y) auto
  with assms(1) obtain r where p: "p = Some r" "(persisted_evse r, persisted_connector r) = a" "tx_id (persisted_tx r) = i"
    "near threshold m (tx_last_meter_sample (persisted_tx r))"
    by (auto simp: record_for_def is_some_and_def split: option.splits)
  show ?thesis
  proof (cases "tev_kind x")
    case (Updated u)
    with assms(2) y have s': "sess' = Some (i, n + 1, tx_last_meter_sample (tev_transaction x))" "tx_id (tev_transaction x) = i"
      "if u = MeterValuePeriodic then tx_last_meter_sample (tev_transaction x) \<noteq> None else tx_last_meter_sample (tev_transaction x) = m"
      by (auto split: if_splits)
    with Updated p show ?thesis
      by (cases u) (auto simp: persistence_decision_of_def record_for_def near_def split: option.splits)
  qed (use assms(2) y in \<open>auto simp: persistence_decision_of_def split: if_splits\<close>)
qed

context durable_storage
begin

lemma persist_event_mirrors:
  assumes mir: "mirrors codec st threshold sessions (shadow, s)" and inv: "inv s"
    and step: "session_step (sessions (event_address x)) (tev_kind x, tev_transaction x) = Some sess'"
    and codec: "codec_ok codec fits (next_record (shadow_of (event_address x) shadow) x now)"
    and counter: "\<And>n :: u64. fits (ascii_bytes (nat_to_string (unat n)))"
    and run: "persist_event codec st threshold now x (shadow, s) = (shadow', s')"
  shows "mirrors codec st threshold (sessions(event_address x := sess')) (shadow', s') \<and> inv s'
    \<and> load_next_transaction_id st s' = counter_after x (load_next_transaction_id st s)
    \<and> (\<forall>b r. shadow_of b shadow' = Some r \<longrightarrow>
          shadow_of b shadow = Some r \<or> r = next_record (shadow_of (event_address x) shadow) x now)"
proof -
  let ?a = "event_address x"
  let ?p = "shadow_of ?a shadow"
  have a: "?a = (tev_evse x, tev_connector x)" by (simp add: event_address_def)
  have here: "record_for threshold ?a (sessions ?a) ?p"
    using mirrorsD [OF mir] by simp
  note policy = policy_keeps_near [OF here step]
  show ?thesis
  proof (cases "persistence_decision_of ?p x threshold")
    case PersistSkip
    with run have s': "shadow' = shadow" "s' = s" by (simp_all add: persist_event_def a)
    from policy PersistSkip have kept: "record_for threshold ?a sess' ?p" "tev_kind x \<noteq> Started" by simp_all
    have "mirrors codec st threshold (sessions(?a := sess')) (shadow', s')"
      by (rule mirrors_update [OF mir, where p = ?p]) (use kept(1) mirrorsD [OF mir] in \<open>simp_all add: s'\<close>)
    with kept(2) inv show ?thesis by (simp add: s' counter_after_def)
  next
    case PersistClear
    with run have s': "shadow' = shadow_retain ?a shadow" "s' = clear_record st (fst ?a) (snd ?a) s"
      by (simp_all add: persist_event_def a)
    note cl = clear_record_contract [OF inv, of "fst ?a" "snd ?a"]
    have "load_record codec st (fst b) (snd b) s' = (if b = ?a then None else load_record codec st (fst b) (snd b) s)" for b
      using cl inv by (cases b; cases ?a) (simp add: s'(2) load_record_eq)
    then have "mirrors codec st threshold (sessions(?a := sess')) (shadow', s')"
      by (intro mirrors_update [OF mir, where p = None])
        (use policy PersistClear in \<open>simp_all add: s'(1) shadow_of_retain record_for_def\<close>)
    moreover have "load_next_transaction_id st s' = load_next_transaction_id st s"
      using cl inv by (simp add: s'(2) load_next_transaction_id_eq)
    moreover have "tev_kind x \<noteq> Started" using PersistClear by (auto simp: persistence_decision_of_def)
    ultimately show ?thesis using cl by (simp add: s' counter_after_def shadow_of_retain)
  next
    case PersistWrite
    let ?r = "next_record ?p x now"
    let ?s1 = "if tev_kind x = Started then save_next_transaction_id st (tx_id (persisted_tx ?r) + 1) s else s"
    obtain s2 ok where saved: "save_record codec st ?r ?s1 = (s2, ok)" by force
    have s1: "inv ?s1" "load_next_transaction_id st ?s1 = counter_after x (load_next_transaction_id st s)"
      "load_record codec st i c ?s1 = load_record codec st i c s" for i c
      using save_counter_contract [OF inv counter, of "tx_id (persisted_tx ?r) + 1"] inv
      by (auto simp: counter_after_def next_record_def)
    have r: "persisted_tx ?r = tev_transaction x" "(persisted_evse ?r, persisted_connector ?r) = ?a"
      "persisted_schema_version ?r = schema_version"
      by (simp_all add: next_record_def a)
    note save = save_record_contract [OF s1(1) codec r(3) saved]
    have s': "shadow' = shadow_retain ?a shadow @ [(?a, ?r)]" "s' = s2"
      using run PersistWrite saved save by (simp_all add: persist_event_def Let_def a [symmetric])
    from policy PersistWrite obtain n where sess': "sess' = Some (tx_id (persisted_tx ?r), n, tx_last_meter_sample (persisted_tx ?r))"
      by (auto simp: r)
    have new: "record_for threshold ?a sess' (Some ?r)"
      using r(2) by (auto simp: record_for_def sess' near_def split: option.splits)
    have sh: "shadow_of b shadow' = (if b = ?a then Some ?r else shadow_of b shadow)" for b
      by (auto simp: s' shadow_of_push shadow_of_retain split: option.splits)
    have ld: "load_record codec st (fst b) (snd b) s' = (if b = ?a then Some ?r else load_record codec st (fst b) (snd b) s)" for b
      using save s1(3) r(2) by (cases b) (simp add: s'(2))
    have "mirrors codec st threshold (sessions(?a := sess')) (shadow', s')"
      by (rule mirrors_update [OF mir sh ld new])
    with save s1(2) show ?thesis by (simp add: s'(2) sh)
  qed
qed

end

section \<open>The loop over a run of the state machine\<close>

definition reported :: "charge_point_effect list \<Rightarrow> transaction_event list" where
  "reported effects = concat (map (\<lambda>e. case e of TransactionEvent x \<Rightarrow> [x] | _ \<Rightarrow> []) effects)"

definition events_at :: "usize \<times> usize \<Rightarrow> transaction_event list \<Rightarrow> (transaction_event_kind \<times> transaction) list" where
  "events_at a xs = map (\<lambda>x. (tev_kind x, tev_transaction x)) (filter (\<lambda>x. event_address x = a) xs)"

lemma reported_simps [simp]: "reported [] = []" "reported (e # es) = (case e of TransactionEvent x \<Rightarrow> [x] | _ \<Rightarrow> []) @ reported es"
  by (simp_all add: reported_def)

lemma tx_events_reported: "tx_events i c effects = events_at (i, c) (reported effects)"
proof (induction effects)
  case (Cons e es)
  then show ?case by (cases e) (auto simp: events_at_def event_address_def)
qed (simp add: events_at_def)

lemma started_ids_reported:
  "started_ids effects = map (\<lambda>x. tx_id (tev_transaction x)) (filter (\<lambda>x. tev_kind x = Started) (reported effects))"
proof (induction effects)
  case (Cons e es)
  then show ?case by (cases e) auto
qed simp

lemma fold_counter_after:
  "fold counter_after xs n =
     (let ids = map (\<lambda>x. tx_id (tev_transaction x)) (filter (\<lambda>x. tev_kind x = Started) xs)
      in if ids = [] then n else last ids + 1)"
  by (induction xs arbitrary: n) (auto simp: counter_after_def Let_def)

context durable_storage
begin

lemma persist_run_mirrors:
  assumes "mirrors codec st threshold sessions (shadow, s)" and "inv s"
    and "\<And>a. session_run (sessions a) (events_at a (map snd xs)) = Some (sessions' a)"
    and "\<And>b r. shadow_of b shadow = Some r \<Longrightarrow> r \<in> W"
    and "\<And>p now x. (now, x) \<in> set xs \<Longrightarrow> set_option p \<subseteq> W \<Longrightarrow> next_record p x now \<in> W"
    and codec: "\<And>r. r \<in> W \<Longrightarrow> codec_ok codec fits r"
    and counter: "\<And>n :: u64. fits (ascii_bytes (nat_to_string (unat n)))"
    and "persist_run codec st threshold xs (shadow, s) = (shadow', s')"
  shows "mirrors codec st threshold sessions' (shadow', s') \<and> inv s'
    \<and> load_next_transaction_id st s' = fold counter_after (map snd xs) (load_next_transaction_id st s)"
  using assms(1-5,8)
proof (induction xs arbitrary: sessions shadow s)
  case Nil
  then have "sessions' = sessions" by (auto simp: events_at_def)
  with Nil show ?case by (simp add: persist_run_def)
next
  case (Cons y xs)
  obtain now x where y: "y = (now, x)" by force
  let ?a = "event_address x"
  have "session_run (sessions ?a) ((tev_kind x, tev_transaction x) # events_at ?a (map snd xs)) = Some (sessions' ?a)"
    using Cons.prems(3) [of ?a] by (simp add: y events_at_def)
  then obtain sess where step: "session_step (sessions ?a) (tev_kind x, tev_transaction x) = Some sess"
    and rest: "session_run sess (events_at ?a (map snd xs)) = Some (sessions' ?a)"
    by (auto split: option.splits)
  obtain sh1 s1 where here: "persist_event codec st threshold now x (shadow, s) = (sh1, s1)" by force
  have rest_run: "persist_run codec st threshold xs (sh1, s1) = (shadow', s')"
    using Cons.prems(6) here by (simp add: persist_run_def y)
  have runs: "session_run ((sessions(?a := sess)) a) (events_at a (map snd xs)) = Some (sessions' a)" for a
    using rest Cons.prems(3) [of a] by (auto simp: y events_at_def)
  have inW: "next_record (shadow_of ?a shadow) x now \<in> W"
  proof (rule Cons.prems(5))
    show "(now, x) \<in> set (y # xs)" by (simp add: y)
    show "set_option (shadow_of ?a shadow) \<subseteq> W"
      using Cons.prems(4) [of ?a] by (cases "shadow_of ?a shadow") simp_all
  qed
  note ev = persist_event_mirrors [OF Cons.prems(1,2) step codec [OF inW] counter here]
  have shadow1: "r \<in> W" if "shadow_of b sh1 = Some r" for b r
    using ev that inW Cons.prems(4) by blast
  have closed1: "next_record p z at_time \<in> W" if "(at_time, z) \<in> set xs" "set_option p \<subseteq> W" for p at_time z
    using Cons.prems(5) that by simp
  have mir1: "mirrors codec st threshold (sessions(?a := sess)) (sh1, s1)" and inv1: "inv s1"
    and counter1: "load_next_transaction_id st s1 = counter_after x (load_next_transaction_id st s)"
    using ev by simp_all
  show ?case using Cons.IH [OF mir1 inv1 runs shadow1 closed1 rest_run] by (simp add: y counter1)
qed

end

section \<open>What a loss of power costs\<close>

text \<open>The reading that survives and the last one: equal, or apart by less than the threshold.\<close>

definition readings_within :: "i64 \<Rightarrow> meter_sample option \<Rightarrow> meter_sample option \<Rightarrow> bool" where
  "readings_within threshold reading persisted =
     (case (reading, persisted) of
        (None, None) \<Rightarrow> True
      | (Some a, Some b) \<Rightarrow>
          \<bar>energy_wh a - energy_wh b\<bar> < 2 ^ 63 \<longrightarrow> a = b \<or> \<bar>energy_wh a - energy_wh b\<bar> < threshold
      | _ \<Rightarrow> False)"

lemma near_within: "near threshold a b \<Longrightarrow> readings_within threshold a b"
  by (auto simp: near_def readings_within_def moved_by_def wrap_i64_id split: option.splits)

text \<open>The records the loop can write: transactions as reported, with a synchronized clock reading and
  a meter reading of the run, where there are any.\<close>

definition writable :: "(date_time \<times> transaction_event) list \<Rightarrow> persisted_transaction set" where
  "writable xs =
     {r. persisted_schema_version r = schema_version
        \<and> (\<exists>(now, x) \<in> set xs. persisted_evse r = tev_evse x \<and> persisted_connector r = tev_connector x
              \<and> persisted_tx r = tev_transaction x)
        \<and> set_option (persisted_started_at r) \<subseteq> {now \<in> fst ` set xs. is_synchronized now}
        \<and> set_option (persisted_meter_start r) \<subseteq> (\<Union>(now, x) \<in> set xs. set_option (tx_last_meter_sample (tev_transaction x)))}"

lemma next_record_writable:
  assumes x: "(now, x) \<in> set xs" and p: "set_option p \<subseteq> writable xs"
  shows "next_record p x now \<in> writable xs"
proof -
  let ?r = "next_record p x now"
  let ?clocks = "{now \<in> fst ` set xs. is_synchronized now}"
  let ?readings = "\<Union>(now, x) \<in> set xs. set_option (tx_last_meter_sample (tev_transaction x))"
  have old: "set_option (Option.bind p persisted_started_at) \<subseteq> ?clocks"
    "set_option (Option.bind p persisted_meter_start) \<subseteq> ?readings"
    using p by (cases p; simp add: writable_def)+
  have "now \<in> fst ` set xs" using x by force
  then have "set_option (persisted_started_at ?r) \<subseteq> ?clocks"
    using old(1) by (simp add: next_record_def)
  moreover have "set_option (tx_last_meter_sample (tev_transaction x)) \<subseteq> ?readings" using x by blast
  with old(2) have "set_option (persisted_meter_start ?r) \<subseteq> ?readings"
    by (cases "Option.bind p persisted_meter_start") (simp_all add: next_record_def)
  moreover have "\<exists>(now, x) \<in> set xs. persisted_evse ?r = tev_evse x \<and> persisted_connector ?r = tev_connector x
      \<and> persisted_tx ?r = tev_transaction x"
    using x by (intro bexI [of _ "(now, x)"]) (simp_all add: next_record_def)
  moreover have "persisted_schema_version ?r = schema_version" by (simp add: next_record_def)
  ultimately show ?thesis unfolding writable_def by blast
qed

definition blank :: "('s \<Rightarrow> string \<Rightarrow> bytes option) \<Rightarrow> 's \<Rightarrow> bool" where
  "blank contents s = (contents s counter_key = None \<and> (\<forall>i c. contents s (transaction_key i c) = None))"

lemma persisted_run:
  assumes run: "cp_run rfc evs (cp_with_limits counts limits) = Some (s', effects)"
    and plain: "\<forall>ev \<in> set evs. \<not> restores_transactions ev"
    and xs: "map snd xs = reported effects"
    and st: "durable_storage st contents sound fits" and m0: "sound m0" "blank contents m0"
    and counter: "\<forall>n :: u64. fits (ascii_bytes (nat_to_string (unat n)))"
    and codec: "\<forall>r \<in> writable xs. codec_ok codec fits r"
    and persisted: "persist_run codec st threshold xs ([], m0) = (shadow, m)"
  shows "record_for threshold (i, c) (session_at s' i c) (load_record codec st i c m)"
    and "load_next_transaction_id st m = next_transaction_id s'" and "sound m"
proof -
  have "(\<exists>ev \<in> set evs. restores_transactions ev) = False" using plain by blast
  with cp_run_path [OF run] have
    path: "path (\<lambda>cev. \<exists>ev \<in> set evs. event_allows ev cev) False (cp_with_limits counts limits) effects s'" by simp
  have runs: "session_run None (events_at a (map snd xs)) = Some (session_at s' (fst a) (snd a))" for a
    using path_session [OF path, of "fst a" "snd a"] by (simp add: xs tx_events_reported)
  have kv: "kv_storage st contents sound fits" using st by (rule durable_storage.axioms(1))
  have none: "load_record codec st i c m0 = None" "load_next_transaction_id st m0 = 0" for i c
    using m0 by (simp_all add: kv_storage.load_record_eq [OF kv] kv_storage.load_next_transaction_id_eq [OF kv] blank_def)
  have start: "mirrors codec st threshold (\<lambda>_. None) ([], m0)"
    by (simp add: mirrors_def none record_for_def shadow_of_def)
  have stored: "mirrors codec st threshold (\<lambda>a. session_at s' (fst a) (snd a)) (shadow, m) \<and> sound m
    \<and> load_next_transaction_id st m = fold counter_after (map snd xs) (load_next_transaction_id st m0)"
    by (rule durable_storage.persist_run_mirrors [OF st start m0(1) runs _ next_record_writable _ _ persisted])
      (use codec counter in \<open>auto simp: shadow_of_def\<close>)
  from mirrorsD [OF conjunct1 [OF stored], of "(i, c)"]
  show "record_for threshold (i, c) (session_at s' i c) (load_record codec st i c m)" by simp
  show "sound m" using stored by simp
  have ids: "consecutive 0 (started_ids effects) (next_transaction_id s')"
    using path_ids [OF path fresh_faulted_clear] by (simp add: cp_with_limits_def)
  have "last (started_ids effects) + 1 = next_transaction_id s'" if "started_ids effects \<noteq> []"
  proof -
    let ?n = "length (started_ids effects)"
    from that obtain k where k: "?n = Suc k" by (cases "started_ids effects") auto
    have "started_ids effects = map of_nat [0 ..< Suc k]" using ids k by (simp add: consecutive_def)
    then have "last (started_ids effects) = of_nat k" by simp
    with ids k show ?thesis by (simp add: consecutive_def)
  qed
  moreover have "next_transaction_id s' = 0" if "started_ids effects = []" using ids that by simp
  ultimately show "load_next_transaction_id st m = next_transaction_id s'"
    using stored by (simp add: fold_counter_after xs none started_ids_reported [symmetric] Let_def)
qed


section \<open>What a boot recovers\<close>

definition addresses_of :: "usize list \<Rightarrow> (usize \<times> usize) list" where
  "addresses_of counts = concat (map (\<lambda>(i, n). map (Pair i) [0 ..< n]) (enumerate 0 counts))"

lemma set_addresses_of: "(i, c) \<in> set (addresses_of counts) \<longleftrightarrow> i < length counts \<and> c < counts ! i"
proof -
  have "(i, c) \<in> set (addresses_of counts) \<longleftrightarrow> (\<exists>n. (i, n) \<in> set (enumerate 0 counts) \<and> c < n)"
    unfolding addresses_of_def by fastforce
  then show ?thesis by (simp add: in_set_enumerate_eq)
qed

lemma distinct_addresses_of: "distinct (addresses_of counts)"
proof -
  let ?f = "\<lambda>(i, n). map (Pair i) [0 ..< n]"
  have "distinct (concat (map ?f xs))" if "distinct (map fst xs)" for xs :: "(usize \<times> usize) list"
    using that
  proof (induction xs)
    case (Cons x xs)
    have "set (?f x) \<inter> set (concat (map ?f xs)) = {}" using Cons.prems by (cases x) force
    moreover have "distinct (?f x)" by (cases x) (simp add: distinct_map inj_on_def)
    ultimately show ?case using Cons by simp
  qed simp
  then show ?thesis by (simp add: addresses_of_def)
qed

definition closing :: "persisted_transaction \<Rightarrow> charge_point_effect" where
  "closing r = transaction_effect (persisted_evse r) (persisted_connector r) (Ended, close_recovered (persisted_tx r))"

lemma closing_events:
  assumes "distinct as" and "\<And>a r. load a = Some r \<Longrightarrow> (persisted_evse r, persisted_connector r) = a"
  shows "tx_events i c (map closing (List.map_filter load as)) =
    (if (i, c) \<in> set as then option_list (map_option (\<lambda>r. (Ended, close_recovered (persisted_tx r))) (load (i, c))) else [])"
  using assms(1)
proof (induction as)
  case (Cons a as)
  show ?case
  proof (cases "load a")
    case (Some r)
    with assms(2) [OF Some] Cons show ?thesis by (auto simp: map_filter_simps closing_def)
  qed (use Cons in \<open>auto simp: map_filter_simps\<close>)
qed (simp add: map_filter_simps)

lemma open_transaction_address:
  "cp_wf s \<Longrightarrow> transaction_at s i c = Some t \<Longrightarrow> (i, c) \<in> set (addresses_of (connector_counts s))"
  by (auto simp: set_addresses_of connector_counts_def cp_wf_def transaction_at_def vec_get_def evse_wf_def Let_def
      list_all_length split: option.splits if_splits dest!: vec_slot_SomeD)

context durable_storage
begin

lemma clear_records:
  "inv s \<Longrightarrow>
   inv (fold (\<lambda>r. clear_record st (persisted_evse r) (persisted_connector r)) rs s)
   \<and> load_record codec st i c (fold (\<lambda>r. clear_record st (persisted_evse r) (persisted_connector r)) rs s)
     = (if (i, c) \<in> (\<lambda>r. (persisted_evse r, persisted_connector r)) ` set rs then None else load_record codec st i c s)"
proof (induction rs arbitrary: s)
  case (Cons r rs)
  note cleared = clear_record_contract [OF Cons.prems, of "persisted_evse r" "persisted_connector r"]
  have "load_record codec st i c (clear_record st (persisted_evse r) (persisted_connector r) s)
      = (if (i, c) = (persisted_evse r, persisted_connector r) then None else load_record codec st i c s)"
    using cleared Cons.prems by (simp add: load_record_eq)
  with Cons.IH [of "clear_record st (persisted_evse r) (persisted_connector r) s"] cleared show ?case by auto
qed simp

end

lemma load_all_addresses: "load_all codec st counts s = List.map_filter (\<lambda>(i, c). load_record codec st i c s) (addresses_of counts)"
  by (simp add: load_all_def addresses_of_def)

lemma restored_effects:
  assumes "cp_apply rfc (PersistedTransactionsRestored n
      (map (\<lambda>r. \<lparr>recovered_tx_evse = persisted_evse r, recovered_tx_connector = persisted_connector r,
                 recovered_tx = persisted_tx r\<rparr>) rs)) (cp_with_limits counts limits) = Some (s', effects)"
    and "\<forall>r \<in> set rs. (persisted_evse r, persisted_connector r) \<in> set (addresses_of counts)"
  shows "next_transaction_id s' = n \<and> tx_events i c effects = tx_events i c (map closing rs)"
proof -
  let ?s = "cp_with_limits counts limits"
  let ?rec = "\<lambda>r. \<lparr>recovered_tx_evse = persisted_evse r, recovered_tx_connector = persisted_connector r,
    recovered_tx = persisted_tx r\<rparr>"
  from assms(1) obtain s1 effects1 b effects2 where
    event: "transactions_restored n (map ?rec rs) ?s = (s1, effects1, b)"
    and eff: "effects = (if b then [StateChanged] else []) @ effects1 @ effects2" and quiet: "quiet s1 effects2 s'"
    by (auto elim!: cp_applyE)
  have c: "map (\<lambda>e. length (connectors e)) (evses ?s) = counts"
    using fresh_wf(2) [of counts limits] by (simp add: connector_counts_def)
  have len: "length (evses ?s) = length counts" using arg_cong [OF c, where f = length] by simp
  have conns: "length (connectors (evses ?s ! j)) = counts ! j" if "j < length counts" for j
    using arg_cong [OF c, where f = "\<lambda>xs. xs ! j"] that len by simp
  have "addressable (recovered_tx_evse x) (recovered_tx_connector x) ?s" if "x \<in> set (map ?rec rs)" for x
  proof -
    from that obtain r where r: "r \<in> set rs" "x = ?rec r" by auto
    with assms(2) have "persisted_evse r < length counts" "persisted_connector r < counts ! persisted_evse r"
      by (simp_all add: set_addresses_of)
    with len conns r show ?thesis by (simp add: addressable_def)
  qed
  then have kept: "filter (\<lambda>x. addressable (recovered_tx_evse x) (recovered_tx_connector x) ?s) (map ?rec rs) = map ?rec rs"
    by (intro filter_True) blast
  have "next_transaction_id ?s = 0" by (simp add: cp_with_limits_def)
  then have "next_transaction_id s1 = n" "effects1 = map closing rs"
    using event unfolding transactions_restored_def kept Let_def by (auto simp: closing_def)
  with quiet eff show ?thesis by (simp add: quiet_def)
qed


section \<open>Witnesses\<close>

lemma finite_writable: "finite (writable xs)"
proof (rule finite_subset)
  let ?clocks = "insert None (Some ` fst ` set xs)"
  let ?readings = "(\<lambda>(now, x). tx_last_meter_sample (tev_transaction x)) ` set xs \<union> {None}"
  let ?r = "\<lambda>((now, x), c, m). \<lparr>persisted_schema_version = schema_version, persisted_evse = tev_evse x,
    persisted_connector = tev_connector x, persisted_tx = tev_transaction x, persisted_started_at = c, persisted_meter_start = m\<rparr>"
  show "finite (?r ` (set xs \<times> ?clocks \<times> ?readings))" by simp
  show "writable xs \<subseteq> ?r ` (set xs \<times> ?clocks \<times> ?readings)"
  proof
    fix r
    assume r: "r \<in> writable xs"
    then obtain now x where x: "(now, x) \<in> set xs" "persisted_evse r = tev_evse x"
      "persisted_connector r = tev_connector x" "persisted_tx r = tev_transaction x"
      by (auto simp: writable_def)
    have "persisted_started_at r \<in> ?clocks" using r by (cases "persisted_started_at r") (auto simp: writable_def)
    moreover have "persisted_meter_start r \<in> ?readings"
      using r by (cases "persisted_meter_start r") (force simp: writable_def)+
    moreover have "r = ?r ((now, x), persisted_started_at r, persisted_meter_start r)"
      using r x by (simp add: writable_def)
    ultimately show "r \<in> ?r ` (set xs \<times> ?clocks \<times> ?readings)" using x(1) by blast
  qed
qed

abbreviation memory :: "(string \<rightharpoonup> bytes, unit) storage" where
  "memory \<equiv> in_memory_storage"

lemma durable_in_memory: "durable_storage memory id (\<lambda>_. True) (\<lambda>_. True)"
  by unfold_locales (auto simp: in_memory_storage_def)

text \<open>A session from boot whose events are persisted in memory, on the fresh station of one connector.\<close>

abbreviation small_station :: charge_point_state where
  "small_station \<equiv> cp_with_limits [1] default_state_limits"

abbreviation small_session :: "charge_point_event list" where
  "small_session \<equiv> session_start 0 0 \<lparr>token_value = ''TAG1'', token_kind = ISO14443\<rparr>"

lemma small_session_persisted:
  obtains s' effects t xs rs shadow m where "cp_run (\<lambda>_. []) small_session small_station = Some (s', effects)"
    and "transaction_at s' 0 0 = Some t" and "\<forall>ev \<in> set small_session. \<not> restores_transactions ev"
    and "map snd xs = reported effects" and "\<forall>r \<in> writable xs. codec_ok (table_codec rs) (\<lambda>_. True) r"
    and "persist_run (table_codec rs) memory 100 xs ([], Map.empty) = (shadow, m)"
proof -
  have fresh: "reachable (\<lambda>_. []) [1] default_state_limits small_station" by (rule reachable.start)
  obtain s' effects where run: "cp_run (\<lambda>_. []) small_session small_station = Some (s', effects)"
    using reachable_run_total [OF fresh] by blast
  have free: "connector_at small_station 0 0 \<in> {Some Available, Some Reserved}" by (simp add: fresh_connector_at)
  have "cp_wf small_station" by (rule fresh_wf(1))
  with session_start_billed [OF run _ free] session_start_charges [OF run free] obtain t where
    t: "transaction_at s' 0 0 = Some t" by auto
  define xs where "xs = map (Pair (0 :: date_time)) (reported effects)"
  obtain rs where rs: "set rs = writable xs" using finite_list [OF finite_writable] by metis
  have codec: "\<forall>r \<in> writable xs. codec_ok (table_codec rs) (\<lambda>_. True) r"
    unfolding rs [symmetric] by (intro ballI table_codec_ok)
  obtain shadow m where persisted: "persist_run (table_codec rs) memory 100 xs ([], Map.empty) = (shadow, m)" by force
  have "map snd xs = reported effects" by (simp add: xs_def comp_def)
  moreover have "\<forall>ev \<in> set small_session. \<not> restores_transactions ev"
    by (auto simp: session_start_def restores_transactions_def)
  ultimately show thesis by (intro that [OF run t _ _ codec persisted])
qed

lemma blank_empty: "blank id Map.empty"
  by (simp add: blank_def)



end
