(* ===== verification/Sha256.thy ===== *)
theory Sha256
  imports Storage
begin

text \<open>
  SHA-256 as \<open>certificates/csr.rs\<close> implements it: the key store derives the handle of a key from
  it, and a signing request hashes what it signs.
\<close>

definition sha256_k :: "u32 list" where
  "sha256_k =
     [0x428A2F98, 0x71374491, 0xB5C0FBCF, 0xE9B5DBA5, 0x3956C25B, 0x59F111F1,
      0x923F82A4, 0xAB1C5ED5, 0xD807AA98, 0x12835B01, 0x243185BE, 0x550C7DC3,
      0x72BE5D74, 0x80DEB1FE, 0x9BDC06A7, 0xC19BF174, 0xE49B69C1, 0xEFBE4786,
      0x0FC19DC6, 0x240CA1CC, 0x2DE92C6F, 0x4A7484AA, 0x5CB0A9DC, 0x76F988DA,
      0x983E5152, 0xA831C66D, 0xB00327C8, 0xBF597FC7, 0xC6E00BF3, 0xD5A79147,
      0x06CA6351, 0x14292967, 0x27B70A85, 0x2E1B2138, 0x4D2C6DFC, 0x53380D13,
      0x650A7354, 0x766A0ABB, 0x81C2C92E, 0x92722C85, 0xA2BFE8A1, 0xA81A664B,
      0xC24B8B70, 0xC76C51A3, 0xD192E819, 0xD6990624, 0xF40E3585, 0x106AA070,
      0x19A4C116, 0x1E376C08, 0x2748774C, 0x34B0BCB5, 0x391C0CB3, 0x4ED8AA4A,
      0x5B9CCA4F, 0x682E6FF3, 0x748F82EE, 0x78A5636F, 0x84C87814, 0x8CC70208,
      0x90BEFFFA, 0xA4506CEB, 0xBEF9A3F7, 0xC67178F2]"

definition sha256_h0 :: "u32 list" where
  "sha256_h0 =
     [0x6A09E667, 0xBB67AE85, 0x3C6EF372, 0xA54FF53A, 0x510E527F, 0x9B05688C, 0x1F83D9AB, 0x5BE0CD19]"

text \<open>\<open>u32::from_be_bytes\<close>, \<open>to_be_bytes\<close>.\<close>

definition from_be_bytes :: "bytes \<Rightarrow> u32" where
  "from_be_bytes bs = from_le_bytes (rev bs)"

definition to_be_bytes :: "nat \<Rightarrow> 'a::len word \<Rightarrow> bytes" where
  "to_be_bytes n x = rev (to_le_bytes n x)"

text \<open>The terminator, the zero fill and the length in bits.\<close>

definition fill_distance :: "nat \<Rightarrow> nat" where
  "fill_distance r = (if r \<le> 56 then 56 - r else 120 - r)"

lemma fill_distance_decreases:
  "fill_distance 0 < fill_distance 63"
  "r \<noteq> 56 \<Longrightarrow> r \<noteq> 63 \<Longrightarrow> r < 64 \<Longrightarrow> fill_distance (Suc r) < fill_distance r"
  by (auto simp: fill_distance_def)

function zero_fill :: "bytes \<Rightarrow> bytes" where
  "zero_fill message = (if length message mod 64 \<noteq> 56 then zero_fill (message @ [0]) else message)"
  by pat_completeness auto
termination
  by (relation "measure (\<lambda>message. fill_distance (length message mod 64))")
    (simp_all add: mod_Suc fill_distance_decreases)

declare zero_fill.simps [simp del]

definition sha256_padded :: "bytes \<Rightarrow> bytes" where
  "sha256_padded data = zero_fill (data @ [0x80]) @ to_be_bytes 8 (of_nat (length data) * 8 :: u64)"

fun sha256_extend :: "nat \<Rightarrow> u32 list \<Rightarrow> u32 list" where
  "sha256_extend 0 w = w"
| "sha256_extend (Suc n) w =
     (let i = length w;
          s0 = word_rotr 7 (w ! (i - 15)) XOR word_rotr 18 (w ! (i - 15)) XOR drop_bit 3 (w ! (i - 15));
          s1 = word_rotr 17 (w ! (i - 2)) XOR word_rotr 19 (w ! (i - 2)) XOR drop_bit 10 (w ! (i - 2))
      in sha256_extend n (w @ [w ! (i - 16) + s0 + w ! (i - 7) + s1]))"

definition sha256_schedule :: "bytes \<Rightarrow> u32 list" where
  "sha256_schedule block =
     sha256_extend 48 (map (\<lambda>i. from_be_bytes (take 4 (drop (4 * i) block))) [0 ..< 16])"

type_synonym sha256_state = "u32 \<times> u32 \<times> u32 \<times> u32 \<times> u32 \<times> u32 \<times> u32 \<times> u32"

definition sha256_round :: "u32 \<times> u32 \<Rightarrow> sha256_state \<Rightarrow> sha256_state" where
  "sha256_round = (\<lambda>(k, w) (a, b, c, d, e, f, g, h).
     let s1 = word_rotr 6 e XOR word_rotr 11 e XOR word_rotr 25 e;
         ch = (e AND f) XOR (NOT e AND g);
         temp1 = h + s1 + ch + k + w;
         s0 = word_rotr 2 a XOR word_rotr 13 a XOR word_rotr 22 a;
         maj = (a AND b) XOR (a AND c) XOR (b AND c);
         temp2 = s0 + maj
     in (temp1 + temp2, a, b, c, d + temp1, e, f, g))"

definition sha256_block :: "bytes \<Rightarrow> u32 list \<Rightarrow> u32 list" where
  "sha256_block block h =
     (case fold sha256_round (zip sha256_k (sha256_schedule block))
             (h ! 0, h ! 1, h ! 2, h ! 3, h ! 4, h ! 5, h ! 6, h ! 7) of
        (a, b, c, d, e, f, g, hh) \<Rightarrow>
          [h ! 0 + a, h ! 1 + b, h ! 2 + c, h ! 3 + d, h ! 4 + e, h ! 5 + f, h ! 6 + g, h ! 7 + hh])"

definition sha256 :: "bytes \<Rightarrow> bytes" where
  "sha256 data =
     (let blocks = map (\<lambda>i. take 64 (drop (64 * i) (sha256_padded data))) [0 ..< length (sha256_padded data) div 64]
      in concat (map (to_be_bytes 4) (fold sha256_block blocks sha256_h0)))"

section \<open>The shape of a digest\<close>

lemma zero_fill_length: "length (zero_fill message) mod 64 = 56"
proof (induction message rule: zero_fill.induct)
  case (1 message)
  then show ?case by (subst zero_fill.simps) simp
qed

text \<open>The padding fills whole blocks, so no block is cut short.\<close>

lemma sha256_padded_blocks: "length (sha256_padded data) mod 64 = 0"
proof -
  have "(length (zero_fill m) + 8) mod 64 = 0" for m
    using mod_add_left_eq [of "length (zero_fill m)" 64 8] by (simp add: zero_fill_length)
  then show ?thesis by (simp add: sha256_padded_def to_be_bytes_def)
qed

lemma length_sha256_block: "length (sha256_block block h) = 8"
  by (simp add: sha256_block_def split: prod.splits)

lemma length_sha256_blocks: "length h = 8 \<Longrightarrow> length (fold sha256_block blocks h) = 8"
  by (induction blocks arbitrary: h) (simp_all add: length_sha256_block)

lemma length_sha256: "length (sha256 data) = 32"
proof -
  have "length (concat (map (to_be_bytes 4) xs)) = 4 * length xs" for xs :: "u32 list"
    by (induction xs) (simp_all add: to_be_bytes_def)
  then show ?thesis by (simp add: sha256_def Let_def length_sha256_blocks sha256_h0_def)
qed

text \<open>The test vector of the empty string.\<close>

lemma sha256_empty:
  "sha256 [] =
     [0xE3, 0xB0, 0xC4, 0x42, 0x98, 0xFC, 0x1C, 0x14, 0x9A, 0xFB, 0xF4, 0xC8, 0x99, 0x6F, 0xB9, 0x24,
      0x27, 0xAE, 0x41, 0xE4, 0x64, 0x9B, 0x93, 0x4C, 0xA4, 0x95, 0x99, 0x1B, 0x78, 0x52, 0xB8, 0x55]"
  by code_simp

end
