(* ===== verification/Credentials.thy ===== *)
theory Credentials
  imports Sha256 Storage_Contract Identity
begin

text \<open>
  Keys and passwords: \<open>hardware/key_storage.rs\<close> with the software key store on top of a storage,
  \<open>basic_auth_credential.rs\<close> with the rotation of a connection's password and its way back, and
  \<open>security_profile.rs\<close>.  The cryptography of a software key store is a record of operations on a
  state of its own; the encodings of what is stored are parameters.
\<close>

section \<open>Key stores\<close>

datatype signature_algorithm = EcdsaP256Sha256 | EcdsaP384Sha384 | Rsa2048Sha256 | Rsa3072Sha256

datatype key_store_backing = HardwareSecureElement | SoftwareBacking

type_synonym key_handle = bytes

record public_key =
  public_key_algorithm :: signature_algorithm
  public_key_bytes :: bytes

record generated_key_pair =
  generated_handle :: key_handle
  generated_public_key :: public_key

record ('k, 'e) key_store =
  generate_key_pair :: "signature_algorithm \<Rightarrow> 'k \<Rightarrow> 'k \<times> ('e + generated_key_pair)"
  sign_digest :: "key_handle \<Rightarrow> bytes \<Rightarrow> 'k \<Rightarrow> 'k \<times> ('e + bytes)"
  delete_key_pair :: "key_handle \<Rightarrow> 'k \<Rightarrow> 'k \<times> 'e option"
  supported_algorithms :: "'k \<Rightarrow> 'e + signature_algorithm list"
  backing :: "'k \<Rightarrow> 'e + key_store_backing"
  store_credential :: "string \<Rightarrow> string \<Rightarrow> 'k \<Rightarrow> 'k \<times> 'e option"
  load_credential :: "string \<Rightarrow> 'k \<Rightarrow> 'e + string option"
  delete_credential :: "string \<Rightarrow> 'k \<Rightarrow> 'k \<times> 'e option"

definition no_key_store :: "('k, unit) key_store" where
  "no_key_store =
     \<lparr>generate_key_pair = (\<lambda>_ k. (k, Inl ())),
      sign_digest = (\<lambda>_ _ k. (k, Inl ())),
      delete_key_pair = (\<lambda>_ k. (k, Some ())),
      supported_algorithms = (\<lambda>_. Inr []),
      backing = (\<lambda>_. Inr SoftwareBacking),
      store_credential = (\<lambda>_ _ k. (k, Some ())),
      load_credential = (\<lambda>_ _. Inl ()),
      delete_credential = (\<lambda>_ k. (k, Some ()))\<rparr>"

section \<open>The software key store\<close>

record ('c, 'x) software_crypto =
  crypto_generate_key_pair :: "signature_algorithm \<Rightarrow> 'c \<Rightarrow> 'c \<times> ('x + bytes \<times> public_key)"
  crypto_sign :: "signature_algorithm \<Rightarrow> bytes \<Rightarrow> bytes \<Rightarrow> 'c \<Rightarrow> 'c \<times> ('x + bytes)"
  crypto_supported_algorithms :: "signature_algorithm list"

definition default_max_keys :: usize where "default_max_keys = 4"
definition default_max_credentials :: usize where "default_max_credentials = 4"
definition keys_key :: string where "keys_key = ''keys''"
definition credentials_key :: string where "credentials_key = ''credentials''"

record persisted_key =
  persisted_handle :: bytes
  persisted_algorithm :: signature_algorithm
  persisted_private_key :: bytes
  persisted_public_key :: bytes

type_synonym persisted_keys = "persisted_key list"
type_synonym persisted_credentials = "(string \<times> string) list"

fun algorithm_byte :: "signature_algorithm \<Rightarrow> u8" where
  "algorithm_byte EcdsaP256Sha256 = 0"
| "algorithm_byte EcdsaP384Sha384 = 1"
| "algorithm_byte Rsa2048Sha256 = 2"
| "algorithm_byte Rsa3072Sha256 = 3"

definition derive_handle :: "signature_algorithm \<Rightarrow> bytes \<Rightarrow> bytes" where
  "derive_handle algorithm key = sha256 (algorithm_byte algorithm # key)"

datatype 'x soft_key_store_error =
  Crypto 'x | StoreFull | KeyNotFound | PersistenceFailed | CredentialStoreFull

record ('s, 'e, 'c, 'x) soft_key_store =
  soft_storage :: "('s, 'e) storage"
  soft_crypto :: "('c, 'x) software_crypto"
  soft_max_keys :: usize
  keys_codec :: "persisted_keys codec"
  credentials_codec :: "persisted_credentials codec"

definition soft_with_limit ::
  "persisted_keys codec \<Rightarrow> persisted_credentials codec \<Rightarrow> ('s, 'e) storage \<Rightarrow> ('c, 'x) software_crypto \<Rightarrow> usize
   \<Rightarrow> ('s, 'e, 'c, 'x) soft_key_store" where
  "soft_with_limit keys creds st cr n =
     \<lparr>soft_storage = st, soft_crypto = cr, soft_max_keys = max n 1, keys_codec = keys, credentials_codec = creds\<rparr>"

definition soft_new ::
  "persisted_keys codec \<Rightarrow> persisted_credentials codec \<Rightarrow> ('s, 'e) storage \<Rightarrow> ('c, 'x) software_crypto
   \<Rightarrow> ('s, 'e, 'c, 'x) soft_key_store" where
  "soft_new keys creds st cr = soft_with_limit keys creds st cr default_max_keys"

text \<open>A store that cannot be read, and one that cannot be decoded, are taken for an empty one.\<close>

definition load_list :: "'a list codec \<Rightarrow> ('s, 'e) storage \<Rightarrow> string \<Rightarrow> 's \<Rightarrow> 'a list" where
  "load_list codec st key s =
     (case storage_get st key s of
        Inr (Some encoded) \<Rightarrow> unwrap_or (decode codec encoded) []
      | _ \<Rightarrow> [])"

definition save_list :: "'a list codec \<Rightarrow> ('s, 'e) storage \<Rightarrow> string \<Rightarrow> 'a list \<Rightarrow> 's \<Rightarrow> 's \<times> bool" where
  "save_list codec st key xs s =
     (case encode codec xs of
        None \<Rightarrow> (s, False)
      | Some encoded \<Rightarrow> (case storage_set st key encoded s of (s', failed) \<Rightarrow> (s', failed = None)))"

definition load_keys :: "('s, 'e, 'c, 'x) soft_key_store \<Rightarrow> 's \<Rightarrow> persisted_keys" where
  "load_keys k = load_list (keys_codec k) (soft_storage k) keys_key"

definition save_keys :: "('s, 'e, 'c, 'x) soft_key_store \<Rightarrow> persisted_keys \<Rightarrow> 's \<Rightarrow> 's \<times> bool" where
  "save_keys k = save_list (keys_codec k) (soft_storage k) keys_key"

definition load_credentials :: "('s, 'e, 'c, 'x) soft_key_store \<Rightarrow> 's \<Rightarrow> persisted_credentials" where
  "load_credentials k = load_list (credentials_codec k) (soft_storage k) credentials_key"

definition save_credentials :: "('s, 'e, 'c, 'x) soft_key_store \<Rightarrow> persisted_credentials \<Rightarrow> 's \<Rightarrow> 's \<times> bool" where
  "save_credentials k = save_list (credentials_codec k) (soft_storage k) credentials_key"

definition soft_generate_key_pair ::
  "('s, 'e, 'c, 'x) soft_key_store \<Rightarrow> signature_algorithm \<Rightarrow> 's \<times> 'c
   \<Rightarrow> ('s \<times> 'c) \<times> ('x soft_key_store_error + generated_key_pair)" where
  "soft_generate_key_pair k algorithm = (\<lambda>(s, c).
     case crypto_generate_key_pair (soft_crypto k) algorithm c of
       (c', Inl x) \<Rightarrow> ((s, c'), Inl (Crypto x))
     | (c', Inr (private, public)) \<Rightarrow>
         (let keys = load_keys k s
          in if soft_max_keys k \<le> length keys then ((s, c'), Inl StoreFull)
             else let handle = derive_handle algorithm (public_key_bytes public)
                  in case save_keys k (keys @ [\<lparr>persisted_handle = handle, persisted_algorithm = algorithm,
                            persisted_private_key = private, persisted_public_key = public_key_bytes public\<rparr>]) s of
                       (s', ok) \<Rightarrow> ((s', c'), if ok then Inr \<lparr>generated_handle = handle, generated_public_key = public\<rparr>
                                                else Inl PersistenceFailed)))"

definition soft_sign ::
  "('s, 'e, 'c, 'x) soft_key_store \<Rightarrow> key_handle \<Rightarrow> bytes \<Rightarrow> 's \<times> 'c
   \<Rightarrow> ('s \<times> 'c) \<times> ('x soft_key_store_error + bytes)" where
  "soft_sign k handle digest = (\<lambda>(s, c).
     case List.find (\<lambda>e. persisted_handle e = handle) (load_keys k s) of
       None \<Rightarrow> ((s, c), Inl KeyNotFound)
     | Some e \<Rightarrow>
         (case crypto_sign (soft_crypto k) (persisted_algorithm e) (persisted_private_key e) digest c of
            (c', Inl x) \<Rightarrow> ((s, c'), Inl (Crypto x))
          | (c', Inr signature) \<Rightarrow> ((s, c'), Inr signature)))"

definition soft_delete_key_pair ::
  "('s, 'e, 'c, 'x) soft_key_store \<Rightarrow> key_handle \<Rightarrow> 's \<times> 'c \<Rightarrow> ('s \<times> 'c) \<times> 'x soft_key_store_error option" where
  "soft_delete_key_pair k handle = (\<lambda>(s, c).
     let keys = load_keys k s;
         kept = filter (\<lambda>e. persisted_handle e \<noteq> handle) keys
     in if length kept = length keys then ((s, c), None)
        else case save_keys k kept s of (s', ok) \<Rightarrow> ((s', c), if ok then None else Some PersistenceFailed))"

definition soft_store_credential ::
  "('s, 'e, 'c, 'x) soft_key_store \<Rightarrow> string \<Rightarrow> string \<Rightarrow> 's \<times> 'c \<Rightarrow> ('s \<times> 'c) \<times> 'x soft_key_store_error option" where
  "soft_store_credential k label value = (\<lambda>(s, c).
     let credentials = load_credentials k s;
         already_present = list_ex (\<lambda>x. fst x = label) credentials
     in if \<not> already_present \<and> default_max_credentials \<le> length credentials then ((s, c), Some CredentialStoreFull)
        else case save_credentials k (filter (\<lambda>x. fst x \<noteq> label) credentials @ [(label, value)]) s of
               (s', ok) \<Rightarrow> ((s', c), if ok then None else Some PersistenceFailed))"

definition soft_load_credential ::
  "('s, 'e, 'c, 'x) soft_key_store \<Rightarrow> string \<Rightarrow> 's \<times> 'c \<Rightarrow> 'x soft_key_store_error + string option" where
  "soft_load_credential k label = (\<lambda>(s, c).
     Inr (map_option snd (List.find (\<lambda>x. fst x = label) (load_credentials k s))))"

definition soft_delete_credential ::
  "('s, 'e, 'c, 'x) soft_key_store \<Rightarrow> string \<Rightarrow> 's \<times> 'c \<Rightarrow> ('s \<times> 'c) \<times> 'x soft_key_store_error option" where
  "soft_delete_credential k label = (\<lambda>(s, c).
     let credentials = load_credentials k s;
         kept = filter (\<lambda>x. fst x \<noteq> label) credentials
     in if length kept = length credentials then ((s, c), None)
        else case save_credentials k kept s of (s', ok) \<Rightarrow> ((s', c), if ok then None else Some PersistenceFailed))"

definition as_key_store :: "('s, 'e, 'c, 'x) soft_key_store \<Rightarrow> ('s \<times> 'c, 'x soft_key_store_error) key_store" where
  "as_key_store k =
     \<lparr>generate_key_pair = soft_generate_key_pair k,
      sign_digest = soft_sign k,
      delete_key_pair = soft_delete_key_pair k,
      supported_algorithms = (\<lambda>_. Inr (crypto_supported_algorithms (soft_crypto k))),
      backing = (\<lambda>_. Inr SoftwareBacking),
      store_credential = soft_store_credential k,
      load_credential = soft_load_credential k,
      delete_credential = soft_delete_credential k\<rparr>"

section \<open>Security profiles and passwords\<close>

datatype security_profile = UnsecuredBasicAuth | TlsBasicAuth | TlsMutualAuth

definition security_profile_from_number :: "u8 \<Rightarrow> security_profile option" where
  "security_profile_from_number n =
     (if n = 1 then Some UnsecuredBasicAuth else if n = 2 then Some TlsBasicAuth
      else if n = 3 then Some TlsMutualAuth else None)"

fun security_profile_number :: "security_profile \<Rightarrow> u8" where
  "security_profile_number UnsecuredBasicAuth = 1"
| "security_profile_number TlsBasicAuth = 2"
| "security_profile_number TlsMutualAuth = 3"

definition needs_basic_auth :: "security_profile \<Rightarrow> bool" where
  "needs_basic_auth p = (p \<in> {UnsecuredBasicAuth, TlsBasicAuth})"

definition is_encrypted :: "security_profile \<Rightarrow> bool" where
  "is_encrypted p = (p \<in> {TlsBasicAuth, TlsMutualAuth})"

definition is_usable :: "bool \<Rightarrow> security_profile \<Rightarrow> bool" where
  "is_usable has_certificate p = (case p of TlsMutualAuth \<Rightarrow> has_certificate | _ \<Rightarrow> True)"

datatype security_profile_change = ChangeAllowed | UnknownProfile | DowngradeToUnsecured | DowngradeNotAllowed

text \<open>The derived order of the profiles is that of their numbers.\<close>

definition security_profile_change_of ::
  "security_profile \<Rightarrow> security_profile option \<Rightarrow> bool \<Rightarrow> security_profile_change" where
  "security_profile_change_of current proposed downgrade_allowed =
     (case proposed of
        None \<Rightarrow> UnknownProfile
      | Some p \<Rightarrow>
          if security_profile_number current \<le> security_profile_number p then ChangeAllowed
          else if p = UnsecuredBasicAuth then DowngradeToUnsecured
          else if downgrade_allowed then ChangeAllowed
          else DowngradeNotAllowed)"

datatype identity_error = EmptyIdentity | ContainsColon

definition charge_point_identity :: "string \<Rightarrow> identity_error + string" where
  "charge_point_identity identity =
     (if identity = [] then Inl EmptyIdentity
      else if CHR '':'' \<in> set identity then Inl ContainsColon
      else Inr identity)"

definition min_basic_auth_password_len :: usize where "min_basic_auth_password_len = 16"
definition max_basic_auth_password_len :: usize where "max_basic_auth_password_len = 64"

datatype password_error = PasswordTooShort | PasswordTooLong

definition basic_auth_password :: "string \<Rightarrow> password_error + string" where
  "basic_auth_password password =
     (let len = length (str_chars password)
      in if len < min_basic_auth_password_len then Inl PasswordTooShort
         else if max_basic_auth_password_len < len then Inl PasswordTooLong
         else Inr password)"

section \<open>The rotation of a password\<close>

text \<open>The \<open>BasicAuthPassword\<close> passed in is its string.\<close>

record stored_password =
  current_password :: string
  previous_password :: "string option"

record 'r text_codec =
  text_encode :: "'r \<Rightarrow> string option"
  text_decode :: "string \<Rightarrow> 'r option"

definition credential_label :: "i32 \<Rightarrow> string" where
  "credential_label n = ''basic-auth-password/'' @ int_to_string n"

definition load_password ::
  "stored_password text_codec \<Rightarrow> ('k, 'e) key_store \<Rightarrow> i32 \<Rightarrow> 'k \<Rightarrow> stored_password option" where
  "load_password codec ks n k =
     (case load_credential ks (credential_label n) k of
        Inr (Some encoded) \<Rightarrow> text_decode codec encoded
      | _ \<Rightarrow> None)"

definition store_password ::
  "stored_password text_codec \<Rightarrow> ('k, 'e) key_store \<Rightarrow> i32 \<Rightarrow> stored_password \<Rightarrow> 'k \<Rightarrow> 'k \<times> 'e option" where
  "store_password codec ks n r k =
     store_credential ks (credential_label n) (unwrap_or (text_encode codec r) []) k"

definition rotate_password ::
  "stored_password text_codec \<Rightarrow> ('k, 'e) key_store \<Rightarrow> i32 \<Rightarrow> string \<Rightarrow> 'k \<Rightarrow> 'k \<times> 'e option" where
  "rotate_password codec ks n password k =
     (let previous = map_option current_password (load_password codec ks n k)
      in store_password codec ks n \<lparr>current_password = password, previous_password = previous\<rparr> k)"

definition password_in_force ::
  "stored_password text_codec \<Rightarrow> ('k, 'e) key_store \<Rightarrow> i32 \<Rightarrow> 'k \<Rightarrow> string option" where
  "password_in_force codec ks n k = map_option current_password (load_password codec ks n k)"

definition confirm_password ::
  "stored_password text_codec \<Rightarrow> ('k, 'e) key_store \<Rightarrow> i32 \<Rightarrow> 'k \<Rightarrow> 'k" where
  "confirm_password codec ks n k =
     (case load_password codec ks n k of
        None \<Rightarrow> k
      | Some r \<Rightarrow>
          if previous_password r = None then k
          else fst (store_password codec ks n (r\<lparr>previous_password := None\<rparr>) k))"

definition rollback_password ::
  "stored_password text_codec \<Rightarrow> ('k, 'e) key_store \<Rightarrow> i32 \<Rightarrow> 'k \<Rightarrow> 'k \<times> bool" where
  "rollback_password codec ks n k =
     (case load_password codec ks n k of
        None \<Rightarrow> (k, False)
      | Some r \<Rightarrow>
          (case previous_password r of
             None \<Rightarrow> (k, False)
           | Some previous \<Rightarrow>
               (case store_password codec ks n \<lparr>current_password = previous, previous_password = None\<rparr> k of
                  (k', failed) \<Rightarrow> (k', failed = None))))"

end
