(* ===== verification/Credential_Properties.thy ===== *)
theory Credential_Properties
  imports Credentials "HOL-Library.Countable"
begin

text \<open>
  What a store of credentials promises, that the software key store keeps it on any crash-safe
  storage, and what follows for the rotation of a password: the password in force is the old one
  or the new one wherever the power goes, and the old one comes back until the new one is proven.
\<close>

section \<open>The contract\<close>

locale credential_store =
  fixes ks :: "('k, 'e) key_store"
    and creds :: "'k \<Rightarrow> string \<Rightarrow> string option"
    and kinv :: "'k \<Rightarrow> bool"
    and acceptable :: "string \<times> string \<Rightarrow> bool"
  assumes load: "kinv k \<Longrightarrow> load_credential ks l k = Inr (creds k l)"
    and store: "kinv k \<Longrightarrow> acceptable (l, v) \<Longrightarrow> store_credential ks l v k = (k', r) \<Longrightarrow>
      kinv k' \<and> (\<forall>j. j \<noteq> l \<longrightarrow> creds k' j = creds k j)
      \<and> (if r = None then creds k' l = Some v else creds k' l \<in> {creds k l, Some v})"
    and delete: "kinv k \<Longrightarrow> delete_credential ks l k = (k', r) \<Longrightarrow>
      kinv k' \<and> (\<forall>j. j \<noteq> l \<longrightarrow> creds k' j = creds k j)
      \<and> (if r = None then creds k' l = None else creds k' l \<in> {creds k l, None})"

section \<open>The software key store keeps it\<close>

definition soft_entries :: "('s, 'e, 'c, 'x) soft_key_store \<Rightarrow> (string \<Rightarrow> bytes option) \<Rightarrow> persisted_credentials" where
  "soft_entries k m =
     (case m credentials_key of None \<Rightarrow> [] | Some bs \<Rightarrow> unwrap_or (decode (credentials_codec k) bs) [])"

definition entry_of :: "persisted_credentials \<Rightarrow> string \<Rightarrow> string option" where
  "entry_of xs l = map_option snd (List.find (\<lambda>x. fst x = l) xs)"

definition entries_ok :: "(string \<times> string \<Rightarrow> bool) \<Rightarrow> persisted_credentials \<Rightarrow> bool" where
  "entries_ok acceptable xs \<longleftrightarrow> length xs \<le> default_max_credentials \<and> list_all acceptable xs"

lemma entry_of_simps:
  "entry_of [] l = None" "entry_of (x # xs) l = (if fst x = l then Some (snd x) else entry_of xs l)"
  by (simp_all add: entry_of_def)

lemma entry_of_without: "entry_of (filter (\<lambda>x. fst x \<noteq> l) xs) j = (if j = l then None else entry_of xs j)"
  by (induction xs) (auto simp: entry_of_simps)

lemma entry_of_append: "entry_of (xs @ ys) j = opt_or (entry_of xs j) (entry_of ys j)"
  by (induction xs) (auto simp: entry_of_simps)

lemma entries_ok_filter: "entries_ok acceptable xs \<Longrightarrow> entries_ok acceptable (filter P xs)"
  by (auto simp: entries_ok_def list_all_iff intro: order_trans [OF length_filter_le])

lemma filter_keeps_length: "length (filter P xs) = length xs \<Longrightarrow> filter P xs = xs"
  by (metis length_filter_less filter_id_conv less_irrefl)

text \<open>A list of credentials that is replaced by one whose encoding fits.\<close>

locale soft_credentials = crash_safe_storage st contents inv fits
  for st :: "('s, 'e) storage" and contents :: "'s \<Rightarrow> string \<Rightarrow> bytes option" and inv :: "'s \<Rightarrow> bool"
    and fits :: "bytes \<Rightarrow> bool" +
  fixes k :: "('s, 'e, 'c, 'x) soft_key_store"
    and acceptable :: "string \<times> string \<Rightarrow> bool"
  assumes on_storage: "soft_storage k = st"
    and encodes: "entries_ok acceptable xs \<Longrightarrow> codec_ok (credentials_codec k) fits xs"
begin

lemma load_entries: "inv s \<Longrightarrow> load_credentials k s = soft_entries k (contents s)"
  by (simp add: load_credentials_def load_list_def soft_entries_def on_storage get split: option.splits)

lemma save_entries:
  assumes "inv s" and "entries_ok acceptable xs" and "save_credentials k xs s = (s', ok)"
  shows "inv s' \<and> (if ok then soft_entries k (contents s') = xs
    else soft_entries k (contents s') \<in> {soft_entries k (contents s), xs})"
proof -
  obtain bs where bs: "encode (credentials_codec k) xs = Some bs" "fits bs" "decode (credentials_codec k) bs = Some xs"
    using encodes [OF assms(2)] by (auto simp: codec_ok_def is_some_and_def split: option.splits)
  obtain r where written: "storage_set st credentials_key bs s = (s', r)" "ok = (r = None)"
    using assms(3) bs(1) by (auto simp: save_credentials_def save_list_def on_storage split: prod.splits)
  have "contents s' credentials_key = Some bs \<Longrightarrow> soft_entries k (contents s') = xs"
    "contents s' credentials_key = contents s credentials_key \<Longrightarrow> soft_entries k (contents s') = soft_entries k (contents s)"
    by (simp_all add: soft_entries_def bs(3))
  then show ?thesis
    using set [OF assms(1) bs(2) written(1)] set_cut [OF assms(1) bs(2), of credentials_key s'] written
    by (cases r) auto
qed

end

sublocale soft_credentials \<subseteq> soft: credential_store "as_key_store k" "\<lambda>(s, c). entry_of (soft_entries k (contents s))"
  "\<lambda>(s, c). inv s \<and> entries_ok acceptable (soft_entries k (contents s))" acceptable
proof
  fix x :: "'s \<times> 'c" and l v and x' :: "'s \<times> 'c" and r
  obtain s c where x: "x = (s, c)" by force
  assume "case x of (s, c) \<Rightarrow> inv s \<and> entries_ok acceptable (soft_entries k (contents s))"
  then have ok: "inv s" "entries_ok acceptable (soft_entries k (contents s))" by (simp_all add: x)
  show "load_credential (as_key_store k) l x = Inr ((case x of (s, c) \<Rightarrow> entry_of (soft_entries k (contents s))) l)"
    using ok by (simp add: as_key_store_def soft_load_credential_def x load_entries entry_of_def)
  let ?xs = "soft_entries k (contents s)"
  let ?without = "filter (\<lambda>x. fst x \<noteq> l) ?xs"
  {
    assume acc: "acceptable (l, v)" and run: "store_credential (as_key_store k) l v x = (x', r)"
    show "(case x' of (s, c) \<Rightarrow> inv s \<and> entries_ok acceptable (soft_entries k (contents s)))
      \<and> (\<forall>j. j \<noteq> l \<longrightarrow> (case x' of (s, c) \<Rightarrow> entry_of (soft_entries k (contents s))) j
            = (case x of (s, c) \<Rightarrow> entry_of (soft_entries k (contents s))) j)
      \<and> (if r = None then (case x' of (s, c) \<Rightarrow> entry_of (soft_entries k (contents s))) l = Some v
         else (case x' of (s, c) \<Rightarrow> entry_of (soft_entries k (contents s))) l
           \<in> {(case x of (s, c) \<Rightarrow> entry_of (soft_entries k (contents s))) l, Some v})"
    proof (cases "\<not> list_ex (\<lambda>x. fst x = l) ?xs \<and> default_max_credentials \<le> length ?xs")
      case True
      then have "x' = x" "r = Some CredentialStoreFull"
        using run ok by (auto simp: as_key_store_def soft_store_credential_def x load_entries)
      then show ?thesis using ok by (simp add: x)
    next
      case False
      have "length ?without < length ?xs" if "list_ex (\<lambda>x. fst x = l) ?xs"
        using that by (auto simp: list_ex_iff intro: length_filter_less)
      with False ok(2) length_filter_le [of "\<lambda>x. fst x \<noteq> l" ?xs]
      have "Suc (length ?without) \<le> default_max_credentials"
        unfolding entries_ok_def by linarith
      with ok(2) acc have new: "entries_ok acceptable (?without @ [(l, v)])"
        by (auto simp: entries_ok_def list_all_iff)
      obtain s' saved where save: "save_credentials k (?without @ [(l, v)]) s = (s', saved)" by force
      then have x': "x' = (s', c)" "r = (if saved then None else Some PersistenceFailed)"
        using run ok False by (auto simp: as_key_store_def soft_store_credential_def x load_entries split: if_splits)
      have "entry_of (?without @ [(l, v)]) j = (if j = l then Some v else entry_of ?xs j)" for j
        by (simp add: entry_of_append entry_of_without entry_of_simps)
      with save_entries [OF ok(1) new save] new ok(2) show ?thesis
        by (auto simp: x x' split: if_splits)
    qed
  }
  {
    assume run: "delete_credential (as_key_store k) l x = (x', r)"
    show "(case x' of (s, c) \<Rightarrow> inv s \<and> entries_ok acceptable (soft_entries k (contents s)))
      \<and> (\<forall>j. j \<noteq> l \<longrightarrow> (case x' of (s, c) \<Rightarrow> entry_of (soft_entries k (contents s))) j
            = (case x of (s, c) \<Rightarrow> entry_of (soft_entries k (contents s))) j)
      \<and> (if r = None then (case x' of (s, c) \<Rightarrow> entry_of (soft_entries k (contents s))) l = None
         else (case x' of (s, c) \<Rightarrow> entry_of (soft_entries k (contents s))) l
           \<in> {(case x of (s, c) \<Rightarrow> entry_of (soft_entries k (contents s))) l, None})"
    proof (cases "length ?without = length ?xs")
      case True
      then have "x' = x" "r = None"
        using run ok by (auto simp: as_key_store_def soft_delete_credential_def x load_entries)
      moreover have "entry_of ?xs l = None"
        using entry_of_without [of l ?xs l] filter_keeps_length [OF True] by simp
      ultimately show ?thesis using ok by (simp add: x)
    next
      case False
      have new: "entries_ok acceptable ?without" by (rule entries_ok_filter [OF ok(2)])
      obtain s' saved where save: "save_credentials k ?without s = (s', saved)" by force
      then have x': "x' = (s', c)" "r = (if saved then None else Some PersistenceFailed)"
        using run ok False by (auto simp: as_key_store_def soft_delete_credential_def x load_entries split: if_splits)
      from save_entries [OF ok(1) new save] new ok(2) show ?thesis
        by (auto simp: x x' entry_of_without split: if_splits)
    qed
  }
qed

section \<open>Rotating a password\<close>

text \<open>The passwords of a record are such as the station accepts.\<close>

definition password_accepted :: "string \<Rightarrow> bool" where
  "password_accepted p = (basic_auth_password p = Inr p)"

definition passwords_accepted :: "stored_password \<Rightarrow> bool" where
  "passwords_accepted r \<longleftrightarrow> password_accepted (current_password r)
     \<and> is_none_or (previous_password r) password_accepted"

lemma digit_char_inject: "m < 10 \<Longrightarrow> n < 10 \<Longrightarrow> digit_char m = digit_char n \<longleftrightarrow> m = n"
  by (metis digit_value_digit_char option.inject)

lemma nat_to_string_no_sign: "CHR ''-'' \<notin> set (nat_to_string n)"
proof (induction n rule: nat_to_string.induct)
  case (1 n)
  have "digit_char m \<noteq> CHR ''-''" if "m < 10" for m
    using that by (auto simp: digit_char_def dest!: arg_cong [where f = "of_char :: char \<Rightarrow> nat"])
  then have "CHR ''-'' \<noteq> digit_char m" if "m < 10" for m
    using that by metis
  with 1 show ?case by (subst nat_to_string.simps) auto
qed

lemma credential_label_inject [simp]: "credential_label m = credential_label n \<longleftrightarrow> m = n"
proof -
  have "''-'' @ nat_to_string a \<noteq> nat_to_string b" for a b
    using nat_to_string_no_sign [of b] by (metis append_Cons list.set_intros(1))
  then have "int_to_string m = int_to_string n \<longleftrightarrow> m = n"
    by (auto simp: int_to_string_def) metis
  then show ?thesis by (simp add: credential_label_def)
qed

text \<open>The rotation as an abstract machine on the record of one slot, and the operations of the program.\<close>

datatype password_op = Rotate string | Confirm | Rollback

fun password_step :: "password_op \<Rightarrow> stored_password option \<Rightarrow> stored_password option" where
  "password_step (Rotate p) r = Some \<lparr>current_password = p, previous_password = map_option current_password r\<rparr>"
| "password_step Confirm r = map_option (\<lambda>x. x\<lparr>previous_password := None\<rparr>) r"
| "password_step Rollback r =
     (case r of
        None \<Rightarrow> None
      | Some x \<Rightarrow>
          (case previous_password x of
             None \<Rightarrow> r
           | Some q \<Rightarrow> Some \<lparr>current_password = q, previous_password = None\<rparr>))"

text \<open>The second component: whether the program reports that the operation took effect.\<close>

definition password_op_run ::
  "stored_password text_codec \<Rightarrow> ('k, 'e) key_store \<Rightarrow> i32 \<times> password_op \<Rightarrow> 'k \<Rightarrow> 'k \<times> bool" where
  "password_op_run codec ks x k =
     (case snd x of
        Rotate p \<Rightarrow> (case rotate_password codec ks (fst x) p k of (k', failed) \<Rightarrow> (k', failed = None))
      | Confirm \<Rightarrow> (confirm_password codec ks (fst x) k, False)
      | Rollback \<Rightarrow> rollback_password codec ks (fst x) k)"

fun password_run ::
  "stored_password text_codec \<Rightarrow> ('k, 'e) key_store \<Rightarrow> (i32 \<times> password_op) list \<Rightarrow> 'k \<Rightarrow> 'k \<times> bool list" where
  "password_run codec ks [] k = (k, [])"
| "password_run codec ks (x # xs) k =
     (case password_op_run codec ks x k of
        (k1, ok) \<Rightarrow> (case password_run codec ks xs k1 of (k2, oks) \<Rightarrow> (k2, ok # oks)))"

definition op_accepted :: "i32 \<times> password_op \<Rightarrow> bool" where
  "op_accepted x = (case snd x of Rotate p \<Rightarrow> password_accepted p | _ \<Rightarrow> True)"

text \<open>What the operations that took effect make of the record of a slot.\<close>

definition slot_effect :: "i32 \<Rightarrow> ((i32 \<times> password_op) \<times> bool) list \<Rightarrow> stored_password option \<Rightarrow> stored_password option" where
  "slot_effect n = fold (\<lambda>(x, took). if took \<and> fst x = n then password_step (snd x) else id)"

locale password_store = credential_store ks creds kinv acceptable
  for ks :: "('k, 'e) key_store" and creds :: "'k \<Rightarrow> string \<Rightarrow> string option" and kinv :: "'k \<Rightarrow> bool"
    and acceptable :: "string \<times> string \<Rightarrow> bool" +
  fixes codec :: "stored_password text_codec"
  assumes representable: "passwords_accepted r \<Longrightarrow>
    \<exists>e. text_encode codec r = Some e \<and> text_decode codec e = Some r \<and> acceptable (credential_label n, e)"
begin

definition stored :: "'k \<Rightarrow> i32 \<Rightarrow> stored_password option" where
  "stored k n = Option.bind (creds k (credential_label n)) (text_decode codec)"

definition password_inv :: "'k \<Rightarrow> bool" where
  "password_inv k \<longleftrightarrow> kinv k \<and> (\<forall>n. is_none_or (stored k n) passwords_accepted)"

lemma load_stored: "kinv k \<Longrightarrow> load_password codec ks n k = stored k n"
  by (simp add: load_password_def load stored_def split: option.splits)

lemma store_stored:
  assumes "password_inv k" and "passwords_accepted r" and "store_password codec ks n r k = (k', failed)"
  shows "password_inv k' \<and> (\<forall>m. m \<noteq> n \<longrightarrow> stored k' m = stored k m)
    \<and> (if failed = None then stored k' n = Some r else stored k' n \<in> {stored k n, Some r})"
proof -
  obtain e where e: "text_encode codec r = Some e" "text_decode codec e = Some r" "acceptable (credential_label n, e)"
    using representable [OF assms(2)] by blast
  have "store_credential ks (credential_label n) e k = (k', failed)"
    using assms(3) by (simp add: store_password_def e(1))
  from store [OF _ e(3) this] assms(1)
  have "kinv k'" "\<forall>m. m \<noteq> n \<longrightarrow> stored k' m = stored k m"
    and "if failed = None then stored k' n = Some r else stored k' n \<in> {stored k n, Some r}"
    by (auto simp: password_inv_def stored_def e(2) split: if_splits)
  moreover have "is_none_or (stored k' m) passwords_accepted" for m
    using calculation(2,3) assms(1,2) by (cases "m = n") (auto simp: password_inv_def split: if_splits)
  ultimately show ?thesis by (simp add: password_inv_def)
qed

lemma step_accepted:
  "op_accepted (n, op) \<Longrightarrow> is_none_or r passwords_accepted \<Longrightarrow> is_none_or (password_step op r) passwords_accepted"
  by (cases op; cases r) (auto simp: op_accepted_def passwords_accepted_def split: option.splits)

lemma op_run_stored:
  assumes "password_inv k" and "op_accepted x" and "password_op_run codec ks x k = (k', ok)"
  shows "password_inv k' \<and> (\<exists>took. (ok \<longrightarrow> took) \<and> (\<forall>n. stored k' n = slot_effect n [(x, took)] (stored k n)))"
proof -
  obtain n op where x: "x = (n, op)" by force
  have kinv: "kinv k" and here: "is_none_or (stored k n) passwords_accepted"
    using assms(1) by (simp_all add: password_inv_def)
  have stays: ?thesis if "k' = k" "\<not> ok"
    using that assms(1) by (auto simp: slot_effect_def intro!: exI [of _ False])
  have moves: ?thesis if "store_password codec ks n r k = (k', failed)" "password_step op (stored k n) = Some r"
      "ok \<longrightarrow> failed = None" for r failed
  proof -
    have "passwords_accepted r" using step_accepted [OF assms(2) [unfolded x] here] that(2) by simp
    note after = store_stored [OF assms(1) this that(1)]
    have "stored k' m = slot_effect m [(x, stored k' n = Some r)] (stored k m)" for m
      using after that(2) by (cases "m = n") (auto simp: slot_effect_def x split: if_splits)
    moreover have "ok \<longrightarrow> stored k' n = Some r" using after that(3) by simp
    ultimately show ?thesis using after by blast
  qed
  show ?thesis
  proof (cases op)
    case (Rotate p)
    with assms(3) moves show ?thesis
      by (auto simp: password_op_run_def x rotate_password_def load_stored [OF kinv] split: prod.splits)
  next
    case Confirm
    with assms(3) stays moves show ?thesis
      by (cases "stored k n"; cases "store_password codec ks n (the (stored k n)\<lparr>previous_password := None\<rparr>) k")
        (auto simp: password_op_run_def x confirm_password_def load_stored [OF kinv] split: if_splits)
  next
    case Rollback
    with assms(3) stays moves show ?thesis
      by (auto simp: password_op_run_def x rollback_password_def load_stored [OF kinv] split: option.splits prod.splits)
  qed
qed

lemma run_stored:
  assumes "password_inv k" and "list_all op_accepted xs" and "password_run codec ks xs k = (k', oks)"
  shows "password_inv k' \<and> (\<exists>took. list_all2 (\<longrightarrow>) oks took \<and> length took = length xs
    \<and> (\<forall>n. stored k' n = slot_effect n (zip xs took) (stored k n)))"
  using assms
proof (induction xs arbitrary: k k' oks)
  case (Cons x xs)
  obtain k1 ok where first: "password_op_run codec ks x k = (k1, ok)" by force
  obtain k2 oks1 where rest: "password_run codec ks xs k1 = (k2, oks1)" by force
  obtain took1 where took1: "password_inv k1" "ok \<longrightarrow> took1"
      "\<forall>n. stored k1 n = slot_effect n [(x, took1)] (stored k n)"
    using op_run_stored [OF Cons.prems(1) _ first] Cons.prems(2) by auto
  from Cons.IH [OF took1(1) _ rest] Cons.prems(2) obtain took where
    took: "password_inv k2" "list_all2 (\<longrightarrow>) oks1 took" "length took = length xs"
      "\<forall>n. stored k2 n = slot_effect n (zip xs took) (stored k1 n)" by auto
  with took1 Cons.prems(3) show ?case
    by (auto simp: first rest slot_effect_def intro!: exI [of _ "took1 # took"])
qed (simp add: slot_effect_def)

end

text \<open>The software key store holds the passwords of every slot.\<close>

locale soft_passwords = soft_credentials st contents inv fits k acceptable
  for st :: "('s, 'e) storage" and contents :: "'s \<Rightarrow> string \<Rightarrow> bytes option" and inv :: "'s \<Rightarrow> bool"
    and fits :: "bytes \<Rightarrow> bool" and k :: "('s, 'e, 'c, 'x) soft_key_store" and acceptable :: "string \<times> string \<Rightarrow> bool" +
  fixes codec :: "stored_password text_codec"
  assumes representable: "passwords_accepted r \<Longrightarrow>
    \<exists>e. text_encode codec r = Some e \<and> text_decode codec e = Some r \<and> acceptable (credential_label n, e)"

sublocale soft_passwords \<subseteq> passwords: password_store "as_key_store k" "\<lambda>(s, c). entry_of (soft_entries k (contents s))"
  "\<lambda>(s, c). inv s \<and> entries_ok acceptable (soft_entries k (contents s))" acceptable codec
  by unfold_locales (rule representable)

context soft_passwords
begin

lemma fresh_password_inv:
  assumes "inv s" and "contents s credentials_key = None"
  shows "passwords.password_inv (s, c)" and "passwords.stored (s, c) n = None"
  using assms unfolding passwords.password_inv_def passwords.stored_def
  by (simp_all add: soft_entries_def entries_ok_def entry_of_simps)

lemma run_from_fresh:
  assumes "inv s" and "contents s credentials_key = None" and "list_all op_accepted xs"
    and "password_run codec (as_key_store k) xs (s, c) = (x, oks)"
  shows "\<exists>took. list_all2 (\<longrightarrow>) oks took \<and> length took = length xs
    \<and> (\<forall>n. load_password codec (as_key_store k) n x = slot_effect n (zip xs took) None)"
proof -
  note fresh = fresh_password_inv [OF assms(1,2), of c]
  from passwords.run_stored [OF fresh(1) assms(3,4)] show ?thesis
    by (auto simp: fresh(2) passwords.password_inv_def passwords.load_stored)
qed

end

section \<open>An encoding to run it with\<close>

text \<open>Every countable type has an encoding, by the place of a value in an enumeration.\<close>

definition counted_codec :: "'r::countable codec" where
  "counted_codec =
     \<lparr>encode = (\<lambda>r. Some (replicate (to_nat r) 0)), decode = (\<lambda>bs. Some (from_nat (length bs)))\<rparr>"

definition counted_password_codec :: "stored_password text_codec" where
  "counted_password_codec =
     \<lparr>text_encode = (\<lambda>r. Some (replicate (to_nat (current_password r, previous_password r)) CHR ''x'')),
      text_decode = (\<lambda>e. case from_nat (length e) of
        (p, q) \<Rightarrow> Some \<lparr>current_password = p, previous_password = q\<rparr>)\<rparr>"

lemma counted_codec_ok: "codec_ok counted_codec (\<lambda>_. True) r"
  by (simp add: codec_ok_def counted_codec_def)

definition no_software_crypto :: "(unit, unit) software_crypto" where
  "no_software_crypto =
     \<lparr>crypto_generate_key_pair = (\<lambda>_ c. (c, Inl ())), crypto_sign = (\<lambda>_ _ _ c. (c, Inl ())),
      crypto_supported_algorithms = []\<rparr>"

interpretation memory_passwords: soft_passwords in_memory_storage id "\<lambda>_. True" "\<lambda>_. True"
  "soft_new keys counted_codec in_memory_storage crypto" "\<lambda>_. True" counted_password_codec
  for keys crypto
  by unfold_locales
    (simp_all add: soft_new_def soft_with_limit_def counted_codec_ok counted_password_codec_def)

section \<open>A storage that cannot be read\<close>

text \<open>A read that fails is taken for an empty store, so the next credential replaces all others.\<close>

lemma unreadable_store_is_overwritten:
  assumes "storage_get (soft_storage k) credentials_key s = Inl e"
    and "encode (credentials_codec k) [(l, v)] = Some bs"
    and "storage_set (soft_storage k) credentials_key bs s = (s', None)"
  shows "soft_store_credential k l v (s, c) = ((s', c), None)"
  using assms
  by (simp add: soft_store_credential_def load_credentials_def load_list_def save_credentials_def save_list_def
      default_max_credentials_def)

section \<open>The history of a password\<close>



end
