(* ===== verification/Capability_Gates.thy ===== *)
theory Capability_Gates
  imports Charge_Point
begin

text \<open>
  \<open>hardware/capabilities.rs\<close> and the table of \<open>device_model.rs\<close>: which components and variables a
  station advertises for the capabilities its hardware declares, and the feature profiles of the
  oldest protocol version.  The features a build has are a parameter.
\<close>

section \<open>Capabilities that are advertised\<close>

record capability_gate =
  cap_gate_name :: string
  cap_gate_feature :: string
  cap_gate_enabled :: "capabilities \<Rightarrow> bool"
  cap_gate_component :: "string option"
  cap_gate_profile_1_6 :: "string option"
  cap_gate_has_handler :: bool

definition capability_gates :: "capability_gate list" where
  "capability_gates =
     map (\<lambda>(n, f, e, c, p, h). \<lparr>cap_gate_name = n, cap_gate_feature = f, cap_gate_enabled = e,
            cap_gate_component = c, cap_gate_profile_1_6 = p, cap_gate_has_handler = h\<rparr>)
     [(''reservation'', ''reservation'', cap_reservation, Some ''ReservationCtrlr'', Some ''Reservation'', True),
      (''local_auth_list'', ''local-auth-list'', cap_local_auth_list, Some ''LocalAuthListCtrlr'', Some ''LocalAuthListManagement'', True),
      (''tariff_and_cost'', ''tariff-cost'', cap_tariff_and_cost, Some ''TariffCostCtrlr'', None, True),
      (''ac_der'', ''der-control'', cap_der_control, Some ''ACDERCtrlr'', None, False),
      (''dc_der'', ''der-control'', cap_der_control, Some ''DCDERCtrlr'', None, False),
      (''web_payments'', ''payment'', cap_payment, Some ''WebPaymentsCtrlr'', None, False),
      (''v2x_charging'', ''der-control'', supports_bidirectional_power, Some ''V2XChargingCtrlr'', None, False),
      (''smart_charging'', ''smart-charging'', cap_smart_charging, Some ''SmartChargingCtrlr'', Some ''SmartCharging'', True),
      (''variable_monitoring'', ''variable-monitoring'', cap_variable_monitoring, Some ''MonitoringCtrlr'', None, True),
      (''has_display'', ''display-message'', has_display, Some ''DisplayMessageCtrlr'', None, False),
      (''certificate_management'', ''certificate-management'', cap_certificate_management, None, None, False),
      (''diagnostics'', ''diagnostics'', cap_diagnostics, None, Some ''FirmwareManagement'', False),
      (''firmware_management'', ''firmware-management'', cap_firmware_management, None, Some ''FirmwareManagement'', False),
      (''firmware_publishing'', ''firmware-publishing'', cap_firmware_publishing, None, None, False),
      (''periodic_event_stream'', ''periodic-event-stream'', cap_periodic_event_stream, None, None, True),
      (''battery_swap'', ''battery-swap'', cap_battery_swap, None, None, False),
      (''key_storage'', ''key-storage'', cap_key_storage, None, None, False),
      (''der_control'', ''der-control'', cap_der_control, None, None, False),
      (''payment'', ''payment'', cap_payment, Some ''PaymentCtrlr'', None, False),
      (''iso15118_support'', ''iso15118'', (\<lambda>c. iso15118_support c \<noteq> NoIso15118), Some ''ISO15118Ctrlr'', None, False),
      (''ocsp_checking'', ''ocsp-checking'', cap_ocsp_checking, None, None, False)]"

definition supported_feature_profiles_1_6 :: "(string \<Rightarrow> bool) \<Rightarrow> capabilities \<Rightarrow> string" where
  "supported_feature_profiles_1_6 feature_enabled caps =
     fold (\<lambda>g profiles.
         case cap_gate_profile_1_6 g of
           None \<Rightarrow> profiles
         | Some p \<Rightarrow> if feature_enabled (cap_gate_feature g) \<and> cap_gate_enabled g caps then profiles @ '','' @ p else profiles)
       capability_gates ''Core,RemoteTrigger''"

section \<open>Variables of a capability\<close>

record gated_variable =
  gated_component :: string
  gated_name :: string
  gated_instance :: "string option"
  gated_data_type :: variable_data_type
  gated_value :: string
  gated_mutability :: variable_mutability
  gated_honoured :: bool

definition gated ::
  "string \<Rightarrow> string \<times> string option \<times> variable_data_type \<times> string \<times> variable_mutability \<times> bool \<Rightarrow> gated_variable" where
  "gated c = (\<lambda>(v, i, ty, x, mut, honoured).
     \<lparr>gated_component = c, gated_name = v, gated_instance = i, gated_data_type = ty, gated_value = x,
      gated_mutability = mut, gated_honoured = honoured\<rparr>)"

definition gated_local_list_variables :: "gated_variable list" where
  "gated_local_list_variables = map (gated ''LocalAuthListCtrlr'')
     [(''Entries'', None, IntegerType, ''0'', ReadOnly, True),
      (''ItemsPerMessage'', None, IntegerType, ''50'', ReadOnly, True),
      (''BytesPerMessage'', None, IntegerType, ''8192'', ReadOnly, True)]"

definition gated_smart_charging_variables :: "gated_variable list" where
  "gated_smart_charging_variables = map (gated ''SmartChargingCtrlr'')
     [(''Entries'', Some ''ChargingProfiles'', IntegerType, ''0'', ReadOnly, True),
      (''ProfileStackLevel'', None, IntegerType, ''8'', ReadOnly, False),
      (''PeriodsPerSchedule'', None, IntegerType, ''24'', ReadOnly, False),
      (''RateUnit'', None, MemberListType, ''A,W'', ReadOnly, True),
      (''LimitChangeSignificance'', None, DecimalType, ''0'', ReadWrite, False)]"

definition gated_display_variables :: "gated_variable list" where
  "gated_display_variables = map (gated ''DisplayMessageCtrlr'')
     [(''DisplayMessages'', None, IntegerType, ''0'', ReadOnly, True),
      (''SupportedFormats'', None, MemberListType, [], ReadOnly, True),
      (''SupportedPriorities'', None, MemberListType, ''AlwaysFront,InFront,NormalCycle'', ReadOnly, True),
      (''SupportedStates'', None, MemberListType, ''Charging,Faulted,Idle,Unavailable'', ReadOnly, True),
      (''Language'', None, OptionListType, [], ReadWrite, False)]"

definition gated_tariff_variables :: "gated_variable list" where
  "gated_tariff_variables = map (gated ''TariffCostCtrlr'')
     [(''Currency'', None, StringType, [], ReadWrite, False),
      (''MaxElements'', Some ''Tariff'', IntegerType, ''16'', ReadOnly, True),
      (''ConditionsSupported'', Some ''Tariff'', BooleanType, ''true'', ReadOnly, True),
      (''TariffFallbackMessage'', None, StringType, [], ReadWrite, False),
      (''TotalCostFallbackMessage'', None, StringType, [], ReadWrite, False)]"

definition gated_payment_variables :: "gated_variable list" where
  "gated_payment_variables = map (gated ''PaymentCtrlr'')
     [(''Enabled'', None, BooleanType, ''true'', ReadWrite, False),
      (''Problem'', None, BooleanType, ''false'', ReadOnly, True),
      (''AuthorizeDirectPayment'', None, BooleanType, ''false'', ReadWrite, False),
      (''AuthorizationAmount'', None, DecimalType, ''0'', ReadWrite, False),
      (''PaymentDetails'', None, MemberListType, [], ReadWrite, False),
      (''SettlementByCSMS'', None, BooleanType, ''false'', ReadWrite, False),
      (''ReceiptServerUrl'', None, StringType, [], ReadWrite, False),
      (''ReceiptByCSMS'', None, BooleanType, ''false'', ReadWrite, False),
      (''Merchant'', Some ''Id'', StringType, [], ReadWrite, False),
      (''Merchant'', Some ''TaxId'', StringType, [], ReadWrite, False),
      (''Merchant'', Some ''Name'', StringType, [], ReadWrite, False),
      (''Merchant'', Some ''Address'', StringType, [], ReadWrite, False),
      (''Merchant'', Some ''City'', StringType, [], ReadWrite, False),
      (''TerminalID'', None, StringType, [], ReadOnly, True),
      (''PaymentServiceProvider'', None, StringType, [], ReadOnly, True),
      (''VendorName'', None, StringType, [], ReadOnly, True),
      (''Model'', None, StringType, [], ReadOnly, True),
      (''SerialNumber'', None, StringType, [], ReadOnly, True),
      (''FirmwareVersion'', None, StringType, [], ReadOnly, True),
      (''IMSI'', None, StringType, [], ReadOnly, True),
      (''ICCID'', None, StringType, [], ReadOnly, True),
      (''Connected'', None, BooleanType, ''false'', ReadOnly, True)]"

definition gated_iso15118_variables :: "gated_variable list" where
  "gated_iso15118_variables = map (gated ''ISO15118Ctrlr'')
     [(''ContractValidationOffline'', None, BooleanType, ''false'', ReadWrite, True),
      (''CentralContractValidationAllowed'', None, BooleanType, ''false'', ReadWrite, True)]"

definition gated_tariff_fallback_variables :: "gated_variable list" where
  "gated_tariff_fallback_variables = map (gated ''TariffCostCtrlr'')
     [(''TariffFallbackMessage'', None, StringType, [], ReadWrite, False),
      (''TotalCostFallbackMessage'', None, StringType, [], ReadWrite, False)]"

definition gated_v2x_variables :: "gated_variable list" where
  "gated_v2x_variables = map (gated ''V2XChargingCtrlr'')
     [(''Enabled'', None, BooleanType, ''false'', ReadWrite, False),
      (''SupportedOperationModes'', None, MemberListType, [], ReadOnly, False),
      (''SupportedEnergyTransferModes'', None, MemberListType, [], ReadOnly, False)]"

definition gated_ac_der_variables :: "gated_variable list" where
  "gated_ac_der_variables = map (gated ''ACDERCtrlr'')
     [(''ModesSupported'', None, MemberListType, [], ReadOnly, False)]"

definition gated_dc_der_variables :: "gated_variable list" where
  "gated_dc_der_variables = map (gated ''DCDERCtrlr'')
     [(''InverterManufacturer'', None, StringType, [], ReadOnly, False),
      (''InverterModel'', None, StringType, [], ReadOnly, False),
      (''InverterSwVersion'', None, StringType, [], ReadOnly, False),
      (''InverterHwVersion'', None, StringType, [], ReadOnly, False),
      (''ModesSupported'', None, MemberListType, [], ReadOnly, False),
      (''MaxW'', None, DecimalType, [], ReadOnly, False),
      (''MaxVA'', None, DecimalType, [], ReadOnly, False),
      (''MaxVar'', None, DecimalType, [], ReadOnly, False),
      (''MaxVarNeg'', None, DecimalType, [], ReadOnly, False),
      (''MaxChargeRateW'', None, DecimalType, [], ReadOnly, False),
      (''MaxChargeRateVA'', None, DecimalType, [], ReadOnly, False),
      (''OverExcitedPF'', None, DecimalType, [], ReadOnly, False),
      (''OverExcitedW'', None, DecimalType, [], ReadOnly, False),
      (''UnderExcitedPF'', None, DecimalType, [], ReadOnly, False),
      (''UnderExcitedW'', None, DecimalType, [], ReadOnly, False),
      (''ReactiveSusceptance'', None, DecimalType, [], ReadOnly, False)]"

definition gated_web_payments_variables :: "gated_variable list" where
  "gated_web_payments_variables = map (gated ''WebPaymentsCtrlr'')
     [(''URLTemplate'', None, StringType, [], ReadWrite, False),
      (''SharedSecret'', None, StringType, [], WriteOnly, False),
      (''TOTPVersion'', None, StringType, [], ReadWrite, False),
      (''Length'', None, IntegerType, ''0'', ReadWrite, False),
      (''ValidityTime'', None, IntegerType, ''0'', ReadWrite, False)]"

definition gated_monitoring_variables :: "gated_variable list" where
  "gated_monitoring_variables = map (gated ''MonitoringCtrlr'')
     [(''ItemsPerMessage'', Some ''SetVariableMonitoring'', IntegerType, ''50'', ReadOnly, True),
      (''BytesPerMessage'', Some ''SetVariableMonitoring'', IntegerType, ''8192'', ReadOnly, True)]"

definition capability_gated_variables :: "gated_variable list" where
  "capability_gated_variables =
     gated_local_list_variables @ gated_smart_charging_variables @ gated_display_variables @ gated_tariff_variables @ gated_payment_variables
       @ gated_iso15118_variables @ gated_tariff_fallback_variables @ gated_v2x_variables @ gated_ac_der_variables
       @ gated_dc_der_variables @ gated_web_payments_variables @ gated_monitoring_variables"

section \<open>The events that advertise them\<close>

definition plain_characteristics :: "variable_data_type \<Rightarrow> variable_characteristics" where
  "plain_characteristics ty =
     \<lparr>data_type = ty, var_unit_of = None, min_limit = None, max_limit = None, values_list = None,
      supports_monitoring = False\<rparr>"

text \<open>A variable the build does not act on is registered read-only.\<close>

definition gated_variable_event :: "gated_variable \<Rightarrow> charge_point_event" where
  "gated_variable_event g =
     DeviceModelChanged (VariableRegistered (Component (gated_component g) None None)
       (Variable (gated_name g) (gated_instance g)) (plain_characteristics (gated_data_type g))
       [\<lparr>attribute_type_of = Actual, attribute_value = gated_value g,
         mutability = (if gated_honoured g then gated_mutability g else ReadOnly),
         persistent = False, constant_attribute = False, requires_reboot = False\<rparr>])"

definition gate_available_event :: "capabilities \<Rightarrow> capability_gate \<Rightarrow> charge_point_event option" where
  "gate_available_event caps g =
     map_option (\<lambda>c.
         DeviceModelChanged (VariableRegistered (Component c None None) (Variable ''Available'' None)
           (plain_characteristics BooleanType)
           [\<lparr>attribute_type_of = Actual, attribute_value = (if cap_gate_enabled g caps then ''true'' else ''false''),
             mutability = ReadOnly, persistent = False, constant_attribute = True, requires_reboot = False\<rparr>]))
       (cap_gate_component g)"

definition gate_variables :: "capabilities \<Rightarrow> capability_gate \<Rightarrow> gated_variable list" where
  "gate_variables caps g =
     filter (\<lambda>v. cap_gate_enabled g caps \<and> cap_gate_component g = Some (gated_component v)) capability_gated_variables"

definition capability_gate_events :: "capabilities \<Rightarrow> charge_point_event list" where
  "capability_gate_events caps =
     List.map_filter (gate_available_event caps) capability_gates
       @ concat (map (\<lambda>g. map gated_variable_event (gate_variables caps g)) capability_gates)"

end
