(* ===== verification/Variable_Requests.thy ===== *)
theory Variable_Requests
  imports Charging_Requests Capability_Gates Credentials
begin

text \<open>
  \<open>device_model.rs\<close> and \<open>reporting.rs\<close>: the requests of a CSMS that read, write and report the
  variables of the device model.  A request to write several variables is answered item by item,
  each on the state the one before left.  Whether a text is an RFC 3339 timestamp is a parameter
  (the date library decides it), and so are the key store and the encoding of a password record.
\<close>

section \<open>Reading\<close>

record get_variable_request =
  get_component :: component
  get_variable :: "variable"
  get_attribute_type :: attribute_type

datatype get_variable_outcome =
  GetAccepted string | GetRejected | GetUnknownComponent | GetUnknownVariable | GetNotSupportedAttributeType

definition resolve_get :: "device_model \<Rightarrow> component \<Rightarrow> variable \<Rightarrow> attribute_type \<Rightarrow> get_variable_outcome" where
  "resolve_get m c v ty =
     (case dm_get m c v of
        None \<Rightarrow> if dm_has_component m c then GetUnknownVariable else GetUnknownComponent
      | Some d \<Rightarrow>
          (case attribute_of d ty of
             None \<Rightarrow> GetNotSupportedAttributeType
           | Some a \<Rightarrow> if mutability a = WriteOnly then GetRejected else GetAccepted (attribute_value a)))"

definition handle_get_variables :: "get_variable_request list \<Rightarrow> charge_point_state \<Rightarrow> get_variable_outcome list" where
  "handle_get_variables requests s =
     map (\<lambda>r. resolve_get (device_model_of s) (get_component r) (get_variable r) (get_attribute_type r)) requests"

section \<open>The values a variable can hold\<close>

datatype value_rejection = Malformed | OutOfRange | NotAnAllowedValue

definition in_range :: "variable_characteristics \<Rightarrow> f64 \<Rightarrow> value_rejection option" where
  "in_range ch n =
     (if is_some_and (min_limit ch) (\<lambda>lo. f64_less n lo) \<or> is_some_and (max_limit ch) (\<lambda>hi. f64_less hi n)
      then Some OutOfRange else None)"

definition validate_value ::
  "(string \<Rightarrow> bool) \<Rightarrow> variable_characteristics \<Rightarrow> string \<Rightarrow> value_rejection option" where
  "validate_value is_rfc3339 ch x =
     (case data_type ch of
        IntegerType \<Rightarrow>
          (case parse_i64 (str_trim x) of None \<Rightarrow> Some Malformed | Some n \<Rightarrow> in_range ch (f64_of_int n))
      | DecimalType \<Rightarrow>
          (case parse_f64 (str_trim x) of
             None \<Rightarrow> Some Malformed
           | Some y \<Rightarrow> (case y of Fin _ \<Rightarrow> in_range ch y | _ \<Rightarrow> Some Malformed))
      | BooleanType \<Rightarrow> if x = ''true'' \<or> x = ''false'' then None else Some Malformed
      | DateTimeType \<Rightarrow> if is_rfc3339 x then None else Some Malformed
      | StringType \<Rightarrow>
          if is_some_and (max_limit ch) (\<lambda>hi. f64_less hi (f64_of_int (int (length (str_chars x)))))
          then Some OutOfRange else None
      | OptionListType \<Rightarrow>
          if is_some_and (values_list ch) (\<lambda>allowed. x \<notin> set allowed) then Some NotAnAllowedValue else None
      | _ \<Rightarrow>
          (case values_list ch of
             None \<Rightarrow> None
           | Some allowed \<Rightarrow>
               if x = [] then None
               else if list_ex (\<lambda>w. str_trim w \<notin> set allowed) (str_split (CHR '','') x)
               then Some NotAnAllowedValue else None))"

section \<open>Writing\<close>

record set_variable_request =
  set_component :: component
  set_variable :: "variable"
  set_attribute_type :: attribute_type
  set_value :: string

datatype set_variable_outcome =
    SetAccepted | SetRejected | SetUnknownComponent | SetUnknownVariable | SetNotSupportedAttributeType
  | SetRebootRequired

definition refused_write_only_variables :: "(string \<times> string) list" where
  "refused_write_only_variables = [(''WebPaymentsCtrlr'', ''SharedSecret'')]"

text \<open>The password of a network profile goes to the key store and to no event.\<close>

definition handle_basic_auth_password_write ::
  "stored_password text_codec \<Rightarrow> ('k, 'e) key_store \<Rightarrow> string option \<Rightarrow> string \<Rightarrow> 'k
   \<Rightarrow> set_variable_outcome decision \<times> 'k" where
  "handle_basic_auth_password_write codec ks instance_name x k =
     (case Option.bind instance_name parse_i32 of
        None \<Rightarrow> ((SetRejected, []), k)
      | Some n \<Rightarrow>
          (case basic_auth_password x of
             Inl _ \<Rightarrow> ((SetRejected, []), k)
           | Inr password \<Rightarrow>
               (case rotate_password codec ks n password k of
                  (k', Some _) \<Rightarrow> ((SetRejected, []), k')
                | (k', None) \<Rightarrow>
                    ((SetAccepted,
                      [SecurityEventOccurred \<lparr>security_event_kind = ReconfigurationOfSecurityParameters,
                         tech_info = Some (''BasicAuthPassword rotated for NetworkConfiguration slot '' @ int_to_string n)\<rparr>]), k'))))"

definition resolve_set ::
  "(string \<Rightarrow> bool) \<Rightarrow> stored_password text_codec \<Rightarrow> ('k, 'e) key_store \<Rightarrow> set_variable_request
   \<Rightarrow> charge_point_state \<Rightarrow> 'k \<Rightarrow> set_variable_outcome decision \<times> 'k" where
  "resolve_set is_rfc3339 codec ks r s k =
     (let m = device_model_of s; c = set_component r; v = set_variable r
      in case dm_get m c v of
           None \<Rightarrow> ((if dm_has_component m c then SetUnknownVariable else SetUnknownComponent, []), k)
         | Some d \<Rightarrow>
             (case attribute_of d (set_attribute_type r) of
                None \<Rightarrow> ((SetNotSupportedAttributeType, []), k)
              | Some a \<Rightarrow>
                  if mutability a = ReadOnly \<or> constant_attribute a then ((SetRejected, []), k)
                  else if comp_name c = ''NetworkConfiguration'' \<and> var_name v = ''BasicAuthPassword''
                  then handle_basic_auth_password_write codec ks (comp_instance c) (set_value r) k
                  else if (comp_name c, var_name v) \<in> set refused_write_only_variables then ((SetRejected, []), k)
                  else if validate_value is_rfc3339 (characteristics d) (set_value r) \<noteq> None then ((SetRejected, []), k)
                  else ((if requires_reboot a then SetRebootRequired else SetAccepted,
                         [DeviceModelChanged (AttributeValueSet c v (set_attribute_type r) (set_value r))]), k)))"

text \<open>The items in order; \<open>None\<close> stands for a panic of the state machine.\<close>

fun handle_set_variables ::
  "(date_time \<Rightarrow> string) \<Rightarrow> (string \<Rightarrow> bool) \<Rightarrow> stored_password text_codec \<Rightarrow> ('k, 'e) key_store
   \<Rightarrow> set_variable_request list \<Rightarrow> charge_point_state \<Rightarrow> 'k
   \<Rightarrow> (set_variable_outcome list \<times> charge_point_state \<times> charge_point_effect list \<times> 'k) option" where
  "handle_set_variables rfc is_rfc3339 codec ks [] s k = Some ([], s, [], k)"
| "handle_set_variables rfc is_rfc3339 codec ks (r # rs) s k =
     (case resolve_set is_rfc3339 codec ks r s k of
        ((outcome, evs), k1) \<Rightarrow>
          (case cp_run rfc evs s of
             None \<Rightarrow> None
           | Some (s1, effects1) \<Rightarrow>
               (case handle_set_variables rfc is_rfc3339 codec ks rs s1 k1 of
                  None \<Rightarrow> None
                | Some (outcomes, s2, effects2, k2) \<Rightarrow> Some (outcome # outcomes, s2, effects1 @ effects2, k2))))"

section \<open>Reports\<close>

datatype report_base = ConfigurationInventory | FullInventory | SummaryInventory

definition summary_variable_names :: "string list" where
  "summary_variable_names = [''AvailabilityState'', ''Active'', ''Available'', ''Enabled'', ''Problem'']"

datatype report_component_criterion = CriterionActive | CriterionAvailable | CriterionEnabled | CriterionProblem

fun criterion_variable_name :: "report_component_criterion \<Rightarrow> string" where
  "criterion_variable_name CriterionActive = ''Active''"
| "criterion_variable_name CriterionAvailable = ''Available''"
| "criterion_variable_name CriterionEnabled = ''Enabled''"
| "criterion_variable_name CriterionProblem = ''Problem''"

record report_component_variable =
  report_on_component :: component
  report_on_variable :: "variable option"

record report_entry =
  entry_component :: component
  entry_variable :: "variable"
  entry_characteristics :: variable_characteristics
  entry_attributes :: "variable_attribute list"

datatype report_outcome =
  ReportAccepted "report_entry list" | ReportRejected | ReportNotSupported | ReportEmptyResultSet

definition matches_base :: "report_base \<Rightarrow> variable \<Rightarrow> variable_definition \<Rightarrow> bool" where
  "matches_base base v d =
     (case base of
        FullInventory \<Rightarrow> True
      | ConfigurationInventory \<Rightarrow> list_ex (\<lambda>a. mutability a \<noteq> ReadOnly) (attributes d)
      | SummaryInventory \<Rightarrow> var_name v \<in> set summary_variable_names)"

definition to_report_entry :: "component \<times> variable \<times> variable_definition \<Rightarrow> report_entry" where
  "to_report_entry = (\<lambda>(c, v, d).
     \<lparr>entry_component = c, entry_variable = v, entry_characteristics = characteristics d,
      entry_attributes = attributes d\<rparr>)"

definition report_base_entries :: "device_model \<Rightarrow> report_base \<Rightarrow> report_entry list" where
  "report_base_entries m base =
     map to_report_entry (filter (\<lambda>(c, v, d). matches_base base v d) (dm_iter m))"

definition handle_get_base_report :: "report_base \<Rightarrow> charge_point_state \<Rightarrow> report_outcome" where
  "handle_get_base_report base s = ReportAccepted (report_base_entries (device_model_of s) base)"

definition component_matches_criterion ::
  "device_model \<Rightarrow> component \<Rightarrow> report_component_criterion \<Rightarrow> bool" where
  "component_matches_criterion m c criterion =
     (case dm_actual m c (Variable (criterion_variable_name criterion) None) of
        Some x \<Rightarrow> x = ''true''
      | None \<Rightarrow> criterion \<noteq> CriterionProblem)"

definition filter_report_entries ::
  "device_model \<Rightarrow> report_component_criterion list \<Rightarrow> report_component_variable list \<Rightarrow> report_entry list" where
  "filter_report_entries m criteria wanted =
     (if criteria = [] \<and> wanted = [] then report_base_entries m FullInventory
      else map to_report_entry
        (filter (\<lambda>(c, v, d).
             criteria \<noteq> [] \<and> list_ex (component_matches_criterion m c) criteria
             \<or> list_ex (\<lambda>w. report_on_component w = c \<and> is_none_or (report_on_variable w) (\<lambda>x. x = v)) wanted)
           (dm_iter m)))"

definition handle_get_report ::
  "report_component_criterion list \<Rightarrow> report_component_variable list \<Rightarrow> charge_point_state \<Rightarrow> report_outcome" where
  "handle_get_report criteria wanted s =
     (let entries = filter_report_entries (device_model_of s) criteria wanted
      in if entries = [] then ReportEmptyResultSet else ReportAccepted entries)"

definition report_chunk_size :: usize where
  "report_chunk_size = 16"

record 'a report_chunk =
  report_seq_no :: i64
  report_tbc :: bool
  report_entries :: "'a list"

text \<open>The same chunking of reports of variables and of monitors.\<close>

definition number_chunks :: "usize \<Rightarrow> 'a list \<Rightarrow> 'a report_chunk list" where
  "number_chunks n entries =
     (if entries = [] then [\<lparr>report_seq_no = 0, report_tbc = False, report_entries = []\<rparr>]
      else let total = length (chunks n entries)
           in map (\<lambda>(i, c). \<lparr>report_seq_no = int i, report_tbc = i + 1 < total, report_entries = c\<rparr>)
                (enumerate 0 (chunks n entries)))"

definition chunk_report :: "report_entry list \<Rightarrow> report_entry report_chunk list" where
  "chunk_report = number_chunks report_chunk_size"

end
