(* ===== verification/Variable_Request_Properties.thy ===== *)
theory Variable_Request_Properties
  imports Variable_Requests Availability_Sync Charging_Request_Properties Authorization_Properties Credential_Properties
begin

text \<open>
  What reading, writing and reporting variables guarantee: a refused write changes nothing, an
  accepted one is read back, a password reaches neither the state nor an event, a report names
  every variable once.
\<close>

section \<open>What the passes after an event may write\<close>

text \<open>The variables the station keeps itself.\<close>

definition station_written :: "component \<Rightarrow> variable \<Rightarrow> bool" where
  "station_written c v \<longleftrightarrow>
     (v = availability_variable \<and> (\<exists>a. c = availability_component a))
     \<or> comp_name c = network_configuration_component
     \<or> (c, v) \<in> {(Component ''LocalAuthListCtrlr'' None None, Variable ''Entries'' None),
         (Component ''SmartChargingCtrlr'' None None, Variable ''Entries'' (Some ''ChargingProfiles'')),
         (Component ''DisplayMessageCtrlr'' None None, Variable ''DisplayMessages'' None)}"

lemma dm_get_write_actual:
  "(c', v') \<noteq> (c, v) \<Longrightarrow> dm_get (dm_write_actual c v x m) c' v' = dm_get m c' v'"
  by (auto simp: dm_write_actual_def dm_get_set_attribute_value)

lemma dm_get_register_other:
  "c' \<noteq> c \<or> v' \<noteq> v \<Longrightarrow> dm_get (fst (dm_register c v ch attrs m)) c' v' = dm_get m c' v'"
  by (cases "snd (dm_register c v ch attrs m)") (auto simp: dm_get_register dm_register_refused)

lemma dm_get_availability_sync:
  assumes "\<not> station_written c v"
  shows "dm_get (device_model_of (sync_availability_variables s)) c v = dm_get (device_model_of s) c v"
proof -
  have "dm_get (fold (write_availability s) as m) c v = dm_get m c v" for as m
    using assms by (induction as arbitrary: m)
      (auto simp: write_availability_def station_written_def dm_get_write_actual)
  then show ?thesis by (simp add: sync_availability_writes)
qed

lemma dm_get_network_sync:
  assumes "comp_name c \<noteq> network_configuration_component"
  shows "dm_get (device_model_of (sync_network_configuration_variables s)) c v = dm_get (device_model_of s) c v"
proof -
  have removed: "dm_get (fold (\<lambda>d m. fst (dm_remove_component d m)) ds m) c v = dm_get m c v"
    if "\<forall>d \<in> set ds. comp_name d = network_configuration_component" for ds m
    using that assms by (induction ds arbitrary: m) (auto simp: dm_get_remove_component)
  have rows: "dm_get (fold (register_network_variable i) rows m) c v = dm_get m c v" for i rows m
    by (induction rows arbitrary: m) (use assms in \<open>auto simp: register_network_variable_def intro!: dm_get_register_other\<close>)
  have into: "dm_get (register_into i p m) c v = dm_get m c v" for i p m
    by (simp only: register_into_def rows)
  have registered: "dm_get (fold (\<lambda>(i, p). register_into i p) ws m) c v = dm_get m c v" for ws m
    by (induction ws arbitrary: m) (auto simp: into)
  show ?thesis
    by (simp add: sync_network_configuration_variables_def Let_def registered removed stale_network_components_def)
qed

lemma dm_get_sync:
  assumes "\<not> station_written c v"
  shows "dm_get (device_model_of (sync_variables s)) c v = dm_get (device_model_of s) c v"
proof -
  have "dm_get (device_model_of (sync_inventory_counters t)) c v = dm_get (device_model_of t) c v" for t
    using assms by (simp add: sync_inventory_counters_def set_counter_variable_def station_written_def dm_get_write_actual)
  moreover have "comp_name c \<noteq> network_configuration_component" using assms by (simp add: station_written_def)
  ultimately show ?thesis
    by (simp add: sync_variables_def dm_get_network_sync dm_get_availability_sync [OF assms])
qed

lemma cp_apply_model:
  assumes "cp_apply rfc ev s = Some (s', effects)" and "apply_event rfc ev s = Some (s1, effects1, b)"
    and "\<not> station_written c v"
  shows "dm_get (device_model_of s') c v = dm_get (device_model_of s1) c v"
proof -
  from assms(1,2) obtain effects2 where "check_pending_reset (sync_variables s1) = Some (s', effects2)"
    by (auto simp: cp_apply_def split: option.splits)
  then have "device_model_of s' = device_model_of (sync_variables s1)"
    by (auto simp: check_pending_reset_def frame_simps split: option.splits if_splits)
  then show ?thesis by (simp add: dm_get_sync [OF assms(3)])
qed

section \<open>A write\<close>

lemma attribute_value_set_model:
  "device_model_of (fst (attribute_value_set c v ty x s)) = fst (dm_set_attribute_value c v ty x (device_model_of s))"
  by (auto simp: attribute_value_set_def Let_def split: prod.splits option.splits)

lemma cp_apply_attribute_value_set:
  assumes "cp_apply rfc (DeviceModelChanged (AttributeValueSet c v ty x)) s = Some (s', effects)"
    and "\<not> station_written c' v'"
  shows "dm_get (device_model_of s') c' v' = dm_get (fst (dm_set_attribute_value c v ty x (device_model_of s))) c' v'"
proof -
  obtain s1 effects1 b where set: "attribute_value_set c v ty x s = (s1, effects1, b)" by (metis surj_pair)
  then have "apply_event rfc (DeviceModelChanged (AttributeValueSet c v ty x)) s = Some (s1, effects1, b)" by simp
  from cp_apply_model [OF assms(1) this assms(2)] attribute_value_set_model [of c v ty x s] set show ?thesis by simp
qed

text \<open>An accepted write names an attribute that may be written and a value it can hold.\<close>

lemma resolve_set_accepted:
  assumes "resolve_set is_rfc3339 codec ks r s k = ((outcome, evs), k')"
    and "outcome \<in> {SetAccepted, SetRebootRequired}"
    and "\<not> (comp_name (set_component r) = ''NetworkConfiguration'' \<and> var_name (set_variable r) = ''BasicAuthPassword'')"
  obtains d a where "dm_get (device_model_of s) (set_component r) (set_variable r) = Some d"
    and "attribute_of d (set_attribute_type r) = Some a" and "mutability a \<noteq> ReadOnly" and "\<not> constant_attribute a"
    and "validate_value is_rfc3339 (characteristics d) (set_value r) = None"
    and "evs = [DeviceModelChanged (AttributeValueSet (set_component r) (set_variable r) (set_attribute_type r) (set_value r))]"
    and "outcome = (if requires_reboot a then SetRebootRequired else SetAccepted)" and "k' = k"
  using assms by (auto simp: resolve_set_def Let_def split: option.splits if_splits)

text \<open>A refused one sends nothing, and leaves what the key store holds unless the key store failed.\<close>

lemma resolve_set_refused:
  assumes "resolve_set is_rfc3339 codec ks r s k = ((outcome, evs), k')"
    and "outcome \<notin> {SetAccepted, SetRebootRequired}"
  shows "evs = []"
  using assms
  by (auto simp: resolve_set_def handle_basic_auth_password_write_def Let_def
      split: option.splits if_splits sum.splits prod.splits)

lemma get_after_set:
  assumes "dm_get m c v = Some d" and "attribute_of d ty = Some a"
  shows "resolve_get (fst (dm_set_attribute_value c v ty x m)) c v ty
    = (if mutability a = WriteOnly then GetRejected else GetAccepted x)"
  using assms
  by (simp add: resolve_get_def dm_get_set_attribute_value attribute_of_def find_update_attribute)

text \<open>C37: a write that is accepted takes effect and no other does.  Where \<open>SetVariables\<close> refuses an
  item, whatever the reason, the state stays what it was; where it accepts one, the attribute was
  writable and the value valid for its variable, \<open>GetVariables\<close> then answers that value, unless
  the attribute is write-only, and every other attribute, apart from the variables the station
  keeps itself, is what it was.\<close>

theorem accepted_write_is_read_back:
  assumes "handle_set_variables rfc is_rfc3339 codec ks [r] s k = Some ([outcome], s', effects, k')"
    and "\<not> station_written (set_component r) (set_variable r)"
  shows "if outcome \<in> {SetAccepted, SetRebootRequired}
    then \<exists>d a. dm_get (device_model_of s) (set_component r) (set_variable r) = Some d
        \<and> attribute_of d (set_attribute_type r) = Some a \<and> mutability a \<noteq> ReadOnly \<and> \<not> constant_attribute a
        \<and> validate_value is_rfc3339 (characteristics d) (set_value r) = None
        \<and> handle_get_variables [\<lparr>get_component = set_component r, get_variable = set_variable r,
              get_attribute_type = set_attribute_type r\<rparr>] s'
            = [if mutability a = WriteOnly then GetRejected else GetAccepted (set_value r)]
        \<and> (\<forall>c v. (c, v) \<noteq> (set_component r, set_variable r) \<and> \<not> station_written c v
              \<longrightarrow> dm_get (device_model_of s') c v = dm_get (device_model_of s) c v)
    else s' = s \<and> effects = []"
proof -
  obtain evs k1 where res: "resolve_set is_rfc3339 codec ks r s k = ((outcome, evs), k1)"
    and run: "cp_run rfc evs s = Some (s', effects)"
    using assms(1) by (auto split: prod.splits option.splits)
  show ?thesis
  proof (cases "outcome \<in> {SetAccepted, SetRebootRequired}")
    case True
    have name: "network_configuration_component = ''NetworkConfiguration''" by (simp add: network_configuration_component_def)
    from res True obtain d a where
      d: "dm_get (device_model_of s) (set_component r) (set_variable r) = Some d"
        "attribute_of d (set_attribute_type r) = Some a" "mutability a \<noteq> ReadOnly" "\<not> constant_attribute a"
        "validate_value is_rfc3339 (characteristics d) (set_value r) = None"
      and evs: "evs = [DeviceModelChanged (AttributeValueSet (set_component r) (set_variable r) (set_attribute_type r) (set_value r))]"
      by (rule resolve_set_accepted) (use assms(2) name in \<open>auto simp: station_written_def\<close>)
    obtain effects1 where apply1: "cp_apply rfc (DeviceModelChanged (AttributeValueSet (set_component r) (set_variable r)
        (set_attribute_type r) (set_value r))) s = Some (s', effects1)"
      using run by (auto simp: evs split: option.splits)
    note model = cp_apply_attribute_value_set [OF apply1]
    have "handle_get_variables [\<lparr>get_component = set_component r, get_variable = set_variable r,
              get_attribute_type = set_attribute_type r\<rparr>] s'
            = [if mutability a = WriteOnly then GetRejected else GetAccepted (set_value r)]"
      using get_after_set [OF d(1,2), of "set_value r"] model [OF assms(2)] d(1)
      by (simp add: handle_get_variables_def resolve_get_def dm_get_set_attribute_value)
    moreover have "dm_get (device_model_of s') c v = dm_get (device_model_of s) c v"
      if "(c, v) \<noteq> (set_component r, set_variable r)" "\<not> station_written c v" for c v
      using model [OF that(2)] that(1) by (auto simp: dm_get_set_attribute_value)
    ultimately show ?thesis using True d by auto
  next
    case False
    with resolve_set_refused [OF res] run show ?thesis by simp
  qed
qed

text \<open>The switch of the authorization cache, as a station is built.\<close>

abbreviation "cache_switch_component \<equiv> Component ''AuthCacheCtrlr'' None None"
abbreviation "cache_switch_variable \<equiv> Variable ''Enabled'' None"

definition cache_switch_write :: "string \<Rightarrow> set_variable_request" where
  "cache_switch_write x =
     \<lparr>set_component = cache_switch_component, set_variable = cache_switch_variable, set_attribute_type = Actual, set_value = x\<rparr>"

lemma fresh_cache_switch:
  obtains d a where "dm_get (device_model_of (cp_with_limits [1] limits)) cache_switch_component cache_switch_variable = Some d"
    and "attribute_of d Actual = Some a" and "mutability a = ReadWrite" and "\<not> constant_attribute a"
    and "\<not> requires_reboot a"
    and "characteristics d = \<lparr>data_type = BooleanType, var_unit_of = None, min_limit = None, max_limit = None,
           values_list = None, supports_monitoring = False\<rparr>"
proof -
  note table = default_variables_def default_variables_1_def default_variables_2_def
    default_variables_3_def default_variables_4_def default_variables_5_def default_variables_6_def
  let ?h = "DefaultVariable ''AuthCacheCtrlr'' ''Enabled'' None BooleanType None ''true'' ReadWrite True False"
  have "dm_get (dm_with_topology n [1]) cache_switch_component cache_switch_variable
      = Some \<lparr>characteristics = default_characteristics ?h, attributes = snd (snd (snd (default_row ?h)))\<rparr>" for n
  proof -
    have h: "?h \<in> set default_variables" by (simp add: table)
    have only: "\<forall>q \<in> set default_variables. default_component q = default_component ?h
      \<and> default_variable_name q = default_variable_name ?h \<and> default_instance q = default_instance ?h \<longrightarrow> q = ?h"
      by (simp add: table)
    have "default_variable_name ?h \<noteq> availability_exists_variable"
      and "56 + 2 * length [1 :: usize] + 3 * sum_list [1] \<le> usize_max"
      by (simp_all add: device_model_names usize_max_def)
    from built_in_variable [OF h only this, of n] show ?thesis unfolding default_variable.sel .
  qed
  then have "dm_get (device_model_of (cp_with_limits [1] limits)) cache_switch_component cache_switch_variable
      = Some \<lparr>characteristics = default_characteristics ?h, attributes = snd (snd (snd (default_row ?h)))\<rparr>"
    by (simp only: cp_with_limits_def charge_point_state.select_convs)
  then show thesis
    by (rule that, simp add: default_row_def attribute_of_def, simp_all add: default_characteristics_def variable_bounds_def)
qed

theorem accepted_write_is_read_back_witness:
  "\<exists>s' effects. handle_set_variables (\<lambda>_. []) (\<lambda>_. True) counted_password_codec no_key_store
      [cache_switch_write ''false''] (cp_with_limits [1] default_state_limits) () = Some ([SetAccepted], s', effects, ())
    \<and> handle_get_variables [\<lparr>get_component = cache_switch_component, get_variable = cache_switch_variable,
        get_attribute_type = Actual\<rparr>] s' = [GetAccepted ''false'']"
proof -
  let ?s = "cp_with_limits [1] default_state_limits"
  let ?ev = "DeviceModelChanged (AttributeValueSet cache_switch_component cache_switch_variable Actual ''false'')"
  obtain d a where d: "dm_get (device_model_of ?s) cache_switch_component cache_switch_variable = Some d"
      "attribute_of d Actual = Some a" "mutability a = ReadWrite" "\<not> constant_attribute a" "\<not> requires_reboot a"
      "characteristics d = \<lparr>data_type = BooleanType, var_unit_of = None, min_limit = None, max_limit = None,
           values_list = None, supports_monitoring = False\<rparr>"
    by (rule fresh_cache_switch)
  have valid: "validate_value (\<lambda>_. True) (characteristics d) ''false'' = None"
    by (simp add: d(6) validate_value_def)
  have res: "resolve_set (\<lambda>_. True) counted_password_codec (no_key_store :: (unit, unit) key_store)
      (cache_switch_write ''false'') ?s () = ((SetAccepted, [?ev]), ())"
    using d valid by (simp add: resolve_set_def cache_switch_write_def refused_write_only_variables_def Let_def)
  obtain s' effects where step: "cp_apply (\<lambda>_. []) ?ev ?s = Some (s', effects)"
    using reachable_total [OF reachable.start] by blast
  then have run: "handle_set_variables (\<lambda>_. []) (\<lambda>_. True) counted_password_codec no_key_store
      [cache_switch_write ''false''] ?s () = Some ([SetAccepted], s', effects, ())"
    unfolding handle_set_variables.simps res by (simp del: One_nat_def)
  have "\<not> station_written (set_component (cache_switch_write ''false'')) (set_variable (cache_switch_write ''false''))"
    by (simp add: station_written_def cache_switch_write_def device_model_names)
  from accepted_write_is_read_back [OF run this] d run show ?thesis
    by (auto simp: cache_switch_write_def)
qed

section \<open>Passwords\<close>

text \<open>Two requests that differ in nothing but the password they carry.\<close>

definition writes_password :: "set_variable_request \<Rightarrow> bool" where
  "writes_password r \<longleftrightarrow> comp_name (set_component r) = ''NetworkConfiguration'' \<and> var_name (set_variable r) = ''BasicAuthPassword''"

definition same_but_password :: "set_variable_request \<Rightarrow> set_variable_request \<Rightarrow> bool" where
  "same_but_password r q \<longleftrightarrow> r\<lparr>set_value := set_value q\<rparr> = q \<and> (writes_password r \<or> r = q)"

lemma password_events:
  "handle_basic_auth_password_write codec ks i x k = ((outcome, evs), k') \<Longrightarrow>
   evs = (if outcome = SetAccepted
     then [SecurityEventOccurred \<lparr>security_event_kind = ReconfigurationOfSecurityParameters,
             tech_info = Some (''BasicAuthPassword rotated for NetworkConfiguration slot '' @ int_to_string (the (Option.bind i parse_i32)))\<rparr>]
     else [])"
  by (auto simp: handle_basic_auth_password_write_def split: option.splits sum.splits prod.splits)

lemma resolve_set_password:
  assumes "resolve_set is_rfc3339 codec ks r s k = ((outcome, evs), k1)"
    and "resolve_set is_rfc3339 codec ks q s l = ((outcome, evs2), l1)" and "same_but_password r q"
  shows "evs = evs2"
proof -
  have same: "set_component q = set_component r" "set_variable q = set_variable r" "set_attribute_type q = set_attribute_type r"
    using assms(3) by (auto simp: same_but_password_def) (metis set_variable_request.select_convs set_variable_request.surjective set_variable_request.update_convs(4))+
  show ?thesis
  proof (cases "r = q")
    case True
    with assms(1,2) show ?thesis
      by (auto simp: resolve_set_def Let_def split: option.splits if_splits dest!: password_events)
  next
    case False
    then have "writes_password r" using assms(3) by (simp add: same_but_password_def)
    with assms(1,2) same show ?thesis
      by (auto simp: resolve_set_def Let_def writes_password_def split: option.splits if_splits dest!: password_events)
  qed
qed

text \<open>C38: a password written by the CSMS never enters the state of the charge point nor leaves it
  in an effect.  Two batches of \<open>SetVariables\<close> that differ in nothing but the passwords they carry,
  answered with the same outcomes, whatever the key stores hold, lead to the same state through
  the same effects.\<close>

theorem password_stays_out_of_the_state:
  assumes "handle_set_variables rfc is_rfc3339 codec ks rs s k = Some (outcomes, s1, effects1, k1)"
    and "handle_set_variables rfc is_rfc3339 codec ks qs s l = Some (outcomes, s2, effects2, l1)"
    and "list_all2 same_but_password rs qs"
  shows "s1 = s2 \<and> effects1 = effects2"
  using assms(3,1,2)
proof (induction arbitrary: s k l outcomes effects1 effects2 rule: list_all2_induct)
  case (Cons r rs q qs)
  obtain o1 evs ka where r: "resolve_set is_rfc3339 codec ks r s k = ((o1, evs), ka)" by (metis surj_pair)
  obtain o2 evs2 la where q: "resolve_set is_rfc3339 codec ks q s l = ((o2, evs2), la)" by (metis surj_pair)
  have "o1 = o2" using Cons.prems r q by (auto split: option.splits prod.splits)
  with resolve_set_password [OF r _ Cons.hyps(1)] q have "evs = evs2" by blast
  with Cons.prems r q Cons.IH show ?case by (fastforce split: option.splits prod.splits)
qed simp

text \<open>A station with one network profile, and the software key store on a storage in memory.\<close>

definition password_component :: component where
  "password_component = Component ''NetworkConfiguration'' (Some ''1'') None"

definition password_station :: charge_point_state where
  "password_station = (cp_with_limits [1] default_state_limits)
     \<lparr>device_model_of := fst (dm_register password_component (Variable ''BasicAuthPassword'' None) (plain_characteristics StringType)
        [\<lparr>attribute_type_of = Actual, attribute_value = [], mutability = WriteOnly, persistent = False,
          constant_attribute = False, requires_reboot = False\<rparr>] \<lparr>dm_components = [], dm_max_variables = 10\<rparr>)\<rparr>"

definition password_write :: "string \<Rightarrow> set_variable_request" where
  "password_write x =
     \<lparr>set_component = password_component, set_variable = Variable ''BasicAuthPassword'' None, set_attribute_type = Actual,
      set_value = x\<rparr>"

abbreviation "memory_key_store \<equiv>
  as_key_store (soft_new (table_codec []) counted_codec (in_memory_storage :: (_, unit) storage) no_software_crypto)"

lemma memory_rotation:
  "\<exists>k. rotate_password counted_password_codec memory_key_store n x (Map.empty, ()) = (k, None)"
  by (simp add: rotate_password_def load_password_def store_password_def as_key_store_def soft_load_credential_def
      soft_store_credential_def load_credentials_def save_credentials_def load_list_def save_list_def soft_new_def
      soft_with_limit_def in_memory_storage_def counted_codec_def counted_password_codec_def default_max_credentials_def Let_def)

lemma password_station_write:
  assumes "password_accepted x"
  shows "\<exists>s1 effects k. handle_set_variables (\<lambda>_. []) (\<lambda>_. True) counted_password_codec memory_key_store
    [password_write x] password_station (Map.empty, ()) = Some ([SetAccepted], s1, effects, k)"
proof -
  have "parse_i32 ''1'' = Some 1" by code_simp
  moreover obtain k where "rotate_password counted_password_codec memory_key_store 1 x (Map.empty, ()) = (k, None)"
    using memory_rotation by blast
  moreover have "dm_get (device_model_of password_station) password_component (Variable ''BasicAuthPassword'' None)
    = Some \<lparr>characteristics = plain_characteristics StringType,
        attributes = [\<lparr>attribute_type_of = Actual, attribute_value = [], mutability = WriteOnly, persistent = False,
          constant_attribute = False, requires_reboot = False\<rparr>]\<rparr>"
    by (simp add: password_station_def dm_get_register dm_register_accepts dm_len_def bt_values_def)
  ultimately have res: "resolve_set (\<lambda>_. True) counted_password_codec memory_key_store (password_write x) password_station (Map.empty, ())
      = ((SetAccepted, [SecurityEventOccurred \<lparr>security_event_kind = ReconfigurationOfSecurityParameters,
           tech_info = Some (''BasicAuthPassword rotated for NetworkConfiguration slot '' @ int_to_string 1)\<rparr>]), k)"
    using assms
    by (simp add: resolve_set_def password_write_def attribute_of_def password_component_def password_accepted_def
        handle_basic_auth_password_write_def Let_def)
  have "pending_reset_of (sync_variables password_station) = None"
    by (simp add: sync_variables_def sync_inventory_counters_def sync_network_configuration_variables_def
        sync_availability_variables_def Let_def password_station_def cp_with_limits_def)
  then show ?thesis
    unfolding handle_set_variables.simps res by (cases k) (simp add: cp_apply_def check_pending_reset_def)
qed

theorem password_stays_out_of_the_state_witness:
  "\<exists>s1 effects k1 k2. handle_set_variables (\<lambda>_. []) (\<lambda>_. True) counted_password_codec memory_key_store
      [password_write ''0123456789abcdef''] password_station (Map.empty, ()) = Some ([SetAccepted], s1, effects, k1)
    \<and> handle_set_variables (\<lambda>_. []) (\<lambda>_. True) counted_password_codec memory_key_store
      [password_write ''fedcba9876543210''] password_station (Map.empty, ()) = Some ([SetAccepted], s1, effects, k2)"
proof -
  have ok: "password_accepted ''0123456789abcdef''" "password_accepted ''fedcba9876543210''"
    by (simp_all add: password_accepted_def basic_auth_password_def min_basic_auth_password_len_def
        max_basic_auth_password_len_def continuation_byte_def)
  obtain s1 effects1 k1 where one: "handle_set_variables (\<lambda>_. []) (\<lambda>_. True) counted_password_codec memory_key_store
      [password_write ''0123456789abcdef''] password_station (Map.empty, ()) = Some ([SetAccepted], s1, effects1, k1)"
    using password_station_write [OF ok(1)] by blast
  obtain s2 effects2 k2 where two: "handle_set_variables (\<lambda>_. []) (\<lambda>_. True) counted_password_codec memory_key_store
      [password_write ''fedcba9876543210''] password_station (Map.empty, ()) = Some ([SetAccepted], s2, effects2, k2)"
    using password_station_write [OF ok(2)] by blast
  have "list_all2 same_but_password [password_write ''0123456789abcdef''] [password_write ''fedcba9876543210'']"
    by (simp add: same_but_password_def writes_password_def password_write_def password_component_def)
  from password_stays_out_of_the_state [OF one two this] one two show ?thesis by blast
qed

section \<open>Reports\<close>

lemma bt_inv_distinct: "bt_inv m \<Longrightarrow> distinct (map fst m)"
  by (simp add: bt_inv_def strict_sorted_iff)

lemma dm_iter_get:
  assumes "dm_inv m"
  shows "(c, v, d) \<in> set (dm_iter m) \<longleftrightarrow> dm_get m c v = Some d"
proof -
  have "distinct (map fst (dm_components m))" using assms by (simp add: dm_inv_def bt_inv_distinct)
  then have outer: "(c, vars) \<in> set (dm_components m) \<longleftrightarrow> bt_get (dm_components m) c = Some vars" for vars
    by (simp add: bt_get_def)
  have "bt_get (dm_components m) c = Some vars \<Longrightarrow> distinct (map fst vars)" for vars
    using assms by (auto simp: dm_inv_def intro: bt_inv_distinct dest: list_all_bt_get)
  then have inner: "bt_get (dm_components m) c = Some vars \<Longrightarrow> (v, d) \<in> set vars \<longleftrightarrow> bt_get vars v = Some d" for vars
    by (simp add: bt_get_def)
  have "(c, v, d) \<in> set (dm_iter m) \<longleftrightarrow> (\<exists>vars. (c, vars) \<in> set (dm_components m) \<and> (v, d) \<in> set vars)"
    by (auto simp: dm_iter_def)
  then show ?thesis
    using inner by (auto simp: outer dm_get_def split: option.splits)
qed

lemma dm_iter_distinct:
  assumes "dm_inv m"
  shows "distinct (map (\<lambda>(c, v, d). (c, v)) (dm_iter m))"
proof -
  have "distinct (map (\<lambda>(c, v, d). (c, v)) (concat (map (\<lambda>(c, vars). map (\<lambda>(v, d). (c, v, d)) vars) cs)))"
    if "distinct (map fst cs)" "list_all bt_inv (map snd cs)" for cs :: "(component, (variable, variable_definition) btree) btree"
    using that
  proof (induction cs)
    case (Cons x cs)
    obtain c vars where x: "x = (c, vars)" by force
    have "distinct (map (Pair c \<circ> fst) vars)"
      using Cons.prems(2) bt_inv_distinct [of vars] by (simp add: x distinct_map comp_inj_on inj_on_def)
    then have "distinct (map ((\<lambda>(c, v, d). (c, v)) \<circ> (\<lambda>(v, d). (c, v, d))) vars)"
      by (simp add: comp_def case_prod_beta)
    with Cons show ?case by (force simp: x)
  qed simp
  then show ?thesis using assms by (simp add: dm_iter_def dm_inv_def bt_inv_distinct bt_values_def)
qed

text \<open>What the numbering of the chunks amounts to.\<close>

lemma number_chunks_contract:
  assumes "0 < n"
  shows "concat (map report_entries (number_chunks n xs)) = xs
    \<and> map report_seq_no (number_chunks n xs) = map int [0 ..< length (number_chunks n xs)]
    \<and> map report_tbc (number_chunks n xs) = replicate (length (number_chunks n xs) - 1) True @ [False]
    \<and> list_all (\<lambda>c. length (report_entries c) \<le> n) (number_chunks n xs)"
proof (cases "xs = []")
  case False
  let ?cs = "chunks n xs"
  have cs: "?cs \<noteq> []" using False concat_chunks [OF assms, of xs] by auto
  have "map report_entries (number_chunks n xs) = ?cs"
    using False by (simp add: number_chunks_def Let_def comp_def case_prod_beta)
  moreover from this have "length (report_entries c) \<le> n" if "c \<in> set (number_chunks n xs)" for c
    using chunks_sizes [of "report_entries c" n xs] that by (metis image_eqI list.set_map)
  note entries = this
  moreover have "map report_seq_no (number_chunks n xs) = map int [0 ..< length ?cs]"
    using False by (simp add: number_chunks_def Let_def comp_def case_prod_beta enumerate_map)
  moreover have "map report_tbc (number_chunks n xs) = map (\<lambda>i. i + 1 < length ?cs) [0 ..< length ?cs]"
    using False by (simp add: number_chunks_def Let_def comp_def case_prod_beta enumerate_map)
  moreover have "map (\<lambda>i. i + 1 < m) [0 ..< m] = replicate (m - 1) True @ [False]" if "0 < m" for m
    using that by (intro nth_equalityI) (auto simp: nth_append)
  moreover have "length (number_chunks n xs) = length ?cs" using False by (simp add: number_chunks_def Let_def)
  ultimately show ?thesis
    using cs concat_chunks [OF assms, of xs] entries by (simp add: list_all_iff)
qed (simp add: number_chunks_def)

text \<open>C39: a report is complete.  In every reachable state the entries of a base report are exactly the
  variables the base covers, each once and with its current attributes; the messages it is sent
  in carry exactly these entries in order, at most sixteen each, are numbered from zero, and all
  but the last announce another.\<close>

theorem report_is_complete:
  assumes "reachable rfc counts limits s" and "handle_get_base_report base s = ReportAccepted entries"
  shows "(\<forall>c v d. matches_base base v d \<longrightarrow>
      dm_get (device_model_of s) c v = Some d \<longleftrightarrow> to_report_entry (c, v, d) \<in> set entries)
    \<and> distinct (map (\<lambda>e. (entry_component e, entry_variable e)) entries)
    \<and> list_all (\<lambda>e. \<exists>d. matches_base base (entry_variable e) d \<and> e = to_report_entry (entry_component e, entry_variable e, d)) entries
    \<and> concat (map report_entries (chunk_report entries)) = entries
    \<and> map report_seq_no (chunk_report entries) = map int [0 ..< length (chunk_report entries)]
    \<and> map report_tbc (chunk_report entries) = replicate (length (chunk_report entries) - 1) True @ [False]
    \<and> list_all (\<lambda>c. length (report_entries c) \<le> 16) (chunk_report entries)"
proof -
  let ?m = "device_model_of s"
  have inv: "dm_inv ?m" using reachable_stores_inv [OF assms(1)] by (simp add: stores_inv_def)
  have entries: "entries = map to_report_entry (filter (\<lambda>(c, v, d). matches_base base v d) (dm_iter ?m))"
    using assms(2) by (simp add: handle_get_base_report_def report_base_entries_def)
  have "to_report_entry x = to_report_entry y \<longleftrightarrow> x = y" for x y
    by (cases x; cases y) (auto simp: to_report_entry_def intro: variable_definition.equality)
  then have "matches_base base v d \<Longrightarrow> dm_get ?m c v = Some d \<longleftrightarrow> to_report_entry (c, v, d) \<in> set entries" for c v d
    by (auto simp: entries image_iff dm_iter_get [OF inv])
  moreover have "map (\<lambda>e. (entry_component e, entry_variable e)) entries
      = map (\<lambda>(c, v, d). (c, v)) (filter (\<lambda>(c, v, d). matches_base base v d) (dm_iter ?m))"
    by (simp add: entries to_report_entry_def comp_def case_prod_beta)
  then have "distinct (map (\<lambda>e. (entry_component e, entry_variable e)) entries)"
    using dm_iter_distinct [OF inv] by (simp add: distinct_map_filter)
  moreover have "list_all (\<lambda>e. \<exists>d. matches_base base (entry_variable e) d \<and> e = to_report_entry (entry_component e, entry_variable e, d)) entries"
    by (auto simp: entries list_all_iff to_report_entry_def)
  ultimately show ?thesis
    using number_chunks_contract [of report_chunk_size entries] by (simp add: chunk_report_def report_chunk_size_def)
qed

theorem report_is_complete_witness:
  "\<exists>entries. handle_get_base_report FullInventory (cp_with_limits [1] default_state_limits) = ReportAccepted entries
    \<and> concat (map report_entries (chunk_report entries)) = entries"
proof -
  obtain entries where report: "handle_get_base_report FullInventory (cp_with_limits [1] default_state_limits) = ReportAccepted entries"
    by (simp add: handle_get_base_report_def)
  with report_is_complete [OF reachable.start report] show ?thesis by blast
qed

end
