(* ===== verification/Capability_Properties.thy ===== *)
theory Capability_Properties
  imports Variable_Request_Properties
begin

text \<open>
  What a station advertises follows what its hardware declares: the variables of a capability
  exist exactly where it is present, and one the build does not act on refuses every write.
\<close>

section \<open>Registering a list of variables\<close>

lemma write_actual_size:
  assumes "dm_inv m"
  shows "dm_inv (dm_write_actual c v x m) \<and> dm_len (dm_write_actual c v x m) = dm_len m"
  using dm_set_attribute_value_inv [OF assms] assms by (simp add: dm_write_actual_def)

lemma availability_sync_size:
  assumes "dm_inv (device_model_of s)"
  shows "dm_inv (device_model_of (sync_availability_variables s))
    \<and> dm_len (device_model_of (sync_availability_variables s)) = dm_len (device_model_of s)"
proof -
  have "dm_inv (fold (write_availability s) as m) \<and> dm_len (fold (write_availability s) as m) = dm_len m"
    if "dm_inv m" for as m
    using that by (induction as arbitrary: m) (auto simp: write_availability_def write_actual_size)
  with assms show ?thesis by (simp add: sync_availability_writes)
qed

lemma network_sync_size:
  assumes "dm_inv (device_model_of s)" and "profile_slots (network_profiles s) = []"
  shows "dm_inv (device_model_of (sync_network_configuration_variables s))
    \<and> dm_len (device_model_of (sync_network_configuration_variables s)) \<le> dm_len (device_model_of s)"
proof -
  have less: "dm_len (fst (dm_remove_component c m)) \<le> dm_len m" for c m
    using bt_remove_total_length [of c "dm_components m"] by (simp add: dm_remove_component_def dm_len_def)
  have "dm_inv (fold (\<lambda>c m. fst (dm_remove_component c m)) cs m)
      \<and> dm_len (fold (\<lambda>c m. fst (dm_remove_component c m)) cs m) \<le> dm_len m" if "dm_inv m" for cs m
    using that
  proof (induction cs arbitrary: m)
    case (Cons c cs)
    have inv: "dm_inv (fst (dm_remove_component c m))" by (rule dm_remove_component_inv [OF Cons.prems])
    from Cons.IH [OF inv] less [of c m] show ?case by auto
  qed simp
  with assms show ?thesis
    by (simp add: sync_network_configuration_variables_def wanted_network_components_def Let_def)
qed

lemma sync_size:
  assumes "dm_inv (device_model_of s)" and "profile_slots (network_profiles s) = []"
  shows "dm_len (device_model_of (sync_variables s)) \<le> dm_len (device_model_of s)"
proof -
  have "network_profiles (sync_availability_variables s) = network_profiles s" by (simp add: sync_availability_variables_def)
  then have n: "dm_inv (device_model_of (sync_network_configuration_variables (sync_availability_variables s)))
      \<and> dm_len (device_model_of (sync_network_configuration_variables (sync_availability_variables s))) \<le> dm_len (device_model_of s)"
    using network_sync_size [of "sync_availability_variables s"] availability_sync_size [OF assms(1)] assms(2) by simp
  have "dm_len (device_model_of (sync_inventory_counters t)) = dm_len (device_model_of t)"
    if "dm_inv (device_model_of t)" for t
    using that by (simp add: sync_inventory_counters_def set_counter_variable_def write_actual_size)
  with n show ?thesis by (simp add: sync_variables_def)
qed

text \<open>One registration, as an event; the station has no network profile yet.\<close>

definition registers :: "registration \<Rightarrow> charge_point_event" where
  "registers = (\<lambda>(c, v, ch, attrs). DeviceModelChanged (VariableRegistered c v ch attrs))"

lemma register_step:
  assumes "reachable rfc counts limits s" and "cp_apply rfc (registers (c, v, ch, attrs)) s = Some (s', effects)"
    and "profile_slots (network_profiles s) = []" and "dm_len (device_model_of s) < dm_max_variables (device_model_of s)"
  shows "profile_slots (network_profiles s') = [] \<and> dm_len (device_model_of s') \<le> Suc (dm_len (device_model_of s))
    \<and> dm_max_variables (device_model_of s') = dm_max_variables (device_model_of s)
    \<and> (\<forall>c' v'. \<not> station_written c' v' \<longrightarrow> dm_get (device_model_of s') c' v' =
         (if c' = c \<and> v' = v then Some \<lparr>characteristics = ch, attributes = attrs\<rparr> else dm_get (device_model_of s) c' v'))"
proof -
  let ?s1 = "s\<lparr>device_model_of := fst (dm_register c v ch attrs (device_model_of s))\<rparr>"
  have inv: "dm_inv (device_model_of s)" using reachable_stores_inv [OF assms(1)] by (simp add: stores_inv_def)
  have accepted: "snd (dm_register c v ch attrs (device_model_of s))"
    using assms(4) by (simp add: dm_register_accepts)
  then have event: "apply_event rfc (registers (c, v, ch, attrs)) s = Some (?s1, [], True)"
    by (cases "dm_register c v ch attrs (device_model_of s)") (simp add: registers_def variable_registered_def)
  from assms(2) event obtain effects2 where "check_pending_reset (sync_variables ?s1) = Some (s', effects2)"
    by (auto simp: cp_apply_def split: option.splits)
  then have same: "device_model_of s' = device_model_of (sync_variables ?s1)" "network_profiles s' = network_profiles s"
    by (auto simp: check_pending_reset_def sync_variables_def sync_inventory_counters_def
        sync_network_configuration_variables_def sync_availability_variables_def Let_def frame_simps
        split: option.splits if_splits)
  have "dm_len (device_model_of (sync_variables ?s1)) \<le> dm_len (device_model_of ?s1)"
    by (rule sync_size) (simp_all add: assms(3) dm_register_inv [OF inv])
  then have "dm_len (device_model_of s') \<le> Suc (dm_len (device_model_of s))"
    using dm_len_register [OF inv accepted] by (simp add: same(1) split: if_splits)
  moreover have "dm_max_variables (device_model_of s') = dm_max_variables (device_model_of s)"
  proof -
    have "dm_op\<^sup>*\<^sup>* (device_model_of s) (device_model_of s')"
      using cp_apply_ops [OF assms(2)] by (simp add: store_ops_def)
    then show ?thesis by (rule dm_store.ops_cap)
  qed
  moreover have "dm_get (device_model_of s') c' v' =
      (if c' = c \<and> v' = v then Some \<lparr>characteristics = ch, attributes = attrs\<rparr> else dm_get (device_model_of s) c' v')"
    if "\<not> station_written c' v'" for c' v'
    using dm_get_sync [OF that, of ?s1] dm_get_register [OF accepted, of c' v'] by (simp add: same(1))
  ultimately show ?thesis using assms(3) same(2) by simp
qed

definition last_registered ::
  "component \<Rightarrow> variable \<Rightarrow> registration list \<Rightarrow> variable_definition option \<Rightarrow> variable_definition option" where
  "last_registered c v = fold (\<lambda>(c', v', ch, attrs) d.
     if c' = c \<and> v' = v then Some \<lparr>characteristics = ch, attributes = attrs\<rparr> else d)"

lemma register_run:
  assumes "reachable rfc counts limits s" and "cp_run rfc (map registers rows) s = Some (s', effects)"
    and "profile_slots (network_profiles s) = []"
    and "dm_len (device_model_of s) + length rows \<le> dm_max_variables (device_model_of s)"
    and "\<not> station_written c v"
  shows "dm_get (device_model_of s') c v = last_registered c v rows (dm_get (device_model_of s) c v)"
  using assms(1-4)
proof (induction rows arbitrary: s effects)
  case (Cons row rows)
  obtain c' v' ch attrs where row: "row = (c', v', ch, attrs)" by (cases row)
  obtain s1 effects1 effects2 where step: "cp_apply rfc (registers row) s = Some (s1, effects1)"
    and rest: "cp_run rfc (map registers rows) s1 = Some (s', effects2)"
    using Cons.prems(2) by (auto split: option.splits)
  note one = register_step [OF Cons.prems(1) step [unfolded row] Cons.prems(3)]
  have "dm_get (device_model_of s') c v = last_registered c v rows (dm_get (device_model_of s1) c v)"
    using Cons.IH [OF reachable.step [OF Cons.prems(1) step] rest] one Cons.prems(4) by simp
  with one Cons.prems(4) assms(5) show ?case by (auto simp: row last_registered_def)
qed (simp add: last_registered_def)

lemma last_registered_only:
  assumes "\<forall>row \<in> set rows. fst row = c \<and> fst (snd row) = v \<longrightarrow> snd (snd row) = (ch, attrs)"
  shows "last_registered c v rows d
    = (if \<exists>row \<in> set rows. fst row = c \<and> fst (snd row) = v then Some \<lparr>characteristics = ch, attributes = attrs\<rparr> else d)"
  using assms by (induction rows arbitrary: d) (auto simp: last_registered_def)

section \<open>The rows of the capabilities\<close>

definition gated_row :: "gated_variable \<Rightarrow> registration" where
  "gated_row g =
     (Component (gated_component g) None None, Variable (gated_name g) (gated_instance g),
      plain_characteristics (gated_data_type g),
      [\<lparr>attribute_type_of = Actual, attribute_value = gated_value g,
        mutability = (if gated_honoured g then gated_mutability g else ReadOnly),
        persistent = False, constant_attribute = False, requires_reboot = False\<rparr>])"

definition available_row :: "capabilities \<Rightarrow> capability_gate \<Rightarrow> registration option" where
  "available_row caps g =
     map_option (\<lambda>c. (Component c None None, Variable ''Available'' None, plain_characteristics BooleanType,
         [\<lparr>attribute_type_of = Actual, attribute_value = (if cap_gate_enabled g caps then ''true'' else ''false''),
           mutability = ReadOnly, persistent = False, constant_attribute = True, requires_reboot = False\<rparr>]))
       (cap_gate_component g)"

definition capability_rows :: "capabilities \<Rightarrow> registration list" where
  "capability_rows caps =
     List.map_filter (available_row caps) capability_gates
       @ concat (map (\<lambda>g. map gated_row (gate_variables caps g)) capability_gates)"

lemma capability_gate_events_rows: "capability_gate_events caps = map registers (capability_rows caps)"
proof -
  have "gate_available_event caps = (\<lambda>g. map_option registers (available_row caps g))"
    by (simp add: fun_eq_iff gate_available_event_def available_row_def registers_def option.map_comp comp_def)
  moreover have "gated_variable_event = registers \<circ> gated_row"
    by (simp add: fun_eq_iff gated_variable_event_def gated_row_def registers_def)
  ultimately show ?thesis
    by (simp add: capability_gate_events_def capability_rows_def map_filter_map map_concat comp_def)
qed

lemmas gated_tables =
  capability_gated_variables_def gated_local_list_variables_def gated_smart_charging_variables_def
  gated_display_variables_def gated_tariff_variables_def gated_payment_variables_def
  gated_iso15118_variables_def gated_tariff_fallback_variables_def gated_v2x_variables_def
  gated_ac_der_variables_def gated_dc_der_variables_def gated_web_payments_variables_def
  gated_monitoring_variables_def

text \<open>Two messages of the tariff controller are listed twice, with the same content; no two rows of one
  variable differ, and none is the switch itself.\<close>

lemma gated_keys_inj:
  "inj_on (\<lambda>g. (gated_component g, gated_name g, gated_instance g)) (set capability_gated_variables)"
proof -
  have "distinct (map (\<lambda>g. (gated_component g, gated_name g, gated_instance g)) (remdups capability_gated_variables))"
    by (simp add: gated_tables gated_def)
  then show ?thesis by (simp add: distinct_map)
qed

lemma gated_not_available: "\<forall>g \<in> set capability_gated_variables. gated_name g \<noteq> ''Available''"
  by (simp add: gated_tables gated_def)

definition advertised :: "capabilities \<Rightarrow> gated_variable \<Rightarrow> bool" where
  "advertised caps g \<longleftrightarrow>
     (\<exists>gate \<in> set capability_gates. cap_gate_enabled gate caps \<and> cap_gate_component gate = Some (gated_component g))"

lemma capability_rows_at:
  assumes "g \<in> set capability_gated_variables"
  defines "c \<equiv> Component (gated_component g) None None" and "v \<equiv> Variable (gated_name g) (gated_instance g)"
  shows "last_registered c v (capability_rows caps) d
    = (if advertised caps g then Some \<lparr>characteristics = plain_characteristics (gated_data_type g),
         attributes = snd (snd (snd (gated_row g)))\<rparr> else d)"
proof -
  have row: "row = gated_row g \<and> advertised caps g"
    if "row \<in> set (capability_rows caps)" "fst row = c" "fst (snd row) = v" for row
  proof -
    have "row \<notin> set (List.map_filter (available_row caps) capability_gates)"
      using that gated_not_available assms(1) by (auto simp: set_map_filter available_row_def v_def)
    with that(1) obtain gate h where h: "gate \<in> set capability_gates" "h \<in> set (gate_variables caps gate)" "row = gated_row h"
      by (auto simp: capability_rows_def)
    then have "h \<in> set capability_gated_variables" and "advertised caps h"
      by (auto simp: gate_variables_def advertised_def)
    moreover have "(gated_component h, gated_name h, gated_instance h) = (gated_component g, gated_name g, gated_instance g)"
      using that(2,3) by (simp add: h(3) gated_row_def c_def v_def)
    ultimately have "h = g"
      using gated_keys_inj assms(1) by (auto simp: inj_on_def)
    with \<open>advertised caps h\<close> h(3) show ?thesis by simp
  qed
  have "gated_row g \<in> set (capability_rows caps)" if "advertised caps g"
    using that assms(1) by (auto simp: advertised_def capability_rows_def gate_variables_def)
  then have present: "(\<exists>row \<in> set (capability_rows caps). fst row = c \<and> fst (snd row) = v) \<longleftrightarrow> advertised caps g"
    using row by (metis gated_row_def c_def v_def fst_conv snd_conv)
  have "\<forall>row \<in> set (capability_rows caps). fst row = c \<and> fst (snd row) = v
      \<longrightarrow> snd (snd row) = (plain_characteristics (gated_data_type g), snd (snd (snd (gated_row g))))"
    using row by (metis gated_row_def snd_conv)
  from last_registered_only [OF this] present show ?thesis by simp
qed


text \<open>C40: the configuration of a station follows what its hardware declares.  After the start-up events of
  any declared capabilities ran, from any reachable state without a network profile and with room
  for them, a variable of the table that was not there before is there exactly where its
  capability is present, with its value; and one that the build does not act on, or that is
  read-only, refuses every write without an event.\<close>

theorem capability_variables_follow_the_declaration:
  assumes "reachable rfc counts limits s" and "cp_run rfc (capability_gate_events caps) s = Some (s', effects)"
    and "profile_slots (network_profiles s) = []"
    and "dm_len (device_model_of s) + length (capability_gate_events caps) \<le> dm_max_variables (device_model_of s)"
    and "g \<in> set capability_gated_variables"
    and "dm_get (device_model_of s) (Component (gated_component g) None None) (Variable (gated_name g) (gated_instance g)) = None"
    and "\<not> station_written (Component (gated_component g) None None) (Variable (gated_name g) (gated_instance g))"
  shows "resolve_get (device_model_of s') (Component (gated_component g) None None) (Variable (gated_name g) (gated_instance g)) Actual
      = (if \<not> advertised caps g
         then if dm_has_component (device_model_of s') (Component (gated_component g) None None)
           then GetUnknownVariable else GetUnknownComponent
         else if gated_honoured g \<and> gated_mutability g = WriteOnly then GetRejected
         else GetAccepted (gated_value g))
    \<and> (advertised caps g \<and> (\<not> gated_honoured g \<or> gated_mutability g = ReadOnly) \<longrightarrow>
        resolve_set is_rfc3339 codec ks \<lparr>set_component = Component (gated_component g) None None,
          set_variable = Variable (gated_name g) (gated_instance g), set_attribute_type = Actual, set_value = x\<rparr> s' k
        = ((SetRejected, []), k))"
proof -
  have run: "cp_run rfc (map registers (capability_rows caps)) s = Some (s', effects)"
    and room: "dm_len (device_model_of s) + length (capability_rows caps) \<le> dm_max_variables (device_model_of s)"
    using assms(2,4) by (simp_all add: capability_gate_events_rows)
  from register_run [OF assms(1) run assms(3) room assms(7)] capability_rows_at [OF assms(5)] assms(6)
  have "dm_get (device_model_of s') (Component (gated_component g) None None) (Variable (gated_name g) (gated_instance g))
    = (if advertised caps g then Some \<lparr>characteristics = plain_characteristics (gated_data_type g),
         attributes = snd (snd (snd (gated_row g)))\<rparr> else None)" by simp
  then show ?thesis
    by (simp add: resolve_get_def resolve_set_def attribute_of_def gated_row_def Let_def)
qed

text \<open>A fresh station with smart charging: the number of stack levels is there, and cannot be written.\<close>

lemma registrations_other:
  assumes "\<forall>row \<in> set rows. fst row \<noteq> c \<or> fst (snd row) \<noteq> v"
  shows "dm_get (registrations rows m) c v = dm_get m c v"
  using assms
proof (induction rows arbitrary: m)
  case (Cons row rows)
  have "dm_get (register_one row m) c v = dm_get m c v"
    using Cons.prems by (cases row) (auto simp: register_one_def intro!: dm_get_register_other)
  with Cons show ?case by (simp add: registrations_def)
qed (simp add: registrations_def)

abbreviation "stack_level_component \<equiv> Component ''SmartChargingCtrlr'' None None"
abbreviation "stack_level_variable \<equiv> Variable ''ProfileStackLevel'' None"

lemma fresh_stack_level:
  "dm_get (device_model_of (cp_with_limits [1] limits)) stack_level_component stack_level_variable = None"
proof -
  have "fst row \<noteq> stack_level_component" if "row \<in> set (topology_rows [1])" for row
    using that
    by (auto simp: topology_rows_def default_row_def default_variables_def default_variables_1_def default_variables_2_def
        default_variables_3_def default_variables_4_def default_variables_5_def default_variables_6_def
        evse_rows_def connector_rows_def availability_rows_def device_model_names)
  then have "dm_get (registrations (topology_rows [1]) m) stack_level_component stack_level_variable
      = dm_get m stack_level_component stack_level_variable" for m
    by (intro registrations_other) blast
  then show ?thesis
    by (simp add: cp_with_limits_def dm_with_topology_def Let_def with_topology_rows dm_get_def bt.get_empty)
qed

theorem capability_variables_follow_the_declaration_witness:
  "\<exists>s' effects. cp_run (\<lambda>_. []) (capability_gate_events (default_capabilities\<lparr>cap_smart_charging := True\<rparr>))
      (cp_with_limits [1] default_state_limits) = Some (s', effects)
    \<and> resolve_get (device_model_of s') stack_level_component stack_level_variable Actual = GetAccepted ''8''"
proof -
  let ?s = "cp_with_limits [1] default_state_limits" and ?caps = "default_capabilities\<lparr>cap_smart_charging := True\<rparr>"
  let ?g = "gated ''SmartChargingCtrlr'' (''ProfileStackLevel'', None, IntegerType, ''8'', ReadOnly, False)"
  have start: "reachable (\<lambda>_. []) [1] default_state_limits ?s" by (rule reachable.start)
  from reachable_run_total [OF start] obtain s' effects where
    run: "cp_run (\<lambda>_. []) (capability_gate_events ?caps) ?s = Some (s', effects)" by blast
  have "dm_len (registrations (topology_rows [1]) \<lparr>dm_components = [], dm_max_variables = usize_max\<rparr>) \<le> 61"
    using dm_len_registrations [OF dm_inv_empty, of "topology_rows [1]" usize_max]
    by (simp add: length_topology_rows dm_len_def bt_values_def)
  then have "dm_len (device_model_of ?s) \<le> 61" and "256 \<le> dm_max_variables (device_model_of ?s)"
    by (simp_all add: cp_with_limits_def dm_with_topology_def with_topology_rows Let_def dm_len_def default_state_limits_def)
  moreover have "length (capability_gate_events ?caps) \<le> 100" by code_simp
  ultimately have room: "dm_len (device_model_of ?s) + length (capability_gate_events ?caps) \<le> dm_max_variables (device_model_of ?s)"
    by linarith
  have g: "?g \<in> set capability_gated_variables" "advertised ?caps ?g"
    by (simp_all add: gated_tables advertised_def capability_gates_def gated_def default_capabilities_def)
  have other: "\<not> station_written stack_level_component stack_level_variable"
    by (auto simp: station_written_def device_model_names)
  have slots: "profile_slots (network_profiles ?s) = []" by (simp add: cp_with_limits_def network_with_max_slots_def)
  have "resolve_get (device_model_of s') stack_level_component stack_level_variable Actual = GetAccepted ''8''"
    using conjunct1 [OF capability_variables_follow_the_declaration [OF start run slots room g(1)]] fresh_stack_level other g(2)
    by (simp add: gated_def)
  with run show ?thesis by blast
qed

section \<open>What the table and its documentation disagree on\<close>

text \<open>The shared secret of web payments is registered readable.\<close>

lemma shared_secret_is_readable:
  "\<exists>g \<in> set capability_gated_variables. gated_name g = ''SharedSecret'' \<and> gated_mutability g = WriteOnly
     \<and> mutability (hd (snd (snd (snd (gated_row g))))) = ReadOnly"
  by (simp add: gated_tables gated_def gated_row_def)

text \<open>A station with diagnostics and firmware management lists one profile twice.\<close>

lemma firmware_profile_listed_twice:
  "supported_feature_profiles_1_6 (\<lambda>_. True)
     (default_capabilities\<lparr>cap_diagnostics := True, cap_firmware_management := True\<rparr>)
   = ''Core,RemoteTrigger,FirmwareManagement,FirmwareManagement''"
  by (simp add: supported_feature_profiles_1_6_def capability_gates_def default_capabilities_def)

end
