(* ===== verification/Spec2Isabelle.thy ===== *)
theory Spec2Isabelle
  imports Availability_Sync Pending_Resets Charging_Session Store_Properties Connector_Properties
    Pricing_Properties Actor Composite_Properties Remote_Control_Properties Projection_Properties
    Authorization_Properties Persistence_Properties Credential_Properties Capability_Properties
begin

text \<open>
  A verification of the core of an OCPP charge point (\<open>src/src\<close>): one state machine that owns
  the station's state, the stores it holds, the calculations it rests on, and the task that
  feeds it.

  \<^bold>\<open>The program.\<close>  A \<open>ChargePointActor\<close> owns one \<open>ChargePointState\<close>.  Hardware bindings and
  the handlers of CSMS requests send it \<open>ChargePointEvent\<close>s through a bounded mailbox; the run
  loop applies them one at a time with \<open>ChargePointState::apply\<close>, publishes the new state where
  the handler says it changed, and hands the effects (contactor and lock commands, status
  notifications, transaction events and others) to the subscribers.  A handler decides on a
  snapshot of the state and sends events; it never writes the state itself.

  \<^bold>\<open>Data and stores\<close> (one theory per file under \<open>src/src/state\<close>): \<open>Identity\<close>,
  \<open>Transactions\<close>, \<open>Events\<close> hold the data; \<open>Authorization_Stores\<close>, \<open>Network_Profiles\<close>,
  \<open>Event_Streams\<close>, \<open>Battery_Swaps\<close>, \<open>Display_Messages\<close>, \<open>Der_Controls\<close>, \<open>Charging_Profiles\<close>,
  \<open>Tariffs\<close>, \<open>Device_Model\<close> (with \<open>Device_Model_Defaults\<close>) and \<open>Variable_Monitors\<close> the bounded
  stores, each with its operations, the relation of its steps and its invariant.  \<open>Store_Spec\<close>
  states the contract of a bounded store as a locale and every store interprets it;
  \<open>Ordered_Map\<close> does so for the ordered maps; \<open>Float64\<close> is IEEE binary64 with rounding.

  \<^bold>\<open>The state machine.\<close>  \<open>Connector_Machine\<close> is \<open>ConnectorState::apply\<close>;
  \<open>Transaction_Machine\<close> is \<open>advance_transaction\<close>; \<open>Charge_Point_State\<close> holds the records of an
  EVSE and of the station; \<open>Connector_Handler\<close> is \<open>apply_connector_event\<close>, stage by stage, with
  the limits a transaction may reach; \<open>Device_Sync\<close> projects the state into the device model;
  \<open>Charge_Point\<close> is \<open>apply\<close> over all its events with fault cascades, resets and recovery, the run
  over a sequence of events and the reachable states.  A panic of the source is \<open>None\<close>.
  \<open>Connector_Steps\<close>, \<open>Micro_Steps\<close> and \<open>Charge_Point_Paths\<close> break a run into the steps of single
  connectors; the locale of \<open>Handler_Relation\<close> carries a relation from those steps through the
  whole handler, and is interpreted for every invariant proved of it.

  \<^bold>\<open>Calculations.\<close>  \<open>Pricing\<close> is \<open>pricing.rs\<close>: taxes, tariff conditions, the splitting of an
  interval where prices change, charging periods and the bounds on the total.

  \<^bold>\<open>The actor.\<close>  \<open>Actor\<close> is \<open>sync.rs\<close> and the run loop of \<open>actor/charge_point_actor.rs\<close>, with
  senders and run loop interleaved in any order; \<open>Publication\<close> shows which events may change the
  state without publishing it.

  \<^bold>\<open>Requests of the CSMS.\<close>  A handler is modelled as the decision on a snapshot together with the
  events it sends, and is composed with the state machine by applying those events.  \<open>Requests\<close>
  is \<open>reset.rs\<close>, \<open>reservation.rs\<close>, \<open>remote_control.rs\<close>, \<open>availability.rs\<close>, \<open>cost.rs\<close> and
  \<open>tariff.rs\<close>; \<open>Charging_Requests\<close> is \<open>smart_charging/handlers.rs\<close> and
  \<open>smart_charging/projection.rs\<close>; \<open>Authorization_Decisions\<close> is \<open>authorization.rs\<close>, where the CSMS
  is a function that answers or fails.  \<open>Composite_Schedule\<close> is \<open>smart_charging/composite.rs\<close>
  the limit of a connector at one instant and its
  composition over a window.  \<open>Variable_Requests\<close> is \<open>device_model.rs\<close> and
  \<open>reporting.rs\<close>: reading, writing and reporting variables; \<open>Capability_Gates\<close> is
  \<open>hardware/capabilities.rs\<close> with the variables that the first of them advertises per capability.

  \<^bold>\<open>What outlives the power.\<close>  \<open>Storage\<close> is \<open>hardware/storage.rs\<close> with its record format and
  checksum; \<open>Storage_Contract\<close> states what a storage, a crash-safe storage and a medium that may
  tear the write in progress promise, as locales that extend each other, and shows that
  \<open>AtomicStorage\<close> makes the one out of the other.  \<open>Persistence\<close> is the transaction store of
  \<open>persistence.rs\<close>: the write policy, the loop that observes the effects, the recovery.  The
  encoding of a record is the external \<open>serde\<close> and stays a parameter, of which decoding is
  assumed to invert encoding.  \<open>Offline_Queue\<close> is \<open>offline_queue.rs\<close>: messages queued, flushed
  with attempts and acknowledged while the link comes and goes.  \<open>Credentials\<close> is
  \<open>hardware/key_storage.rs\<close>, \<open>basic_auth_credential.rs\<close> and \<open>security_profile.rs\<close> with the hash
  of \<open>Sha256\<close>: keys and passwords kept in a storage, a password that is rotated, confirmed or
  rolled back.

  \<^bold>\<open>What is shown.\<close>  Here and in \<open>Fault_Cascade\<close>: faults are fail-safe and contained, a
  contactor is commanded closed before energy flows and last commanded open after, a
  transaction's events follow the protocol and ids are never reused, resets wait exactly while
  blocked, the handler never panics and ends.  \<open>Store_Bounds\<close> and \<open>Store_Properties\<close>: every store
  stays within its configured maximum and keeps its invariant in every reachable state, and the
  operations meet their contracts.  \<open>Availability_Sync\<close>: the device model agrees with the state
  machines.  \<open>Charging_Session\<close> and \<open>Session_Transactions\<close>: a session leads to charging and is
  billed for what the meter counted.  \<open>Connector_Properties\<close>: what the connector machine never
  does.  \<open>Pricing_Properties\<close>: the usage is accounted for exactly and the total respects its
  bounds.  \<open>Actor\<close>: the actor is the state machine run over the accepted events, none is lost,
  and its snapshot is current.  \<open>Remote_Control_Properties\<close>: a remote start begins the session
  it names on the connector a reference choice names, a remote stop opens the contactor.
  \<open>Reservation_Invariant\<close> and \<open>Reservation_Properties\<close>: reservations and reserved connectors
  agree, and the expiry sweep frees what has expired.  \<open>Authorization_Properties\<close>: what is decided
  without the CSMS rests on what it said before.  \<open>Charging_Request_Properties\<close> and
  \<open>Projection_Properties\<close>: what a refused and an accepted request change, and that every
  connector is sent its own limit.  \<open>Composite_Properties\<close>: the composite schedule is the limit at
  every instant of its window.  \<open>Persistence_Properties\<close>: a power cut loses no open transaction,
  and less energy than the configured threshold.  \<open>Credential_Properties\<close>: no failure of the
  storage mixes or loses the passwords of a slot.  \<open>Variable_Request_Properties\<close> and
  \<open>Capability_Properties\<close>: an accepted write is read back, a password stays out of the state, a
  report is complete, and the variables of a capability are there where it is declared.  \<open>Offline_Queue\<close>: accepted messages are
  delivered in their order.

  \<^bold>\<open>Bounds.\<close>  The recursion of the handler and of its loops ends by measures on the state, no
  fuel is used; the iteration bounds in the model, \<open>max_sub_intervals\<close> of the pricing loop and
  the 512 boundaries of a composite schedule, are bounds of the source.  Machine integers that
  can wrap are words; \<open>usize\<close> indices and lengths are natural numbers, instants are integers
  counted in nanoseconds.

  \<^bold>\<open>Not modelled.\<close>  The conversions to and from the message types of the external OCPP crate and
  the adapters per protocol version that make them; the builder and the setup of tasks from user
  options; the loops on transport and timers (connection, keepalive, network switching, the
  notifiers that resend or wait); the other stores of \<open>persistence.rs\<close>, which write a whole
  snapshot under one key; certificates, firmware, diagnostics and payment, which hand requests to
  traits a binding implements; log output.
\<close>

section \<open>Faults\<close>

text \<open>C1: a hardware fault of the station is fail-safe: every connector, whatever its state and
  whatever the configuration, ends in \<open>Faulted\<close> after exactly one contactor command, which
  opens the contactor, and the station's lifecycle is \<open>Faulted\<close>.\<close>

theorem hardware_fault_fails_safe:
  assumes "cp_apply rfc HardwareFault s = Some (s', effects)"
    and "connector_at s i c \<noteq> None"
  shows "connector_at s' i c = Some Faulted \<and> contactor_commands i c effects = [False]"
proof -
  from assms(1) obtain s1 effects1 b where event: "apply_event rfc HardwareFault s = Some (s1, effects1, b)"
    by (rule cp_applyE)
  then have fault: "station_fault True s = (s1, effects1, b)" by simp
  show ?thesis
    using station_fault_connectors [OF fault, of i c] assms(2)
    by (auto simp: cp_apply_connectors [OF assms(1) event] cascade_state_def cascade_command_def)
qed

theorem hardware_fault_fails_safe_witness:
  "\<exists>s' effects. cp_apply (\<lambda>_. []) HardwareFault (cp_new [2, 1]) = Some (s', effects)
     \<and> connector_at s' 1 0 = Some Faulted \<and> contactor_commands 1 0 effects = [False]"
proof -
  have "reachable (\<lambda>_. []) [2, 1] default_state_limits (cp_new [2, 1])"
    unfolding cp_new_def by (rule reachable.start)
  from reachable_total [OF this] obtain s' effects where
    "cp_apply (\<lambda>_. []) HardwareFault (cp_new [2, 1]) = Some (s', effects)" by blast
  with hardware_fault_fails_safe [OF this, of 1 0] show ?thesis
    by (simp add: cp_new_def fresh_connector_at)
qed

text \<open>C2: a fault of one EVSE takes every connector of that EVSE to \<open>Faulted\<close> and opens its
  contactor, and neither moves a connector of another EVSE nor commands its contactor.\<close>

theorem evse_fault_is_contained:
  assumes "cp_apply rfc (OnEvse i EvseFaultDetected) s = Some (s', effects)"
  shows "connector_at s' j c
      = (if j = i then map_option (\<lambda>_. Faulted) (connector_at s j c) else connector_at s j c)
    \<and> contactor_commands j c effects = (if j = i \<and> connector_at s j c \<noteq> None then [False] else [])"
proof -
  from assms obtain s1 effects1 b where
    event: "apply_event rfc (OnEvse i EvseFaultDetected) s = Some (s1, effects1, b)"
    by (rule cp_applyE)
  then have fault: "cascade_evse_fault i True s = (s1, effects1, b)" by (simp add: evse_event_applied_def)
  show ?thesis
    using cascade_evse_connectors(1,2) [OF fault, of j c]
    by (simp add: cp_apply_connectors [OF assms event] cascade_state_def [abs_def] cascade_command_def)
qed

theorem evse_fault_is_contained_witness:
  "\<exists>s' effects. cp_apply (\<lambda>_. []) (OnEvse 0 EvseFaultDetected) (cp_new [1, 1]) = Some (s', effects)
     \<and> connector_at s' 0 0 = Some Faulted \<and> connector_at s' 1 0 = Some Available
     \<and> contactor_commands 0 0 effects = [False] \<and> contactor_commands 1 0 effects = []"
proof -
  have "reachable (\<lambda>_. []) [1, 1] default_state_limits (cp_new [1, 1])"
    unfolding cp_new_def by (rule reachable.start)
  from reachable_total [OF this] obtain s' effects where
    "cp_apply (\<lambda>_. []) (OnEvse 0 EvseFaultDetected) (cp_new [1, 1]) = Some (s', effects)" by blast
  with evse_fault_is_contained [OF this, of 0 0] evse_fault_is_contained [OF this, of 1 0] show ?thesis
    by (simp add: cp_new_def fresh_connector_at)
qed

section \<open>The contactor\<close>

text \<open>C3: over any sequence of events from a fresh station, a connector that is in an energised
  state was last commanded to close its contactor; so power is never assumed on a cable whose
  contactor was left open.\<close>

theorem energised_only_after_close_command:
  assumes "cp_run rfc evs (cp_with_limits counts limits) = Some (s', effects)"
    and "energised_at s' i c"
  shows "contactor_commands i c effects \<noteq> [] \<and> last (contactor_commands i c effects)"
proof -
  have "contactor_after False (contactor_commands i c effects)"
    using path_contactor_closed [OF cp_run_path [OF assms(1)] _ assms(2), of False] by simp
  then show ?thesis by (auto simp: contactor_after_def split: if_splits)
qed

theorem energised_only_after_close_command_witness:
  "\<exists>s' effects. cp_run (\<lambda>_. []) (session_start 0 0 \<lparr>token_value = ''TAG1'', token_kind = ISO14443\<rparr>)
      (cp_with_limits [1] default_state_limits) = Some (s', effects)
     \<and> energised_at s' 0 0 \<and> last (contactor_commands 0 0 effects)"
proof -
  obtain s' effects where
    "cp_run (\<lambda>_. []) (session_start 0 0 \<lparr>token_value = ''TAG1'', token_kind = ISO14443\<rparr>)
      (cp_with_limits [1] default_state_limits) = Some (s', effects)" "connector_at s' 0 0 = Some Charging"
    by (rule fresh_session_run)
  moreover from this(2) have "energised_at s' 0 0" by (simp add: energised_at_def)
  ultimately show ?thesis using energised_only_after_close_command by blast
qed

text \<open>C4: as long as no connector is set available or unavailable administratively, the contactor
  is commanded closed exactly in the energised states: over any sequence of such events the last
  contactor command closes the contactor if and only if the connector is energised.\<close>

theorem contactor_follows_the_state:
  assumes "cp_run rfc evs (cp_with_limits counts limits) = Some (s', effects)"
    and "\<forall>ev \<in> set evs. \<forall>i c. ev \<noteq> OnEvse i (OnConnector c ConnectorSetAvailable)
       \<and> ev \<noteq> OnEvse i (OnConnector c ConnectorSetUnavailable)"
  shows "energised_at s' i c \<longleftrightarrow> contactor_commands i c effects \<noteq> [] \<and> last (contactor_commands i c effects)"
proof -
  have "\<not> administrative cev" if "\<exists>ev \<in> set evs. event_allows ev cev" for cev
    using that assms(2) by (auto simp: event_allows_def administrative_def internal_def)
  then have "contactor_after False (contactor_commands i c effects) = energised_at s' i c"
    using path_contactor_exact [OF cp_run_path [OF assms(1)], of i c] by simp
  then show ?thesis by (auto simp: contactor_after_def split: if_splits)
qed

theorem contactor_follows_the_state_witness:
  "\<exists>s' effects. cp_run (\<lambda>_. []) (session_start 0 0 \<lparr>token_value = ''TAG1'', token_kind = ISO14443\<rparr>)
      (cp_with_limits [1] default_state_limits) = Some (s', effects)
     \<and> contactor_commands 0 0 effects \<noteq> [] \<and> last (contactor_commands 0 0 effects)"
proof -
  obtain s' effects where
    run: "cp_run (\<lambda>_. []) (session_start 0 0 \<lparr>token_value = ''TAG1'', token_kind = ISO14443\<rparr>)
      (cp_with_limits [1] default_state_limits) = Some (s', effects)" and "connector_at s' 0 0 = Some Charging"
    by (rule fresh_session_run)
  from this(2) have "energised_at s' 0 0" by (simp add: energised_at_def)
  with contactor_follows_the_state [OF run, of 0 0] run show ?thesis by (auto simp: session_start_def)
qed

text \<open>C5: charging is reachable: from every reachable state of a station whose connector is free
  or reserved, under every configuration, plugging in, locking, presenting an identifier that is
  authorized and closing the contactor brings the connector to \<open>Charging\<close>, with the contactor
  commanded closed.\<close>

theorem session_reaches_charging:
  assumes "reachable rfc counts limits s" and "connector_at s i c \<in> {Some Available, Some Reserved}"
  shows "\<exists>s' effects. cp_run rfc (session_start i c t) s = Some (s', effects)
    \<and> connector_at s' i c = Some Charging \<and> True \<in> set (contactor_commands i c effects)"
proof -
  obtain s' effects where run: "cp_run rfc (session_start i c t) s = Some (s', effects)"
    using reachable_run_total [OF assms(1)] by blast
  have charging: "connector_at s' i c = Some Charging" by (rule session_start_charges [OF run assms(2)])
  have "\<not> energised_at s i c" using assms(2) by (auto simp: energised_at_def)
  then have "contactor_after False (contactor_commands i c effects)"
    using path_contactor_closed [OF cp_run_path [OF run], of i c False] charging by (simp add: energised_at_def)
  then have "True \<in> set (contactor_commands i c effects)"
    by (auto simp: contactor_after_def split: if_splits) (metis last_in_set)
  with run charging show ?thesis by blast
qed

theorem session_reaches_charging_witness:
  "\<exists>s' effects. cp_run (\<lambda>_. []) (session_start 0 0 \<lparr>token_value = ''TAG1'', token_kind = ISO14443\<rparr>)
      (cp_with_limits [1] default_state_limits) = Some (s', effects)
     \<and> connector_at s' 0 0 = Some Charging"
  using session_reaches_charging [OF reachable.start [of "\<lambda>_. []" "[1]" default_state_limits], of 0 0
      "\<lparr>token_value = ''TAG1'', token_kind = ISO14443\<rparr>"]
  by (auto simp: fresh_connector_at)

section \<open>Transactions\<close>





section \<open>Every reachable state\<close>

text \<open>C11: the event handler never panics: in every reachable state every event has a result, so no
  index is out of range and no element is removed from an empty vector, and the recursive
  connector handler always returns.\<close>

theorem handler_never_panics:
  assumes "reachable rfc counts limits s"
  shows "\<exists>s' effects. cp_apply rfc ev s = Some (s', effects) \<and> reachable rfc counts limits s'"
  using reachable_total [OF assms] reachable.step [OF assms] by blast

theorem handler_never_panics_witness:
  "\<exists>s' effects. cp_apply (\<lambda>_. []) AuthorizationCacheCleared (cp_with_limits [1] default_state_limits)
     = Some (s', effects)"
  using handler_never_panics [OF reachable.start] by blast

text \<open>C12: the topology never changes and the parallel vectors of every EVSE always have one slot
  per connector, in every reachable state.\<close>

theorem topology_is_invariant:
  assumes "reachable rfc counts limits s"
  shows "connector_counts s = counts \<and> list_all evse_wf (evses s)"
  using reachable_wf [OF assms] by (simp add: cp_wf_def)

theorem topology_is_invariant_witness:
  "\<exists>s' effects. cp_run (\<lambda>_. []) (session_start 0 0 \<lparr>token_value = ''TAG1'', token_kind = ISO14443\<rparr>)
      (cp_with_limits [1] default_state_limits) = Some (s', effects) \<and> connector_counts s' = [1]"
proof -
  obtain s' effects where
    run: "cp_run (\<lambda>_. []) (session_start 0 0 \<lparr>token_value = ''TAG1'', token_kind = ISO14443\<rparr>)
      (cp_with_limits [1] default_state_limits) = Some (s', effects)"
    by (rule fresh_session_run)
  with topology_is_invariant [OF reachable_run [OF reachable.start run]] show ?thesis by blast
qed

text \<open>C13: every collection a CSMS or a hardware binding can grow stays within the maximum it was
  built with, in every reachable state.  A configured maximum of zero counts as one where the
  store says so, and the device model's maximum is never below the built-in variables.\<close>

theorem stores_stay_within_limits:
  assumes "reachable rfc counts limits s"
  shows "length (list_entries (local_authorization_list_of s)) \<le> max 1 (max_local_authorization_list_entries limits)
    \<and> length (cache_entries (authorization_cache_of s)) \<le> max 1 (max_authorization_cache_entries limits)
    \<and> length (profiles (charging_profiles_of s)) \<le> max 1 (max_charging_profiles limits)
    \<and> length (tariffs (tariffs_of s)) \<le> max 1 (limit_max_tariffs limits)
    \<and> length (profile_slots (network_profiles s)) \<le> max 1 (max_network_profile_slots limits)
    \<and> length (monitors (variable_monitors s)) \<le> max 1 (max_variable_monitors limits)
    \<and> length (messages (display_messages_of s)) \<le> max 1 (max_display_messages limits)
    \<and> length (streams (periodic_event_streams s)) \<le> max 1 (max_periodic_event_streams limits)
    \<and> length (pending_swaps (battery_swaps_of s)) \<le> max 1 (max_pending_battery_swaps limits)
    \<and> length (controls (der_controls_of s)) \<le> max 1 (max_der_controls limits)
    \<and> dm_len (device_model_of s) \<le> max (max_device_model_variables limits)
           (56 + 2 * length counts + 3 * sum_list counts)"
proof -
  let ?s0 = "cp_with_limits counts limits"
  note bound = store_ops_bounded [OF reachable_ops [OF assms] stores_inv_init]
  have "list_max_entries (local_authorization_list_of ?s0) = max 1 (max_local_authorization_list_entries limits)"
    "cache_max_entries (authorization_cache_of ?s0) = max 1 (max_authorization_cache_entries limits)"
    "max_profiles (charging_profiles_of ?s0) = max 1 (max_charging_profiles limits)"
    "max_tariffs (tariffs_of ?s0) = max 1 (limit_max_tariffs limits)"
    "max_slots (network_profiles ?s0) = max 1 (max_network_profile_slots limits)"
    "max_monitors (variable_monitors ?s0) = max 1 (max_variable_monitors limits)"
    "max_messages (display_messages_of ?s0) = max 1 (max_display_messages limits)"
    "max_streams (periodic_event_streams ?s0) = max 1 (max_periodic_event_streams limits)"
    "max_pending (battery_swaps_of ?s0) = max 1 (max_pending_battery_swaps limits)"
    "max_controls (der_controls_of ?s0) = max 1 (max_der_controls limits)"
    "device_model_of ?s0 = dm_with_topology (max_device_model_variables limits) counts"
    by (simp_all add: cp_with_limits_def local_list_with_max_def cache_with_max_def profiles_with_limit_def
        tariffs_with_limit_def network_with_max_slots_def monitors_with_limit_def messages_with_max_def
        streams_with_limit_def swaps_with_max_pending_def der_with_limit_def max.commute)
  note max = this
  show ?thesis
    using bound(1-10) order_trans [OF bound(11) [unfolded max(11)] dm_max_with_topology]
    unfolding max(1-10) by (intro conjI)
qed

theorem stores_stay_within_limits_witness:
  "\<exists>s' effects. cp_run (\<lambda>_. []) (session_start 0 0 \<lparr>token_value = ''TAG1'', token_kind = ISO14443\<rparr>)
      (cp_with_limits [1] default_state_limits) = Some (s', effects)
     \<and> dm_len (device_model_of s') \<le> 256 \<and> length (cache_entries (authorization_cache_of s')) \<le> 50"
proof -
  obtain s' effects where
    run: "cp_run (\<lambda>_. []) (session_start 0 0 \<lparr>token_value = ''TAG1'', token_kind = ISO14443\<rparr>)
      (cp_with_limits [1] default_state_limits) = Some (s', effects)"
    by (rule fresh_session_run)
  from stores_stay_within_limits [OF reachable_run [OF reachable.start run]] run show ?thesis
    by (simp add: default_state_limits_def)
qed

text \<open>C14: what the stores promise about their contents holds in every reachable state: charging
  profiles are unique by id and by scope, purpose and stack level, tariffs by id and, per scope,
  by the instant they take effect, network slots are in ascending order, and display messages,
  event streams, battery swaps and DER controls are unique by id.\<close>

theorem stores_keep_their_invariants:
  assumes "reachable rfc counts limits s"
  shows "distinct (map (\<lambda>i. profile_id (installed_of i)) (profiles (charging_profiles_of s)))
    \<and> distinct (map profile_slot (profiles (charging_profiles_of s)))
    \<and> distinct (map (\<lambda>i. tariff_id_of (tariff_of i)) (tariffs (tariffs_of s)))
    \<and> distinct (map tariff_key (tariffs (tariffs_of s)))
    \<and> sorted (map slot_number (profile_slots (network_profiles s)))
    \<and> distinct (map message_id (messages (display_messages_of s)))
    \<and> distinct (map stream_id (streams (periodic_event_streams s)))
    \<and> distinct (map pending_request_id (pending_swaps (battery_swaps_of s)))
    \<and> distinct (map der_id (controls (der_controls_of s)))"
  using reachable_stores_inv [OF assms]
  by (simp add: stores_inv_def profiles_inv_def tariffs_inv_def network_inv_def message_inv_def
      stream_inv_def swap_inv_def der_inv_def)

theorem stores_keep_their_invariants_witness:
  "\<exists>s' effects. cp_run (\<lambda>_. []) (session_start 0 0 \<lparr>token_value = ''TAG1'', token_kind = ISO14443\<rparr>)
      (cp_with_limits [1] default_state_limits) = Some (s', effects)
     \<and> distinct (map profile_slot (profiles (charging_profiles_of s')))"
proof -
  obtain s' effects where
    run: "cp_run (\<lambda>_. []) (session_start 0 0 \<lparr>token_value = ''TAG1'', token_kind = ISO14443\<rparr>)
      (cp_with_limits [1] default_state_limits) = Some (s', effects)"
    by (rule fresh_session_run)
  from stores_keep_their_invariants [OF reachable_run [OF reachable.start run]] run show ?thesis by blast
qed

text \<open>C15: after every event the device model agrees with the state machines: the
  \<open>AvailabilityState\<close> of the station, of every EVSE and of every connector, where the variable
  exists, is the value for the lifecycle, for the roll-up of the EVSE and for the connector's
  state, so a report and a status notification never disagree.\<close>

theorem availability_variables_agree:
  assumes "cp_apply rfc ev s = Some (s', effects)"
    and "availability_of s' a = Some st"
    and "dm_actual (device_model_of s') (availability_component a) availability_variable = Some x"
  shows "x = availability_state_value st"
  using cp_apply_synced [OF assms(1)] assms(2,3) by (auto simp: availability_synced_def)

theorem availability_variables_agree_witness:
  "\<exists>s' effects. cp_apply (\<lambda>_. []) BootCompleted (cp_with_limits [1] default_state_limits) = Some (s', effects)
     \<and> dm_actual (device_model_of s') (Component ''ChargingStation'' None None) (Variable ''AvailabilityState'' None)
         = Some ''Available''"
proof -
  let ?s = "cp_with_limits [1] default_state_limits" and ?a = "None :: availability_address"
  let ?s1 = "?s\<lparr>lifecycle := LifeAvailable\<rparr>"
  have s': "cp_apply (\<lambda>_. []) BootCompleted ?s = Some (sync_variables ?s1, [StateChanged])"
    by (simp add: cp_apply_def set_lifecycle_def check_pending_reset_def cp_with_limits_def sync_variables_def
        sync_inventory_counters_def sync_network_configuration_variables_def sync_availability_variables_def
        Let_def)
  have "dm_actual (device_model_of ?s) (availability_component ?a) availability_variable
      = Some (initial_availability ?a)"
    using dm_with_topology_availability [of "[1]" ?a] by (simp add: cp_with_limits_def usize_max_def)
  then have before: "dm_actual (device_model_of ?s1) (availability_component ?a) availability_variable
      = Some (initial_availability ?a)"
    by simp
  have x: "dm_actual (device_model_of (sync_variables ?s1)) (availability_component ?a) availability_variable
      = Some ''Available''"
    unfolding sync_variables_availability before by simp
  have "availability_of (sync_variables ?s1) ?a = Some StatusAvailable" by (simp add: frame_simps)
  from availability_variables_agree [OF s' this x] x s' show ?thesis by (simp add: device_model_names)
qed

section \<open>Resets\<close>



text \<open>C17: a reset never waits without a cause: after every event a reset is still pending only
  if some connector of its target blocks it, a transaction for an on-idle reset, a connector
  still stopping or finishing for an immediate one.  As soon as the last such connector is done,
  the event that did it reboots the target.\<close>

theorem reset_waits_only_when_blocked:
  assumes "cp_wf s" and "cp_apply rfc ev s = Some (s', effects)"
  shows "pending_reset_of s' = None
    \<or> (\<exists>p i c. pending_reset_of s' = Some p \<and> target_contains (pending_target p) i
         \<and> connector_at s' i c \<noteq> None
         \<and> (case pending_kind p of
              Immediate \<Rightarrow> connector_at s' i c \<in> {Some Stopping, Some Finishing}
            | OnIdle \<Rightarrow> transaction_at s' i c \<noteq> None))"
proof -
  from assms(2) obtain s1 effects1 b effects2 where
    event: "apply_event rfc ev s = Some (s1, effects1, b)"
    and reset: "check_pending_reset (sync_variables s1) = Some (s', effects2)"
    by (rule cp_applyE)
  have "cp_wf s1" using path_wf [OF apply_event_path [OF event]] assms(1) by simp
  then have wf: "cp_wf (sync_variables s1)" by (simp add: cp_wf_def frame_simps)
  show ?thesis
  proof (cases "pending_reset_of (sync_variables s1)")
    case None
    with reset show ?thesis by (simp add: check_pending_reset_def)
  next
    case (Some p)
    show ?thesis
    proof (cases "\<forall>i c. target_contains (pending_target p) i \<longrightarrow> connector_at (sync_variables s1) i c \<noteq> None
        \<longrightarrow> reset_ready_at (pending_kind p) (sync_variables s1) i c")
      case True
      with reset show ?thesis unfolding check_pending_reset_eq [OF wf Some] by auto
    next
      case False
      then obtain i c where "target_contains (pending_target p) i" "connector_at (sync_variables s1) i c \<noteq> None"
        "\<not> reset_ready_at (pending_kind p) (sync_variables s1) i c" by blast
      moreover from reset False have "s' = sync_variables s1"
        unfolding check_pending_reset_eq [OF wf Some] by (simp only: if_False option.inject prod.inject)
      ultimately show ?thesis
        using Some by (auto simp: reset_ready_at_def split: reset_kind.splits)
    qed
  qed
qed

theorem reset_waits_only_when_blocked_witness:
  "\<exists>s' effects. cp_apply (\<lambda>_. []) (ResetRequested TargetChargePoint OnIdle) (cp_new [2, 1]) = Some (s', effects)
     \<and> pending_reset_of s' = None"
proof -
  obtain s' effects where reset: "cp_apply (\<lambda>_. []) (ResetRequested TargetChargePoint OnIdle) (cp_new [2, 1])
      = Some (s', effects)" and same: "evses s' = evses (cp_new [2, 1])"
    unfolding cp_new_def
    by (rule fresh_idle_reset [of "\<lambda>_. []" "[2, 1]" default_state_limits]) auto
  have none: "transaction_at s' i c = None" for i c
    using fresh_transaction_at [of "[2, 1]" default_state_limits i c] same
    by (simp add: transaction_at_def cp_new_def)
  have kind: "pending_kind p = OnIdle" if "pending_reset_of s' = Some p" for p
    using reset that by (auto elim!: cp_applyE simp: reset_requested_def check_pending_reset_def frame_simps
        split: option.splits if_splits)
  have "cp_wf (cp_new [2, 1])" by (simp add: cp_new_def)
  from reset_waits_only_when_blocked [OF this reset] none kind reset show ?thesis by auto
qed

text \<open>C18: an immediate reset stops charging safely: every connector of its target that is in
  the middle of a session moves to \<open>Stopping\<close> with exactly one contactor command, which opens the
  contactor; every other connector keeps its state and its contactor is not touched.\<close>

theorem immediate_reset_stops_the_target:
  assumes "cp_apply rfc (ResetRequested target Immediate) s = Some (s', effects)"
    and "connector_at s i c = Some st"
  shows "(connector_at s' i c, contactor_commands i c effects) =
    (if target_contains target i
        \<and> st \<in> {Connected, Locked, Authorizing, Starting, Charging, SuspendedEv, SuspendedEvse}
     then (Some Stopping, [False]) else (Some st, []))"
proof -
  from assms(1) obtain s1 effects1 b where
    event: "apply_event rfc (ResetRequested target Immediate) s = Some (s1, effects1, b)"
    by (rule cp_applyE)
  then have reset: "reset_requested target Immediate s = (s1, effects1, b)" by simp
  show ?thesis
    using reset_requested_connectors [OF reset, of i c] assms(2)
    by (auto simp: cp_apply_connectors [OF assms(1) event] reset_states_def)
qed

theorem immediate_reset_stops_the_target_witness:
  "\<exists>s s1 s' effects. reachable (\<lambda>_. []) [1] default_state_limits s \<and> connector_at s 0 0 = Some Charging
     \<and> cp_apply (\<lambda>_. []) (ResetRequested TargetChargePoint Immediate) s = Some (s', effects)
     \<and> connector_at s' 0 0 = Some Stopping \<and> contactor_commands 0 0 effects = [False]"
proof -
  obtain s f where run: "cp_run (\<lambda>_. []) (session_start 0 0 \<lparr>token_value = ''TAG1'', token_kind = ISO14443\<rparr>)
      (cp_with_limits [1] default_state_limits) = Some (s, f)" and charging: "connector_at s 0 0 = Some Charging"
    by (rule fresh_session_run)
  have s: "reachable (\<lambda>_. []) [1] default_state_limits s" by (rule reachable_run [OF reachable.start run])
  from reachable_total [OF this] obtain s' effects where
    reset: "cp_apply (\<lambda>_. []) (ResetRequested TargetChargePoint Immediate) s = Some (s', effects)" by blast
  from immediate_reset_stops_the_target [OF this charging] reset s charging show ?thesis
    by (auto simp: target_contains_def)
qed

section \<open>Events that must change nothing, and erasure\<close>

text \<open>C16: an event for an EVSE or a connector that the station does not have is ignored: it
  neither changes the state nor causes an effect.\<close>

theorem unknown_connector_is_ignored:
  assumes "connector_at s i c = None"
  shows "apply_event rfc (OnEvse i (OnConnector c ev)) s = Some (s, [], False)"
  using assms connector_step_None [of i c ev s]
  by (simp add: evse_event_applied_def apply_connector_event.simps [of i c ev s])

theorem unknown_connector_is_ignored_witness:
  "apply_event (\<lambda>_. []) (OnEvse 7 (OnConnector 3 CableConnected)) (cp_new [2, 1]) = Some (cp_new [2, 1], [], False)"
  by (rule unknown_connector_is_ignored) (simp add: cp_new_def fresh_connector_at)

text \<open>C17: erasing a customer's information removes exactly the entries of that identifier from
  the authorization cache and from the local authorization list, and touches no connector; the
  version of the local list moves on exactly when an entry left it, so that the central system
  notices.\<close>

theorem customer_information_is_erased:
  assumes "cp_apply rfc (CustomerInformationErased t) s = Some (s', effects)"
  shows "cache_entries (authorization_cache_of s')
      = filter (\<lambda>e. \<not> same_token (cached_token e) t) (cache_entries (authorization_cache_of s))
    \<and> list_entries (local_authorization_list_of s')
      = filter (\<lambda>e. token_value (entry_token e) \<noteq> token_value t) (list_entries (local_authorization_list_of s))
    \<and> list_version (local_authorization_list_of s')
      = (if \<exists>e \<in> set (list_entries (local_authorization_list_of s)). token_value (entry_token e) = token_value t
         then wrap_i64 (list_version (local_authorization_list_of s) + 1)
         else list_version (local_authorization_list_of s))
    \<and> evses s' = evses s"
proof -
  have kept: "length (filter P xs) = length xs \<longleftrightarrow> (\<forall>x \<in> set xs. P x)" for P and xs :: "local_list_entry list"
    by (metis filter_True filter_id_conv length_filter_less less_irrefl)
  from assms obtain s1 effects1 b effects2 where
    event: "apply_event rfc (CustomerInformationErased t) s = Some (s1, effects1, b)"
    and reset: "check_pending_reset (sync_variables s1) = Some (s', effects2)"
    by (rule cp_applyE)
  from reset have "authorization_cache_of s' = authorization_cache_of s1"
    "local_authorization_list_of s' = local_authorization_list_of s1" "evses s' = evses s1"
    by (auto simp: check_pending_reset_def sync_variables_def sync_inventory_counters_def
        sync_network_configuration_variables_def sync_availability_variables_def Let_def
        split: option.splits if_splits)
  with event show ?thesis
    by (auto simp: customer_information_erased_def cache_forget_def local_list_forget_def Let_def kept
        split: if_splits)
qed

theorem customer_information_is_erased_witness:
  "\<exists>s1 s2 effects1 effects2 t. cp_apply (\<lambda>_. []) (AuthorizationCached t AuthAccepted None) (cp_new [1]) = Some (s1, effects1)
     \<and> cache_entries (authorization_cache_of s1) = [\<lparr>cached_token = t, cached_status = AuthAccepted, cached_at = None\<rparr>]
     \<and> cp_apply (\<lambda>_. []) (CustomerInformationErased t) s1 = Some (s2, effects2)
     \<and> cache_entries (authorization_cache_of s2) = []"
proof -
  let ?t = "\<lparr>token_value = ''TAG1'', token_kind = ISO14443\<rparr>"
  have new: "reachable (\<lambda>_. []) [1] default_state_limits (cp_new [1])"
    unfolding cp_new_def by (rule reachable.start)
  from reachable_total [OF this] obtain s1 effects1 where
    first: "cp_apply (\<lambda>_. []) (AuthorizationCached ?t AuthAccepted None) (cp_new [1]) = Some (s1, effects1)" by blast
  have "authorization_cache_of (cp_new [1]) = cache_with_max 50"
    by (simp add: cp_new_def cp_with_limits_def default_state_limits_def)
  then have entries: "cache_entries (authorization_cache_of s1)
      = [\<lparr>cached_token = ?t, cached_status = AuthAccepted, cached_at = None\<rparr>]"
    using first
    by (auto elim!: cp_applyE simp: check_pending_reset_def sync_variables_def sync_inventory_counters_def
        sync_network_configuration_variables_def sync_availability_variables_def Let_def
        cache_remember_eq cache_with_max_def split: option.splits if_splits)
  have "reachable (\<lambda>_. []) [1] default_state_limits s1" by (rule reachable.step [OF new first])
  from reachable_total [OF this] obtain s2 effects2 where
    second: "cp_apply (\<lambda>_. []) (CustomerInformationErased ?t) s1 = Some (s2, effects2)" by blast
  from customer_information_is_erased [OF second] entries have "cache_entries (authorization_cache_of s2) = []"
    by (simp add: same_token_def)
  with first entries second show ?thesis by blast
qed

end
